(* ===== verification/Prelude.thy ===== *)
theory Prelude
  imports Main "HOL-Library.AList" "HOL-Library.Word"
begin

text \<open>
  Shared vocabulary of the development.
  \<^item> Python dictionaries keep insertion order, so they are association lists with distinct
    keys (\<open>dict_ok\<close>); assignment is \<open>AList.update\<close> (in place for a key that is there, at
    the end otherwise), deletion is \<open>AList.delete\<close>.
  \<^item> Exceptions are values of \<open>'e + 'a\<close> with \<open>Inl\<close> for the raised error.
  \<^item> Byte strings are lists of 8-bit words; \<open>bytes_be\<close> and \<open>nat_of_bytes_be\<close> are Python's
    \<open>int.to_bytes(n, "big")\<close> and \<open>int.from_bytes(b, "big")\<close>, and \<open>bytes_le\<close>,
    \<open>nat_of_bytes_le\<close> the little-endian forms that \<open>struct\<close> uses.
  \<^item> \<open>event_machine\<close> and \<open>refined_machine\<close> are the interfaces every state machine of the
    program is shown to satisfy: a step that keeps an invariant, and a step that implements
    an abstract one.
\<close>

named_theorems dict_simps "lookup, update and deletion in Python dictionaries"
named_theorems inv_intros "operations that keep a component's invariant"

section \<open>Dictionaries\<close>

type_synonym ('k, 'v) dict = "('k \<times> 'v) list"

abbreviation dict_get :: "('k, 'v) dict \<Rightarrow> 'k \<Rightarrow> 'v option" where
  "dict_get d k \<equiv> map_of d k"

abbreviation dict_set :: "('k, 'v) dict \<Rightarrow> 'k \<Rightarrow> 'v \<Rightarrow> ('k, 'v) dict" where
  "dict_set d k v \<equiv> AList.update k v d"

abbreviation dict_pop :: "('k, 'v) dict \<Rightarrow> 'k \<Rightarrow> ('k, 'v) dict" where
  "dict_pop d k \<equiv> AList.delete k d"

abbreviation dict_keys :: "('k, 'v) dict \<Rightarrow> 'k list" where
  "dict_keys d \<equiv> map fst d"

abbreviation dict_values :: "('k, 'v) dict \<Rightarrow> 'v list" where
  "dict_values d \<equiv> map snd d"

definition dict_has :: "('k, 'v) dict \<Rightarrow> 'k \<Rightarrow> bool" where
  "dict_has d k \<longleftrightarrow> dict_get d k \<noteq> None"

definition dict_ok :: "('k, 'v) dict \<Rightarrow> bool" where
  "dict_ok d \<longleftrightarrow> distinct (dict_keys d)"

lemma dict_has_iff [dict_simps]: "dict_has d k \<longleftrightarrow> k \<in> set (dict_keys d)"
  by (simp add: dict_has_def map_of_eq_None_iff)

lemma dict_get_set [dict_simps]:
  "dict_get (dict_set d k v) k' = (if k' = k then Some v else dict_get d k')"
  by (simp add: update_conv')

lemma dict_get_pop [dict_simps]:
  "dict_get (dict_pop d k) k' = (if k' = k then None else dict_get d k')"
  by (simp add: delete_conv')

lemma dict_ok_nil [simp]: "dict_ok []"
  by (simp add: dict_ok_def)

lemma dict_ok_set [intro, simp]: "dict_ok d \<Longrightarrow> dict_ok (dict_set d k v)"
  by (simp add: dict_ok_def distinct_update)

lemma dict_ok_pop [intro, simp]: "dict_ok d \<Longrightarrow> dict_ok (dict_pop d k)"
  by (simp add: dict_ok_def distinct_delete)

lemma dict_keys_set [dict_simps]: "set (dict_keys (dict_set d k v)) = insert k (set (dict_keys d))"
  by (auto simp: update_keys)

lemma dict_keys_pop [dict_simps]: "set (dict_keys (dict_pop d k)) = set (dict_keys d) - {k}"
  by (auto simp: delete_keys)

lemma dict_mem_iff:
  "dict_ok d \<Longrightarrow> (k, v) \<in> set d \<longleftrightarrow> dict_get d k = Some v"
  by (simp add: dict_ok_def)

lemma dict_set_same: "dict_get d k = Some v \<Longrightarrow> dict_set d k v = d"
  by (rule update_triv)

lemma dict_pop_absent: "\<not> dict_has d k \<Longrightarrow> dict_pop d k = d"
  by (simp add: dict_has_iff)

lemma dict_pop_filter: "dict_pop d k = filter (\<lambda>p. fst p \<noteq> k) d"
  by (auto simp: AList.delete_eq intro!: filter_cong)

lemma dict_get_filter:
  "dict_get (filter (\<lambda>p. P (fst p)) d) k = (if P k then dict_get d k else None)"
  by (induction d) auto

section \<open>Results\<close>

definition res_bind :: "'e + 'a \<Rightarrow> ('a \<Rightarrow> 'e + 'b) \<Rightarrow> 'e + 'b" where
  "res_bind r f = (case r of Inl e \<Rightarrow> Inl e | Inr a \<Rightarrow> f a)"

lemma res_bind_simps [simp]:
  "res_bind (Inl e) f = Inl e"
  "res_bind (Inr a) f = f a"
  by (simp_all add: res_bind_def)

lemma res_bind_Inr: "res_bind r f = Inr b \<longleftrightarrow> (\<exists>a. r = Inr a \<and> f a = Inr b)"
  by (cases r) simp_all

section \<open>Byte strings\<close>

type_synonym byte = "8 word"
type_synonym bytes = "byte list"

fun bytes_le :: "nat \<Rightarrow> nat \<Rightarrow> byte list" where
  "bytes_le 0 n = []"
| "bytes_le (Suc k) n = word_of_nat (n mod 256) # bytes_le k (n div 256)"

fun nat_of_bytes_le :: "byte list \<Rightarrow> nat" where
  "nat_of_bytes_le [] = 0"
| "nat_of_bytes_le (b # bs) = unat b + 256 * nat_of_bytes_le bs"

definition bytes_be :: "nat \<Rightarrow> nat \<Rightarrow> byte list" where
  "bytes_be k n = rev (bytes_le k n)"

definition nat_of_bytes_be :: "byte list \<Rightarrow> nat" where
  "nat_of_bytes_be bs = nat_of_bytes_le (rev bs)"

lemma length_bytes_le [simp]: "length (bytes_le k n) = k"
  by (induction k arbitrary: n) simp_all

lemma length_bytes_be [simp]: "length (bytes_be k n) = k"
  by (simp add: bytes_be_def)

lemma unat_byte_lt: "unat (b :: byte) < 256"
  using unsigned_less [of b] by simp

lemma unat_byte_mod [simp]: "unat (word_of_nat (n mod 256) :: byte) = n mod 256"
  by (simp add: unat_of_nat take_bit_eq_mod)

lemma nat_of_bytes_le_inverse:
  "nat_of_bytes_le (bytes_le k n) = n mod 256 ^ k"
proof (induction k arbitrary: n)
  case (Suc k)
  have "n mod 256 + 256 * (n div 256 mod 256 ^ k) = n mod (256 * 256 ^ k)"
    by (simp add: mod_mult2_eq)
  with Suc show ?case by simp
qed simp

lemma nat_of_bytes_be_inverse: "n < 256 ^ k \<Longrightarrow> nat_of_bytes_be (bytes_be k n) = n"
  by (simp add: nat_of_bytes_be_def bytes_be_def nat_of_bytes_le_inverse)

lemma nat_of_bytes_le_bound: "nat_of_bytes_le bs < 256 ^ length bs"
proof (induction bs)
  case (Cons b bs)
  have "unat b < 256" by (rule unat_byte_lt)
  with Cons show ?case by simp
qed simp

lemma bytes_le_inverse: "bytes_le (length bs) (nat_of_bytes_le bs) = bs"
proof (induction bs)
  case (Cons b bs)
  have b: "unat b < 256" by (rule unat_byte_lt)
  then show ?case using Cons by simp
qed simp

lemma bytes_be_inverse: "bytes_be (length bs) (nat_of_bytes_be bs) = bs"
  using bytes_le_inverse [of "rev bs"] by (simp add: bytes_be_def nat_of_bytes_be_def)

lemma nat_of_bytes_be_bound: "nat_of_bytes_be bs < 256 ^ length bs"
  using nat_of_bytes_le_bound [of "rev bs"] by (simp add: nat_of_bytes_be_def)

section \<open>Strings\<close>

text \<open>Decimal rendering of an integer, as in an f-string, and \<open>str.split\<close> on one character.\<close>

fun show_nat :: "nat \<Rightarrow> string" where
  "show_nat n =
     (if n < 10 then [char_of (48 + n)] else show_nat (n div 10) @ [char_of (48 + n mod 10)])"

declare show_nat.simps [simp del]

definition show_int :: "int \<Rightarrow> string" where
  "show_int i = (if i < 0 then ''-'' @ show_nat (nat (- i)) else show_nat (nat i))"

fun split_on :: "char \<Rightarrow> string \<Rightarrow> string list" where
  "split_on c [] = [[]]"
| "split_on c (x # xs) =
     (if x = c then [] # split_on c xs
      else (case split_on c xs of [] \<Rightarrow> [[x]] | w # ws \<Rightarrow> (x # w) # ws))"

lemma split_on_nonempty [simp]: "split_on c xs \<noteq> []"
  by (cases xs) (auto split: list.splits)

lemma split_on_no_sep: "c \<notin> set xs \<Longrightarrow> split_on c xs = [xs]"
  by (induction xs) auto

lemma split_on_append: "c \<notin> set xs \<Longrightarrow> split_on c (xs @ c # ys) = xs # split_on c ys"
  by (induction xs) auto

lemma split_on_sep_free: "w \<in> set (split_on c xs) \<Longrightarrow> c \<notin> set w"
proof (induction xs arbitrary: w)
  case (Cons x xs)
  then show ?case
    by (cases "split_on c xs") (auto split: if_splits)
qed simp

fun join_on :: "char \<Rightarrow> string list \<Rightarrow> string" where
  "join_on c [] = []"
| "join_on c [w] = w"
| "join_on c (w # ws) = w @ c # join_on c ws"

lemma join_on_Cons: "ws \<noteq> [] \<Longrightarrow> join_on c (w # ws) = w @ c # join_on c ws"
  by (cases ws) simp_all

lemma join_split: "join_on c (split_on c xs) = xs"
proof (induction xs)
  case (Cons x xs)
  show ?case
  proof (cases "x = c")
    case True
    with Cons show ?thesis by (simp add: join_on_Cons)
  next
    case False
    obtain w ws where w: "split_on c xs = w # ws"
      by (cases "split_on c xs") auto
    with Cons have "join_on c (w # ws) = xs" by simp
    then have "join_on c ((x # w) # ws) = x # xs" by (cases ws) simp_all
    with False w show ?thesis by simp
  qed
qed simp

section \<open>Interfaces of state machines\<close>

locale event_machine =
  fixes step :: "'s \<Rightarrow> 'e \<Rightarrow> 's"
    and inv :: "'s \<Rightarrow> bool"
  assumes step_inv: "inv s \<Longrightarrow> inv (step s e)"
begin

lemma run_inv: "inv s \<Longrightarrow> inv (foldl step s es)"
  by (induction es arbitrary: s) (simp_all add: step_inv)

lemma run_prefix_inv: "inv s \<Longrightarrow> inv (foldl step s (take n es))"
  by (rule run_inv)

end

locale refined_machine = event_machine step inv
  for step :: "'s \<Rightarrow> 'e \<Rightarrow> 's" and inv :: "'s \<Rightarrow> bool" +
  fixes abs_of :: "'s \<Rightarrow> 'a"
    and astep :: "'a \<Rightarrow> 'e \<Rightarrow> 'a"
  assumes step_refines: "inv s \<Longrightarrow> abs_of (step s e) = astep (abs_of s) e"
begin

lemma run_refines: "inv s \<Longrightarrow> abs_of (foldl step s es) = foldl astep (abs_of s) es"
  by (induction es arbitrary: s) (simp_all add: step_inv step_refines)

end

end
