(* ===== verification/SystemCommons.thy ===== *)
theory SystemCommons
  imports Prelude
begin

text \<open>
  The shared constants of the server processes (\<open>libs/system_commons\<close>): alert codes, process
  exit codes with their descriptions, and the \<open>domain:id\<close> names of processes.
\<close>

section \<open>Alert codes (alert\_codes.py)\<close>

definition INF_SESSION_CREATION_REQUEST :: int where "INF_SESSION_CREATION_REQUEST = 100"
definition INF_SESSION_CLOSURE_REQUEST :: int where "INF_SESSION_CLOSURE_REQUEST = 110"
definition INF_SESSION_CREATION_OK :: int where "INF_SESSION_CREATION_OK = 120"
definition INF_SESSION_CLOSURE_OK :: int where "INF_SESSION_CLOSURE_OK = 130"
definition ERR_SESSION_CREATION_FAILED :: int where "ERR_SESSION_CREATION_FAILED = 140"
definition ERR_SESSION_CLOSURE_FAILED :: int where "ERR_SESSION_CLOSURE_FAILED = 150"
definition WRN_HW_CONTROLLER_WARNING :: int where "WRN_HW_CONTROLLER_WARNING = 160"
definition ERR_HW_CONTROLLER_ERROR :: int where "ERR_HW_CONTROLLER_ERROR = 170"
definition FTL_HW_CONTROLLER_FATAL :: int where "FTL_HW_CONTROLLER_FATAL = 180"
definition FTL_CORE_PROC_CRASH :: int where "FTL_CORE_PROC_CRASH = 200"
definition ERR_NONCRITICAL_PROC_CRASH :: int where "ERR_NONCRITICAL_PROC_CRASH = 230"
definition HEARTBEAT_TIMEOUT :: int where "HEARTBEAT_TIMEOUT = 220"

lemmas alert_code_defs =
  INF_SESSION_CREATION_REQUEST_def INF_SESSION_CLOSURE_REQUEST_def INF_SESSION_CREATION_OK_def
  INF_SESSION_CLOSURE_OK_def ERR_SESSION_CREATION_FAILED_def ERR_SESSION_CLOSURE_FAILED_def
  WRN_HW_CONTROLLER_WARNING_def ERR_HW_CONTROLLER_ERROR_def FTL_HW_CONTROLLER_FATAL_def
  FTL_CORE_PROC_CRASH_def ERR_NONCRITICAL_PROC_CRASH_def HEARTBEAT_TIMEOUT_def

section \<open>Exit codes (exit\_codes.py)\<close>

definition HWMNG_NO_CONFIG_FILES_SPECIFIED :: int where "HWMNG_NO_CONFIG_FILES_SPECIFIED = 19"
definition HWMNG_CONFIG_LOAD_FAILED :: int where "HWMNG_CONFIG_LOAD_FAILED = 20"
definition HWMNG_NO_CONFIG_SPECIFIED :: int where "HWMNG_NO_CONFIG_SPECIFIED = 21"
definition HWMNG_UNKNOWN_CONFIG_SPECIFIED :: int where "HWMNG_UNKNOWN_CONFIG_SPECIFIED = 22"
definition HWMNG_INVALID_CONFIG_FORMAT :: int where "HWMNG_INVALID_CONFIG_FORMAT = 22"
definition HWMNG_DATABUS_FIN_ERROR :: int where "HWMNG_DATABUS_FIN_ERROR = 30"
definition HWMNG_FAILED_TO_LOAD_CONTROLLERS :: int where "HWMNG_FAILED_TO_LOAD_CONTROLLERS = 31"
definition HWMNG_CONTROLLER_FATAL :: int where "HWMNG_CONTROLLER_FATAL = 40"

lemmas exit_code_defs =
  HWMNG_NO_CONFIG_FILES_SPECIFIED_def HWMNG_CONFIG_LOAD_FAILED_def HWMNG_NO_CONFIG_SPECIFIED_def
  HWMNG_UNKNOWN_CONFIG_SPECIFIED_def HWMNG_INVALID_CONFIG_FORMAT_def HWMNG_DATABUS_FIN_ERROR_def
  HWMNG_FAILED_TO_LOAD_CONTROLLERS_def HWMNG_CONTROLLER_FATAL_def

definition EXIT_CAUSES :: "(int, string) dict" where
  "EXIT_CAUSES =
    [(HWMNG_NO_CONFIG_FILES_SPECIFIED, ''no hardware configuration files were specified''),
     (HWMNG_CONFIG_LOAD_FAILED, ''the hardware configuration could not be loaded''),
     (HWMNG_NO_CONFIG_SPECIFIED, ''no hardware configuration was selected''),
     (HWMNG_UNKNOWN_CONFIG_SPECIFIED, ''the selected hardware configuration is unknown or invalid''),
     (HWMNG_DATABUS_FIN_ERROR, ''the hardware manager databus failed during shutdown''),
     (HWMNG_FAILED_TO_LOAD_CONTROLLERS, ''one or more hardware controllers failed to load''),
     (HWMNG_CONTROLLER_FATAL, ''a hardware controller reported a fatal error'')]"

definition get_cause :: "int \<Rightarrow> string" where
  "get_cause exit_code =
     (case dict_get EXIT_CAUSES exit_code of
        Some cause \<Rightarrow> cause
      | None \<Rightarrow> ''unknown_exit_code ('' @ show_int exit_code @ '')'')"

section \<open>Process names (proc\_names.py)\<close>

definition DOMAIN_CORE :: string where "DOMAIN_CORE = ''core''"
definition DOMAIN_MONITOR :: string where "DOMAIN_MONITOR = ''monitor''"
definition HARDWARE_MANAGER :: string where
  "HARDWARE_MANAGER = DOMAIN_CORE @ '':hardware_manager''"
definition SESSION_MANAGER :: string where
  "SESSION_MANAGER = DOMAIN_CORE @ '':session_manager''"
definition SESSION_CONNECTION_SERVER :: string where
  "SESSION_CONNECTION_SERVER = DOMAIN_CORE @ '':session_connection_server''"

definition get_domain_from_proc_name :: "string \<Rightarrow> string option" where
  "get_domain_from_proc_name name =
     (let words = split_on (CHR '':'') name
      in if length words = 2 then Some (words ! 0) else None)"

definition is_core :: "string \<Rightarrow> bool" where
  "is_core name \<longleftrightarrow> get_domain_from_proc_name name = Some DOMAIN_CORE"

lemma get_domain_compose:
  assumes "CHR '':'' \<notin> set d" and "CHR '':'' \<notin> set i"
  shows "get_domain_from_proc_name (d @ CHR '':'' # i) = Some d"
  using assms by (simp add: get_domain_from_proc_name_def split_on_append split_on_no_sep)

lemma get_domain_shape:
  assumes "get_domain_from_proc_name name = Some d"
  obtains i where "name = d @ CHR '':'' # i" "CHR '':'' \<notin> set d" "CHR '':'' \<notin> set i"
proof -
  let ?ws = "split_on (CHR '':'') name"
  from assms have len: "length ?ws = 2" and d: "d = ?ws ! 0"
    by (auto simp: get_domain_from_proc_name_def Let_def split: if_splits)
  from len obtain a b where ab: "?ws = [a, b]"
    by (metis (no_types, lifting) length_0_conv length_Suc_conv numeral_2_eq_2)
  then have "name = a @ CHR '':'' # b"
    using join_split [of "CHR '':''" name] by simp
  moreover have "CHR '':'' \<notin> set a" "CHR '':'' \<notin> set b"
    using split_on_sep_free [of _ "CHR '':''" name] ab by auto
  ultimately show thesis using that d ab by simp
qed

lemma core_processes:
  "is_core HARDWARE_MANAGER" "is_core SESSION_MANAGER" "is_core SESSION_CONNECTION_SERVER"
  by (simp_all add: is_core_def get_domain_from_proc_name_def HARDWARE_MANAGER_def
      SESSION_MANAGER_def SESSION_CONNECTION_SERVER_def DOMAIN_CORE_def)

end
