(* ===== verification/Alerts.thy ===== *)
theory Alerts
  imports SystemCommons Complex_Main
begin

text \<open>
  The alert system (\<open>ros2_ws/src/system_alerts\<close>): the alert value and its wire form, the
  authoritative server with its time-to-live bookkeeping, and the client mirror.

  Times are seconds as real numbers (floating-point rounding is not modelled); the reading of
  \<open>time.monotonic()\<close> is the argument \<open>now\<close>. A lifetime is a number of seconds or \<open>math.inf\<close>.
  The two topics are logs: \<open>srv_published\<close> is what the server has published on the change
  topic, oldest first, and \<open>cli_sent\<close> what a client has published on the request topic.
  Level, code and subcode are unbounded integers; in the messages they are \<open>int32\<close> fields, so the
  wire form is the one of alerts whose numbers fit (those of the code do). One operation of the
  server or client is one step: calls that overlap on different executor threads are not modelled.
\<close>

section \<open>Alerts and their wire form (alert.py, transport.py)\<close>

definition Level_INFO :: int where "Level_INFO = 0"
definition Level_WARN :: int where "Level_WARN = 1"
definition Level_ERR :: int where "Level_ERR = 2"
definition Level_FATAL :: int where "Level_FATAL = 3"

lemmas level_defs = Level_INFO_def Level_WARN_def Level_ERR_def Level_FATAL_def

datatype AlertActionType = RAISE | CLEAR

datatype ttl = Secs real | Forever

record Alert =
  alert_level :: int
  alert_src :: string
  alert_code :: int
  alert_ttl :: ttl
  alert_subcode :: int
  alert_brief :: string
  alert_description :: string

text \<open>The dataclass constructor with only its required fields, the others at their defaults.\<close>

definition mk_Alert :: "int \<Rightarrow> string \<Rightarrow> int \<Rightarrow> Alert" where
  "mk_Alert level src code =
     \<lparr>alert_level = level, alert_src = src, alert_code = code, alert_ttl = Forever,
      alert_subcode = -1, alert_brief = '''', alert_description = ''''\<rparr>"

definition empty_alert :: Alert where
  "empty_alert =
     \<lparr>alert_level = Level_INFO, alert_src = '''', alert_code = 0, alert_ttl = Forever,
      alert_subcode = 0, alert_brief = ''empty alert'', alert_description = ''''\<rparr>"

record MsgAlert =
  msg_level :: int
  msg_src :: string
  msg_code :: int
  msg_ttl :: ttl
  msg_subcode :: int
  msg_brief :: string
  msg_description :: string

record AlertAction =
  msg_action :: string
  msg_alert :: MsgAlert

datatype alert_error = ValueError string

definition to_ros_alert :: "Alert \<Rightarrow> MsgAlert" where
  "to_ros_alert alert =
     \<lparr>msg_level = alert_level alert, msg_src = alert_src alert, msg_code = alert_code alert,
      msg_ttl = alert_ttl alert, msg_subcode = alert_subcode alert,
      msg_brief = alert_brief alert, msg_description = alert_description alert\<rparr>"

definition from_ros_alert :: "MsgAlert \<Rightarrow> Alert" where
  "from_ros_alert message =
     \<lparr>alert_level = msg_level message, alert_src = msg_src message,
      alert_code = msg_code message, alert_ttl = msg_ttl message,
      alert_subcode = msg_subcode message, alert_brief = msg_brief message,
      alert_description = msg_description message\<rparr>"

fun action_value :: "AlertActionType \<Rightarrow> string" where
  "action_value RAISE = ''raise''"
| "action_value CLEAR = ''clear''"

definition action_of_value :: "string \<Rightarrow> alert_error + AlertActionType" where
  "action_of_value v =
     (if v = ''raise'' then Inr RAISE
      else if v = ''clear'' then Inr CLEAR
      else Inl (ValueError v))"

definition build_message :: "AlertActionType \<Rightarrow> Alert \<Rightarrow> AlertAction" where
  "build_message action alert =
     \<lparr>msg_action = action_value action, msg_alert = to_ros_alert alert\<rparr>"

definition decode_action_message :: "AlertAction \<Rightarrow> alert_error + (AlertActionType \<times> Alert)" where
  "decode_action_message message =
     res_bind (action_of_value (msg_action message))
       (\<lambda>action. Inr (action, from_ros_alert (msg_alert message)))"

lemma from_to_ros_alert [simp]: "from_ros_alert (to_ros_alert a) = a"
  by (simp add: from_ros_alert_def to_ros_alert_def)

lemma to_from_ros_alert [simp]: "to_ros_alert (from_ros_alert m) = m"
  by (simp add: from_ros_alert_def to_ros_alert_def)

lemma decode_build [simp]: "decode_action_message (build_message act a) = Inr (act, a)"
  by (cases act) (simp_all add: decode_action_message_def build_message_def action_of_value_def)

lemma build_decode:
  "decode_action_message m = Inr (act, a) \<Longrightarrow> build_message act a = m"
  by (auto simp: decode_action_message_def build_message_def action_of_value_def split: if_splits)

section \<open>The server (server.py)\<close>

type_synonym change = "AlertActionType \<times> Alert"

record SysAlertsServer =
  srv_active :: "(int, Alert) dict"
  srv_started :: "(int, real) dict"
  srv_published :: "AlertAction list"
  srv_waiters :: "(nat, change option) dict"

definition server_init :: SysAlertsServer where
  "server_init = \<lparr>srv_active = [], srv_started = [], srv_published = [], srv_waiters = []\<rparr>"

definition publish_change :: "AlertActionType \<Rightarrow> Alert \<Rightarrow> SysAlertsServer \<Rightarrow> SysAlertsServer" where
  "publish_change action alert s =
     s\<lparr>srv_published := srv_published s @ [build_message action alert]\<rparr>"

text \<open>A waiter's future is set once: a future that already holds a result keeps it.\<close>

definition notify_waiters :: "AlertActionType \<Rightarrow> Alert \<Rightarrow> SysAlertsServer \<Rightarrow> SysAlertsServer" where
  "notify_waiters action alert s =
     s\<lparr>srv_waiters := map (\<lambda>(i, r). (i, if r = None then Some (action, alert) else r)) (srv_waiters s)\<rparr>"

text \<open>
  \<open>_apply_change\<close>: the flag says whether the change was published. The registered change
  callback runs in exactly that case, right after the publication; the supervisor, which
  registers it, composes it with this step (theory Supervisor).
\<close>

fun apply_change :: "real \<Rightarrow> AlertActionType \<Rightarrow> Alert \<Rightarrow> SysAlertsServer \<Rightarrow> bool \<times> SysAlertsServer" where
  "apply_change now RAISE alert s =
     (let current = dict_get (srv_active s) (alert_code alert);
          s' = s\<lparr>srv_active := dict_set (srv_active s) (alert_code alert) alert,
                 srv_started := dict_set (srv_started s) (alert_code alert) now\<rparr>
      in if current = Some alert then (False, s')
         else (True, notify_waiters RAISE alert (publish_change RAISE alert s')))"
| "apply_change now CLEAR alert s =
     (if \<not> dict_has (srv_active s) (alert_code alert) then (False, s)
      else (let s' = s\<lparr>srv_active := dict_pop (srv_active s) (alert_code alert),
                       srv_started := dict_pop (srv_started s) (alert_code alert)\<rparr>
            in (True, notify_waiters CLEAR alert (publish_change CLEAR alert s'))))"

declare apply_change.simps [simp del]

definition raise_alert :: "real \<Rightarrow> Alert \<Rightarrow> SysAlertsServer \<Rightarrow> SysAlertsServer" where
  "raise_alert now alert s = snd (apply_change now RAISE alert s)"

definition clear_alert_from_code :: "real \<Rightarrow> int \<Rightarrow> SysAlertsServer \<Rightarrow> bool \<times> SysAlertsServer" where
  "clear_alert_from_code now code s =
     (case dict_get (srv_active s) code of
        None \<Rightarrow> (False, s)
      | Some alert \<Rightarrow> apply_change now CLEAR alert s)"

definition clear_alert :: "real \<Rightarrow> int \<Rightarrow> SysAlertsServer \<Rightarrow> SysAlertsServer" where
  "clear_alert now code s = snd (clear_alert_from_code now code s)"

definition get_active_alerts_table :: "SysAlertsServer \<Rightarrow> (int, Alert) dict" where
  "get_active_alerts_table s = srv_active s"

definition get_active_alerts :: "SysAlertsServer \<Rightarrow> Alert list" where
  "get_active_alerts s = dict_values (srv_active s)"

definition is_alert_active :: "int \<Rightarrow> SysAlertsServer \<Rightarrow> bool" where
  "is_alert_active alert_id s \<longleftrightarrow> dict_has (srv_active s) alert_id"

definition get_alerts_from_level :: "int \<Rightarrow> SysAlertsServer \<Rightarrow> Alert list" where
  "get_alerts_from_level starting_level s =
     [alert \<leftarrow> dict_values (srv_active s). alert_level alert \<ge> starting_level]"

text \<open>\<open>wait_alert_change\<close> registers a fresh future, and removes it when the wait is over.\<close>

definition wait_begin :: "nat \<Rightarrow> SysAlertsServer \<Rightarrow> SysAlertsServer" where
  "wait_begin fut s = s\<lparr>srv_waiters := srv_waiters s @ [(fut, None)]\<rparr>"

definition wait_end :: "nat \<Rightarrow> SysAlertsServer \<Rightarrow> change option \<times> SysAlertsServer" where
  "wait_end fut s =
     ((case dict_get (srv_waiters s) fut of Some r \<Rightarrow> r | None \<Rightarrow> None),
      s\<lparr>srv_waiters := dict_pop (srv_waiters s) fut\<rparr>)"

definition handle_request :: "real \<Rightarrow> AlertAction \<Rightarrow> SysAlertsServer \<Rightarrow> alert_error + (bool \<times> SysAlertsServer)" where
  "handle_request now message s =
     res_bind (decode_action_message message)
       (\<lambda>(action, alert). Inr (apply_change now action alert s))"

definition ttl_elapsed :: "real \<Rightarrow> real \<Rightarrow> ttl \<Rightarrow> bool" where
  "ttl_elapsed now start t = (case t of Forever \<Rightarrow> False | Secs d \<Rightarrow> now - start \<ge> d)"

definition is_expired :: "real \<Rightarrow> SysAlertsServer \<Rightarrow> int \<times> Alert \<Rightarrow> bool" where
  "is_expired now s p \<longleftrightarrow>
     alert_ttl (snd p) \<noteq> Forever \<and>
     (case dict_get (srv_started s) (fst p) of
        None \<Rightarrow> False
      | Some start \<Rightarrow> ttl_elapsed now start (alert_ttl (snd p)))"

definition expired_alerts :: "real \<Rightarrow> SysAlertsServer \<Rightarrow> Alert list" where
  "expired_alerts now s = map snd (filter (is_expired now s) (srv_active s))"

definition expire_alerts :: "real \<Rightarrow> SysAlertsServer \<Rightarrow> SysAlertsServer" where
  "expire_alerts now s =
     foldl (\<lambda>s alert. snd (clear_alert_from_code now (alert_code alert) s)) s (expired_alerts now s)"

section \<open>The client mirror (client.py)\<close>

record SysAlertsClient =
  cli_active :: "(int, Alert) dict"
  cli_sent :: "AlertAction list"
  cli_notified :: "change list"

definition client_init :: SysAlertsClient where
  "client_init = \<lparr>cli_active = [], cli_sent = [], cli_notified = []\<rparr>"

definition default_ttl :: "ttl option \<Rightarrow> int \<Rightarrow> alert_error + ttl" where
  "default_ttl t level =
     (case t of
        None \<Rightarrow>
          if level = Level_INFO then Inr (Secs 0)
          else if level = Level_FATAL then Inr Forever
          else Inl (ValueError ''No TTL provided for alert raise action.'')
      | Some t \<Rightarrow> Inr t)"

definition publish_action :: "AlertActionType \<Rightarrow> Alert \<Rightarrow> SysAlertsClient \<Rightarrow> SysAlertsClient" where
  "publish_action action alert c = c\<lparr>cli_sent := cli_sent c @ [build_message action alert]\<rparr>"

definition client_raise_alert ::
  "int \<Rightarrow> string \<Rightarrow> int \<Rightarrow> ttl option \<Rightarrow> int \<Rightarrow> string \<Rightarrow> string \<Rightarrow> SysAlertsClient
    \<Rightarrow> alert_error + SysAlertsClient" where
  "client_raise_alert level src code t subcode brief description c =
     res_bind (default_ttl t level)
       (\<lambda>t'. Inr (publish_action RAISE
          \<lparr>alert_level = level, alert_src = src, alert_code = code, alert_ttl = t',
           alert_subcode = subcode, alert_brief = brief, alert_description = description\<rparr> c))"

definition client_clear_alert :: "int \<Rightarrow> SysAlertsClient \<Rightarrow> SysAlertsClient" where
  "client_clear_alert code c = publish_action CLEAR (mk_Alert Level_INFO '''' code) c"

definition client_get_active_alerts :: "SysAlertsClient \<Rightarrow> Alert list" where
  "client_get_active_alerts c = dict_values (cli_active c)"

fun apply_mirror :: "change \<Rightarrow> (int, Alert) dict \<Rightarrow> (int, Alert) dict" where
  "apply_mirror (RAISE, alert) d = dict_set d (alert_code alert) alert"
| "apply_mirror (CLEAR, alert) d = dict_pop d (alert_code alert)"

definition handle_change :: "AlertAction \<Rightarrow> SysAlertsClient \<Rightarrow> alert_error + SysAlertsClient" where
  "handle_change message c =
     res_bind (decode_action_message message)
       (\<lambda>ch. Inr (c\<lparr>cli_active := apply_mirror ch (cli_active c),
                    cli_notified := cli_notified c @ [ch]\<rparr>))"

section \<open>Runs of the server\<close>

datatype srv_event =
    SrvRaise real Alert
  | SrvClear real int
  | SrvRequest real AlertAction
  | SrvExpire real
  | SrvWait nat
  | SrvWaitDone nat

text \<open>A request that cannot be decoded raises in its callback and leaves the server as it was.\<close>

fun srv_step :: "SysAlertsServer \<Rightarrow> srv_event \<Rightarrow> SysAlertsServer" where
  "srv_step s (SrvRaise now a) = raise_alert now a s"
| "srv_step s (SrvClear now c) = clear_alert now c s"
| "srv_step s (SrvRequest now m) =
     (case handle_request now m s of Inl _ \<Rightarrow> s | Inr (_, s') \<Rightarrow> s')"
| "srv_step s (SrvExpire now) = expire_alerts now s"
| "srv_step s (SrvWait f) = wait_begin f s"
| "srv_step s (SrvWaitDone f) = snd (wait_end f s)"

definition srv_inv :: "SysAlertsServer \<Rightarrow> bool" where
  "srv_inv s \<longleftrightarrow>
     dict_ok (srv_active s) \<and> dict_ok (srv_started s) \<and>
     set (dict_keys (srv_active s)) = set (dict_keys (srv_started s)) \<and>
     list_all (\<lambda>(k, a). alert_code a = k) (srv_active s)"

text \<open>The abstract registry: which alert is raised under a code, and since when.\<close>

type_synonym registry = "int \<rightharpoonup> Alert \<times> real"

definition abs_srv :: "SysAlertsServer \<Rightarrow> registry" where
  "abs_srv s = (\<lambda>k. case (dict_get (srv_active s) k, dict_get (srv_started s) k) of
      (Some a, Some t) \<Rightarrow> Some (a, t) | _ \<Rightarrow> None)"

fun reg_change :: "real \<Rightarrow> change \<Rightarrow> registry \<Rightarrow> registry" where
  "reg_change now (RAISE, a) r = r(alert_code a \<mapsto> (a, now))"
| "reg_change now (CLEAR, a) r = r(alert_code a := None)"

fun reg_step :: "registry \<Rightarrow> srv_event \<Rightarrow> registry" where
  "reg_step r (SrvRaise now a) = reg_change now (RAISE, a) r"
| "reg_step r (SrvClear now c) = r(c := None)"
| "reg_step r (SrvRequest now m) =
     (case decode_action_message m of Inl _ \<Rightarrow> r | Inr ch \<Rightarrow> reg_change now ch r)"
| "reg_step r (SrvExpire now) =
     (\<lambda>k. case r k of None \<Rightarrow> None
        | Some (a, t) \<Rightarrow> if ttl_elapsed now t (alert_ttl a) then None else Some (a, t))"
| "reg_step r (SrvWait f) = r"
| "reg_step r (SrvWaitDone f) = r"

text \<open>A client that receives the change topic; a message it cannot decode leaves it as it was.\<close>

definition client_step :: "SysAlertsClient \<Rightarrow> AlertAction \<Rightarrow> SysAlertsClient" where
  "client_step c m = (case handle_change m c of Inl _ \<Rightarrow> c | Inr c' \<Rightarrow> c')"

definition client_of :: "AlertAction list \<Rightarrow> SysAlertsClient" where
  "client_of msgs = foldl client_step client_init msgs"

section \<open>What one change does\<close>

lemma apply_change_active:
  "srv_active (snd (apply_change now act a s)) = apply_mirror (act, a) (srv_active s)"
  by (cases act) (simp_all add: apply_change.simps Let_def notify_waiters_def publish_change_def
      dict_pop_absent)

lemma apply_change_started_raise:
  "srv_started (snd (apply_change now RAISE a s)) = dict_set (srv_started s) (alert_code a) now"
  by (simp add: apply_change.simps Let_def notify_waiters_def publish_change_def)

lemma apply_change_started_clear:
  "srv_inv s \<Longrightarrow>
   srv_started (snd (apply_change now CLEAR a s)) = dict_pop (srv_started s) (alert_code a)"
  by (auto simp: apply_change.simps Let_def notify_waiters_def publish_change_def srv_inv_def
      dict_has_iff dict_pop_absent)

lemma apply_change_published:
  "srv_published (snd (apply_change now act a s)) =
     srv_published s @ (if fst (apply_change now act a s) then [build_message act a] else [])"
  by (cases act) (simp_all add: apply_change.simps Let_def notify_waiters_def publish_change_def)

lemma apply_change_silent:
  "\<not> fst (apply_change now act a s) \<Longrightarrow> srv_active (snd (apply_change now act a s)) = srv_active s"
  by (cases act) (auto simp: apply_change.simps Let_def dict_set_same split: if_splits)

lemma apply_change_flag:
  "fst (apply_change now RAISE a s) \<longleftrightarrow> dict_get (srv_active s) (alert_code a) \<noteq> Some a"
  "fst (apply_change now CLEAR a s) \<longleftrightarrow> dict_has (srv_active s) (alert_code a)"
  by (simp_all add: apply_change.simps Let_def)

lemma set_update_subset: "set (dict_set d k v) \<subseteq> insert (k, v) (set d)"
  by (induction d) auto

lemma apply_mirror_keyed:
  "list_all (\<lambda>(k, a). alert_code a = k) d \<Longrightarrow>
   list_all (\<lambda>(k, a). alert_code a = k) (apply_mirror ch d)"
  using set_update_subset [of "alert_code (snd ch)" "snd ch" d]
  by (cases "(ch, d)" rule: apply_mirror.cases) (auto simp: list_all_iff dict_pop_filter)

lemma apply_change_inv [inv_intros]: "srv_inv s \<Longrightarrow> srv_inv (snd (apply_change now act a s))"
proof (cases act)
  case RAISE
  assume inv: "srv_inv s"
  then show ?thesis
    unfolding RAISE using apply_mirror_keyed [of "srv_active s" "(RAISE, a)"]
    by (simp add: srv_inv_def apply_change_active apply_change_started_raise dict_keys_set [simplified])
next
  case CLEAR
  assume inv: "srv_inv s"
  then show ?thesis
    unfolding CLEAR using apply_mirror_keyed [of "srv_active s" "(CLEAR, a)"]
    by (simp add: srv_inv_def apply_change_active apply_change_started_clear [OF inv] dict_keys_pop [simplified])
qed

lemma srv_inv_keyed: "srv_inv s \<Longrightarrow> dict_get (srv_active s) c = Some a \<Longrightarrow> alert_code a = c"
  by (auto simp: srv_inv_def list_all_iff dest!: map_of_SomeD)

lemma srv_inv_started: "srv_inv s \<Longrightarrow> dict_get (srv_active s) c = Some a \<Longrightarrow> \<exists>t. dict_get (srv_started s) c = Some t"
proof -
  assume inv: "srv_inv s" and "dict_get (srv_active s) c = Some a"
  then have "dict_has (srv_active s) c" by (simp add: dict_has_def)
  with inv have "dict_has (srv_started s) c" by (simp add: srv_inv_def dict_has_iff)
  then show ?thesis by (simp add: dict_has_def)
qed

section \<open>Clearing and expiry\<close>

lemma clear_code_active:
  "srv_inv s \<Longrightarrow> srv_active (snd (clear_alert_from_code now c s)) = dict_pop (srv_active s) c"
  by (auto simp: clear_alert_from_code_def apply_change_active dict_pop_absent dict_has_def
      dest: srv_inv_keyed split: option.splits)

lemma clear_code_started:
  assumes inv: "srv_inv s"
  shows "srv_started (snd (clear_alert_from_code now c s)) = dict_pop (srv_started s) c"
proof (cases "dict_get (srv_active s) c")
  case None
  then have "\<not> dict_has (srv_started s) c"
    using inv by (auto simp: srv_inv_def dict_has_iff map_of_eq_None_iff)
  with None show ?thesis by (simp add: clear_alert_from_code_def dict_pop_absent)
next
  case (Some a)
  with inv show ?thesis
    by (simp add: clear_alert_from_code_def apply_change_started_clear srv_inv_keyed)
qed

lemma clear_code_inv [inv_intros]: "srv_inv s \<Longrightarrow> srv_inv (snd (clear_alert_from_code now c s))"
  by (simp add: clear_alert_from_code_def apply_change_inv split: option.split)

lemma clear_code_published:
  assumes "srv_inv s"
  shows "srv_published (snd (clear_alert_from_code now c s)) =
     srv_published s @
       (case dict_get (srv_active s) c of None \<Rightarrow> [] | Some a \<Rightarrow> [build_message CLEAR a])"
proof (cases "dict_get (srv_active s) c")
  case None
  then show ?thesis by (simp add: clear_alert_from_code_def)
next
  case (Some a)
  then have "alert_code a = c" using assms by (simp add: srv_inv_keyed)
  with Some show ?thesis
    by (simp add: clear_alert_from_code_def apply_change_published apply_change_flag dict_has_def)
qed

abbreviation clear_each :: "real \<Rightarrow> Alert list \<Rightarrow> SysAlertsServer \<Rightarrow> SysAlertsServer" where
  "clear_each now as s \<equiv> foldl (\<lambda>s a. snd (clear_alert_from_code now (alert_code a) s)) s as"

lemma clear_each_inv [inv_intros]: "srv_inv s \<Longrightarrow> srv_inv (clear_each now as s)"
  by (induction as arbitrary: s) (simp_all add: clear_code_inv)

lemma clear_each_active:
  "srv_inv s \<Longrightarrow>
   srv_active (clear_each now as s) = filter (\<lambda>p. fst p \<notin> alert_code ` set as) (srv_active s)"
  by (induction as arbitrary: s)
    (auto simp: clear_code_inv clear_code_active dict_pop_filter intro!: filter_cong)

lemma clear_each_started:
  "srv_inv s \<Longrightarrow>
   srv_started (clear_each now as s) = filter (\<lambda>p. fst p \<notin> alert_code ` set as) (srv_started s)"
  by (induction as arbitrary: s)
    (auto simp: clear_code_inv clear_code_started dict_pop_filter intro!: filter_cong)

lemma clear_each_published:
  assumes "srv_inv s" "distinct (map alert_code as)"
    and "\<forall>a \<in> set as. dict_get (srv_active s) (alert_code a) = Some a"
  shows "srv_published (clear_each now as s) = srv_published s @ map (build_message CLEAR) as"
  using assms
proof (induction as arbitrary: s)
  case (Cons a as)
  let ?s = "snd (clear_alert_from_code now (alert_code a) s)"
  have "srv_inv ?s" using Cons.prems by (simp add: clear_code_inv)
  moreover have "distinct (map alert_code as)" using Cons.prems by simp
  moreover have "\<forall>b \<in> set as. dict_get (srv_active ?s) (alert_code b) = Some b"
  proof
    fix b assume "b \<in> set as"
    with Cons.prems have "alert_code b \<noteq> alert_code a" "dict_get (srv_active s) (alert_code b) = Some b"
      by (auto simp: image_iff)
    then show "dict_get (srv_active ?s) (alert_code b) = Some b"
      using Cons.prems(1) by (simp add: clear_code_active)
  qed
  ultimately have "srv_published (clear_each now as ?s) =
      srv_published ?s @ map (build_message CLEAR) as"
    by (rule Cons.IH)
  then show ?case using Cons.prems by (simp add: clear_code_published)
qed simp

lemma expired_codes:
  assumes inv: "srv_inv s" and p: "p \<in> set (srv_active s)"
  shows "fst p \<in> alert_code ` set (expired_alerts now s) \<longleftrightarrow> is_expired now s p"
proof
  have keyed: "\<And>q. q \<in> set (srv_active s) \<Longrightarrow> alert_code (snd q) = fst q"
    using inv by (auto simp: srv_inv_def list_all_iff)
  {
    assume "fst p \<in> alert_code ` set (expired_alerts now s)"
    then obtain q where q: "q \<in> set (srv_active s)" "is_expired now s q" "fst q = fst p"
      using keyed by (auto simp: expired_alerts_def)
    with p inv have "q = p"
      by (auto simp: srv_inv_def dict_ok_def distinct_map dest: inj_onD)
    with q show "is_expired now s p" by simp
  next
    assume "is_expired now s p"
    with p have "snd p \<in> set (expired_alerts now s)" by (auto simp: expired_alerts_def)
    then show "fst p \<in> alert_code ` set (expired_alerts now s)"
      using keyed [OF p] by (metis imageI)
  }
qed

lemma expire_active:
  "srv_inv s \<Longrightarrow>
   srv_active (expire_alerts now s) = filter (\<lambda>p. \<not> is_expired now s p) (srv_active s)"
  unfolding expire_alerts_def
  by (subst clear_each_active) (simp_all add: expired_codes cong: filter_cong)

lemma expire_published:
  assumes inv: "srv_inv s"
  shows "srv_published (expire_alerts now s) =
     srv_published s @ map (build_message CLEAR) (expired_alerts now s)"
  unfolding expire_alerts_def
proof (rule clear_each_published [OF inv])
  let ?ex = "filter (is_expired now s) (srv_active s)"
  have "map alert_code (expired_alerts now s) = map fst ?ex"
    using inv by (auto simp: expired_alerts_def srv_inv_def list_all_iff)
  moreover have "distinct (map fst ?ex)"
    using inv by (simp add: srv_inv_def dict_ok_def distinct_map_filter)
  ultimately show "distinct (map alert_code (expired_alerts now s))" by simp
  show "\<forall>a \<in> set (expired_alerts now s). dict_get (srv_active s) (alert_code a) = Some a"
    using inv by (auto simp: expired_alerts_def srv_inv_def list_all_iff dict_mem_iff [symmetric])
qed

lemma expire_started:
  "srv_inv s \<Longrightarrow> dict_get (srv_started (expire_alerts now s)) k =
     (if k \<in> alert_code ` set (expired_alerts now s) then None else dict_get (srv_started s) k)"
  unfolding expire_alerts_def
  by (subst clear_each_started)
    (simp_all add: dict_get_filter [where P = "\<lambda>k. k \<notin> alert_code ` set (expired_alerts now s)"])

lemma expire_active_get:
  "srv_inv s \<Longrightarrow> dict_get (srv_active (expire_alerts now s)) k =
     (if k \<in> alert_code ` set (expired_alerts now s) then None else dict_get (srv_active s) k)"
  unfolding expire_alerts_def
  by (subst clear_each_active)
    (simp_all add: dict_get_filter [where P = "\<lambda>k. k \<notin> alert_code ` set (expired_alerts now s)"])

lemma expire_inv [inv_intros]: "srv_inv s \<Longrightarrow> srv_inv (expire_alerts now s)"
  by (simp add: expire_alerts_def clear_each_inv)

section \<open>Every run of the server\<close>

lemma srv_init_inv [simp]: "srv_inv server_init"
  by (simp add: srv_inv_def server_init_def)

lemma srv_step_inv: "srv_inv s \<Longrightarrow> srv_inv (srv_step s e)"
proof (cases e)
  case (SrvRequest now m)
  assume "srv_inv s"
  with SrvRequest show ?thesis
    by (auto simp: handle_request_def res_bind_def apply_change_inv split: sum.split)
       (metis apply_change_inv snd_conv)
next
  case (SrvWait f)
  assume "srv_inv s"
  with SrvWait show ?thesis by (simp add: wait_begin_def srv_inv_def)
next
  case (SrvWaitDone f)
  assume "srv_inv s"
  with SrvWaitDone show ?thesis by (simp add: wait_end_def srv_inv_def)
qed (simp_all add: raise_alert_def clear_alert_def apply_change_inv clear_code_inv expire_inv)

lemma abs_srv_Some:
  "abs_srv s k = Some (a, t) \<longleftrightarrow>
     dict_get (srv_active s) k = Some a \<and> dict_get (srv_started s) k = Some t"
  by (auto simp: abs_srv_def split: option.splits)

lemma abs_srv_active: "srv_inv s \<Longrightarrow> map_option fst (abs_srv s k) = dict_get (srv_active s) k"
  using srv_inv_started [of s k] by (force simp: abs_srv_def split: option.splits)

lemma abs_srv_frame: "abs_srv (s\<lparr>srv_waiters := w\<rparr>) = abs_srv s"
  by (simp add: abs_srv_def)

lemma abs_srv_change: "srv_inv s \<Longrightarrow> abs_srv (snd (apply_change now act a s)) = reg_change now (act, a) (abs_srv s)"
  by (cases act)
    (auto simp: abs_srv_def fun_eq_iff apply_change_active apply_change_started_raise
      apply_change_started_clear dict_simps)

lemma abs_srv_clear: "srv_inv s \<Longrightarrow> abs_srv (snd (clear_alert_from_code now c s)) = (abs_srv s)(c := None)"
  by (auto simp: abs_srv_def fun_eq_iff clear_code_active clear_code_started dict_simps)

lemma abs_srv_expire:
  assumes inv: "srv_inv s"
  shows "abs_srv (expire_alerts now s) = reg_step (abs_srv s) (SrvExpire now)"
proof
  fix k
  note act = expire_active_get [OF inv, of now k]
  show "abs_srv (expire_alerts now s) k = reg_step (abs_srv s) (SrvExpire now) k"
  proof (cases "dict_get (srv_active s) k")
    case None
    then show ?thesis by (simp add: abs_srv_def act)
  next
    case (Some a)
    then obtain t where t: "dict_get (srv_started s) k = Some t"
      using srv_inv_started [OF inv] by blast
    have "(k, a) \<in> set (srv_active s)" using Some by (rule map_of_SomeD)
    from expired_codes [OF inv this, of now] have
      "k \<in> alert_code ` set (expired_alerts now s) \<longleftrightarrow> ttl_elapsed now t (alert_ttl a)"
      using t by (auto simp: is_expired_def ttl_elapsed_def split: ttl.splits)
    with Some t show ?thesis by (simp add: abs_srv_def act expire_started [OF inv])
  qed
qed

lemma srv_step_refines: "srv_inv s \<Longrightarrow> abs_srv (srv_step s e) = reg_step (abs_srv s) e"
proof (cases e)
  case (SrvRequest now m)
  assume inv: "srv_inv s"
  show ?thesis
  proof (cases "decode_action_message m")
    case (Inr ch)
    then obtain act a where "decode_action_message m = Inr (act, a)" by (cases ch) simp
    then show ?thesis
      using abs_srv_change [OF inv, of now act a]
      by (auto simp: SrvRequest handle_request_def split: prod.split)
  qed (simp add: SrvRequest handle_request_def)
qed (simp_all add: raise_alert_def clear_alert_def abs_srv_change abs_srv_clear abs_srv_expire
    wait_begin_def wait_end_def abs_srv_frame del: reg_step.simps(4))

interpretation alert_reg: refined_machine srv_step srv_inv abs_srv reg_step
  by unfold_locales (simp_all add: srv_step_inv srv_step_refines)

definition srv_run :: "srv_event list \<Rightarrow> SysAlertsServer" where
  "srv_run es = foldl srv_step server_init es"

lemma srv_run_inv: "srv_inv (srv_run es)"
  unfolding srv_run_def by (rule alert_reg.run_inv) simp

section \<open>The mirror\<close>

lemma client_of_snoc:
  "cli_active (client_of (ms @ [build_message act a])) = apply_mirror (act, a) (cli_active (client_of ms))"
  "cli_notified (client_of (ms @ [build_message act a])) = cli_notified (client_of ms) @ [(act, a)]"
  by (simp_all add: client_of_def client_step_def handle_change_def)

definition mirrored :: "SysAlertsServer \<Rightarrow> bool" where
  "mirrored s \<longleftrightarrow> srv_inv s \<and> cli_active (client_of (srv_published s)) = srv_active s"

lemma mirrored_frame: "mirrored (s\<lparr>srv_waiters := w\<rparr>) = mirrored s"
  by (simp add: mirrored_def srv_inv_def)

lemma mirrored_change: "mirrored s \<Longrightarrow> mirrored (snd (apply_change now act a s))"
  using apply_change_silent [of now act a s]
  by (auto simp: mirrored_def apply_change_inv apply_change_published client_of_snoc apply_change_active)

lemma mirrored_clear: "mirrored s \<Longrightarrow> mirrored (snd (clear_alert_from_code now c s))"
  by (simp add: clear_alert_from_code_def mirrored_change split: option.split)

lemma mirrored_clear_each: "mirrored s \<Longrightarrow> mirrored (clear_each now as s)"
  by (induction as arbitrary: s) (simp_all add: mirrored_clear)

lemma mirrored_step: "mirrored s \<Longrightarrow> mirrored (srv_step s e)"
proof (cases e)
  case (SrvRequest now m)
  assume "mirrored s"
  then show ?thesis
    using mirrored_change [of s now]
    by (auto simp: SrvRequest handle_request_def res_bind_def split: sum.split prod.split)
       (metis snd_conv)
qed (simp_all add: raise_alert_def clear_alert_def expire_alerts_def mirrored_change mirrored_clear
    mirrored_clear_each wait_begin_def wait_end_def mirrored_frame)

interpretation alert_mirror: event_machine srv_step mirrored
  by unfold_locales (rule mirrored_step)

section \<open>Lifetimes\<close>

definition touches :: "int \<Rightarrow> srv_event \<Rightarrow> bool" where
  "touches c e \<longleftrightarrow> (case e of
      SrvRaise now a \<Rightarrow> alert_code a = c
    | SrvClear now k \<Rightarrow> k = c
    | SrvRequest now m \<Rightarrow> (case decode_action_message m of Inl _ \<Rightarrow> False | Inr ch \<Rightarrow> alert_code (snd ch) = c)
    | _ \<Rightarrow> False)"

definition expires_before :: "real \<Rightarrow> srv_event \<Rightarrow> bool" where
  "expires_before limit e \<longleftrightarrow> (case e of SrvExpire now \<Rightarrow> now < limit | _ \<Rightarrow> True)"

lemma reg_step_keeps:
  assumes r: "r c = Some (a, t)" and ttl: "alert_ttl a = Secs d"
    and "\<not> touches c e" "expires_before (t + d) e"
  shows "reg_step r e c = Some (a, t)"
proof (cases e)
  case (SrvRequest now m)
  show ?thesis
  proof (cases "decode_action_message m")
    case (Inr ch)
    obtain act b where "ch = (act, b)" by (cases ch)
    with Inr SrvRequest assms show ?thesis by (cases act) (auto simp: touches_def)
  qed (simp add: SrvRequest r)
next
  case (SrvExpire now)
  with assms show ?thesis by (simp add: expires_before_def ttl_elapsed_def)
qed (use assms in \<open>auto simp: touches_def\<close>)

lemma reg_run_keeps:
  assumes "r c = Some (a, t)" "alert_ttl a = Secs d"
    and "list_all (\<lambda>e. \<not> touches c e \<and> expires_before (t + d) e) es"
  shows "foldl reg_step r es c = Some (a, t)"
  using assms by (induction es arbitrary: r) (simp_all add: reg_step_keeps)

lemma raised_in_registry: "abs_srv (raise_alert now a (srv_run es)) (alert_code a) = Some (a, now)"
  by (simp add: raise_alert_def abs_srv_change srv_run_inv)

lemma raise_inv: "srv_inv s \<Longrightarrow> srv_inv (raise_alert now a s)"
  by (simp add: raise_alert_def apply_change_inv)

lemma is_active_abs: "srv_inv s \<Longrightarrow> is_alert_active c s \<longleftrightarrow> abs_srv s c \<noteq> None"
  by (simp add: is_alert_active_def dict_has_def abs_srv_active [symmetric])

section \<open>Properties\<close>

text \<open>
  The server keeps its tables consistent in every run: the active table and the start-time
  table have the same keys, each key once, and every alert is stored under its own code.
\<close>

theorem server_tables_consistent: "srv_inv (srv_run es)"
  by (rule srv_run_inv)

text \<open>
  C9. Whatever raises, clears, requests, waits and expiry ticks it goes through, the server's two
  dictionaries implement the abstract registry from codes to an alert and its start time: a
  raise (re)places the entry and restarts its lifetime, a clear removes it, an expiry tick
  removes exactly the entries whose lifetime has elapsed. This holds of alerts of every level: an
  INFO alert, which the documentation calls one-shot (notified and not registered, with a forced
  lifetime of zero), is registered like any other with the lifetime it was given.
\<close>

theorem server_implements_registry:
  "abs_srv (srv_run es) = foldl reg_step (\<lambda>_. None) es"
proof -
  have "abs_srv server_init = (\<lambda>_. None)" by (simp add: abs_srv_def server_init_def)
  then show ?thesis
    unfolding srv_run_def using alert_reg.run_refines [of server_init es] by simp
qed

text \<open>
  C10. A client that receives the change topic from the start holds, after any run of the server,
  exactly the server's active table (same entries, same order), although identical re-raises
  are not republished.
\<close>

theorem client_mirrors_server:
  "cli_active (client_of (srv_published (srv_run es))) = srv_active (srv_run es)"
proof -
  have "mirrored server_init"
    by (simp add: mirrored_def) (simp add: server_init_def client_of_def client_init_def)
  then have "mirrored (srv_run es)" unfolding srv_run_def by (rule alert_mirror.run_inv)
  then show ?thesis by (simp add: mirrored_def)
qed

text \<open>
  An expiry tick removes exactly the expired alerts (never one whose time-to-live is
  infinite), keeps the others in place, and publishes one clear message per removed alert, in
  table order, after what was published before.
\<close>

theorem expiry_removes_exactly_expired:
  fixes es now
  defines "s \<equiv> srv_run es"
  shows "srv_active (expire_alerts now s) = filter (\<lambda>p. \<not> is_expired now s p) (srv_active s)
    \<and> srv_published (expire_alerts now s) =
        srv_published s @ map (build_message CLEAR) (expired_alerts now s)
    \<and> (\<forall>p. alert_ttl (snd p) = Forever \<longrightarrow> \<not> is_expired now s p)"
  unfolding s_def
  by (simp add: expire_active expire_published srv_run_inv is_expired_def)

theorem expiry_removes_exactly_expired_witness:
  "let a = (mk_Alert Level_WARN ''panel'' 5)\<lparr>alert_ttl := Secs 2\<rparr>;
       b = mk_Alert Level_FATAL ''panel'' 6;
       s = srv_run [SrvRaise 1 a, SrvRaise 1 b]
   in srv_active (expire_alerts 4 s) = [(6, b)]
      \<and> srv_published (expire_alerts 4 s) =
          [build_message RAISE a, build_message RAISE b, build_message CLEAR a]"
  using expiry_removes_exactly_expired
    [of 4 "[SrvRaise 1 ((mk_Alert Level_WARN ''panel'' 5)\<lparr>alert_ttl := Secs 2\<rparr>),
            SrvRaise 1 (mk_Alert Level_FATAL ''panel'' 6)]"]
  by (simp add: Let_def srv_run_def server_init_def raise_alert_def apply_change.simps mk_Alert_def
      publish_change_def notify_waiters_def is_expired_def ttl_elapsed_def expired_alerts_def level_defs)

text \<open>
  A raised alert with a finite time-to-live stays active until its lifetime is over and is
  gone at the first expiry tick after it: as long as nothing else raises or clears its code and
  the expiry ticks come earlier than \<open>t0 + d\<close> it is active, and a tick at \<open>t0 + d\<close> or later
  clears it.
\<close>

theorem alert_lifetime:
  assumes "alert_ttl a = Secs d"
    and "list_all (\<lambda>e. \<not> touches (alert_code a) e \<and> expires_before (t0 + d) e) quiet"
    and "now \<ge> t0 + d"
  shows "is_alert_active (alert_code a) (foldl srv_step (raise_alert t0 a (srv_run es)) quiet)
    \<and> \<not> is_alert_active (alert_code a)
          (expire_alerts now (foldl srv_step (raise_alert t0 a (srv_run es)) quiet))"
proof -
  let ?start = "raise_alert t0 a (srv_run es)"
  let ?s = "foldl srv_step ?start quiet"
  have i0: "srv_inv ?start" by (simp add: raise_inv srv_run_inv)
  have i: "srv_inv ?s" by (rule alert_reg.run_inv [OF i0])
  have "abs_srv ?s (alert_code a) = Some (a, t0)"
    using reg_run_keeps [of "abs_srv ?start"] raised_in_registry assms alert_reg.run_refines [OF i0]
    by simp
  moreover from this have "abs_srv (expire_alerts now ?s) (alert_code a) = None"
    using assms by (simp add: abs_srv_expire [OF i] ttl_elapsed_def)
  ultimately show ?thesis by (simp add: is_active_abs i expire_inv)
qed

theorem alert_lifetime_witness:
  "let a = (mk_Alert Level_WARN ''panel'' 5)\<lparr>alert_ttl := Secs 2\<rparr>;
       s = foldl srv_step (raise_alert 1 a (srv_run [])) [SrvExpire 2, SrvClear 2 7]
   in is_alert_active 5 s \<and> \<not> is_alert_active 5 (expire_alerts 3 s)"
  using alert_lifetime [of "(mk_Alert Level_WARN ''panel'' 5)\<lparr>alert_ttl := Secs 2\<rparr>" 2 1
      "[SrvExpire 2, SrvClear 2 7]" 3 "[]"]
  by (simp add: Let_def mk_Alert_def touches_def expires_before_def)

text \<open>
  Re-raising an alert that is already active with the same contents publishes nothing and
  notifies nobody, but restarts its lifetime; the active table is unchanged.
\<close>

theorem identical_raise_is_keep_alive:
  assumes "dict_get (srv_active s) (alert_code a) = Some a"
  shows "apply_change now RAISE a s =
    (False, s\<lparr>srv_started := dict_set (srv_started s) (alert_code a) now\<rparr>)"
  using assms by (simp add: apply_change.simps Let_def dict_set_same)

theorem identical_raise_is_keep_alive_witness:
  "let a = mk_Alert Level_FATAL ''panel'' 6; s = raise_alert 1 a server_init
   in apply_change 9 RAISE a s = (False, s\<lparr>srv_started := [(6, 9)]\<rparr>)"
  using identical_raise_is_keep_alive [of "raise_alert 1 (mk_Alert Level_FATAL ''panel'' 6) server_init"
      "mk_Alert Level_FATAL ''panel'' 6" 9]
  by (simp add: Let_def raise_alert_def server_init_def mk_Alert_def apply_change.simps
      notify_waiters_def publish_change_def)

end
