(* ===== verification/AlertDict.thy ===== *)
theory AlertDict
  imports Alerts
begin

text \<open>
  Alerts as dictionaries: \<open>to_dict\<close> and \<open>from_dict\<close> of \<open>system_alerts/alert.py\<close>, with the coercions that
  \<open>from_dict\<close> applies to what it finds, and Python's \<open>int()\<close> on text of ASCII characters.

  A value of the payload is one of the types that the coercions tell apart. Floats are those of \<open>Alerts\<close>; \<open>float()\<close>
  on text and \<open>str()\<close> on values that are no text are arguments.
\<close>

section \<open>Numbers from text\<close>

definition py_space :: "char \<Rightarrow> bool" where
  "py_space c \<longleftrightarrow> of_char c \<in> {32 :: nat, 9, 10, 11, 12, 13, 28, 29, 30, 31}"

definition py_strip :: "string \<Rightarrow> string" where
  "py_strip s = rev (dropWhile py_space (rev (dropWhile py_space s)))"

text \<open>Digits, with single underscores between them; the state is whether a digit came last, and the value so far.\<close>

definition digit_step :: "(bool \<times> nat) option \<Rightarrow> char \<Rightarrow> (bool \<times> nat) option" where
  "digit_step st c =
     (case st of
        None \<Rightarrow> None
      | Some (digit, n) \<Rightarrow>
          if 48 \<le> (of_char c :: nat) \<and> (of_char c :: nat) \<le> 57 then Some (True, 10 * n + (of_char c - 48))
          else if c = CHR ''_'' \<and> digit then Some (False, n) else None)"

definition py_digits :: "string \<Rightarrow> nat option" where
  "py_digits s = (case foldl digit_step (Some (False, 0)) s of Some (True, n) \<Rightarrow> Some n | _ \<Rightarrow> None)"

definition py_int :: "string \<Rightarrow> int option" where
  "py_int s =
     (case py_strip s of
        [] \<Rightarrow> None
      | c # t \<Rightarrow>
          if c = CHR ''-'' then map_option (\<lambda>n. - int n) (py_digits t)
          else if c = CHR ''+'' then map_option int (py_digits t)
          else map_option int (py_digits (c # t)))"

section \<open>Alerts and dictionaries\<close>

datatype 'o py_value = PyBool bool | PyInt int | PyFloat ttl | PyStr string | PyOther 'o

type_synonym 'o payload = "(string, 'o py_value) dict"

datatype coercion_error = Not_a_number string | Overflow

definition to_dict :: "Alert \<Rightarrow> 'o payload" where
  "to_dict a =
     [(''level'', PyInt (alert_level a)), (''src'', PyStr (alert_src a)), (''code'', PyInt (alert_code a)),
      (''ttl'', PyFloat (alert_ttl a)), (''subcode'', PyInt (alert_subcode a)), (''brief'', PyStr (alert_brief a)),
      (''description'', PyStr (alert_description a))]"

definition trunc :: "real \<Rightarrow> int" where
  "trunc x = (if x < 0 then \<lceil>x\<rceil> else \<lfloor>x\<rfloor>)"

definition coerce_int :: "'o payload \<Rightarrow> string \<Rightarrow> int \<Rightarrow> coercion_error + int" where
  "coerce_int payload key dflt =
     (case (case dict_get payload key of None \<Rightarrow> PyInt dflt | Some v \<Rightarrow> v) of
        PyBool b \<Rightarrow> Inr (if b then 1 else 0)
      | PyInt i \<Rightarrow> Inr i
      | PyFloat (Secs x) \<Rightarrow> Inr (trunc x)
      | PyFloat Forever \<Rightarrow> Inl Overflow
      | PyStr s \<Rightarrow> (case py_int s of None \<Rightarrow> Inl (Not_a_number s) | Some i \<Rightarrow> Inr i)
      | PyOther _ \<Rightarrow> Inr dflt)"

definition coerce_float :: "(string \<Rightarrow> ttl option) \<Rightarrow> 'o payload \<Rightarrow> string \<Rightarrow> ttl \<Rightarrow> coercion_error + ttl" where
  "coerce_float py_float payload key dflt =
     (case (case dict_get payload key of None \<Rightarrow> PyFloat dflt | Some v \<Rightarrow> v) of
        PyBool b \<Rightarrow> Inr (Secs (if b then 1 else 0))
      | PyInt i \<Rightarrow> Inr (Secs (real_of_int i))
      | PyFloat t \<Rightarrow> Inr t
      | PyStr s \<Rightarrow> (case py_float s of None \<Rightarrow> Inl (Not_a_number s) | Some t \<Rightarrow> Inr t)
      | PyOther _ \<Rightarrow> Inr dflt)"

definition text_of :: "('o py_value \<Rightarrow> string) \<Rightarrow> 'o payload \<Rightarrow> string \<Rightarrow> string" where
  "text_of py_str payload key =
     (case dict_get payload key of None \<Rightarrow> '''' | Some (PyStr s) \<Rightarrow> s | Some v \<Rightarrow> py_str v)"

definition from_dict :: "('o py_value \<Rightarrow> string) \<Rightarrow> (string \<Rightarrow> ttl option) \<Rightarrow> 'o payload \<Rightarrow> coercion_error + Alert" where
  "from_dict py_str py_float payload =
     res_bind (coerce_int payload ''level'' Level_INFO) (\<lambda>level.
     res_bind (coerce_int payload ''code'' (-1)) (\<lambda>code.
     res_bind (coerce_float py_float payload ''ttl'' Forever) (\<lambda>ttl.
     res_bind (coerce_int payload ''subcode'' (-1)) (\<lambda>subcode.
       Inr \<lparr>alert_level = level, alert_src = text_of py_str payload ''src'', alert_code = code, alert_ttl = ttl,
            alert_subcode = subcode, alert_brief = text_of py_str payload ''brief'',
            alert_description = text_of py_str payload ''description''\<rparr>))))"

section \<open>Properties\<close>

lemma digit_step_digit: "d < 10 \<Longrightarrow> digit_step (Some (b, n)) (char_of (48 + d)) = Some (True, 10 * n + d)"
  by (simp add: digit_step_def of_char_of)

lemma digits_show_nat: "foldl digit_step (Some (False, 0)) (show_nat n) = Some (True, n)"
proof (induction n rule: show_nat.induct)
  case (1 n)
  show ?case
  proof (cases "n < 10")
    case True
    then show ?thesis using digit_step_digit [of n False 0] by (simp add: show_nat.simps [of n])
  next
    case False
    with 1 show ?thesis
      using digit_step_digit [of "n mod 10" True "n div 10"] by (simp add: show_nat.simps [of n])
  qed
qed

lemma show_nat_chars: "c \<in> set (show_nat n) \<Longrightarrow> \<exists>d < 10. c = char_of (48 + d :: nat)"
proof (induction n rule: show_nat.induct)
  case (1 n)
  then show ?case by (cases "n < 10") (auto simp: show_nat.simps [of n] intro: exI [of _ n] exI [of _ "n mod 10"])
qed

lemma show_nat_nonempty [simp]: "show_nat n \<noteq> []"
  by (subst show_nat.simps) simp

lemma strip_id: "list_all (\<lambda>c. \<not> py_space c) s \<Longrightarrow> py_strip s = s"
proof -
  have keep: "list_all (\<lambda>c. \<not> py_space c) t \<Longrightarrow> dropWhile py_space t = t" for t by (cases t) auto
  assume "list_all (\<lambda>c. \<not> py_space c) s"
  with keep [of s] keep [of "rev s"] show ?thesis by (simp add: py_strip_def)
qed

lemma digit_char: "d < 10 \<Longrightarrow> \<not> py_space (char_of (48 + d :: nat)) \<and> char_of (48 + d :: nat) \<notin> {CHR ''-'', CHR ''+''}"
proof -
  assume d: "d < 10"
  then have "(of_char (char_of (48 + d :: nat)) :: nat) = 48 + d" by (simp add: of_char_of)
  moreover have "(of_char CHR ''-'' :: nat) = 45" "(of_char CHR ''+'' :: nat) = 43" by simp_all
  ultimately show ?thesis using d by (auto simp: py_space_def simp del: of_char_of)
qed

text \<open>\<open>int()\<close> reads what \<open>str()\<close> writes.\<close>

theorem py_int_reads_str: "py_int (show_int i) = Some i"
proof -
  have digits: "py_digits (show_nat n) = Some n" for n by (simp add: py_digits_def digits_show_nat)
  have plain: "list_all (\<lambda>c. \<not> py_space c) (show_nat n)" for n
    using show_nat_chars [of _ n] digit_char by (auto simp: list_all_iff)
  obtain c t where c: "show_nat (nat i) = c # t" by (cases "show_nat (nat i)") auto
  then have "c \<noteq> CHR ''-''" "c \<noteq> CHR ''+''" using show_nat_chars [of c "nat i"] digit_char by auto
  moreover have "\<not> py_space CHR ''-''" by (simp add: py_space_def)
  ultimately show ?thesis
    using digits [of "nat i"] digits [of "nat (- i)"] plain [of "nat i"] plain [of "nat (- i)"] c
    by (auto simp: py_int_def show_int_def strip_id)
qed

text \<open>
  An alert survives the way through its dictionary, also when the numbers in it became text on the way.
\<close>

definition with_text_numbers :: "Alert \<Rightarrow> 'o payload" where
  "with_text_numbers a =
     dict_set (dict_set (dict_set (to_dict a) ''level'' (PyStr (show_int (alert_level a))))
       ''code'' (PyStr (show_int (alert_code a)))) ''subcode'' (PyStr (show_int (alert_subcode a)))"

theorem alert_dict_roundtrip:
  "from_dict py_str py_float (to_dict a) = Inr a \<and> from_dict py_str py_float (with_text_numbers a) = Inr a"
  by (simp add: from_dict_def to_dict_def with_text_numbers_def coerce_int_def coerce_float_def text_of_def py_int_reads_str)

text \<open>An alert without any field is valid; a level that is \<open>math.inf\<close> or no number is an error.\<close>

theorem from_dict_edges:
  "from_dict py_str py_float [] = Inr (mk_Alert Level_INFO '''' (-1))"
  "from_dict py_str py_float ((''level'', PyFloat Forever) # d) = Inl Overflow"
  "from_dict py_str py_float ((''level'', PyStr '''') # d) = Inl (Not_a_number '''')"
  by (simp_all add: from_dict_def coerce_int_def coerce_float_def text_of_def mk_Alert_def py_int_def py_strip_def)

end
