(* ===== verification/Looper.thy ===== *)
theory Looper
  imports Prelude Complex_Main
begin

text \<open>
  The threaded loop supervisor (\<open>hardware_mng/looper/looper_util.py\<close>).

  A loop thread is the program counter of \<open>_loop\<close>: at the \<open>while\<close> test, at \<open>_wait.wait()\<close>, in
  the job, or asleep. \<open>thread_step\<close> runs it to its next such point; what the job returned and
  whether the signal handler raised are arguments of the step. A step reports what it did that
  others can see: a job started, a signal handled, an exception handed to \<open>exception_cb\<close>.
  Operations that join threads take the steps each thread makes meanwhile, and the loop whose
  thread is calling (Python refuses to join the current thread and a thread never started).
\<close>

section \<open>Signals, requests and the loop thread\<close>

datatype kwarg = KInt int | KStr string

record Signal =
  sig_name :: string
  sig_kwargs :: "(string, kwarg) dict"

datatype LoopAction = ACT_PAUSE | ACT_STOP | ACT_CONTINUE

record LoopRequest =
  req_action :: LoopAction
  req_signal :: "Signal option"

datatype thread = NoThread | Start_failed | AtTop | AtWait | InJob | Sleeping | Ended

record LoopDescriptor =
  loop_name :: string
  loop_id :: nat
  run_evt :: bool
  wait_evt :: bool
  freq :: real
  loop_thread :: thread
  exception_cb :: bool
  has_handler :: bool

definition is_running :: "LoopDescriptor \<Rightarrow> bool" where
  "is_running d \<longleftrightarrow> loop_thread d \<in> {AtTop, AtWait, InJob, Sleeping}"

definition period :: "LoopDescriptor \<Rightarrow> real" where
  "period d = 1 / freq d"

datatype job_outcome = JobReturns "LoopRequest option" | JobRaises

datatype loop_output = OutJob | OutSignal Signal | OutException

type_synonym sched = "(job_outcome \<times> bool) list"

definition exception_output :: "LoopDescriptor \<Rightarrow> loop_output list" where
  "exception_output d = (if exception_cb d then [OutException] else [])"

definition after_job :: "LoopDescriptor \<Rightarrow> LoopDescriptor" where
  "after_job d = d\<lparr>loop_thread := if run_evt d then Sleeping else Ended\<rparr>"

fun apply_action :: "LoopAction \<Rightarrow> LoopDescriptor \<Rightarrow> LoopDescriptor" where
  "apply_action ACT_PAUSE d = d\<lparr>wait_evt := False\<rparr>"
| "apply_action ACT_STOP d = d\<lparr>run_evt := False, wait_evt := True\<rparr>"
| "apply_action ACT_CONTINUE d = d"

definition signal_output :: "LoopRequest \<Rightarrow> LoopDescriptor \<Rightarrow> loop_output list" where
  "signal_output r d =
     (case req_signal r of None \<Rightarrow> [] | Some s \<Rightarrow> if has_handler d then [OutSignal s] else [])"

text \<open>The body of the \<open>try\<close> after the job ran, and the rest of the iteration.\<close>

fun finish_job :: "job_outcome \<Rightarrow> bool \<Rightarrow> LoopDescriptor \<Rightarrow> LoopDescriptor \<times> loop_output list" where
  "finish_job JobRaises handler_raises d = (after_job d, exception_output d)"
| "finish_job (JobReturns None) handler_raises d = (after_job d, [])"
| "finish_job (JobReturns (Some r)) handler_raises d =
     (let d' = apply_action (req_action r) d; out = signal_output r d
      in if out \<noteq> [] \<and> handler_raises then (after_job d', out @ exception_output d)
         else if req_action r = ACT_STOP then (d'\<lparr>loop_thread := Ended\<rparr>, out)
         else (after_job d', out))"

definition thread_step :: "job_outcome \<times> bool \<Rightarrow> LoopDescriptor \<Rightarrow> LoopDescriptor \<times> loop_output list" where
  "thread_step o_h d =
     (case loop_thread d of
        NoThread \<Rightarrow> (d, [])
      | Start_failed \<Rightarrow> (d, [])
      | AtTop \<Rightarrow> (d\<lparr>loop_thread := if run_evt d then AtWait else Ended\<rparr>, [])
      | AtWait \<Rightarrow> if wait_evt d then (d\<lparr>loop_thread := InJob\<rparr>, [OutJob]) else (d, [])
      | InJob \<Rightarrow> finish_job (fst o_h) (snd o_h) d
      | Sleeping \<Rightarrow> (d\<lparr>loop_thread := AtTop\<rparr>, [])
      | Ended \<Rightarrow> (d, []))"

fun thread_run :: "sched \<Rightarrow> LoopDescriptor \<Rightarrow> LoopDescriptor \<times> loop_output list" where
  "thread_run [] d = (d, [])"
| "thread_run (o_h # sc) d =
     (let (d', out) = thread_step o_h d; (d'', out') = thread_run sc d' in (d'', out @ out'))"

section \<open>The supervisor of the loops\<close>

datatype looper_error = Join_current_thread | Join_unstarted_thread | Frequency_not_positive

record LoopSupervisor =
  loop_pool :: "(nat, LoopDescriptor) dict"
  id_counter :: nat

definition LoopSupervisor_init :: LoopSupervisor where
  "LoopSupervisor_init = \<lparr>loop_pool = [], id_counter = 0\<rparr>"

definition put_loop :: "LoopDescriptor \<Rightarrow> LoopSupervisor \<Rightarrow> LoopSupervisor" where
  "put_loop l ls = ls\<lparr>loop_pool := dict_set (loop_pool ls) (loop_id l) l\<rparr>"

text \<open>\<open>_start_loop\<close>; \<open>os_ok\<close> says whether the operating system starts the thread.\<close>

definition start_desc :: "bool \<Rightarrow> bool \<Rightarrow> LoopDescriptor \<Rightarrow> bool \<times> LoopDescriptor" where
  "start_desc os_ok paused d =
     (if is_running d then (False, d)
      else (let d' = d\<lparr>run_evt := True, wait_evt := \<not> paused\<rparr>
            in if os_ok then (True, d'\<lparr>loop_thread := AtTop\<rparr>)
               else (False, d'\<lparr>loop_thread := Start_failed\<rparr>)))"

definition request_loop_stop :: "LoopDescriptor \<Rightarrow> LoopDescriptor" where
  "request_loop_stop d = (if \<not> is_running d then d else d\<lparr>run_evt := False, wait_evt := True\<rparr>)"

definition get_new_id :: "LoopSupervisor \<Rightarrow> nat \<times> LoopSupervisor" where
  "get_new_id ls = (id_counter ls + 1, ls\<lparr>id_counter := id_counter ls + 1\<rparr>)"

definition set_loop_paused :: "bool \<Rightarrow> LoopDescriptor \<Rightarrow> LoopDescriptor" where
  "set_loop_paused paused d = d\<lparr>wait_evt := \<not> paused\<rparr>"

definition get_loop_from_id :: "nat \<Rightarrow> LoopSupervisor \<Rightarrow> LoopDescriptor option" where
  "get_loop_from_id i ls = dict_get (loop_pool ls) i"

definition get_loops :: "LoopSupervisor \<Rightarrow> LoopDescriptor list" where
  "get_loops ls = dict_values (loop_pool ls)"

definition is_paused :: "nat \<Rightarrow> LoopSupervisor \<Rightarrow> bool" where
  "is_paused i ls = (case get_loop_from_id i ls of None \<Rightarrow> False | Some d \<Rightarrow> \<not> wait_evt d)"

definition map_loops :: "(LoopDescriptor \<Rightarrow> LoopDescriptor) \<Rightarrow> LoopSupervisor \<Rightarrow> LoopSupervisor" where
  "map_loops f ls = ls\<lparr>loop_pool := map (\<lambda>(i, d). (i, f d)) (loop_pool ls)\<rparr>"

definition pause_all :: "LoopSupervisor \<Rightarrow> LoopSupervisor" where
  "pause_all ls = map_loops (set_loop_paused True) ls"

definition resume_all :: "LoopSupervisor \<Rightarrow> LoopSupervisor" where
  "resume_all ls = map_loops (set_loop_paused False) ls"

text \<open>\<open>Thread.join(timeout)\<close>: the thread makes the steps of \<open>sc\<close> meanwhile.\<close>

definition join_desc :: "nat option \<Rightarrow> sched \<Rightarrow> LoopDescriptor \<Rightarrow> looper_error + LoopDescriptor" where
  "join_desc caller sc d =
     (if loop_thread d = NoThread then Inr d
      else if loop_thread d = Start_failed then Inl Join_unstarted_thread
      else if caller = Some (loop_id d) then Inl Join_current_thread
      else Inr (fst (thread_run sc d)))"

fun join_all :: "nat option \<Rightarrow> (nat \<Rightarrow> sched) \<Rightarrow> (nat, LoopDescriptor) dict \<Rightarrow> looper_error option \<times> (nat, LoopDescriptor) dict" where
  "join_all caller sc [] = (None, [])"
| "join_all caller sc ((i, d) # ds) =
     (case join_desc caller (sc i) d of
        Inl e \<Rightarrow> (Some e, (i, d) # ds)
      | Inr d' \<Rightarrow> (let (e, ds') = join_all caller sc ds in (e, (i, d') # ds')))"

definition stop_all :: "nat option \<Rightarrow> bool \<Rightarrow> (nat \<Rightarrow> sched) \<Rightarrow> LoopSupervisor \<Rightarrow> looper_error option \<times> LoopSupervisor" where
  "stop_all caller block sc ls =
     (let ls = map_loops request_loop_stop ls
      in if block then (let (e, pool) = join_all caller sc (loop_pool ls) in (e, ls\<lparr>loop_pool := pool\<rparr>))
         else (None, ls))"

definition stop_loop :: "nat option \<Rightarrow> bool \<Rightarrow> sched \<Rightarrow> nat \<Rightarrow> LoopSupervisor \<Rightarrow> (looper_error + bool) \<times> LoopSupervisor" where
  "stop_loop caller block sc i ls =
     (case get_loop_from_id i ls of
        None \<Rightarrow> (Inr False, ls)
      | Some d \<Rightarrow>
          (let d = request_loop_stop d; ls = put_loop d ls
           in case (if block then join_desc caller sc d else Inr d) of
                Inl e \<Rightarrow> (Inl e, ls)
              | Inr d \<Rightarrow> (Inr (\<not> is_running d), put_loop d ls)))"

definition pause_loop :: "nat \<Rightarrow> LoopSupervisor \<Rightarrow> bool \<times> LoopSupervisor" where
  "pause_loop i ls =
     (case get_loop_from_id i ls of
        None \<Rightarrow> (False, ls) | Some d \<Rightarrow> (True, put_loop (d\<lparr>wait_evt := False\<rparr>) ls))"

definition resume_loop :: "nat \<Rightarrow> LoopSupervisor \<Rightarrow> bool \<times> LoopSupervisor" where
  "resume_loop i ls =
     (case get_loop_from_id i ls of
        None \<Rightarrow> (False, ls) | Some d \<Rightarrow> (True, put_loop (d\<lparr>wait_evt := True\<rparr>) ls))"

definition all_running :: "LoopSupervisor \<Rightarrow> bool" where
  "all_running ls \<longleftrightarrow> loop_pool ls \<noteq> [] \<and> list_all is_running (dict_values (loop_pool ls))"

definition all_stopped :: "LoopSupervisor \<Rightarrow> bool" where
  "all_stopped ls \<longleftrightarrow> loop_pool ls \<noteq> [] \<and> \<not> list_ex is_running (dict_values (loop_pool ls))"

definition start_all :: "(nat \<Rightarrow> bool) \<Rightarrow> bool \<Rightarrow> LoopSupervisor \<Rightarrow> LoopSupervisor" where
  "start_all os_ok paused ls = map_loops (\<lambda>d. snd (start_desc (os_ok (loop_id d)) paused d)) ls"

definition start_loop :: "bool \<Rightarrow> nat \<Rightarrow> bool \<Rightarrow> LoopSupervisor \<Rightarrow> bool \<times> LoopSupervisor" where
  "start_loop os_ok i paused ls =
     (case get_loop_from_id i ls of
        None \<Rightarrow> (False, ls)
      | Some d \<Rightarrow> (let (ok, d') = start_desc os_ok paused d in (ok, put_loop d' ls)))"

definition add_loop ::
  "bool \<Rightarrow> string \<Rightarrow> real \<Rightarrow> bool \<Rightarrow> bool \<Rightarrow> bool \<Rightarrow> LoopSupervisor \<Rightarrow> looper_error + (nat \<times> LoopSupervisor)" where
  "add_loop os_ok name f start_now exc_handler sig_handler ls =
     (if f \<le> 0 then Inl Frequency_not_positive
      else (let (i, ls) = get_new_id ls;
                d = \<lparr>loop_name = name, loop_id = i, run_evt = False, wait_evt = False, freq = f,
                     loop_thread = NoThread, exception_cb = exc_handler, has_handler = sig_handler\<rparr>;
                ls = put_loop d ls
            in Inr (i, if start_now then put_loop (snd (start_desc os_ok False d)) ls else ls)))"

section \<open>Status\<close>

definition loop_state :: "LoopDescriptor \<Rightarrow> string" where
  "loop_state d =
     (if loop_thread d = NoThread then ''NOT STARTED''
      else if \<not> is_running d then ''STOPPED''
      else if wait_evt d then ''RUNNING'' else ''PAUSED'')"

record loop_status =
  st_name :: string
  st_id :: nat
  st_state :: string
  st_freq :: real
  st_is_running :: bool
  st_exception_cb :: bool

definition get_loop_status_json :: "LoopDescriptor \<Rightarrow> loop_status" where
  "get_loop_status_json d =
     \<lparr>st_name = loop_name d, st_id = loop_id d, st_state = loop_state d, st_freq = freq d,
      st_is_running = is_running d, st_exception_cb = exception_cb d\<rparr>"

record pool_status =
  ps_total :: int
  ps_running :: int
  ps_paused :: int
  ps_stopped :: int
  ps_loops :: "(nat, loop_status) dict"

definition status_as_json :: "LoopSupervisor \<Rightarrow> pool_status" where
  "status_as_json ls =
     (let loops = sort_key loop_id (dict_values (loop_pool ls));
          running = int (length (filter (\<lambda>d. is_running d \<and> wait_evt d) loops));
          paused = int (length (filter (\<lambda>d. is_running d \<and> \<not> wait_evt d) loops))
      in \<lparr>ps_total = int (length loops), ps_running = running, ps_paused = paused,
          ps_stopped = int (length loops) - running - paused,
          ps_loops = foldl (\<lambda>m d. dict_set m (loop_id d) (get_loop_status_json d)) [] loops\<rparr>)"

section \<open>The thread\<close>

lemma apply_action_frame [simp]:
  "loop_id (apply_action a d) = loop_id d" "freq (apply_action a d) = freq d"
  "loop_name (apply_action a d) = loop_name d" "loop_thread (apply_action a d) = loop_thread d"
  by (cases a; simp)+

lemma finish_job_frame [simp]:
  "loop_id (fst (finish_job r h d)) = loop_id d" "freq (fst (finish_job r h d)) = freq d"
  by (cases "(r, h, d)" rule: finish_job.cases; simp add: after_job_def Let_def)+

lemma thread_step_frame [simp]:
  "loop_id (fst (thread_step x d)) = loop_id d" "freq (fst (thread_step x d)) = freq d"
  by (cases "loop_thread d"; simp add: thread_step_def)+

lemma thread_run_Cons:
  "thread_run (x # sc) d =
     (fst (thread_run sc (fst (thread_step x d))),
      snd (thread_step x d) @ snd (thread_run sc (fst (thread_step x d))))"
  by (simp add: split_beta Let_def)

declare thread_run.simps(2) [simp del]

lemma thread_run_frame [simp]:
  "loop_id (fst (thread_run sc d)) = loop_id d" "freq (fst (thread_run sc d)) = freq d"
  by (induction sc arbitrary: d; simp add: thread_run_Cons)+

lemma ended_run: "loop_thread d = Ended \<Longrightarrow> thread_run sc d = (d, [])"
  by (induction sc) (simp_all add: thread_run_Cons thread_step_def)

lemma no_job_in_finish: "OutJob \<notin> set (snd (finish_job r h d))"
  by (cases "(r, h, d)" rule: finish_job.cases)
    (simp_all add: exception_output_def signal_output_def Let_def split: option.split)

lemma finish_job_stopped: "\<not> run_evt d \<Longrightarrow> loop_thread (fst (finish_job r h d)) = Ended"
proof (cases "(r, h, d)" rule: finish_job.cases)
  case (3 req h' d')
  assume "\<not> run_evt d"
  with 3 show ?thesis by (cases "req_action req") (simp_all add: after_job_def Let_def)
qed (simp_all add: after_job_def)

text \<open>A thread that will start no job before somebody resumes it.\<close>

definition quiet :: "LoopDescriptor \<Rightarrow> bool" where
  "quiet d \<longleftrightarrow> \<not> wait_evt d \<or> \<not> is_running d"

lemma quiet_finish:
  assumes "\<not> wait_evt d" shows "quiet (fst (finish_job r h d))"
proof (cases "(r, h, d)" rule: finish_job.cases)
  case (3 req h' d')
  with assms show ?thesis by (cases "req_action req") (simp_all add: after_job_def Let_def quiet_def is_running_def)
qed (use assms in \<open>simp_all add: after_job_def quiet_def\<close>)

lemma quiet_step: "quiet d \<Longrightarrow> quiet (fst (thread_step x d)) \<and> OutJob \<notin> set (snd (thread_step x d))"
  using quiet_finish [of d "fst x" "snd x"] no_job_in_finish [of "fst x" "snd x" d]
  by (cases "loop_thread d") (auto simp: thread_step_def, auto simp: quiet_def is_running_def)

lemma quiet_run: "quiet d \<Longrightarrow> OutJob \<notin> set (snd (thread_run sc d))"
  by (induction sc arbitrary: d) (auto simp: thread_run_Cons quiet_step)

lemma stop_request_ends_loop_lemma:
  assumes "is_running d" and "length sc \<ge> 2"
  shows "loop_thread (fst (thread_run sc (request_loop_stop d))) = Ended
    \<and> length (filter (\<lambda>x. x = OutJob) (snd (thread_run sc (request_loop_stop d)))) =
        (if loop_thread d = AtWait then 1 else 0)"
proof -
  from assms(2) obtain x y sc' where sc: "sc = x # y # sc'"
    by (metis One_nat_def Suc_1 Suc_le_length_iff)
  let ?d = "d\<lparr>run_evt := False, wait_evt := True\<rparr>"
  have req: "request_loop_stop d = ?d" using assms(1) by (simp add: request_loop_stop_def)
  have nojob: "filter (\<lambda>x. x = OutJob) (snd (finish_job r h d')) = []" for r h d'
    using no_job_in_finish [of r h d'] by (auto simp: filter_empty_conv)
  consider "loop_thread d = AtTop" | "loop_thread d = AtWait" | "loop_thread d = InJob" | "loop_thread d = Sleeping"
    using assms(1) by (auto simp: is_running_def)
  then show ?thesis unfolding req sc
    by cases (simp_all add: thread_run_Cons thread_step_def ended_run finish_job_stopped nojob)
qed

section \<open>The pool\<close>

datatype loop_event =
    LAdd bool string real bool bool bool
  | LStart bool nat bool
  | LStop "nat option" bool sched nat
  | LPause nat
  | LResume nat
  | LStartAll "nat \<Rightarrow> bool" bool
  | LStopAll "nat option" bool "nat \<Rightarrow> sched"
  | LPauseAll
  | LResumeAll
  | LThread nat "job_outcome \<times> bool"

fun loop_event_step :: "LoopSupervisor \<Rightarrow> loop_event \<Rightarrow> LoopSupervisor" where
  "loop_event_step ls (LAdd ok n f st ex sg) =
     (case add_loop ok n f st ex sg ls of Inl _ \<Rightarrow> ls | Inr (_, ls') \<Rightarrow> ls')"
| "loop_event_step ls (LStart ok i p) = snd (start_loop ok i p ls)"
| "loop_event_step ls (LStop c b sc i) = snd (stop_loop c b sc i ls)"
| "loop_event_step ls (LPause i) = snd (pause_loop i ls)"
| "loop_event_step ls (LResume i) = snd (resume_loop i ls)"
| "loop_event_step ls (LStartAll ok p) = start_all ok p ls"
| "loop_event_step ls (LStopAll c b sc) = snd (stop_all c b sc ls)"
| "loop_event_step ls LPauseAll = pause_all ls"
| "loop_event_step ls LResumeAll = resume_all ls"
| "loop_event_step ls (LThread i x) =
     (case get_loop_from_id i ls of None \<Rightarrow> ls | Some d \<Rightarrow> put_loop (fst (thread_step x d)) ls)"

definition desc_ok :: "nat \<Rightarrow> nat \<times> LoopDescriptor \<Rightarrow> bool" where
  "desc_ok n p \<longleftrightarrow> loop_id (snd p) = fst p \<and> freq (snd p) > 0 \<and> 0 < fst p \<and> fst p \<le> n"

definition pool_inv :: "LoopSupervisor \<Rightarrow> bool" where
  "pool_inv ls \<longleftrightarrow> dict_ok (loop_pool ls) \<and> list_all (desc_ok (id_counter ls)) (loop_pool ls)"

lemma dict_set_all: "list_all P d \<Longrightarrow> P (k, v) \<Longrightarrow> list_all P (dict_set d k v)"
  by (induction d) auto

lemma put_loop_inv:
  "pool_inv ls \<Longrightarrow> desc_ok (id_counter ls) (loop_id d, d) \<Longrightarrow> pool_inv (put_loop d ls)"
  by (simp add: pool_inv_def put_loop_def dict_set_all)

lemma pool_get:
  "pool_inv ls \<Longrightarrow> get_loop_from_id i ls = Some d \<Longrightarrow> loop_id d = i \<and> desc_ok (id_counter ls) (i, d)"
  by (auto simp: pool_inv_def get_loop_from_id_def list_all_iff desc_ok_def dest!: map_of_SomeD)

lemma put_same_inv:
  assumes "pool_inv ls" "get_loop_from_id i ls = Some d" "loop_id d' = loop_id d" "freq d' = freq d"
  shows "pool_inv (put_loop d' ls)"
  using pool_get [OF assms(1,2)] assms by (intro put_loop_inv) (auto simp: desc_ok_def)

lemma map_loops_inv:
  assumes "pool_inv ls" "\<And>d. loop_id (f d) = loop_id d" "\<And>d. freq (f d) = freq d"
  shows "pool_inv (map_loops f ls)"
proof -
  have "fst \<circ> (\<lambda>(i :: nat, d). (i, f d)) = fst" by auto
  with assms show ?thesis by (auto simp: pool_inv_def map_loops_def dict_ok_def list_all_iff desc_ok_def)
qed

lemma start_desc_frame [simp]:
  "loop_id (snd (start_desc ok p d)) = loop_id d" "freq (snd (start_desc ok p d)) = freq d"
  by (simp_all add: start_desc_def Let_def)

lemma request_stop_frame [simp]:
  "loop_id (request_loop_stop d) = loop_id d" "freq (request_loop_stop d) = freq d"
  by (simp_all add: request_loop_stop_def)

lemma join_desc_frame: "join_desc c sc d = Inr d' \<Longrightarrow> loop_id d' = loop_id d \<and> freq d' = freq d"
  by (auto simp: join_desc_def split: if_splits)

lemma join_all_inv:
  "list_all (desc_ok n) ds \<Longrightarrow>
   list_all (desc_ok n) (snd (join_all c sc ds)) \<and> map fst (snd (join_all c sc ds)) = map fst ds"
proof (induction c sc ds rule: join_all.induct)
  case (2 caller sc i d ds)
  then show ?case
    by (cases "join_desc caller (sc i) d")
      (auto simp: split_beta Let_def desc_ok_def dest: join_desc_frame)
qed simp

lemma stop_loop_inv: "pool_inv ls \<Longrightarrow> pool_inv (snd (stop_loop c b sc i ls))"
proof (cases "get_loop_from_id i ls")
  case (Some d)
  assume inv: "pool_inv ls"
  let ?d = "request_loop_stop d"
  have 1: "pool_inv (put_loop ?d ls)" by (rule put_same_inv [OF inv Some]) simp_all
  have 2: "get_loop_from_id i (put_loop ?d ls) = Some ?d"
    using pool_get [OF inv Some] by (simp add: get_loop_from_id_def put_loop_def dict_get_set)
  have "pool_inv (put_loop d' (put_loop ?d ls))" if "loop_id d' = loop_id ?d" "freq d' = freq ?d" for d'
    by (rule put_same_inv [OF 1 2 that])
  with 1 Some show ?thesis
    by (auto simp: stop_loop_def Let_def split: sum.split if_splits dest!: join_desc_frame)
qed (simp add: stop_loop_def)

lemma stop_all_inv: "pool_inv ls \<Longrightarrow> pool_inv (snd (stop_all c b sc ls))"
proof -
  assume "pool_inv ls"
  then have "pool_inv (map_loops request_loop_stop ls)" by (rule map_loops_inv) simp_all
  then show ?thesis
    using join_all_inv [of "id_counter ls" "loop_pool (map_loops request_loop_stop ls)" c sc]
    by (auto simp: stop_all_def Let_def split_beta pool_inv_def dict_ok_def)
      (simp_all add: map_loops_def)
qed

lemma add_loop_inv: "pool_inv ls \<Longrightarrow> add_loop ok n f st ex sg ls = Inr (i, ls') \<Longrightarrow> pool_inv ls'"
proof -
  assume inv: "pool_inv ls" and add: "add_loop ok n f st ex sg ls = Inr (i, ls')"
  let ?ls = "snd (get_new_id ls)"
  let ?d = "\<lparr>loop_name = n, loop_id = i, run_evt = False, wait_evt = False, freq = f,
    loop_thread = NoThread, exception_cb = ex, has_handler = sg\<rparr>"
  have i: "i = id_counter ls + 1" and f: "f > 0"
    using add by (auto simp: add_loop_def get_new_id_def Let_def split: if_splits)
  have ok: "desc_ok (id_counter ?ls) (i, ?d)" using f i by (simp add: desc_ok_def get_new_id_def)
  have "list_all (desc_ok (id_counter ls + 1)) (loop_pool ls)"
    using inv by (auto simp: pool_inv_def list_all_iff desc_ok_def)
  then have 0: "pool_inv ?ls" using inv by (simp add: pool_inv_def get_new_id_def)
  then have 1: "pool_inv (put_loop ?d ?ls)" using ok by (intro put_loop_inv) simp_all
  have "pool_inv (put_loop (snd (start_desc b False ?d)) (put_loop ?d ?ls))" for b
    by (rule put_loop_inv [OF 1]) (use ok in \<open>simp add: desc_ok_def put_loop_def\<close>)
  with 1 add i show ?thesis by (auto simp: add_loop_def get_new_id_def Let_def split: if_splits)
qed

lemma loop_event_inv: "pool_inv ls \<Longrightarrow> pool_inv (loop_event_step ls e)"
  by (cases e)
    (auto simp: start_loop_def pause_loop_def resume_loop_def pause_all_def resume_all_def start_all_def
      set_loop_paused_def split_beta Let_def stop_loop_inv stop_all_inv
      intro!: map_loops_inv put_same_inv dest: add_loop_inv split: sum.split option.split)

interpretation looper: event_machine loop_event_step pool_inv
  by unfold_locales (rule loop_event_inv)

definition looper_run :: "loop_event list \<Rightarrow> LoopSupervisor" where
  "looper_run evs = foldl loop_event_step LoopSupervisor_init evs"

lemma looper_run_inv: "pool_inv (looper_run evs)"
  unfolding looper_run_def
  by (rule looper.run_inv) (simp add: pool_inv_def LoopSupervisor_init_def)

section \<open>Properties\<close>

text \<open>
  Whatever sequence of supervisor operations and thread steps is run, every loop stays
  registered once, under its own identifier, with a positive frequency, and identifiers are
  between 1 and the counter, so a new loop never replaces an old one.
\<close>

theorem looper_pool_invariant: "pool_inv (looper_run evs)"
  by (rule looper_run_inv)

text \<open>
  After a loop is paused, and until it is resumed, its thread starts no further job, however
  long it runs and whatever a job still in progress returns.
\<close>

theorem paused_loop_starts_no_job:
  assumes "get_loop_from_id i (snd (pause_loop i ls)) = Some d"
    and "pool_inv ls"
  shows "OutJob \<notin> set (snd (thread_run sc d))"
proof -
  have "\<not> wait_evt d"
    using assms pool_get [OF assms(2), of i]
    by (auto simp: pause_loop_def get_loop_from_id_def put_loop_def dict_get_set split: option.splits if_splits)
  then show ?thesis by (intro quiet_run) (simp add: quiet_def)
qed

theorem paused_loop_starts_no_job_witness:
  "let ls = looper_run [LAdd True ''l'' 50 True False False]
   in \<exists>d. get_loop_from_id 1 (snd (pause_loop 1 ls)) = Some d \<and> OutJob \<notin> set (snd (thread_run [(JobRaises, False)] d))"
  using paused_loop_starts_no_job [of 1 "looper_run [LAdd True ''l'' 50 True False False]" _ "[(JobRaises, False)]"]
    looper_run_inv [of "[LAdd True ''l'' 50 True False False]"]
  by (simp add: Let_def looper_run_def LoopSupervisor_init_def add_loop_def get_new_id_def put_loop_def
      start_desc_def is_running_def pause_loop_def get_loop_from_id_def)

text \<open>
  C33. A stop request ends a running loop within two steps of its thread, for good, whatever its
  job does; a job is started once more exactly when the thread was waiting at the pause gate.
\<close>

theorem stop_request_ends_loop:
  assumes "is_running d" and "length sc \<ge> 2"
  shows "loop_thread (fst (thread_run sc (request_loop_stop d))) = Ended
    \<and> length (filter (\<lambda>x. x = OutJob) (snd (thread_run sc (request_loop_stop d)))) =
        (if loop_thread d = AtWait then 1 else 0)"
  by (rule stop_request_ends_loop_lemma [OF assms])

theorem stop_request_ends_loop_witness:
  "let d = \<lparr>loop_name = ''l'', loop_id = 1, run_evt = True, wait_evt = False, freq = 50,
            loop_thread = AtWait, exception_cb = False, has_handler = True\<rparr>
   in loop_thread (fst (thread_run [(JobRaises, False), (JobRaises, False)] (request_loop_stop d))) = Ended
      \<and> length (filter (\<lambda>x. x = OutJob) (snd (thread_run [(JobRaises, False), (JobRaises, False)] (request_loop_stop d)))) = 1"
  using stop_request_ends_loop [of "\<lparr>loop_name = ''l'', loop_id = 1, run_evt = True, wait_evt = False,
      freq = 50, loop_thread = AtWait, exception_cb = False, has_handler = True\<rparr>"
      "[(JobRaises, False), (JobRaises, False)]"]
  by (simp add: is_running_def)

text \<open>
  The status report is complete and consistent: it lists every registered loop under its
  identifier, and its running, paused and stopped counts are the numbers of loops in each of
  those conditions and add up to the total.
\<close>

theorem status_counts:
  "let ls = looper_run evs; st = status_as_json ls
   in ps_total st = ps_running st + ps_paused st + ps_stopped st
    \<and> ps_running st = int (length (filter (\<lambda>d. is_running d \<and> wait_evt d) (get_loops ls)))
    \<and> ps_stopped st = int (length (filter (\<lambda>d. \<not> is_running d) (get_loops ls)))
    \<and> dict_get (ps_loops st) i = map_option get_loop_status_json (get_loop_from_id i ls)"
proof -
  let ?ls = "looper_run evs"
  let ?loops = "sort_key loop_id (dict_values (loop_pool ?ls))"
  have inv: "pool_inv ?ls" by (rule looper_run_inv)
  have perm: "length (filter P ?loops) = length (filter P (get_loops ?ls))" for P
    by (simp add: get_loops_def filter_sort)
  have split: "length xs = length (filter (\<lambda>d. is_running d \<and> wait_evt d) xs)
      + length (filter (\<lambda>d. is_running d \<and> \<not> wait_evt d) xs) + length (filter (\<lambda>d. \<not> is_running d) xs)" for xs
    by (induction xs) auto
  have fold: "dict_get (foldl (\<lambda>m d. dict_set m (loop_id d) (get_loop_status_json d)) m ds) i =
      (case dict_get (rev (map (\<lambda>d. (loop_id d, d)) ds)) i of Some d \<Rightarrow> Some (get_loop_status_json d) | None \<Rightarrow> dict_get m i)"
    for m ds
    by (induction ds arbitrary: m) (auto simp: dict_get_set map_add_def split: option.split)
  have keyed: "map (\<lambda>d. (loop_id d, d)) (dict_values (loop_pool ?ls)) = loop_pool ?ls"
    using inv by (auto simp: pool_inv_def list_all_iff desc_ok_def intro!: map_idI)
  have "map loop_id (dict_values (loop_pool ?ls)) = dict_keys (loop_pool ?ls)"
    using inv by (auto simp: pool_inv_def list_all_iff desc_ok_def)
  then have "distinct (map loop_id (dict_values (loop_pool ?ls)))"
    using inv by (simp only: pool_inv_def dict_ok_def)
  then have "distinct (map loop_id ?loops)"
    by (simp only: distinct_map distinct_sort set_sort)
  then have dist: "distinct (map fst (rev (map (\<lambda>d. (loop_id d, d)) ?loops)))"
    by (simp add: rev_map [symmetric] comp_def)
  have "set (rev (map (\<lambda>d. (loop_id d, d)) ?loops)) = set (loop_pool ?ls)"
    using arg_cong [OF keyed, of set] by (simp only: set_rev set_map set_sort)
  then have "dict_get (rev (map (\<lambda>d. (loop_id d, d)) ?loops)) i = get_loop_from_id i ?ls"
    using map_of_inject_set [OF dist, of "loop_pool ?ls"] inv
    unfolding get_loop_from_id_def pool_inv_def dict_ok_def by metis
  with fold [of "[]" ?loops] have "dict_get (ps_loops (status_as_json ?ls)) i = map_option get_loop_status_json (get_loop_from_id i ?ls)"
    by (simp add: status_as_json_def Let_def split: option.split)
  moreover have "length ?loops = length (get_loops ?ls)" by (simp add: get_loops_def)
  ultimately show ?thesis
    using split [of "get_loops ?ls"] by (simp add: status_as_json_def Let_def perm)
qed

end
