(* ===== verification/Databus.thy ===== *)
theory Databus
  imports Prelude
begin

text \<open>
  The hardware manager's databus (\<open>hardware_mng/databus\<close>): typed topics that hold the latest
  value and a sequence number, one writer and many readers per topic, and a topology that is
  frozen by \<open>finalize\<close>.

  Values and message types are abstract; \<open>inst v t\<close> stands for \<open>isinstance(v, t)\<close>. A value is an
  option because a topic starts with \<open>None\<close>. A raising operation returns its error together
  with the bus it leaves behind, since \<open>create_writer\<close> has written before it raises. The set of
  topics that own a writer hashes a topic by its name, so it is a list of names.
\<close>

section \<open>Topics and endpoints\<close>

datatype databus_error =
    DatabusError string
  | DatabusTopologyError string

record ('v, 't) DatabusTopic =
  topic_name :: string
  topic_state :: "'v option \<times> nat"
  topic_msg_type :: 't

definition set_val :: "'v \<Rightarrow> ('v, 't) DatabusTopic \<Rightarrow> ('v, 't) DatabusTopic" where
  "set_val v t = t\<lparr>topic_state := (Some v, snd (topic_state t) + 1)\<rparr>"

definition seqnum :: "('v, 't) DatabusTopic \<Rightarrow> nat" where
  "seqnum t = snd (topic_state t)"

record ('v, 't) Databus =
  topics :: "(string, ('v, 't) DatabusTopic) dict"
  writer_topics :: "string list"
  bus_finalized :: bool

definition Databus_init :: "('v, 't) Databus" where
  "Databus_init = \<lparr>topics = [], writer_topics = [], bus_finalized = False\<rparr>"

record DataWriter =
  target_topic :: string

record DataReader =
  source_topic :: string
  last_seq :: nat

definition topic_of :: "('v, 't) Databus \<Rightarrow> string \<Rightarrow> ('v, 't) DatabusTopic option" where
  "topic_of bus name = dict_get (topics bus) name"

definition write_topic :: "string \<Rightarrow> 'v \<Rightarrow> ('v, 't) Databus \<Rightarrow> ('v, 't) Databus" where
  "write_topic name v bus =
     (case topic_of bus name of
        None \<Rightarrow> bus
      | Some t \<Rightarrow> bus\<lparr>topics := dict_set (topics bus) name (set_val v t)\<rparr>)"

definition data_write :: "DataWriter \<Rightarrow> 'v \<Rightarrow> ('v, 't) Databus \<Rightarrow> ('v, 't) Databus" where
  "data_write w v bus = write_topic (target_topic w) v bus"

definition has_update :: "('v, 't) Databus \<Rightarrow> DataReader \<Rightarrow> bool" where
  "has_update bus r \<longleftrightarrow>
     (case topic_of bus (source_topic r) of None \<Rightarrow> False | Some t \<Rightarrow> seqnum t > last_seq r)"

definition data_read :: "('v, 't) Databus \<Rightarrow> DataReader \<Rightarrow> 'v option \<times> DataReader" where
  "data_read bus r =
     (case topic_of bus (source_topic r) of
        None \<Rightarrow> (None, r)
      | Some t \<Rightarrow> (fst (topic_state t), r\<lparr>last_seq := snd (topic_state t)\<rparr>))"

section \<open>The topology manager\<close>

fun first_without_writer :: "string list \<Rightarrow> (string \<times> ('v, 't) DatabusTopic) list \<Rightarrow> string option" where
  "first_without_writer ws [] = None"
| "first_without_writer ws ((n, t) # ts) =
     (if n \<notin> set ws then Some (topic_name t) else first_without_writer ws ts)"

definition assert_topics_have_writers :: "('v, 't) Databus \<Rightarrow> databus_error + unit" where
  "assert_topics_have_writers bus =
     (case first_without_writer (writer_topics bus) (topics bus) of
        Some n \<Rightarrow> Inl (DatabusTopologyError n)
      | None \<Rightarrow> Inr ())"

definition finalize :: "('v, 't) Databus \<Rightarrow> databus_error + ('v, 't) Databus" where
  "finalize bus =
     res_bind (assert_topics_have_writers bus) (\<lambda>_. Inr (bus\<lparr>bus_finalized := True\<rparr>))"

definition require_unfinalized :: "('v, 't) Databus \<Rightarrow> databus_error + unit" where
  "require_unfinalized bus =
     (if bus_finalized bus
      then Inl (DatabusError ''Operation unsupported after bus finaliziation occured'') else Inr ())"

definition require_topic :: "string \<Rightarrow> 't \<Rightarrow> ('v, 't) Databus \<Rightarrow> (databus_error + string) \<times> ('v, 't) Databus" where
  "require_topic name msg_type bus =
     (let bus = (if \<not> dict_has (topics bus) name
                 then bus\<lparr>topics := dict_set (topics bus) name
                            \<lparr>topic_name = name, topic_state = (None, 0), topic_msg_type = msg_type\<rparr>\<rparr>
                 else bus)
      in case topic_of bus name of
           None \<Rightarrow> (Inl (DatabusTopologyError name), bus)
         | Some t \<Rightarrow>
             if topic_msg_type t \<noteq> msg_type then (Inl (DatabusTopologyError name), bus)
             else (Inr name, bus))"

definition register_writer :: "DataWriter \<Rightarrow> ('v, 't) Databus \<Rightarrow> (databus_error + unit) \<times> ('v, 't) Databus" where
  "register_writer w bus =
     (if target_topic w \<in> set (writer_topics bus)
      then (Inl (DatabusTopologyError (target_topic w)), bus)
      else (Inr (), bus\<lparr>writer_topics := target_topic w # writer_topics bus\<rparr>))"

definition create_writer ::
  "('v \<Rightarrow> 't \<Rightarrow> bool) \<Rightarrow> string \<Rightarrow> 't \<Rightarrow> 'v \<Rightarrow> ('v, 't) Databus
    \<Rightarrow> (databus_error + DataWriter) \<times> ('v, 't) Databus" where
  "create_writer inst name msg_type initial bus =
     (if \<not> inst initial msg_type then (Inl (DatabusError name), bus)
      else case require_unfinalized bus of
        Inl e \<Rightarrow> (Inl e, bus)
      | Inr _ \<Rightarrow>
          (case require_topic name msg_type bus of
             (Inl e, bus) \<Rightarrow> (Inl e, bus)
           | (Inr n, bus) \<Rightarrow>
               (let w = \<lparr>target_topic = n\<rparr>; bus = data_write w initial bus
                in case register_writer w bus of
                     (Inl e, bus) \<Rightarrow> (Inl e, bus)
                   | (Inr _, bus) \<Rightarrow> (Inr w, bus))))"

definition create_reader ::
  "string \<Rightarrow> 't \<Rightarrow> ('v, 't) Databus \<Rightarrow> (databus_error + DataReader) \<times> ('v, 't) Databus" where
  "create_reader name msg_type bus =
     (case require_unfinalized bus of
        Inl e \<Rightarrow> (Inl e, bus)
      | Inr _ \<Rightarrow>
          (case require_topic name msg_type bus of
             (Inl e, bus) \<Rightarrow> (Inl e, bus)
           | (Inr n, bus) \<Rightarrow> (Inr \<lparr>source_topic = n, last_seq = 0\<rparr>, bus)))"

section \<open>Runs\<close>

text \<open>A writer exists only for a topic that owns one; a write through it is \<open>BusWrite\<close>.\<close>

datatype ('v, 't) bus_event =
    BusWriter string 't 'v
  | BusReader string 't
  | BusFinalize
  | BusWrite string 'v

fun bus_step :: "('v \<Rightarrow> 't \<Rightarrow> bool) \<Rightarrow> ('v, 't) Databus \<Rightarrow> ('v, 't) bus_event \<Rightarrow> ('v, 't) Databus" where
  "bus_step inst bus (BusWriter n t v) = snd (create_writer inst n t v bus)"
| "bus_step inst bus (BusReader n t) = snd (create_reader n t bus)"
| "bus_step inst bus BusFinalize = (case finalize bus of Inl _ \<Rightarrow> bus | Inr b \<Rightarrow> b)"
| "bus_step inst bus (BusWrite n v) =
     (if n \<in> set (writer_topics bus) then data_write \<lparr>target_topic = n\<rparr> v bus else bus)"

definition bus_run :: "('v \<Rightarrow> 't \<Rightarrow> bool) \<Rightarrow> ('v, 't) bus_event list \<Rightarrow> ('v, 't) Databus" where
  "bus_run inst evs = foldl (bus_step inst) Databus_init evs"

definition owns_value :: "('v, 't) DatabusTopic option \<Rightarrow> bool" where
  "owns_value t \<longleftrightarrow> (case t of None \<Rightarrow> False | Some t \<Rightarrow> fst (topic_state t) \<noteq> None \<and> seqnum t > 0)"

definition bus_inv :: "('v, 't) Databus \<Rightarrow> bool" where
  "bus_inv bus \<longleftrightarrow>
     dict_ok (topics bus) \<and> distinct (writer_topics bus) \<and>
     list_all (\<lambda>(n, t). topic_name t = n) (topics bus) \<and>
     list_all (\<lambda>n. owns_value (topic_of bus n)) (writer_topics bus) \<and>
     (bus_finalized bus \<longrightarrow> set (dict_keys (topics bus)) \<subseteq> set (writer_topics bus))"

lemma topic_of_write_topic:
  "topic_of (write_topic n v bus) m =
     (if m = n then map_option (set_val v) (topic_of bus n) else topic_of bus m)"
  by (auto simp: write_topic_def topic_of_def dict_get_set split: option.split)

lemma write_frame [simp]:
  "writer_topics (write_topic n v bus) = writer_topics bus"
  "bus_finalized (write_topic n v bus) = bus_finalized bus"
  by (simp_all add: write_topic_def split: option.split)

lemma write_keys [simp]: "set (dict_keys (topics (write_topic n v bus))) = set (dict_keys (topics bus))"
proof (cases "topic_of bus n")
  case (Some t)
  then have "n \<in> set (dict_keys (topics bus))"
    by (metis topic_of_def option.distinct(1) map_of_eq_None_iff image_set)
  with Some show ?thesis using dict_keys_set [of n _ "topics bus"]
    by (auto simp: write_topic_def dict_keys_set [simplified])
qed (simp add: write_topic_def)

lemma owns_write: "owns_value (topic_of bus m) \<Longrightarrow> owns_value (topic_of (write_topic n v bus) m)"
  by (auto simp: topic_of_write_topic owns_value_def set_val_def seqnum_def split: option.splits)

lemma named_set:
  assumes "list_all (\<lambda>(n, t). topic_name t = n) d" and "topic_name t = n"
  shows "list_all (\<lambda>(n, t). topic_name t = n) (dict_set d n t)"
  using assms by (induction d) auto

lemma topic_of_named: "bus_inv bus \<Longrightarrow> topic_of bus n = Some t \<Longrightarrow> topic_name t = n"
  by (auto simp: bus_inv_def topic_of_def list_all_iff dest: map_of_SomeD)

lemma write_inv [inv_intros]: "bus_inv bus \<Longrightarrow> bus_inv (write_topic n v bus)"
proof (cases "topic_of bus n")
  case (Some t)
  assume inv: "bus_inv bus"
  have "list_all (\<lambda>(n, t). topic_name t = n) (topics (write_topic n v bus))"
    using inv Some topic_of_named [OF inv Some]
    by (simp add: write_topic_def named_set bus_inv_def set_val_def)
  moreover have "dict_ok (topics (write_topic n v bus))"
    using inv Some by (simp add: write_topic_def bus_inv_def)
  moreover have "list_all (\<lambda>m. owns_value (topic_of (write_topic n v bus) m)) (writer_topics bus)"
    using inv by (auto simp: bus_inv_def list_all_iff owns_write)
  ultimately show ?thesis using inv write_keys [of n v bus] by (simp add: bus_inv_def del: set_map)
qed (simp add: write_topic_def)

lemma require_topic_known:
  "dict_has (topics bus) n \<Longrightarrow> snd (require_topic n t bus) = bus"
  by (auto simp: require_topic_def Let_def split: option.split)

lemma require_topic_new:
  "\<not> dict_has (topics bus) n \<Longrightarrow>
   require_topic n t bus = (Inr n, bus\<lparr>topics := dict_set (topics bus) n
     \<lparr>topic_name = n, topic_state = (None, 0), topic_msg_type = t\<rparr>\<rparr>)"
  by (simp add: require_topic_def Let_def topic_of_def dict_get_set)

lemma require_topic_fst: "fst (require_topic n t bus) = Inr m \<Longrightarrow> m = n"
  by (auto simp: require_topic_def Let_def split: option.splits if_splits)

lemma require_topic_has: "topic_of (snd (require_topic n t bus)) n \<noteq> None"
  by (cases "dict_has (topics bus) n")
    (auto simp: require_topic_known require_topic_new, auto simp: topic_of_def dict_has_def dict_get_set)

lemma require_topic_inv [inv_intros]:
  assumes inv: "bus_inv bus" and fin: "\<not> bus_finalized bus"
  shows "bus_inv (snd (require_topic n t bus))"
proof (cases "dict_has (topics bus) n")
  case False
  let ?t = "\<lparr>topic_name = n, topic_state = (None, 0), topic_msg_type = t\<rparr>"
  let ?b = "bus\<lparr>topics := dict_set (topics bus) n ?t\<rparr>"
  from False have "topic_of bus n = None" by (simp add: topic_of_def dict_has_def)
  then have "m \<noteq> n" if "owns_value (topic_of bus m)" for m using that by (auto simp: owns_value_def)
  then have "owns_value (topic_of ?b m)" if "owns_value (topic_of bus m)" for m
    using that by (auto simp: topic_of_def dict_get_set)
  then have "list_all (\<lambda>m. owns_value (topic_of ?b m)) (writer_topics bus)"
    using inv by (simp add: bus_inv_def list_all_iff)
  moreover have "list_all (\<lambda>(n, t). topic_name t = n) (dict_set (topics bus) n ?t)"
    using inv by (simp add: bus_inv_def named_set)
  ultimately have "bus_inv ?b" using inv fin by (simp add: bus_inv_def)
  then show ?thesis using False by (simp add: require_topic_new)
qed (simp add: require_topic_known inv)

lemma require_topic_frame [simp]:
  "writer_topics (snd (require_topic n t bus)) = writer_topics bus"
  "bus_finalized (snd (require_topic n t bus)) = bus_finalized bus"
  by (cases "dict_has (topics bus) n"; simp add: require_topic_known require_topic_new)+

lemma create_writer_eq:
  assumes "inst v t" "\<not> bus_finalized bus"
  shows "create_writer inst n t v bus =
    (case fst (require_topic n t bus) of
       Inl e \<Rightarrow> (Inl e, snd (require_topic n t bus))
     | Inr _ \<Rightarrow> if n \<in> set (writer_topics bus)
         then (Inl (DatabusTopologyError n), write_topic n v (snd (require_topic n t bus)))
         else (Inr \<lparr>target_topic = n\<rparr>,
               (write_topic n v (snd (require_topic n t bus)))\<lparr>writer_topics := n # writer_topics bus\<rparr>))"
proof (cases "require_topic n t bus")
  case (Pair r b)
  have f: "writer_topics b = writer_topics bus"
    using require_topic_frame(1) [of n t bus] by (simp add: Pair)
  show ?thesis
  proof (cases r)
    case (Inr m)
    then have "m = n" using require_topic_fst [of n t bus m] Pair by simp
    with Inr f assms Pair show ?thesis
      by (simp add: create_writer_def require_unfinalized_def Let_def data_write_def register_writer_def)
  qed (use assms Pair in \<open>simp add: create_writer_def require_unfinalized_def\<close>)
qed

lemma create_writer_refused:
  "\<not> (inst v t \<and> \<not> bus_finalized bus) \<Longrightarrow> \<exists>e. create_writer inst n t v bus = (Inl e, bus)"
  by (auto simp: create_writer_def require_unfinalized_def)

lemma owns_write_new: "topic_of bus n \<noteq> None \<Longrightarrow> owns_value (topic_of (write_topic n v bus) n)"
  by (auto simp: topic_of_write_topic owns_value_def set_val_def seqnum_def)

lemma create_writer_inv [inv_intros]:
  assumes inv: "bus_inv bus"
  shows "bus_inv (snd (create_writer inst n t v bus))"
proof (cases "inst v t \<and> \<not> bus_finalized bus")
  case True
  let ?b = "write_topic n v (snd (require_topic n t bus))"
  have r: "bus_inv (snd (require_topic n t bus))" using inv True by (intro require_topic_inv) auto
  then have b: "bus_inv ?b" by (rule write_inv)
  have "owns_value (topic_of ?b n)" by (rule owns_write_new [OF require_topic_has])
  then have "n \<notin> set (writer_topics bus) \<Longrightarrow> bus_inv (?b\<lparr>writer_topics := n # writer_topics bus\<rparr>)"
    using b True by (simp add: bus_inv_def topic_of_def)
  with True r b show ?thesis by (simp add: create_writer_eq split: sum.split)
next
  case False
  from create_writer_refused [of inst v t bus n, OF False] obtain e
    where "create_writer inst n t v bus = (Inl e, bus)" ..
  with inv show ?thesis by simp
qed

lemma create_reader_snd:
  "snd (create_reader n t bus) = (if bus_finalized bus then bus else snd (require_topic n t bus))"
  by (simp add: create_reader_def require_unfinalized_def split: prod.split sum.split)

lemma first_without_writer_None:
  "first_without_writer ws ts = None \<longleftrightarrow> set (dict_keys ts) \<subseteq> set ws"
  by (induction ws ts rule: first_without_writer.induct) auto

lemma finalize_Inr:
  "finalize bus = Inr b \<longleftrightarrow> set (dict_keys (topics bus)) \<subseteq> set (writer_topics bus) \<and> b = bus\<lparr>bus_finalized := True\<rparr>"
  by (auto simp: finalize_def assert_topics_have_writers_def first_without_writer_None [symmetric]
      res_bind_Inr split: option.splits simp del: set_map)

lemma bus_step_inv: "bus_inv bus \<Longrightarrow> bus_inv (bus_step inst bus e)"
proof (cases e)
  case BusFinalize
  assume inv: "bus_inv bus"
  show ?thesis
  proof (cases "finalize bus")
    case (Inr b)
    then have "bus_inv b" using inv by (simp add: finalize_Inr bus_inv_def topic_of_def)
    with BusFinalize Inr show ?thesis by simp
  qed (use inv BusFinalize in simp)
qed (simp_all add: create_writer_inv create_reader_snd require_topic_inv write_inv data_write_def)

interpretation databus: event_machine "bus_step inst" bus_inv for inst
  by unfold_locales (rule bus_step_inv)

lemma bus_run_inv: "bus_inv (bus_run inst evs)"
  unfolding bus_run_def by (rule databus.run_inv) (simp add: bus_inv_def Databus_init_def)

section \<open>The frozen bus\<close>

text \<open>The values a run writes to a topic, oldest first.\<close>

definition written :: "string \<Rightarrow> ('v, 't) bus_event list \<Rightarrow> 'v list" where
  "written n evs = concat (map (\<lambda>e. case e of BusWrite m v \<Rightarrow> if m = n then [v] else [] | _ \<Rightarrow> []) evs)"

lemma frozen_step:
  assumes fin: "bus_finalized bus"
  shows "bus_step inst bus e =
    (case e of BusWrite m v \<Rightarrow> if m \<in> set (writer_topics bus) then write_topic m v bus else bus | _ \<Rightarrow> bus)"
proof (cases e)
  case (BusWriter n t v)
  with fin show ?thesis by (simp add: create_writer_def require_unfinalized_def)
next
  case BusFinalize
  with fin show ?thesis by (auto simp: finalize_Inr split: sum.split)
qed (simp_all add: create_reader_snd fin data_write_def)

definition frozen :: "('v, 't) Databus \<Rightarrow> bool" where
  "frozen bus \<longleftrightarrow> bus_inv bus \<and> bus_finalized bus"

definition topology :: "('v, 't) Databus \<Rightarrow> (string set \<times> string list)" where
  "topology bus = (set (dict_keys (topics bus)), writer_topics bus)"

interpretation frozen_bus: refined_machine "bus_step inst" frozen topology "\<lambda>T e. T" for inst
proof
  fix s e inst assume "frozen s"
  then show "frozen (bus_step inst s e)"
    by (auto simp: frozen_def bus_step_inv, simp add: frozen_step split: bus_event.split)
  from \<open>frozen s\<close> show "topology (bus_step inst s e) = topology s"
    using write_keys by (auto simp: frozen_def frozen_step topology_def simp del: set_map split: bus_event.split)
qed

lemma frozen_topic_step:
  assumes "frozen bus" "n \<in> set (dict_keys (topics bus))"
  shows "topic_of (bus_step inst bus e) n = map_option (\<lambda>t. foldl (\<lambda>t v. set_val v t) t (written n [e])) (topic_of bus n)"
proof -
  have "n \<in> set (writer_topics bus)" using assms by (auto simp: frozen_def bus_inv_def)
  then show ?thesis using assms
    by (auto simp: frozen_def frozen_step written_def topic_of_write_topic option.map_ident
        split: bus_event.split)
qed

lemma frozen_topic_run:
  assumes "frozen bus" "n \<in> set (dict_keys (topics bus))"
  shows "topic_of (foldl (bus_step inst) bus evs) n =
    map_option (\<lambda>t. foldl (\<lambda>t v. set_val v t) t (written n evs)) (topic_of bus n)"
  using assms
proof (induction evs arbitrary: bus)
  case Nil
  then show ?case by (simp add: written_def option.map_ident)
next
  case (Cons e evs)
  let ?b = "bus_step inst bus e"
  have "n \<in> set (dict_keys (topics ?b))"
    using Cons.prems frozen_bus.step_refines [of bus inst e] by (simp add: topology_def)
  then have "topic_of (foldl (bus_step inst) ?b evs) n =
      map_option (\<lambda>t. foldl (\<lambda>t v. set_val v t) t (written n evs)) (topic_of ?b n)"
    using Cons.prems frozen_bus.step_inv by (intro Cons.IH) auto
  moreover have "written n (e # evs) = written n [e] @ written n evs" by (simp add: written_def)
  ultimately show ?case
    using frozen_topic_step [OF Cons.prems, of inst e]
    by (simp add: option.map_comp comp_def)
qed

lemma fold_set_val:
  "topic_state (foldl (\<lambda>t v. set_val v t) t vs) =
     ((if vs = [] then fst (topic_state t) else Some (last vs)), snd (topic_state t) + length vs)"
  by (induction vs arbitrary: t) (auto simp: set_val_def)

lemmas bus_eval =
  create_writer_def require_unfinalized_def require_topic_def register_writer_def data_write_def
  write_topic_def topic_of_def set_val_def dict_has_def finalize_def assert_topics_have_writers_def
  seqnum_def

section \<open>Properties\<close>

text \<open>
  In every sequence of topology calls and writes, failing ones included, the bus keeps its
  invariant: topics are registered once under their own name, each has at most one writer, a
  topic with a writer holds a value with a positive sequence number, and a finalized bus has a
  writer for every topic.
\<close>

theorem databus_invariant: "bus_inv (bus_run inst evs)"
  by (rule bus_run_inv)

text \<open>
  C28. On a finalized bus a reader is told about exactly the writes since its last read: after a
  read and any further events, \<open>has_update\<close> holds if and only if the topic was written in
  between, and the next read returns the last value written, or the one read before when there
  was none, which is never the initial \<open>None\<close>.
\<close>

theorem reader_sees_latest_write:
  fixes evs
  assumes "bus_finalized (bus_run inst es)"
    and "source_topic r \<in> set (dict_keys (topics (bus_run inst es)))"
  defines "bus \<equiv> bus_run inst es"
  defines "bus' \<equiv> foldl (bus_step inst) bus evs" and "ws \<equiv> written (source_topic r) evs"
  shows "(has_update bus' (snd (data_read bus r)) \<longleftrightarrow> ws \<noteq> [])
    \<and> fst (data_read bus' (snd (data_read bus r))) = (if ws = [] then fst (data_read bus r) else Some (last ws))
    \<and> fst (data_read bus r) \<noteq> None"
proof -
  let ?n = "source_topic r"
  have frz: "frozen bus" using assms(1) bus_run_inv by (simp add: frozen_def bus_def)
  have mem: "?n \<in> set (dict_keys (topics bus))" using assms(2) by (simp add: bus_def)
  then obtain t where t: "topic_of bus ?n = Some t"
    by (metis topic_of_def image_set map_of_eq_None_iff option.exhaust)
  have "?n \<in> set (writer_topics bus)" using frz mem by (auto simp: frozen_def bus_inv_def)
  then have own: "fst (topic_state t) \<noteq> None"
    using frz t by (auto simp: frozen_def bus_inv_def list_all_iff owns_value_def dest!: bspec)
  have t': "topic_of bus' ?n = Some (foldl (\<lambda>t v. set_val v t) t ws)"
    using frozen_topic_run [OF frz mem, of inst evs] t by (simp add: bus'_def ws_def)
  show ?thesis
    using own by (simp add: data_read_def has_update_def t t' seqnum_def fold_set_val)
qed

theorem reader_sees_latest_write_witness:
  "let bus = bus_run (\<lambda>v t. t = ''int'') [BusWriter ''pose'' ''int'' (0 :: int), BusFinalize];
       r = \<lparr>source_topic = ''pose'', last_seq = 0\<rparr>;
       bus' = foldl (bus_step (\<lambda>v t. t = ''int'')) bus [BusWrite ''pose'' 5, BusWrite ''pose'' 7]
   in fst (data_read bus r) \<noteq> None \<and> fst (data_read bus' (snd (data_read bus r))) = Some 7"
  using reader_sees_latest_write [of "\<lambda>v t. t = ''int''" "[BusWriter ''pose'' ''int'' (0 :: int), BusFinalize]"
      "\<lparr>source_topic = ''pose'', last_seq = 0\<rparr>" "[BusWrite ''pose'' 5, BusWrite ''pose'' 7]"]
  by (simp add: Let_def written_def bus_run_def Databus_init_def bus_eval)

text \<open>
  Once the bus is finalized its topology never changes again: the set of topics and the
  writers stay the same, and creating a writer or a reader raises.
\<close>

theorem finalized_topology_is_frozen:
  assumes "bus_finalized (bus_run inst es)"
  shows "bus_finalized (foldl (bus_step inst) (bus_run inst es) evs)
    \<and> topology (foldl (bus_step inst) (bus_run inst es) evs) = topology (bus_run inst es)
    \<and> (\<exists>e. fst (create_writer inst n t v (foldl (bus_step inst) (bus_run inst es) evs)) = Inl e)
    \<and> (\<exists>e. fst (create_reader n t (foldl (bus_step inst) (bus_run inst es) evs)) = Inl e)"
proof -
  let ?b = "foldl (bus_step inst) (bus_run inst es) evs"
  have start: "frozen (bus_run inst es)" using assms bus_run_inv by (simp add: frozen_def)
  have top: "foldl (\<lambda>T e. T) T evs = T" for T :: "string set \<times> string list"
    by (induction evs) simp_all
  have "frozen ?b" by (rule frozen_bus.run_inv [OF start])
  then have fin: "bus_finalized ?b" by (simp add: frozen_def)
  moreover have "topology ?b = topology (bus_run inst es)"
    using frozen_bus.run_refines [OF start, of inst evs] by (simp add: top)
  ultimately show ?thesis
    by (auto simp: create_writer_def create_reader_def require_unfinalized_def)
qed

theorem finalized_topology_is_frozen_witness:
  "topology (foldl (bus_step (\<lambda>v t. t = ''int''))
      (bus_run (\<lambda>v t. t = ''int'') [BusWriter ''pose'' ''int'' (0 :: int), BusFinalize])
      [BusWriter ''late'' ''int'' 1, BusReader ''other'' ''int''])
   = topology (bus_run (\<lambda>v t. t = ''int'') [BusWriter ''pose'' ''int'' (0 :: int), BusFinalize])"
  using finalized_topology_is_frozen [of "\<lambda>v t. t = ''int''" "[BusWriter ''pose'' ''int'' (0 :: int), BusFinalize]"
      "[BusWriter ''late'' ''int'' 1, BusReader ''other'' ''int'']"]
  by (simp add: bus_run_def Databus_init_def bus_eval)

text \<open>
  A second writer for a topic is refused, but only after its initial value has replaced the
  topic's value and advanced the sequence number: the refused call is visible to every reader.
\<close>

theorem second_writer_refused_after_write:
  assumes "\<not> bus_finalized bus" and "inst v t" and "n \<in> set (writer_topics bus)"
    and "topic_of bus n = Some topic" "topic_msg_type topic = t"
  shows "\<exists>e. create_writer inst n t v bus = (Inl (DatabusTopologyError e), write_topic n v bus)
    \<and> topic_of (write_topic n v bus) n = Some (topic\<lparr>topic_state := (Some v, Suc (seqnum topic))\<rparr>)"
proof -
  have "require_topic n t bus = (Inr n, bus)"
    using assms by (simp add: require_topic_def Let_def dict_has_def topic_of_def)
  then show ?thesis
    using assms by (simp add: create_writer_def require_unfinalized_def Let_def data_write_def
        register_writer_def topic_of_write_topic set_val_def seqnum_def)
qed

theorem second_writer_refused_after_write_witness:
  "let bus = bus_run (\<lambda>v t. t = ''int'') [BusWriter ''pose'' ''int'' (0 :: int)];
       r = create_writer (\<lambda>v t. t = ''int'') ''pose'' ''int'' 9 bus
   in (\<exists>e. fst r = Inl (DatabusTopologyError e)) \<and> map_option topic_state (topic_of (snd r) ''pose'') = Some (Some 9, 2)"
  using second_writer_refused_after_write [of "bus_run (\<lambda>v t. t = ''int'') [BusWriter ''pose'' ''int'' (0 :: int)]"
      "\<lambda>v t. t = ''int''" 9 "''int''" "''pose''"
      "\<lparr>topic_name = ''pose'', topic_state = (Some 0, 1), topic_msg_type = ''int''\<rparr>"]
  by (auto simp: Let_def bus_run_def Databus_init_def bus_eval)

section \<open>Message types\<close>

definition typed_topic :: "('v \<Rightarrow> 't \<Rightarrow> bool) \<Rightarrow> ('v, 't) DatabusTopic \<Rightarrow> bool" where
  "typed_topic inst t \<longleftrightarrow> (case fst (topic_state t) of None \<Rightarrow> True | Some v \<Rightarrow> inst v (topic_msg_type t))"

definition typed_bus :: "('v \<Rightarrow> 't \<Rightarrow> bool) \<Rightarrow> ('v, 't) Databus \<Rightarrow> bool" where
  "typed_bus inst bus \<longleftrightarrow> (\<forall>n t. topic_of bus n = Some t \<longrightarrow> typed_topic inst t)"

text \<open>A writer is trusted to write values of its topic's type; nothing checks it.\<close>

fun trusted :: "('v \<Rightarrow> 't \<Rightarrow> bool) \<Rightarrow> ('v, 't) Databus \<Rightarrow> ('v, 't) bus_event \<Rightarrow> bool" where
  "trusted inst bus (BusWrite n v) \<longleftrightarrow> (case topic_of bus n of None \<Rightarrow> True | Some t \<Rightarrow> inst v (topic_msg_type t))"
| "trusted inst bus _ \<longleftrightarrow> True"

fun trusted_run :: "('v \<Rightarrow> 't \<Rightarrow> bool) \<Rightarrow> ('v, 't) Databus \<Rightarrow> ('v, 't) bus_event list \<Rightarrow> bool" where
  "trusted_run inst bus [] \<longleftrightarrow> True"
| "trusted_run inst bus (e # es) \<longleftrightarrow> trusted inst bus e \<and> trusted_run inst (bus_step inst bus e) es"

definition topic_type :: "('v, 't) Databus \<Rightarrow> string \<Rightarrow> 't option" where
  "topic_type bus n = map_option topic_msg_type (topic_of bus n)"

lemma topic_type_write: "topic_type (write_topic n v bus) m = topic_type bus m"
  by (cases "topic_of bus n") (simp_all add: topic_type_def topic_of_write_topic set_val_def)

lemma topic_type_require: "topic_type bus m = Some t \<Longrightarrow> topic_type (snd (require_topic n t' bus)) m = Some t"
  by (cases "dict_has (topics bus) n")
    (auto simp: require_topic_known require_topic_new topic_type_def topic_of_def dict_get_set dict_has_def)

lemma topic_type_required: "fst (require_topic n t bus) = Inr m \<Longrightarrow> topic_type (snd (require_topic n t bus)) n = Some t"
  by (auto simp: require_topic_def topic_type_def Let_def split: option.splits if_splits)

lemma typed_write: "typed_bus inst bus \<Longrightarrow> topic_type bus n = Some t \<Longrightarrow> inst v t \<Longrightarrow> typed_bus inst (write_topic n v bus)"
  by (auto simp: typed_bus_def topic_of_write_topic typed_topic_def set_val_def topic_type_def)

lemma typed_require: "typed_bus inst bus \<Longrightarrow> typed_bus inst (snd (require_topic n t bus))"
  by (cases "dict_has (topics bus) n")
    (auto simp: require_topic_known require_topic_new typed_bus_def typed_topic_def topic_of_def dict_get_set)

text \<open>What a step does to a topic, seen by its type.\<close>

lemma step_typed:
  assumes "typed_bus inst bus" "trusted inst bus e"
  shows "typed_bus inst (bus_step inst bus e) \<and> (topic_type bus m = Some u \<longrightarrow> topic_type (bus_step inst bus e) m = Some u)"
proof (cases e)
  case (BusWriter n t v)
  let ?b = "snd (require_topic n t bus)"
  have more: "typed_bus inst (b\<lparr>writer_topics := ws\<rparr>) = typed_bus inst b" "topic_type (b\<lparr>writer_topics := ws\<rparr>) = topic_type b" for b ws
    by (simp_all add: typed_bus_def topic_type_def topic_of_def fun_eq_iff)
  show ?thesis
  proof (cases "inst v t \<and> \<not> bus_finalized bus")
    case True
    show ?thesis
    proof (cases "fst (require_topic n t bus)")
      case (Inr k)
      then have "typed_bus inst (write_topic n v ?b)"
        using typed_write [OF typed_require [OF assms(1)] topic_type_required] True by blast
      then show ?thesis using BusWriter True Inr topic_type_require [of bus m u n t]
        by (simp add: create_writer_eq more topic_type_write)
    qed (use BusWriter True typed_require [OF assms(1)] topic_type_require [of bus m u n t] in \<open>simp add: create_writer_eq\<close>)
  next
    case False
    then show ?thesis using create_writer_refused [of inst v t bus n] BusWriter assms(1) by auto
  qed
next
  case (BusReader n t)
  then show ?thesis using typed_require [OF assms(1)] topic_type_require [of bus m u n t] assms(1) by (simp add: create_reader_snd)
next
  case BusFinalize
  then show ?thesis using assms(1)
    by (auto simp: finalize_Inr typed_bus_def topic_type_def topic_of_def split: sum.split)
next
  case (BusWrite n v)
  then show ?thesis using assms typed_write [OF assms(1), of n _ v]
    by (auto simp: data_write_def topic_type_write) (auto simp: topic_type_def write_topic_def split: option.splits)
qed

lemma run_typed:
  "typed_bus inst bus \<Longrightarrow> trusted_run inst bus es \<Longrightarrow>
   typed_bus inst (foldl (bus_step inst) bus es)
   \<and> (topic_type bus m = Some u \<longrightarrow> topic_type (foldl (bus_step inst) bus es) m = Some u)"
proof (induction es arbitrary: bus)
  case (Cons e es)
  then show ?case using step_typed [of inst bus e m u] Cons.IH [of "bus_step inst bus e"] by auto
qed simp

lemma create_reader_Inr:
  assumes "create_reader n t b = (Inr r, bus)"
  shows "bus = snd (require_topic n t b) \<and> fst (require_topic n t b) = Inr n \<and> source_topic r = n"
proof -
  obtain x b' where q: "require_topic n t b = (x, b')" by (cases "require_topic n t b")
  then show ?thesis using assms require_topic_fst [of n t b]
    by (cases x) (auto simp: create_reader_def require_unfinalized_def split: if_splits)
qed

text \<open>
  C29. Readers are type safe: a reader that was created for a message type only ever reads \<open>None\<close> or a value
  of that type, whatever writers and readers are created later with whatever types and initial values,
  as long as the writers that exist write values of their topic's type.
\<close>

theorem reader_is_type_safe:
  assumes "trusted_run inst Databus_init es" "create_reader n t (bus_run inst es) = (Inr r, bus)"
    and "trusted_run inst bus evs" "fst (data_read (foldl (bus_step inst) bus evs) r) = Some v"
  shows "inst v t"
proof -
  have "typed_bus inst Databus_init" by (simp add: typed_bus_def topic_of_def Databus_init_def)
  from run_typed [OF this assms(1)] have "typed_bus inst (bus_run inst es)" by (simp add: bus_run_def)
  moreover have req: "bus = snd (require_topic n t (bus_run inst es))" "fst (require_topic n t (bus_run inst es)) = Inr n"
    "source_topic r = n"
    using create_reader_Inr [OF assms(2)] by simp_all
  ultimately have typed: "typed_bus inst bus" by (simp add: typed_require)
  have "topic_type bus n = Some t" using topic_type_required [OF req(2)] req(1) by simp
  with run_typed [OF typed assms(3), of n t]
  have "typed_bus inst (foldl (bus_step inst) bus evs)" "topic_type (foldl (bus_step inst) bus evs) n = Some t" by simp_all
  then obtain u where "topic_of (foldl (bus_step inst) bus evs) n = Some u" "topic_msg_type u = t" "typed_topic inst u"
    by (auto simp: topic_type_def typed_bus_def)
  then show ?thesis using assms(4) req(3) by (simp add: data_read_def typed_topic_def)
qed

theorem reader_is_type_safe_witness:
  "let inst = (\<lambda>v t. (t = ''int'') = (0 < v));
       bus = snd (create_reader ''pose'' ''int'' (bus_run inst [BusWriter ''pose'' ''int'' (1 :: int)]))
   in \<exists>v. fst (data_read (foldl (bus_step inst) bus [BusWriter ''pose'' ''str'' (- 1), BusFinalize, BusWrite ''pose'' 7])
        \<lparr>source_topic = ''pose'', last_seq = 0\<rparr>) = Some v \<and> inst v ''int''"
proof -
  let ?inst = "\<lambda>v t. (t = ''int'') = (0 < (v :: int))" and ?r = "\<lparr>source_topic = ''pose'', last_seq = 0\<rparr>"
  let ?es = "[BusWriter ''pose'' ''int'' 1]" and ?evs = "[BusWriter ''pose'' ''str'' (- 1), BusFinalize, BusWrite ''pose'' 7]"
  have run: "bus_run ?inst ?es =
      \<lparr>topics = [(''pose'', \<lparr>topic_name = ''pose'', topic_state = (Some 1, 1), topic_msg_type = ''int''\<rparr>)], writer_topics = [''pose''],
       bus_finalized = False\<rparr>" (is "_ = ?bus")
    by (simp add: bus_run_def Databus_init_def bus_eval)
  have made: "create_reader ''pose'' ''int'' (bus_run ?inst ?es) = (Inr ?r, ?bus)"
    unfolding run by (simp add: create_reader_def bus_eval)
  have read: "trusted_run ?inst ?bus ?evs" "fst (data_read (foldl (bus_step ?inst) ?bus ?evs) ?r) = Some 7"
    by (simp_all add: bus_eval data_read_def)
  from reader_is_type_safe [OF _ made this] have "?inst 7 ''int''" by simp
  then show ?thesis unfolding Let_def made snd_conv read(2) by blast
qed

end
