(* ===== verification/Json.thy ===== *)
theory Json
  imports Prelude Complex_Main
begin

text \<open>
  JSON values as Python holds them after \<open>json.loads\<close>, and the helpers of
  \<open>hardware_mng/utils.py\<close> and \<open>abstract_hw_controller.py\<close> that walk them. \<open>py_str\<close> stands for
  Python's \<open>str\<close> on the values whose rendering the code leaves to the interpreter.
\<close>

datatype json =
    JNull
  | JBool bool
  | JNum real
  | JStr string
  | JList "json list"
  | JObj "(string \<times> json) list"

section \<open>Paths into a tree (abstract\_hw\_controller.py)\<close>

datatype path_error = Invalid_path_characters

definition is_space :: "char \<Rightarrow> bool" where
  "is_space c \<longleftrightarrow> c \<in> {CHR '' '', CHR 0x09, CHR 0x0A, CHR 0x0B, CHR 0x0C, CHR 0x0D}"

definition blank :: "string \<Rightarrow> bool" where
  "blank s \<longleftrightarrow> list_all is_space s"

definition SPECIAL_PATH_CHARS :: "char list" where
  "SPECIAL_PATH_CHARS = [CHR ''@'']"

definition cleanup_path :: "string \<Rightarrow> path_error + string list" where
  "cleanup_path path =
     (if list_ex (\<lambda>c. c \<in> set SPECIAL_PATH_CHARS) path then Inl Invalid_path_characters
      else Inr (filter (\<lambda>part. \<not> blank part) (split_on (CHR ''/'') path)))"

fun fetch_dict_deep :: "json \<Rightarrow> string list \<Rightarrow> bool \<times> json" where
  "fetch_dict_deep current [] = (True, current)"
| "fetch_dict_deep (JObj d) (key # keys) =
     (case dict_get d key of None \<Rightarrow> (False, JNull) | Some v \<Rightarrow> fetch_dict_deep v keys)"
| "fetch_dict_deep _ (key # keys) = (False, JNull)"

section \<open>Flattening (utils.py)\<close>

definition dict_update :: "('k, 'v) dict \<Rightarrow> ('k, 'v) dict \<Rightarrow> ('k, 'v) dict" where
  "dict_update d e = foldl (\<lambda>d (k, v). dict_set d k v) d e"

definition sub_key :: "string \<Rightarrow> string \<Rightarrow> string \<Rightarrow> string" where
  "sub_key parent sep key = (if parent \<noteq> '''' then parent @ sep @ key else key)"

function flatten_dict :: "(string \<times> json) list \<Rightarrow> string \<Rightarrow> string \<Rightarrow> (string, json) dict" where
  "flatten_dict [] parent sep = []"
| "flatten_dict ((k, v) # d) parent sep =
     dict_update
       (case v of JObj e \<Rightarrow> dict_update [] (flatten_dict e (sub_key parent sep k) sep)
        | _ \<Rightarrow> [(sub_key parent sep k, v)])
       (flatten_dict d parent sep)"
  by pat_completeness auto

termination flatten_dict
  by (relation "measure (\<lambda>(d, _, _). size_list (size_prod (\<lambda>_. 0) size) d)") auto

definition leaf_text :: "(json \<Rightarrow> string) \<Rightarrow> json \<Rightarrow> string" where
  "leaf_text py_str v =
     (case v of JNull \<Rightarrow> ''None'' | JBool b \<Rightarrow> (if b then ''true'' else ''false'') | _ \<Rightarrow> py_str v)"

text \<open>\<open>flatten_for_diagnostics\<close>; \<open>n\<close> is how many more levels may be entered, \<open>max_depth + 1 - _depth\<close>.\<close>

fun flatten_levels :: "(json \<Rightarrow> string) \<Rightarrow> nat \<Rightarrow> json \<Rightarrow> string \<Rightarrow> string \<Rightarrow> (string, string) dict" where
  "flatten_levels py_str 0 v parent sep = [(parent, py_str v)]"
| "flatten_levels py_str (Suc n) v parent sep =
     (case v of
        JObj d \<Rightarrow>
          foldl (\<lambda>flat (k, w). dict_update flat (flatten_levels py_str n w (sub_key parent sep k) sep)) [] d
      | JList vs \<Rightarrow>
          foldl (\<lambda>flat (i, w). dict_update flat (flatten_levels py_str n w (sub_key parent sep (show_nat i)) sep))
            [] (List.enumerate 0 vs)
      | _ \<Rightarrow> [((if parent \<noteq> '''' then parent else ''value''), leaf_text py_str v)])"

definition flatten_for_diagnostics :: "(json \<Rightarrow> string) \<Rightarrow> json \<Rightarrow> (string, string) dict" where
  "flatten_for_diagnostics py_str v = flatten_levels py_str 11 v '''' ''/''"

section \<open>Lemmas\<close>

lemma fetch_append:
  "fetch_dict_deep v (ks @ ls) =
     (if fst (fetch_dict_deep v ks) then fetch_dict_deep (snd (fetch_dict_deep v ks)) ls else (False, JNull))"
proof (induction v ks rule: fetch_dict_deep.induct)
  case (2 d key keys)
  then show ?case by (cases "dict_get d key") simp_all
qed (cases ls; simp)+

lemma cleanup_path_parts:
  assumes "list_all (\<lambda>p. \<not> blank p \<and> CHR ''/'' \<notin> set p \<and> CHR ''@'' \<notin> set p) ps"
  shows "cleanup_path (concat (map (\<lambda>p. CHR ''/'' # p) ps)) = Inr ps"
proof -
  have no: "\<not> list_ex (\<lambda>c. c \<in> set SPECIAL_PATH_CHARS) (concat (map (\<lambda>p. CHR ''/'' # p) ps))"
    using assms by (auto simp: list_ex_iff list_all_iff SPECIAL_PATH_CHARS_def)
  have blank0: "blank []" by (simp add: blank_def)
  have split: "split_on (CHR ''/'') (p @ concat (map (\<lambda>p. CHR ''/'' # p) ps)) = p # ps"
    if "CHR ''/'' \<notin> set p" "list_all (\<lambda>p. CHR ''/'' \<notin> set p) ps" for p ps
    using that
  proof (induction ps arbitrary: p)
    case Nil
    then show ?case by (simp add: split_on_no_sep)
  next
    case (Cons q qs)
    then show ?case using split_on_append [of "CHR ''/''" p "q @ concat (map (\<lambda>p. CHR ''/'' # p) qs)"] by simp
  qed
  have "list_all (\<lambda>p. CHR ''/'' \<notin> set p) ps" "filter (\<lambda>p. \<not> blank p) ps = ps"
    using assms by (auto simp: list_all_iff filter_id_conv)
  with no split [of "[]" ps] blank0 show ?thesis by (simp add: cleanup_path_def)
qed

lemma cleanup_path_clean:
  assumes "cleanup_path path = Inr ps"
  shows "list_all (\<lambda>p. \<not> blank p \<and> CHR ''/'' \<notin> set p \<and> CHR ''@'' \<notin> set p) ps"
proof -
  from assms have at: "CHR ''@'' \<notin> set path" and ps: "ps = filter (\<lambda>part. \<not> blank part) (split_on (CHR ''/'') path)"
    by (auto simp: cleanup_path_def SPECIAL_PATH_CHARS_def list_ex_iff split: if_splits)
  have "\<forall>w \<in> set (split_on c xs). set w \<subseteq> set xs" for c and xs :: string
    by (induction xs) (fastforce split: list.splits if_splits)+
  with at show ?thesis by (fastforce simp: ps list_all_iff dest: split_on_sep_free)
qed

end
