(* ===== verification/HwController.thy ===== *)
theory HwController
  imports Looper Databus Json
begin

text \<open>
  The base class of hardware controllers (\<open>hardware_mng/abstract_hw_controller.py\<close>): the flag
  that says whether the hardware is initialized, the queue of configuration updates, the
  dispatch of configuration subtrees to subscribed handlers, and \<open>_flush\<close>, the job each
  controller's loop runs.

  What a controller's own methods do is up to the plugin: \<open>read\<close>, \<open>control\<close>, \<open>initialize_hw\<close> and
  \<open>deinitialize_hw\<close> are represented by their outcome. A configuration handler is an identifier
  and, when its type is enforced, the adapter that validates its argument.
\<close>

section \<open>Signals (signals\_definitions.py)\<close>

definition SIG_CONTROLLER_FATAL :: string where "SIG_CONTROLLER_FATAL = ''global_shutdown''"
definition SIG_CONTOLLER_WARNING :: string where "SIG_CONTOLLER_WARNING = ''controller_warning''"
definition SIG_CONTROLLER_ERROR :: string where "SIG_CONTROLLER_ERROR = ''controller_error''"
definition SIG_CONTROLLER_GENERIC_EXCEPTION :: string where
  "SIG_CONTROLLER_GENERIC_EXCEPTION = ''controller_exception''"

lemmas sig_defs = SIG_CONTROLLER_FATAL_def SIG_CONTOLLER_WARNING_def SIG_CONTROLLER_ERROR_def
  SIG_CONTROLLER_GENERIC_EXCEPTION_def

section \<open>Controllers\<close>

datatype controller_exception =
    ControllerWarning int string
  | ControllerError int string
  | ControllerFatal int string
  | OtherException string

type_synonym outcome = "controller_exception option"

record MotionCommand =
  mc_id :: int
  mc_value :: real

record config_handler =
  handler_id :: nat
  handler_adapter :: "(json \<Rightarrow> json option) option"

record HwController =
  ctrl_name :: string
  flush_freq :: real
  command_group :: "int set"
  config_handlers :: "(string list, config_handler) dict"
  cfg_updates :: "json list"
  ctrl_initialized :: bool

datatype ctrl_error = Flush_freq_not_positive | Bad_path path_error | No_databus | Bus_error databus_error

definition BaseHardwareController_init :: "string \<Rightarrow> real \<Rightarrow> int set \<Rightarrow> ctrl_error + HwController" where
  "BaseHardwareController_init name f ids =
     (if f \<le> 0 then Inl Flush_freq_not_positive
      else Inr \<lparr>ctrl_name = name, flush_freq = f, command_group = ids, config_handlers = [],
                cfg_updates = [], ctrl_initialized = False\<rparr>)"

text \<open>The databus is bound at class level: \<open>None\<close> before the entrypoint sets it.\<close>

definition create_databus_writer ::
  "('v \<Rightarrow> 't \<Rightarrow> bool) \<Rightarrow> string \<Rightarrow> 't \<Rightarrow> 'v \<Rightarrow> ('v, 't) Databus option
    \<Rightarrow> (ctrl_error + DataWriter) \<times> ('v, 't) Databus option" where
  "create_databus_writer inst topic ty initial bus =
     (case bus of
        None \<Rightarrow> (Inl No_databus, None)
      | Some b \<Rightarrow> (let (r, b') = create_writer inst topic ty initial b in (map_sum Bus_error id r, Some b')))"

definition create_databus_reader ::
  "string \<Rightarrow> 't \<Rightarrow> ('v, 't) Databus option \<Rightarrow> (ctrl_error + DataReader) \<times> ('v, 't) Databus option" where
  "create_databus_reader topic ty bus =
     (case bus of
        None \<Rightarrow> (Inl No_databus, None)
      | Some b \<Rightarrow> (let (r, b') = create_reader topic ty b in (map_sum Bus_error id r, Some b')))"

definition subscribe_to_command_group :: "int list \<Rightarrow> HwController \<Rightarrow> HwController" where
  "subscribe_to_command_group ids c = c\<lparr>command_group := set ids\<rparr>"

definition subscribe_to_config_path :: "string \<Rightarrow> config_handler \<Rightarrow> HwController \<Rightarrow> ctrl_error + HwController" where
  "subscribe_to_config_path path h c =
     (case cleanup_path path of
        Inl e \<Rightarrow> Inl (Bad_path e)
      | Inr parts \<Rightarrow> Inr (c\<lparr>config_handlers := dict_set (config_handlers c) parts h\<rparr>))"

definition queue_config_update :: "json \<Rightarrow> HwController \<Rightarrow> HwController" where
  "queue_config_update cfg c = c\<lparr>cfg_updates := cfg_updates c @ [cfg]\<rparr>"

text \<open>The call a handler receives; an argument its adapter refuses is logged and dropped.\<close>

definition handler_call :: "config_handler \<Rightarrow> json \<Rightarrow> (nat \<times> json) list" where
  "handler_call h v =
     (case handler_adapter h of
        None \<Rightarrow> [(handler_id h, v)]
      | Some validate \<Rightarrow> (case validate v of None \<Rightarrow> [] | Some v' \<Rightarrow> [(handler_id h, v')]))"

fun dispatch_handlers :: "json \<Rightarrow> (string list, config_handler) dict \<Rightarrow> (nat \<times> json) list" where
  "dispatch_handlers cfg [] = []"
| "dispatch_handlers cfg ((parts, h) # hs) =
     (let (succ, sub) = fetch_dict_deep cfg parts
      in (if succ then handler_call h sub else []) @ dispatch_handlers cfg hs)"

definition dispatch_config :: "json \<Rightarrow> HwController \<Rightarrow> (nat \<times> json) list" where
  "dispatch_config cfg c = dispatch_handlers cfg (config_handlers c)"

definition execute_queued_config_updates :: "HwController \<Rightarrow> (nat \<times> json) list \<times> HwController" where
  "execute_queued_config_updates c =
     (concat (map (\<lambda>cfg. dispatch_config cfg c) (cfg_updates c)), c\<lparr>cfg_updates := []\<rparr>)"

definition set_initialized :: "bool \<Rightarrow> HwController \<Rightarrow> HwController" where
  "set_initialized v c = c\<lparr>ctrl_initialized := v\<rparr>"

definition ctrl_signal :: "string \<Rightarrow> int \<Rightarrow> string \<Rightarrow> Signal" where
  "ctrl_signal name code note = \<lparr>sig_name = name, sig_kwargs = [(''code'', KInt code), (''note'', KStr note)]\<rparr>"

definition loop_request :: "LoopAction \<Rightarrow> Signal \<Rightarrow> LoopRequest" where
  "loop_request a s = \<lparr>req_action = a, req_signal = Some s\<rparr>"

text \<open>The \<open>except\<close> clauses of \<open>_flush\<close>.\<close>

fun flush_outcome :: "outcome \<Rightarrow> HwController \<Rightarrow> LoopRequest option \<times> HwController" where
  "flush_outcome None c = (None, c)"
| "flush_outcome (Some (ControllerWarning code note)) c =
     (Some (loop_request ACT_CONTINUE (ctrl_signal SIG_CONTOLLER_WARNING code note)), c)"
| "flush_outcome (Some (ControllerError code note)) c =
     (Some (loop_request ACT_STOP (ctrl_signal SIG_CONTROLLER_ERROR code note)), set_initialized False c)"
| "flush_outcome (Some (ControllerFatal code note)) c =
     (Some (loop_request ACT_STOP (ctrl_signal SIG_CONTROLLER_FATAL code note)), set_initialized False c)"
| "flush_outcome (Some (OtherException note)) c =
     (Some (loop_request ACT_STOP (ctrl_signal SIG_CONTROLLER_GENERIC_EXCEPTION 0 note)), set_initialized False c)"

record flush_result =
  fl_request :: "LoopRequest option"
  fl_config_calls :: "(nat \<times> json) list"
  fl_controlled :: "MotionCommand list option"
  fl_controller :: HwController
  fl_queue :: "MotionCommand list"

definition flush :: "outcome \<Rightarrow> (MotionCommand list \<Rightarrow> outcome) \<Rightarrow> MotionCommand list \<Rightarrow> HwController \<Rightarrow> flush_result" where
  "flush rd ctl incoming c =
     (if \<not> ctrl_initialized c
      then \<lparr>fl_request = None, fl_config_calls = [], fl_controlled = None, fl_controller = c, fl_queue = incoming\<rparr>
      else (let (calls, c) = execute_queued_config_updates c;
                out = (if rd \<noteq> None then rd else ctl incoming);
                (req, c) = flush_outcome out c
            in \<lparr>fl_request = req, fl_config_calls = calls,
                fl_controlled = (if rd \<noteq> None then None else Some incoming),
                fl_controller = c, fl_queue = []\<rparr>))"

text \<open>The wrappers around \<open>initialize_hw\<close> and \<open>deinitialize_hw\<close>.\<close>

datatype hw_result = HwReturns bool | HwRaises controller_exception

fun init_wrapper :: "hw_result \<Rightarrow> HwController \<Rightarrow> (controller_exception + bool) \<times> HwController" where
  "init_wrapper (HwReturns r) c = (Inr r, if r then c\<lparr>ctrl_initialized := True\<rparr> else c)"
| "init_wrapper (HwRaises e) c = (Inl e, c)"

fun deinit_wrapper :: "hw_result \<Rightarrow> HwController \<Rightarrow> (controller_exception + bool) \<times> HwController" where
  "deinit_wrapper (HwReturns r) c = (Inr r, if r then c\<lparr>ctrl_initialized := False\<rparr> else c)"
| "deinit_wrapper (HwRaises e) c = (Inl e, c)"

section \<open>Lemmas\<close>

definition stops :: "LoopRequest option \<Rightarrow> bool" where
  "stops r \<longleftrightarrow> (case r of None \<Rightarrow> False | Some q \<Rightarrow> req_action q = ACT_STOP)"

lemma flush_outcome_stops:
  "stops (fst (flush_outcome r c)) \<longleftrightarrow> (case r of None \<Rightarrow> False | Some (ControllerWarning _ _) \<Rightarrow> False | Some _ \<Rightarrow> True)"
  "ctrl_initialized (snd (flush_outcome r c)) \<longleftrightarrow> ctrl_initialized c \<and> \<not> stops (fst (flush_outcome r c))"
  by (cases "(r, c)" rule: flush_outcome.cases; simp add: stops_def loop_request_def set_initialized_def)+

lemma flush_outcome_frame [simp]:
  "config_handlers (snd (flush_outcome r c)) = config_handlers c"
  "cfg_updates (snd (flush_outcome r c)) = cfg_updates c"
  "ctrl_name (snd (flush_outcome r c)) = ctrl_name c"
  by (cases "(r, c)" rule: flush_outcome.cases; simp add: set_initialized_def)+

lemma dispatch_handlers_mem:
  "(i, v) \<in> set (dispatch_handlers cfg hs) \<longleftrightarrow>
     (\<exists>parts h. (parts, h) \<in> set hs \<and> fst (fetch_dict_deep cfg parts) \<and>
        (i, v) \<in> set (handler_call h (snd (fetch_dict_deep cfg parts))))"
proof (induction hs)
  case (Cons p hs)
  obtain parts h where p: "p = (parts, h)" by (cases p)
  have "set (dispatch_handlers cfg (p # hs)) =
      (if fst (fetch_dict_deep cfg parts) then set (handler_call h (snd (fetch_dict_deep cfg parts))) else {})
      \<union> set (dispatch_handlers cfg hs)"
    by (simp add: p split_beta Let_def)
  with Cons.IH show ?case by (auto simp: p split: if_splits)
qed simp

section \<open>Properties\<close>

text \<open>
  One flush of an initialized controller takes every queued command, in order, and hands
  exactly those to \<open>control\<close> unless \<open>read\<close> raised; it empties both queues; and it asks its loop
  to stop exactly when it leaves the controller uninitialized, which is when the plugin raised
  anything but a warning. A controller that is not initialized is not touched at all.
\<close>

theorem flush_contract:
  fixes rd ctl incoming c
  defines "r \<equiv> flush rd ctl incoming c"
  shows "if ctrl_initialized c
    then fl_queue r = [] \<and> cfg_updates (fl_controller r) = []
      \<and> fl_controlled r = (if rd = None then Some incoming else None)
      \<and> (stops (fl_request r) \<longleftrightarrow> \<not> ctrl_initialized (fl_controller r))
      \<and> (stops (fl_request r) \<longleftrightarrow> (\<exists>e. (if rd = None then ctl incoming else rd) = Some e
            \<and> (\<nexists>code note. e = ControllerWarning code note)))
    else fl_request r = None \<and> fl_controller r = c \<and> fl_queue r = incoming \<and> fl_controlled r = None"
proof (cases "ctrl_initialized c")
  case True
  let ?out = "if rd = None then ctl incoming else rd"
  have "fl_request r = fst (flush_outcome ?out (c\<lparr>cfg_updates := []\<rparr>))"
    "fl_controller r = snd (flush_outcome ?out (c\<lparr>cfg_updates := []\<rparr>))"
    using True by (auto simp: r_def flush_def execute_queued_config_updates_def split_beta Let_def)
  moreover have "(case out of None \<Rightarrow> False | Some (ControllerWarning _ _) \<Rightarrow> False | Some _ \<Rightarrow> True) \<longleftrightarrow>
      (\<exists>e. out = Some e \<and> (\<nexists>code note. e = ControllerWarning code note))" for out
    by (auto split: option.split controller_exception.split)
  ultimately show ?thesis
    using True by (simp add: flush_outcome_stops)
      (simp add: r_def flush_def execute_queued_config_updates_def split_beta Let_def)
qed (simp add: r_def flush_def)

text \<open>
  A configuration update reaches a handler exactly when the path it subscribed to exists in
  the tree: a call is made if and only if some handler is registered for a path present in the
  configuration, with the value found there, as its adapter validates it.
\<close>

theorem config_reaches_subscribers:
  assumes "subscribe_to_config_path path h c = Inr c'" and "cleanup_path path = Inr parts"
    and "handler_adapter h = None" and "dict_ok (config_handlers c)"
    and "\<forall>k h'. dict_get (config_handlers c) k = Some h' \<longrightarrow> handler_id h' \<noteq> handler_id h"
  shows "(handler_id h, v) \<in> set (dispatch_config cfg c') \<longleftrightarrow> fetch_dict_deep cfg parts = (True, v)"
proof -
  have c': "config_handlers c' = dict_set (config_handlers c) parts h"
    using assms(1,2) by (auto simp: subscribe_to_config_path_def)
  have other: "handler_id h' \<noteq> i \<Longrightarrow> (i, w) \<notin> set (handler_call h' u)" for h' i w u
    by (auto simp: handler_call_def split: option.splits)
  have "(k, h') \<in> set (config_handlers c') \<longleftrightarrow> (if k = parts then h' = h else dict_get (config_handlers c) k = Some h')"
    for k h'
    using assms(4) by (auto simp: c' dict_mem_iff dict_get_set)
  then have "(handler_id h, v) \<in> set (dispatch_config cfg c') \<longleftrightarrow>
      fst (fetch_dict_deep cfg parts) \<and> (handler_id h, v) \<in> set (handler_call h (snd (fetch_dict_deep cfg parts)))"
    using assms(5) other unfolding dispatch_config_def dispatch_handlers_mem by (metis (full_types))
  then show ?thesis using assms(3) by (auto simp: handler_call_def prod_eq_iff)
qed

theorem config_reaches_subscribers_witness:
  "(4, JNum 3) \<in> set (dispatch_config (JObj [(''motor'', JObj [(''speed'', JNum 3)])])
     \<lparr>ctrl_name = ''x'', flush_freq = 1, command_group = {},
      config_handlers = [([''motor'', ''speed''], \<lparr>handler_id = 4, handler_adapter = None\<rparr>)],
      cfg_updates = [], ctrl_initialized = True\<rparr>)"
  using config_reaches_subscribers [of "''/motor/speed''" "\<lparr>handler_id = 4, handler_adapter = None\<rparr>"
      "\<lparr>ctrl_name = ''x'', flush_freq = 1, command_group = {}, config_handlers = [], cfg_updates = [], ctrl_initialized = True\<rparr>"
      "\<lparr>ctrl_name = ''x'', flush_freq = 1, command_group = {},
        config_handlers = [([''motor'', ''speed''], \<lparr>handler_id = 4, handler_adapter = None\<rparr>)], cfg_updates = [], ctrl_initialized = True\<rparr>"
      "[''motor'', ''speed'']" "JNum 3" "JObj [(''motor'', JObj [(''speed'', JNum 3)])]"]
  by (simp add: subscribe_to_config_path_def cleanup_path_def SPECIAL_PATH_CHARS_def blank_def is_space_def)

end
