(* ===== verification/Reconciler.thy ===== *)
theory Reconciler
  imports HwController
begin

text \<open>
  The desired-state reconciler of hardware controllers
  (\<open>hardware_mng/hw_controller_state_reconciler.py\<close>): it derives a controller's state from its
  hardware flag and its loop and drives both towards a goal.

  A managed controller names its loop by identifier in the loop pool. \<open>rc_env\<close> is what the
  outside does during one pass over one controller: the outcomes of \<open>initialize_hw\<close> and
  \<open>deinitialize_hw\<close>, whether the operating system starts a thread, the steps the loop's thread
  makes while it is joined, and the loop whose thread runs the pass, if any.
\<close>

datatype ControllerState = UNINITIALIZED | INITIALIZED | RUNNING

record ManagedController =
  mc_loop :: nat
  mc_ctrl :: HwController
  mc_goal :: ControllerState

record rc_env =
  rc_init :: hw_result
  rc_deinit :: hw_result
  rc_os_ok :: bool
  rc_sched :: sched
  rc_caller :: "nat option"

text \<open>What escapes a step: an exception of the plugin, or the \<open>RuntimeError\<close> of a refused join.\<close>

datatype rc_error = Plugin controller_exception | Runtime looper_error

type_synonym rc_state = "LoopSupervisor \<times> ManagedController"

definition add_controller :: "nat \<Rightarrow> HwController \<Rightarrow> ManagedController list \<Rightarrow> ManagedController list" where
  "add_controller loop ctrl mcs =
     mcs @ [\<lparr>mc_loop = loop, mc_ctrl = ctrl, mc_goal = UNINITIALIZED\<rparr>]"

fun set_goal :: "nat \<Rightarrow> ControllerState \<Rightarrow> ManagedController list \<Rightarrow> ManagedController list" where
  "set_goal loop goal [] = []"
| "set_goal loop goal (mc # mcs) =
     (if mc_loop mc = loop then mc\<lparr>mc_goal := goal\<rparr> # mcs else mc # set_goal loop goal mcs)"

definition set_goal_all :: "ControllerState \<Rightarrow> ManagedController list \<Rightarrow> ManagedController list" where
  "set_goal_all goal mcs = map (\<lambda>mc. mc\<lparr>mc_goal := goal\<rparr>) mcs"

definition loop_running :: "LoopSupervisor \<Rightarrow> ManagedController \<Rightarrow> bool" where
  "loop_running ls mc = (case get_loop_from_id (mc_loop mc) ls of None \<Rightarrow> False | Some d \<Rightarrow> is_running d)"

definition actual_state :: "rc_state \<Rightarrow> ControllerState" where
  "actual_state s =
     (let (ls, mc) = s;
          hw_init = ctrl_initialized (mc_ctrl mc);
          running = loop_running ls mc;
          paused = is_paused (mc_loop mc) ls
      in if hw_init \<and> running \<and> \<not> paused then RUNNING
         else if hw_init \<and> running \<and> paused then INITIALIZED
         else UNINITIALIZED)"

definition with_ctrl :: "HwController \<Rightarrow> ManagedController \<Rightarrow> ManagedController" where
  "with_ctrl c mc = mc\<lparr>mc_ctrl := c\<rparr>"

text \<open>The loop half of \<open>_step_to_initialized\<close> from the uninitialized state.\<close>

definition start_or_pause :: "rc_env \<Rightarrow> rc_state \<Rightarrow> rc_state" where
  "start_or_pause env s =
     (let (ls, mc) = s
      in if \<not> loop_running ls mc then (snd (start_loop (rc_os_ok env) (mc_loop mc) True ls), mc)
         else (snd (pause_loop (mc_loop mc) ls), mc))"

definition step_to_initialized :: "rc_env \<Rightarrow> ControllerState \<Rightarrow> rc_state \<Rightarrow> rc_error option \<times> rc_state" where
  "step_to_initialized env actual s =
     (let (ls, mc) = s
      in if actual = UNINITIALIZED then
           (if \<not> ctrl_initialized (mc_ctrl mc) then
              (case init_wrapper (rc_init env) (mc_ctrl mc) of
                 (Inl e, c) \<Rightarrow> (Some (Plugin e), (ls, with_ctrl c mc))
               | (Inr ok, c) \<Rightarrow>
                   if \<not> ok then (None, (ls, with_ctrl c mc))
                   else (None, start_or_pause env (ls, with_ctrl c mc)))
            else (None, start_or_pause env s))
         else if actual = RUNNING then (None, (snd (pause_loop (mc_loop mc) ls), mc))
         else (None, s))"

definition step_to_running :: "rc_env \<Rightarrow> ControllerState \<Rightarrow> rc_state \<Rightarrow> rc_error option \<times> rc_state" where
  "step_to_running env actual s =
     (let (err, s', actual') =
            (if actual = UNINITIALIZED
             then (let (err, s') = step_to_initialized env actual s in (err, s', actual_state s'))
             else (None, s, actual))
      in if err \<noteq> None then (err, s')
         else if actual' = INITIALIZED
         then (None, (snd (resume_loop (mc_loop (snd s')) (fst s')), snd s'))
         else (None, s'))"

definition deinit_if_needed :: "rc_env \<Rightarrow> rc_state \<Rightarrow> rc_error option \<times> rc_state" where
  "deinit_if_needed env s =
     (let (ls, mc) = s
      in if ctrl_initialized (mc_ctrl mc) then
           (case deinit_wrapper (rc_deinit env) (mc_ctrl mc) of
              (Inl e, c) \<Rightarrow> (Some (Plugin e), (ls, with_ctrl c mc))
            | (Inr ok, c) \<Rightarrow> (None, (ls, with_ctrl c mc)))
         else (None, s))"

definition step_to_uninitialized :: "rc_env \<Rightarrow> rc_state \<Rightarrow> rc_error option \<times> rc_state" where
  "step_to_uninitialized env s =
     (let (ls, mc) = s
      in if loop_running ls mc then
           (case stop_loop (rc_caller env) True (rc_sched env) (mc_loop mc) ls of
              (Inl e, ls') \<Rightarrow> (Some (Runtime e), (ls', mc))
            | (Inr ok, ls') \<Rightarrow> if \<not> ok then (None, (ls', mc)) else deinit_if_needed env (ls', mc))
         else deinit_if_needed env s)"

text \<open>The signal each exception of a step becomes.\<close>

fun rc_signal :: "(looper_error \<Rightarrow> string) \<Rightarrow> rc_error \<Rightarrow> Signal" where
  "rc_signal str (Plugin (ControllerWarning code note)) = ctrl_signal SIG_CONTOLLER_WARNING code note"
| "rc_signal str (Plugin (ControllerError code note)) = ctrl_signal SIG_CONTROLLER_ERROR code note"
| "rc_signal str (Plugin (ControllerFatal code note)) = ctrl_signal SIG_CONTROLLER_FATAL code note"
| "rc_signal str (Plugin (OtherException note)) = ctrl_signal SIG_CONTROLLER_FATAL 100 note"
| "rc_signal str (Runtime e) = ctrl_signal SIG_CONTROLLER_FATAL 100 (str e)"

definition step_to_goal :: "rc_env \<Rightarrow> rc_state \<Rightarrow> rc_error option \<times> rc_state" where
  "step_to_goal env s =
     (let actual = actual_state s; goal = mc_goal (snd s)
      in if actual = goal then (None, s)
         else if goal = RUNNING then step_to_running env actual s
         else if goal = INITIALIZED then step_to_initialized env actual s
         else step_to_uninitialized env s)"

text \<open>One pass over all controllers, with a signal handler that returns: the signals raised, in
  order, and the new state.\<close>

fun reconcile ::
  "(looper_error \<Rightarrow> string) \<Rightarrow> (nat \<Rightarrow> rc_env) \<Rightarrow> LoopSupervisor \<Rightarrow> ManagedController list
    \<Rightarrow> (ManagedController \<times> Signal) list \<times> LoopSupervisor \<times> ManagedController list" where
  "reconcile str env ls [] = ([], ls, [])"
| "reconcile str env ls (mc # mcs) =
     (let (err, (ls, mc)) = step_to_goal (env (mc_loop mc)) (ls, mc);
          sigs = (case err of None \<Rightarrow> [] | Some e \<Rightarrow> [(mc, rc_signal str e)]);
          (sigs', ls, mcs) = reconcile str env ls mcs
      in (sigs @ sigs', ls, mc # mcs))"

fun ctrl_state_name :: "ControllerState \<Rightarrow> string" where
  "ctrl_state_name UNINITIALIZED = ''UNINITIALIZED''"
| "ctrl_state_name INITIALIZED = ''INITIALIZED''"
| "ctrl_state_name RUNNING = ''RUNNING''"

definition get_status_for_controller_json :: "LoopSupervisor \<Rightarrow> ManagedController \<Rightarrow> (string, json) dict" where
  "get_status_for_controller_json ls mc =
     [(''goal'', JStr (ctrl_state_name (mc_goal mc))),
      (''state'', JStr (ctrl_state_name (actual_state (ls, mc)))),
      (''loop_running'', JBool (loop_running ls mc)),
      (''hw_initialized'', JBool (ctrl_initialized (mc_ctrl mc)))]"

definition discrepancy :: "LoopSupervisor \<Rightarrow> ManagedController \<Rightarrow> bool" where
  "discrepancy ls mc \<longleftrightarrow> ctrl_state_name (mc_goal mc) \<noteq> ctrl_state_name (actual_state (ls, mc))"

definition get_status_json :: "LoopSupervisor \<Rightarrow> ManagedController list \<Rightarrow> (string, json) dict" where
  "get_status_json ls mcs =
     dict_set
       (foldl (\<lambda>st mc. dict_set st (ctrl_name (mc_ctrl mc)) (JObj (get_status_for_controller_json ls mc))) [] mcs)
       ''has_discrepancy'' (JBool (list_ex (discrepancy ls) mcs))"

section \<open>Lemmas\<close>

lemmas rc_defs = step_to_goal_def step_to_running_def step_to_initialized_def step_to_uninitialized_def
  deinit_if_needed_def start_or_pause_def with_ctrl_def Let_def split_beta

text \<open>A controller and its loop as one record of four flags, for a registered loop.\<close>

definition registered :: "LoopSupervisor \<Rightarrow> ManagedController \<Rightarrow> bool" where
  "registered ls mc \<longleftrightarrow> pool_inv ls \<and> get_loop_from_id (mc_loop mc) ls \<noteq> None"

definition cooperative :: "rc_env \<Rightarrow> nat \<Rightarrow> bool" where
  "cooperative env i \<longleftrightarrow> rc_init env = HwReturns True \<and> rc_deinit env = HwReturns True \<and> rc_os_ok env
     \<and> length (rc_sched env) \<ge> 2 \<and> rc_caller env \<noteq> Some i"

lemma get_put: "get_loop_from_id i (put_loop d ls) = (if i = loop_id d then Some d else get_loop_from_id i ls)"
  by (simp add: get_loop_from_id_def put_loop_def dict_get_set)

lemma actual_Some:
  "get_loop_from_id (mc_loop mc) ls = Some d \<Longrightarrow>
   actual_state (ls, mc) =
     (if ctrl_initialized (mc_ctrl mc) \<and> is_running d then (if wait_evt d then RUNNING else INITIALIZED) else UNINITIALIZED)"
  by (simp add: actual_state_def loop_running_def is_paused_def Let_def)

lemma is_running_wait [simp]:
  "is_running (d\<lparr>wait_evt := w\<rparr>) = is_running d" "is_running (d\<lparr>run_evt := r\<rparr>) = is_running d"
  by (simp_all add: is_running_def)

lemma stop_loop_cooperates:
  assumes "get_loop_from_id i ls = Some d" "loop_id d = i" "is_running d" "length sc \<ge> 2" "c \<noteq> Some i"
  shows "\<exists>d'. stop_loop c True sc i ls = (Inr True, put_loop d' (put_loop (request_loop_stop d) ls))
    \<and> loop_id d' = i \<and> \<not> is_running d'"
proof -
  let ?d = "request_loop_stop d"
  let ?d' = "fst (thread_run sc ?d)"
  have r: "is_running ?d" using assms(3) by (simp add: request_loop_stop_def)
  have ended: "loop_thread ?d' = Ended"
    using stop_request_ends_loop_lemma [OF assms(3,4)] by simp
  have "join_desc c sc ?d = Inr ?d'"
    using r assms(2,5) by (auto simp: join_desc_def is_running_def)
  moreover have "\<not> is_running ?d'" using ended by (simp add: is_running_def)
  ultimately show ?thesis using assms(1,2) by (auto simp: stop_loop_def Let_def)
qed

lemma loop_ops_Some:
  assumes "get_loop_from_id i ls = Some d"
  shows "start_loop ok i p ls = (fst (start_desc ok p d), put_loop (snd (start_desc ok p d)) ls)"
    and "pause_loop i ls = (True, put_loop (d\<lparr>wait_evt := False\<rparr>) ls)"
    and "resume_loop i ls = (True, put_loop (d\<lparr>wait_evt := True\<rparr>) ls)"
  using assms by (simp_all add: start_loop_def pause_loop_def resume_loop_def split_beta Let_def)

lemma start_desc_ok:
  "\<not> is_running d \<Longrightarrow> is_running (snd (start_desc True True d)) \<and> \<not> wait_evt (snd (start_desc True True d))"
  by (simp add: start_desc_def Let_def) (simp add: is_running_def)

text \<open>One pass over one controller in a cooperative environment.\<close>

lemma initialize_cooperates:
  assumes d: "get_loop_from_id (mc_loop mc) ls = Some d" "loop_id d = mc_loop mc"
    and coop: "cooperative env (mc_loop mc)" and uninit: "actual_state (ls, mc) = UNINITIALIZED"
  shows "\<exists>d'. step_to_initialized env UNINITIALIZED (ls, mc) =
      (None, (put_loop d' ls, mc\<lparr>mc_ctrl := (mc_ctrl mc)\<lparr>ctrl_initialized := True\<rparr>\<rparr>))
    \<and> loop_id d' = mc_loop mc \<and> is_running d' \<and> \<not> wait_evt d'"
proof -
  let ?c = "(mc_ctrl mc)\<lparr>ctrl_initialized := True\<rparr>"
  have init: "init_wrapper (rc_init env) (mc_ctrl mc) = (Inr True, ?c)"
    using coop by (simp add: cooperative_def)
  have same: "ctrl_initialized (mc_ctrl mc) \<Longrightarrow> mc\<lparr>mc_ctrl := ?c\<rparr> = mc" by simp
  have start: "rc_os_ok env" using coop by (simp add: cooperative_def)
  show ?thesis
  proof (cases "is_running d")
    case True
    have "step_to_initialized env UNINITIALIZED (ls, mc) = (None, (put_loop (d\<lparr>wait_evt := False\<rparr>) ls, mc\<lparr>mc_ctrl := ?c\<rparr>))"
      using d True init same
      by (cases "ctrl_initialized (mc_ctrl mc)") (simp_all add: rc_defs loop_running_def loop_ops_Some)
    then show ?thesis using True d by (intro exI [of _ "d\<lparr>wait_evt := False\<rparr>"]) simp
  next
    case False
    have "step_to_initialized env UNINITIALIZED (ls, mc) =
        (None, (put_loop (snd (start_desc True True d)) ls, mc\<lparr>mc_ctrl := ?c\<rparr>))"
      using d False init same start
      by (cases "ctrl_initialized (mc_ctrl mc)") (simp_all add: rc_defs loop_running_def loop_ops_Some)
    then show ?thesis using False d start_desc_ok [OF False]
      by (intro exI [of _ "snd (start_desc True True d)"]) simp
  qed
qed

lemma running_cooperates:
  assumes d: "get_loop_from_id (mc_loop mc) ls = Some d" "loop_id d = mc_loop mc"
    and coop: "cooperative env (mc_loop mc)" and act: "actual_state (ls, mc) \<noteq> RUNNING"
  shows "\<exists>ls' mc'. step_to_running env (actual_state (ls, mc)) (ls, mc) = (None, (ls', mc'))
    \<and> actual_state (ls', mc') = RUNNING"
proof -
  define init where "init = mc\<lparr>mc_ctrl := (mc_ctrl mc)\<lparr>ctrl_initialized := True\<rparr>\<rparr>"
  show ?thesis
  proof (cases "actual_state (ls, mc) = UNINITIALIZED")
    case True
    obtain d' where st: "step_to_initialized env UNINITIALIZED (ls, mc) = (None, (put_loop d' ls, init))"
      and d': "loop_id d' = mc_loop mc" "is_running d'" "\<not> wait_evt d'"
      using initialize_cooperates [OF d coop True] by (auto simp: init_def)
    have l: "mc_loop init = mc_loop mc" "ctrl_initialized (mc_ctrl init)" by (simp_all add: init_def)
    have got: "get_loop_from_id (mc_loop init) (put_loop d' ls) = Some d'" by (simp add: get_put d' l)
    have a: "actual_state (put_loop d' ls, init) = INITIALIZED"
      using d' l by (simp add: actual_Some [OF got])
    have got2: "get_loop_from_id (mc_loop init) (put_loop (d'\<lparr>wait_evt := True\<rparr>) (put_loop d' ls)) = Some (d'\<lparr>wait_evt := True\<rparr>)"
      by (simp add: get_put d' l)
    have "step_to_running env (actual_state (ls, mc)) (ls, mc) =
        (None, (put_loop (d'\<lparr>wait_evt := True\<rparr>) (put_loop d' ls), init))"
      using True st a by (simp add: step_to_running_def Let_def loop_ops_Some(3) [OF got])
    then show ?thesis using d' l by (simp add: actual_Some [OF got2])
  next
    case False
    with act have a: "actual_state (ls, mc) = INITIALIZED" by (cases "actual_state (ls, mc)") auto
    have got2: "get_loop_from_id (mc_loop mc) (put_loop (d\<lparr>wait_evt := True\<rparr>) ls) = Some (d\<lparr>wait_evt := True\<rparr>)"
      by (simp add: get_put d)
    have "step_to_running env (actual_state (ls, mc)) (ls, mc) = (None, (put_loop (d\<lparr>wait_evt := True\<rparr>) ls, mc))"
      using a d by (simp add: step_to_running_def Let_def loop_ops_Some)
    then show ?thesis using a d by (simp add: actual_Some [OF got2] actual_Some [OF d(1)] split: if_splits)
  qed
qed

lemma uninitialized_cooperates:
  assumes d: "get_loop_from_id (mc_loop mc) ls = Some d" "loop_id d = mc_loop mc"
    and coop: "cooperative env (mc_loop mc)" and act: "actual_state (ls, mc) \<noteq> UNINITIALIZED"
  shows "\<exists>ls' mc'. step_to_uninitialized env (ls, mc) = (None, (ls', mc'))
    \<and> actual_state (ls', mc') = UNINITIALIZED \<and> \<not> ctrl_initialized (mc_ctrl mc') \<and> \<not> loop_running ls' mc'"
proof -
  have run: "is_running d" and hw: "ctrl_initialized (mc_ctrl mc)"
    using act by (auto simp: actual_Some [OF d(1)] split: if_splits)
  obtain d' where stop: "stop_loop (rc_caller env) True (rc_sched env) (mc_loop mc) ls =
      (Inr True, put_loop d' (put_loop (request_loop_stop d) ls))"
    and d': "loop_id d' = mc_loop mc" "\<not> is_running d'"
    using stop_loop_cooperates [OF d run] coop by (auto simp: cooperative_def)
  let ?ls = "put_loop d' (put_loop (request_loop_stop d) ls)"
  let ?mc = "mc\<lparr>mc_ctrl := (mc_ctrl mc)\<lparr>ctrl_initialized := False\<rparr>\<rparr>"
  have "step_to_uninitialized env (ls, mc) = (None, (?ls, ?mc))"
    using run d stop hw coop by (simp add: rc_defs loop_running_def cooperative_def)
  then show ?thesis using d' by (simp add: actual_state_def loop_running_def get_put Let_def)
qed

lemma step_reaches_goal:
  assumes reg: "registered ls mc" and coop: "cooperative env (mc_loop mc)"
  shows "\<exists>ls' mc'. step_to_goal env (ls, mc) = (None, (ls', mc')) \<and> actual_state (ls', mc') = mc_goal mc"
proof (cases "actual_state (ls, mc) = mc_goal mc")
  case False
  from reg obtain d where d: "get_loop_from_id (mc_loop mc) ls = Some d" by (auto simp: registered_def)
  with reg have di: "loop_id d = mc_loop mc" by (auto simp: registered_def dest: pool_get)
  show ?thesis
  proof (cases "mc_goal mc")
    case RUNNING
    with False running_cooperates [OF d di coop] show ?thesis by (auto simp: step_to_goal_def Let_def)
  next
    case UNINITIALIZED
    with False uninitialized_cooperates [OF d di coop] show ?thesis by (auto simp: step_to_goal_def Let_def)
  next
    case INITIALIZED
    show ?thesis
    proof (cases "actual_state (ls, mc) = UNINITIALIZED")
      case True
      then show ?thesis using INITIALIZED initialize_cooperates [OF d di coop]
        by (auto simp: step_to_goal_def Let_def actual_Some get_put)
    next
      case False
      with INITIALIZED \<open>actual_state (ls, mc) \<noteq> mc_goal mc\<close> have a: "actual_state (ls, mc) = RUNNING"
        by (cases "actual_state (ls, mc)") auto
      have "step_to_goal env (ls, mc) = (None, (put_loop (d\<lparr>wait_evt := False\<rparr>) ls, mc))"
        using INITIALIZED a by (simp add: step_to_goal_def step_to_initialized_def Let_def loop_ops_Some [OF d])
      then show ?thesis using INITIALIZED a di
        by (simp add: actual_Some get_put actual_Some [OF d] split: if_splits)
    qed
  qed
qed (simp add: step_to_goal_def)

section \<open>A pass over one controller leaves the other loops alone\<close>

definition only_loop :: "nat \<Rightarrow> LoopSupervisor \<Rightarrow> LoopSupervisor \<Rightarrow> bool" where
  "only_loop i ls ls' \<longleftrightarrow> pool_inv ls' \<and> (\<forall>j. j \<noteq> i \<longrightarrow> get_loop_from_id j ls' = get_loop_from_id j ls)
     \<and> (get_loop_from_id i ls' = None \<longleftrightarrow> get_loop_from_id i ls = None)"

lemma only_loop_refl [simp]: "pool_inv ls \<Longrightarrow> only_loop i ls ls"
  by (simp add: only_loop_def)

lemma only_loop_trans: "only_loop i ls ls' \<Longrightarrow> only_loop i ls' ls'' \<Longrightarrow> only_loop i ls ls''"
  by (simp add: only_loop_def)

lemma only_loop_pool: "only_loop i ls ls' \<Longrightarrow> pool_inv ls'"
  by (simp add: only_loop_def)

lemma only_loop_put:
  assumes "pool_inv ls" "get_loop_from_id i ls = Some d" "loop_id d' = loop_id d" "freq d' = freq d"
  shows "only_loop i ls (put_loop d' ls)"
  using pool_get [OF assms(1,2)] put_same_inv [OF assms] assms by (simp add: only_loop_def get_put)

lemma only_loop_ops:
  assumes "pool_inv ls"
  shows "only_loop i ls (snd (start_loop ok i p ls))"
    and "only_loop i ls (snd (pause_loop i ls))"
    and "only_loop i ls (snd (resume_loop i ls))"
proof -
  have "only_loop i ls (snd (start_loop ok i p ls)) \<and> only_loop i ls (snd (pause_loop i ls))
      \<and> only_loop i ls (snd (resume_loop i ls))"
  proof (cases "get_loop_from_id i ls")
    case None
    with assms show ?thesis by (simp add: start_loop_def pause_loop_def resume_loop_def)
  next
    case (Some d)
    note put = only_loop_put [OF assms Some]
    show ?thesis unfolding loop_ops_Some [OF Some] snd_conv
      by (intro conjI put) simp_all
  qed
  then show "only_loop i ls (snd (start_loop ok i p ls))" "only_loop i ls (snd (pause_loop i ls))"
    "only_loop i ls (snd (resume_loop i ls))" by simp_all
qed

lemma only_loop_stop:
  assumes "pool_inv ls"
  shows "only_loop i ls (snd (stop_loop c b sc i ls))"
proof (cases "get_loop_from_id i ls")
  case (Some d)
  then have i: "loop_id d = i" using pool_get [OF assms] by blast
  let ?ls = "put_loop (request_loop_stop d) ls"
  have 1: "only_loop i ls ?ls" by (rule only_loop_put [OF assms Some]) simp_all
  have 2: "get_loop_from_id i ?ls = Some (request_loop_stop d)" by (simp add: get_put i)
  have "only_loop i ?ls (put_loop d' ?ls)" if "loop_id d' = loop_id d" "freq d' = freq d" for d'
    by (rule only_loop_put [OF only_loop_pool [OF 1] 2]) (simp_all add: that)
  then have "only_loop i ls (put_loop d' ?ls)" if "loop_id d' = loop_id d" "freq d' = freq d" for d'
    using that only_loop_trans [OF 1] by blast
  note put = this
  show ?thesis
  proof (cases "if b then join_desc c sc (request_loop_stop d) else Inr (request_loop_stop d)")
    case (Inl e)
    with 1 Some show ?thesis by (simp add: stop_loop_def Let_def)
  next
    case (Inr d')
    then have "loop_id d' = loop_id d" "freq d' = freq d"
      using join_desc_frame [of c sc "request_loop_stop d" d'] by (auto split: if_splits)
    then have "only_loop i ls (put_loop d' ?ls)" by (rule put)
    with Some Inr show ?thesis by (simp add: stop_loop_def Let_def)
  qed
qed (simp add: stop_loop_def assms)

definition rc_frame :: "rc_state \<Rightarrow> rc_error option \<times> rc_state \<Rightarrow> bool" where
  "rc_frame s r \<longleftrightarrow> only_loop (mc_loop (snd s)) (fst s) (fst (snd r))
     \<and> mc_loop (snd (snd r)) = mc_loop (snd s) \<and> mc_goal (snd (snd r)) = mc_goal (snd s)"

lemma start_or_pause_frame:
  assumes "pool_inv (fst s)" shows "rc_frame s (e, start_or_pause env s)"
  using assms by (cases s) (simp add: rc_frame_def start_or_pause_def only_loop_ops)

lemma rc_frame_ctrl:
  "rc_frame (ls, with_ctrl c mc) r \<Longrightarrow> rc_frame (ls, mc) r"
  by (simp add: rc_frame_def with_ctrl_def)

lemma rc_frame_trans: "rc_frame s (e, s') \<Longrightarrow> rc_frame s' r \<Longrightarrow> rc_frame s r"
  by (auto simp: rc_frame_def intro: only_loop_trans)

lemma initialized_frame:
  assumes "pool_inv (fst s)" shows "rc_frame s (step_to_initialized env a s)"
proof (cases s)
  case (Pair ls mc)
  with assms have inv: "pool_inv ls" by simp
  have self: "rc_frame (ls, mc) (e, (ls, with_ctrl c mc))" for e c
    using inv by (simp add: rc_frame_def with_ctrl_def)
  have sp: "rc_frame (ls, mc) (e, start_or_pause env (ls, with_ctrl c mc))" for e c
    by (rule rc_frame_ctrl, rule start_or_pause_frame) (simp add: inv)
  have ctrl: "with_ctrl (mc_ctrl mc) mc = mc" by (simp add: with_ctrl_def)
  have pause: "rc_frame (ls, mc) (None, (snd (pause_loop (mc_loop mc) ls), mc))"
    using inv by (simp add: rc_frame_def only_loop_ops)
  obtain r c where w: "init_wrapper (rc_init env) (mc_ctrl mc) = (r, c)"
    by (cases "init_wrapper (rc_init env) (mc_ctrl mc)")
  show ?thesis
  proof (cases a)
    case UNINITIALIZED
    show ?thesis
    proof (cases "ctrl_initialized (mc_ctrl mc)")
      case True
      with UNINITIALIZED sp [of None "mc_ctrl mc"] show ?thesis
        by (simp add: Pair step_to_initialized_def ctrl)
    next
      case False
      with UNINITIALIZED w have
        "step_to_initialized env a s = (case r of Inl e \<Rightarrow> (Some (Plugin e), (ls, with_ctrl c mc))
           | Inr ok \<Rightarrow> (None, if ok then start_or_pause env (ls, with_ctrl c mc) else (ls, with_ctrl c mc)))"
        by (simp add: Pair step_to_initialized_def split: sum.split)
      with sp self show ?thesis unfolding Pair by (simp split: sum.split)
    qed
  qed (simp_all add: Pair step_to_initialized_def pause self [of None "mc_ctrl mc", unfolded ctrl])
qed

lemma running_frame:
  assumes "pool_inv (fst s)" shows "rc_frame s (step_to_running env a s)"
proof -
  have resume: "rc_frame s' (None, (snd (resume_loop (mc_loop (snd s')) (fst s')), snd s'))"
    if "pool_inv (fst s')" for s' using that by (cases s') (simp add: rc_frame_def only_loop_ops)
  have init: "rc_frame s (step_to_initialized env UNINITIALIZED s)" by (rule initialized_frame [OF assms])
  obtain e s' where st: "step_to_initialized env UNINITIALIZED s = (e, s')"
    by (cases "step_to_initialized env UNINITIALIZED s")
  have inv: "pool_inv (fst s')" using init by (simp add: st rc_frame_def only_loop_def)
  have "rc_frame s (f, s')" for f using init by (simp add: st rc_frame_def)
  moreover have "rc_frame s (None, (snd (resume_loop (mc_loop (snd s')) (fst s')), snd s'))"
    using rc_frame_trans [OF init [unfolded st] resume [OF inv]] .
  moreover have "rc_frame s (None, s)" using assms by (simp add: rc_frame_def)
  ultimately show ?thesis
    using resume [OF assms] init by (auto simp: step_to_running_def Let_def st)
qed

lemma uninitialized_frame:
  assumes "pool_inv (fst s)" shows "rc_frame s (step_to_uninitialized env s)"
proof -
  have deinit: "rc_frame s' (deinit_if_needed env s')" if "pool_inv (fst s')" for s'
    using that
    by (cases s'; cases "deinit_wrapper (rc_deinit env) (mc_ctrl (snd s'))")
      (auto simp: deinit_if_needed_def rc_frame_def with_ctrl_def split: sum.split)
  obtain ls mc where s: "s = (ls, mc)" by (cases s)
  have stop: "rc_frame s (e, (snd (stop_loop (rc_caller env) True (rc_sched env) (mc_loop mc) ls), mc))" for e
    using assms by (simp add: s rc_frame_def only_loop_stop)
  have "pool_inv (snd (stop_loop (rc_caller env) True (rc_sched env) (mc_loop mc) ls))"
    using assms only_loop_pool [OF only_loop_stop] by (simp add: s)
  with stop deinit [OF assms] rc_frame_trans [OF stop deinit] show ?thesis
    by (cases "stop_loop (rc_caller env) True (rc_sched env) (mc_loop mc) ls")
      (auto simp: s step_to_uninitialized_def split: sum.split)
qed

lemma goal_frame: "pool_inv ls \<Longrightarrow> rc_frame (ls, mc) (step_to_goal env (ls, mc))"
  using initialized_frame [of "(ls, mc)"] running_frame [of "(ls, mc)"] uninitialized_frame [of "(ls, mc)"]
  by (simp add: step_to_goal_def Let_def) (simp add: rc_frame_def)

lemma step_goal_kept: "mc_goal (snd (snd (step_to_goal env s))) = mc_goal (snd s)"
proof -
  obtain ls mc where s: "s = (ls, mc)" by (cases s)
  have sp: "mc_goal (snd (start_or_pause env (l, m))) = mc_goal m" for l m
    by (simp add: start_or_pause_def)
  have init: "mc_goal (snd (snd (step_to_initialized env a (ls, mc)))) = mc_goal mc" for a
    by (auto simp: step_to_initialized_def with_ctrl_def sp split: prod.split sum.split)
  have run: "mc_goal (snd (snd (step_to_running env a (ls, mc)))) = mc_goal mc" for a
    using init [of UNINITIALIZED] by (auto simp: step_to_running_def Let_def split_beta)
  have "mc_goal (snd (snd (deinit_if_needed env (l, mc)))) = mc_goal mc" for l
    by (auto simp: deinit_if_needed_def with_ctrl_def split: prod.split sum.split)
  then have "mc_goal (snd (snd (step_to_uninitialized env (ls, mc)))) = mc_goal mc"
    by (auto simp: step_to_uninitialized_def split: prod.split sum.split)
  with init run show ?thesis by (simp add: s step_to_goal_def Let_def)
qed

lemma actual_only_loop:
  "only_loop i ls ls' \<Longrightarrow> mc_loop mc \<noteq> i \<Longrightarrow> actual_state (ls', mc) = actual_state (ls, mc)"
  by (simp add: only_loop_def actual_state_def loop_running_def is_paused_def)

lemma registered_only_loop:
  "only_loop i ls ls' \<Longrightarrow> registered ls mc \<Longrightarrow> registered ls' mc"
  by (cases "mc_loop mc = i") (auto simp: only_loop_def registered_def)

lemma reconcile_reaches_goals:
  assumes "\<forall>mc \<in> set mcs. registered ls mc" "\<forall>mc \<in> set mcs. cooperative (env (mc_loop mc)) (mc_loop mc)"
    and "distinct (map mc_loop mcs)" and "pool_inv ls"
  shows "\<exists>ls' mcs'. reconcile str env ls mcs = ([], ls', mcs')
    \<and> map mc_goal mcs' = map mc_goal mcs \<and> map mc_loop mcs' = map mc_loop mcs
    \<and> (\<forall>mc \<in> set mcs'. actual_state (ls', mc) = mc_goal mc)
    \<and> (\<forall>i. i \<notin> set (map mc_loop mcs) \<longrightarrow> get_loop_from_id i ls' = get_loop_from_id i ls)"
  using assms
proof (induction mcs arbitrary: ls)
  case (Cons mc mcs)
  obtain ls1 mc1 where step: "step_to_goal (env (mc_loop mc)) (ls, mc) = (None, (ls1, mc1))"
    and goal: "actual_state (ls1, mc1) = mc_goal mc"
    using step_reaches_goal [of ls mc "env (mc_loop mc)"] Cons.prems by auto
  have frame: "only_loop (mc_loop mc) ls ls1" "mc_loop mc1 = mc_loop mc" "mc_goal mc1 = mc_goal mc"
    using goal_frame [OF Cons.prems(4), of mc "env (mc_loop mc)"] by (simp_all add: step rc_frame_def)
  have "\<forall>m \<in> set mcs. registered ls1 m" using Cons.prems(1) frame(1) registered_only_loop by auto
  then obtain ls2 mcs2 where rec: "reconcile str env ls1 mcs = ([], ls2, mcs2)"
    and r: "map mc_goal mcs2 = map mc_goal mcs" "map mc_loop mcs2 = map mc_loop mcs"
      "\<forall>m \<in> set mcs2. actual_state (ls2, m) = mc_goal m"
      "\<forall>i. i \<notin> set (map mc_loop mcs) \<longrightarrow> get_loop_from_id i ls2 = get_loop_from_id i ls1"
    using Cons.IH [of ls1] Cons.prems only_loop_pool [OF frame(1)] by auto
  have "mc_loop mc1 \<notin> set (map mc_loop mcs)" using Cons.prems(3) frame by simp
  then have "get_loop_from_id (mc_loop mc1) ls2 = get_loop_from_id (mc_loop mc1) ls1" using r(4) by blast
  then have "actual_state (ls2, mc1) = mc_goal mc1"
    using goal frame(3) by (simp add: actual_state_def loop_running_def is_paused_def)
  moreover have "get_loop_from_id i ls2 = get_loop_from_id i ls" if "i \<notin> set (map mc_loop (mc # mcs))" for i
    using that r(4) frame(1) by (auto simp: only_loop_def)
  ultimately show ?case using r frame by (simp add: step rec)
qed simp

section \<open>Safety of a pass, in any environment\<close>

text \<open>The gate of a loop is open when its thread may start a job.\<close>

definition gate_open :: "LoopSupervisor \<Rightarrow> nat \<Rightarrow> bool" where
  "gate_open ls i = (case get_loop_from_id i ls of None \<Rightarrow> False | Some d \<Rightarrow> is_running d \<and> run_evt d \<and> wait_evt d)"

lemma thread_step_run: "\<not> run_evt d \<Longrightarrow> \<not> run_evt (fst (thread_step x d))"
proof (cases "loop_thread d")
  case InJob
  assume run: "\<not> run_evt d"
  have "\<not> run_evt (apply_action a d)" for a using run by (cases a) simp_all
  with InJob run show ?thesis
    by (cases "(fst x, snd x, d)" rule: finish_job.cases) (auto simp: thread_step_def after_job_def Let_def)
qed (simp_all add: thread_step_def)

lemma thread_run_run: "\<not> run_evt d \<Longrightarrow> \<not> run_evt (fst (thread_run sc d))"
  by (induction sc arbitrary: d) (simp_all add: thread_run_Cons thread_step_run)

lemma gate_start_paused: "pool_inv ls \<Longrightarrow> gate_open (snd (start_loop ok i True ls)) i \<Longrightarrow> gate_open ls i"
  by (cases "get_loop_from_id i ls")
    (auto simp: gate_open_def loop_ops_Some get_put start_desc_def Let_def dest: pool_get split: if_splits,
     simp add: start_loop_def)

lemma gate_pause: "pool_inv ls \<Longrightarrow> \<not> gate_open (snd (pause_loop i ls)) i"
  by (cases "get_loop_from_id i ls")
    (auto simp: gate_open_def loop_ops_Some get_put dest: pool_get, simp add: pause_loop_def)

lemma idle_run: "\<not> is_running d \<Longrightarrow> thread_run sc d = (d, [])"
proof (induction sc)
  case (Cons x sc)
  then show ?case by (cases "loop_thread d") (simp_all add: thread_run_Cons thread_step_def is_running_def)
qed simp

lemma stopping_gate:
  "\<not> (is_running (fst (thread_run sc (request_loop_stop d))) \<and> run_evt (fst (thread_run sc (request_loop_stop d))))"
  "\<not> (is_running (request_loop_stop d) \<and> run_evt (request_loop_stop d))"
  using thread_run_run [of "d\<lparr>run_evt := False, wait_evt := True\<rparr>" sc]
  by (cases "is_running d"; simp add: request_loop_stop_def idle_run)+

lemma gate_stop:
  assumes inv: "pool_inv ls" shows "\<not> gate_open (snd (stop_loop c True sc i ls)) i"
proof (cases "get_loop_from_id i ls")
  case (Some d)
  then have i: "loop_id d = i" using pool_get [OF inv] by blast
  let ?d = "request_loop_stop d"
  have "join_desc c sc ?d = Inr d' \<Longrightarrow> loop_id d' = i \<and> \<not> (is_running d' \<and> run_evt d')" for d'
    using i stopping_gate(2) [of d] stopping_gate(1) [of sc d] by (auto simp: join_desc_def split: if_splits)
  then show ?thesis using Some i stopping_gate(2) [of d]
    by (cases "join_desc c sc ?d") (auto simp: stop_loop_def Let_def gate_open_def get_put)
qed (simp add: stop_loop_def gate_open_def)

lemma initialized_gate:
  assumes "pool_inv ls"
    and "step_to_initialized env a (ls, mc) = (e, (ls', mc'))" "gate_open ls' (mc_loop mc)"
  shows "gate_open ls (mc_loop mc)"
proof -
  have sp: "gate_open (fst (start_or_pause env (ls, mc2))) (mc_loop mc2) \<Longrightarrow> gate_open ls (mc_loop mc2)" for mc2
    using gate_start_paused [OF assms(1)] gate_pause [OF assms(1)]
    by (auto simp: start_or_pause_def split: if_splits)
  obtain r c where w: "init_wrapper (rc_init env) (mc_ctrl mc) = (r, c)"
    by (cases "init_wrapper (rc_init env) (mc_ctrl mc)")
  show ?thesis
    using assms(2,3) sp [of mc] sp [of "with_ctrl c mc"] gate_pause [OF assms(1), of "mc_loop mc"] w
    by (auto simp: step_to_initialized_def with_ctrl_def split: if_splits sum.splits)
qed

lemma running_gate:
  assumes inv: "pool_inv ls"
    and st: "step_to_running env (actual_state (ls, mc)) (ls, mc) = (e, (ls', mc'))" "gate_open ls' (mc_loop mc)"
  shows "gate_open ls (mc_loop mc) \<or> ctrl_initialized (mc_ctrl mc')"
proof -
  obtain f ls1 mc1 where i: "step_to_initialized env UNINITIALIZED (ls, mc) = (f, (ls1, mc1))"
    by (cases "step_to_initialized env UNINITIALIZED (ls, mc)") auto
  have hw: "actual_state (l, m) = INITIALIZED \<Longrightarrow> ctrl_initialized (mc_ctrl m)" for l m
    by (auto simp: actual_state_def Let_def split: if_splits)
  show ?thesis
    using st i initialized_gate [OF inv i] hw
    by (auto simp: step_to_running_def Let_def split: if_splits)
qed

lemma uninitialized_gate:
  assumes inv: "pool_inv ls"
    and st: "step_to_uninitialized env (ls, mc) = (e, (ls', mc'))"
  shows "(gate_open ls' (mc_loop mc) \<longrightarrow> gate_open ls (mc_loop mc))
    \<and> (ctrl_initialized (mc_ctrl mc) \<and> \<not> ctrl_initialized (mc_ctrl mc') \<longrightarrow> \<not> loop_running ls' mc')"
proof -
  let ?r = "stop_loop (rc_caller env) True (rc_sched env) (mc_loop mc) ls"
  have deinit: "deinit_if_needed env (l, mc) = (e, (ls', mc')) \<Longrightarrow> ls' = l \<and> mc_loop mc' = mc_loop mc" for l
    by (auto simp: deinit_if_needed_def with_ctrl_def split: if_splits prod.splits sum.splits)
  show ?thesis
  proof (cases "loop_running ls mc")
    case False
    then have "deinit_if_needed env (ls, mc) = (e, (ls', mc'))" using st by (simp add: step_to_uninitialized_def)
    with deinit False show ?thesis by (auto simp: loop_running_def)
  next
    case True
    have stopped: "\<not> loop_running (snd ?r) mc" if "fst ?r = Inr True"
      using that pool_get [OF inv, of "mc_loop mc"] join_desc_frame
      by (force simp: stop_loop_def Let_def loop_running_def get_put split: option.splits sum.splits)
    show ?thesis
    proof (cases "fst ?r = Inr True")
      case ok: True
      then have "deinit_if_needed env (snd ?r, mc) = (e, (ls', mc'))"
        using st True by (cases ?r) (simp add: step_to_uninitialized_def)
      with deinit [OF this] stopped [OF ok] gate_stop [OF inv] show ?thesis by (auto simp: loop_running_def)
    next
      case fail: False
      then have "ls' = snd ?r" "mc' = mc"
        using st True by (cases ?r; auto simp: step_to_uninitialized_def split: sum.splits if_splits)+
      with gate_stop [OF inv] show ?thesis by auto
    qed
  qed
qed

lemma init_keeps_hw:
  "step_to_initialized env a (ls, mc) = (e, (ls', mc')) \<Longrightarrow> ctrl_initialized (mc_ctrl mc) \<Longrightarrow> ctrl_initialized (mc_ctrl mc')"
  by (auto simp: step_to_initialized_def start_or_pause_def with_ctrl_def split: if_splits)

lemma running_keeps_hw:
  assumes "step_to_running env a (ls, mc) = (e, (ls', mc'))" "ctrl_initialized (mc_ctrl mc)"
  shows "ctrl_initialized (mc_ctrl mc')"
proof -
  obtain f ls1 mc1 where i: "step_to_initialized env UNINITIALIZED (ls, mc) = (f, (ls1, mc1))"
    by (cases "step_to_initialized env UNINITIALIZED (ls, mc)") auto
  show ?thesis using assms i init_keeps_hw [OF i]
    by (auto simp: step_to_running_def Let_def split: if_splits)
qed

text \<open>A concrete controller with one loop, and an environment in which all goes well.\<close>

definition sample_pool :: LoopSupervisor where
  "sample_pool = looper_run [LAdd True ''loop-head'' 50 False False True]"

definition sample_mc :: "bool \<Rightarrow> ControllerState \<Rightarrow> ManagedController" where
  "sample_mc hw goal =
     \<lparr>mc_loop = 1,
      mc_ctrl = \<lparr>ctrl_name = ''head'', flush_freq = 50, command_group = {1}, config_handlers = [],
                 cfg_updates = [], ctrl_initialized = hw\<rparr>,
      mc_goal = goal\<rparr>"

definition good_env :: rc_env where
  "good_env = \<lparr>rc_init = HwReturns True, rc_deinit = HwReturns True, rc_os_ok = True,
     rc_sched = [(JobReturns None, False), (JobReturns None, False)], rc_caller = None\<rparr>"

lemma sample_pool_eq:
  "sample_pool = \<lparr>loop_pool = [(1, \<lparr>loop_name = ''loop-head'', loop_id = 1, run_evt = False, wait_evt = False,
     freq = 50, loop_thread = NoThread, exception_cb = False, has_handler = True\<rparr>)], id_counter = 1\<rparr>"
  by (simp add: sample_pool_def looper_run_def LoopSupervisor_init_def add_loop_def get_new_id_def put_loop_def Let_def)

lemma sample_pool_inv: "pool_inv sample_pool"
  unfolding sample_pool_def by (rule looper_run_inv)

section \<open>Properties\<close>

text \<open>
  C12. When the plugins, the operating system and the threads cooperate, one pass of the
  reconciler brings every managed controller from whatever state it is in to its goal, raises no
  signal, keeps the goals, and leaves every loop it does not manage as it was.
\<close>

theorem reconcile_converges:
  assumes "pool_inv ls" and "\<forall>mc \<in> set mcs. get_loop_from_id (mc_loop mc) ls \<noteq> None"
    and "\<forall>mc \<in> set mcs. cooperative (env (mc_loop mc)) (mc_loop mc)"
    and "distinct (map mc_loop mcs)"
  shows "\<exists>ls' mcs'. reconcile str env ls mcs = ([], ls', mcs')
    \<and> map mc_goal mcs' = map mc_goal mcs \<and> map mc_loop mcs' = map mc_loop mcs
    \<and> (\<forall>mc \<in> set mcs'. actual_state (ls', mc) = mc_goal mc)
    \<and> (\<forall>i. i \<notin> set (map mc_loop mcs) \<longrightarrow> get_loop_from_id i ls' = get_loop_from_id i ls)"
  using assms by (intro reconcile_reaches_goals) (auto simp: registered_def)

theorem reconcile_converges_witness:
  "\<exists>ls' mc'. reconcile (\<lambda>_. []) (\<lambda>_. good_env) sample_pool [sample_mc False RUNNING] = ([], ls', [mc'])
     \<and> actual_state (ls', mc') = RUNNING"
  using reconcile_converges [of sample_pool "[sample_mc False RUNNING]" "\<lambda>_. good_env" "\<lambda>_. []"] sample_pool_inv
  by (auto simp: sample_pool_eq get_loop_from_id_def sample_mc_def cooperative_def good_env_def map_eq_Cons_conv)

text \<open>
  C13. Whatever the plugin, the operating system and the threads do, a pass over a controller lets
  its loop run jobs only if the loop already could, or the goal is RUNNING and the hardware is
  initialized; and it takes an initialized controller out of its initialized state only once its
  loop's thread has ended.
\<close>

theorem reconcile_step_is_safe:
  assumes "pool_inv ls" and "step_to_goal env (ls, mc) = (e, (ls', mc'))"
  shows "(gate_open ls' (mc_loop mc) \<longrightarrow>
      gate_open ls (mc_loop mc) \<or> mc_goal mc = RUNNING \<and> ctrl_initialized (mc_ctrl mc'))
    \<and> (ctrl_initialized (mc_ctrl mc) \<and> \<not> ctrl_initialized (mc_ctrl mc') \<longrightarrow> \<not> loop_running ls' mc')"
proof (cases "actual_state (ls, mc) = mc_goal mc")
  case False
  show ?thesis
  proof (cases "mc_goal mc")
    case RUNNING
    with False assms(2) have "step_to_running env (actual_state (ls, mc)) (ls, mc) = (e, (ls', mc'))"
      by (simp add: step_to_goal_def Let_def)
    with RUNNING running_gate [OF assms(1) this] running_keeps_hw [OF this] show ?thesis by auto
  next
    case INITIALIZED
    with False assms(2) have "step_to_initialized env (actual_state (ls, mc)) (ls, mc) = (e, (ls', mc'))"
      by (simp add: step_to_goal_def Let_def)
    with initialized_gate [OF assms(1) this] init_keeps_hw [OF this] show ?thesis by auto
  next
    case UNINITIALIZED
    with False assms(2) have "step_to_uninitialized env (ls, mc) = (e, (ls', mc'))"
      by (simp add: step_to_goal_def Let_def)
    with uninitialized_gate [OF assms(1) this] show ?thesis by auto
  qed
qed (use assms(2) in \<open>simp add: step_to_goal_def\<close>)

theorem reconcile_step_is_safe_witness:
  "\<exists>e ls' mc'. step_to_goal good_env (sample_pool, sample_mc False INITIALIZED) = (e, (ls', mc')) \<and> \<not> gate_open ls' 1"
proof -
  obtain e ls' mc' where st: "step_to_goal good_env (sample_pool, sample_mc False INITIALIZED) = (e, (ls', mc'))"
    by (cases "step_to_goal good_env (sample_pool, sample_mc False INITIALIZED)") auto
  have "\<not> gate_open sample_pool 1" by (simp add: sample_pool_eq gate_open_def get_loop_from_id_def)
  with reconcile_step_is_safe [OF sample_pool_inv st] st show ?thesis by (auto simp: sample_mc_def)
qed

text \<open>
  A deinitialization that fails is never retried: once the loop of a controller with goal
  UNINITIALIZED has ended, the controller counts as uninitialized even while its hardware is
  still initialized, and every later pass leaves it exactly as it is.
\<close>

theorem failed_deinit_is_not_retried:
  assumes "mc_goal mc = UNINITIALIZED" and "\<not> loop_running ls mc" and "ctrl_initialized (mc_ctrl mc)"
  shows "step_to_goal env (ls, mc) = (None, (ls, mc)) \<and> \<not> discrepancy ls mc"
  using assms by (simp add: step_to_goal_def actual_state_def Let_def discrepancy_def)

theorem failed_deinit_is_not_retried_witness:
  "step_to_goal good_env (sample_pool, sample_mc True UNINITIALIZED) = (None, (sample_pool, sample_mc True UNINITIALIZED))"
  using failed_deinit_is_not_retried [of "sample_mc True UNINITIALIZED" sample_pool good_env]
  by (simp add: sample_mc_def loop_running_def sample_pool_eq get_loop_from_id_def is_running_def)

end
