(* ===== verification/HwManager.thy ===== *)
theory HwManager
  imports Alerts Reconciler
begin

text \<open>
  The hardware manager process (\<open>hardware_mng\<close>): the command dispatcher, the choice of the
  configuration and the wiring done by \<open>entrypoint.py\<close>, and the lifecycle node.

  A dispatcher handler is an identifier and dispatching gives the calls made, in order; in the
  node the handlers are the loops whose input queue receives the command. Importing a plugin
  class and parsing YAML or JSON are outside the sources: their results are arguments.
\<close>

section \<open>Dispatchers (dispatcher/)\<close>

type_synonym ('k, 'h) dispatcher = "('k, 'h list) dict"

definition bucket :: "('k, 'h) dispatcher \<Rightarrow> 'k \<Rightarrow> 'h list" where
  "bucket d k = (case dict_get d k of None \<Rightarrow> [] | Some hs \<Rightarrow> hs)"

definition get_map_size :: "('k, 'h) dispatcher \<Rightarrow> nat" where
  "get_map_size d = length d"

definition clear_handlers :: "('k, 'h) dispatcher \<Rightarrow> ('k, 'h) dispatcher" where
  "clear_handlers d = []"

definition add_handler :: "'k \<Rightarrow> 'h \<Rightarrow> ('k, 'h) dispatcher \<Rightarrow> ('k, 'h) dispatcher" where
  "add_handler k h d = dict_set d k (bucket d k @ [h])"

definition dispatch :: "('k, 'h) dispatcher \<Rightarrow> 'k \<times> 'p \<Rightarrow> ('h \<times> 'p) list" where
  "dispatch d cmd = (let (key, payload) = cmd in map (\<lambda>h. (h, payload)) (bucket d key))"

definition dispatch_multiple :: "('k, 'h) dispatcher \<Rightarrow> ('k \<times> 'p) list \<Rightarrow> ('h \<times> 'p) list" where
  "dispatch_multiple d cmds = concat (map (\<lambda>(key, payload). map (\<lambda>h. (h, payload)) (bucket d key)) cmds)"

text \<open>The batch dispatcher: a context is a number, entering and leaving it run its hooks.\<close>

datatype ('h, 'p) batch_event = Enter nat | Call 'h 'p | Exit nat

type_synonym 'k batch = "'k set \<times> nat option"

definition add_batch :: "'k set \<Rightarrow> nat option \<Rightarrow> 'k batch list \<Rightarrow> 'k batch list" where
  "add_batch keys context bs = bs @ [(keys, context)]"

definition run_batch :: "('k, 'h) dispatcher \<Rightarrow> nat option \<Rightarrow> ('k \<times> 'p) list \<Rightarrow> ('h, 'p) batch_event list" where
  "run_batch d context cmds =
     (let calls = map (\<lambda>(h, p). Call h p) (dispatch_multiple d cmds)
      in case context of None \<Rightarrow> calls | Some c \<Rightarrow> Enter c # calls @ [Exit c])"

definition batch_dispatch ::
  "('k, 'h) dispatcher \<Rightarrow> 'k batch list \<Rightarrow> ('k \<times> 'p) list \<Rightarrow> ('h, 'p) batch_event list" where
  "batch_dispatch d bs cmds =
     (let batch_commands = map (\<lambda>(keys, _). filter (\<lambda>(k, _). k \<in> keys) cmds) bs;
          unbatched = filter (\<lambda>(k, _). \<not> list_ex (\<lambda>(keys, _). k \<in> keys) bs) cmds
      in concat (map (\<lambda>((keys, context), cs). if cs = [] then [] else run_batch d context cs)
                  (zip bs batch_commands)) @
         (if length unbatched > 0 then map (\<lambda>(h, p). Call h p) (dispatch_multiple d unbatched) else []))"

section \<open>Choosing the configuration (entrypoint.py, plugins\_loader.py)\<close>

definition last_existing_path :: "(string \<Rightarrow> bool) \<Rightarrow> string list \<Rightarrow> string" where
  "last_existing_path exists paths = (case find exists (rev paths) of None \<Rightarrow> '''' | Some p \<Rightarrow> p)"

definition register_plugin_dirs :: "string list \<Rightarrow> string list \<Rightarrow> string list" where
  "register_plugin_dirs dirs sys_path =
     foldl (\<lambda>sp d. if d \<notin> set sp then d # sp else sp) sys_path dirs"

fun all_strings :: "json list \<Rightarrow> string list option" where
  "all_strings [] = Some []"
| "all_strings (JStr s # vs) = map_option (Cons s) (all_strings vs)"
| "all_strings (_ # vs) = None"

definition string_list :: "json \<Rightarrow> string list option" where
  "string_list v = (case v of JList vs \<Rightarrow> all_strings vs | _ \<Rightarrow> None)"

text \<open>The configuration file parsed, \<open>None\<close> when it cannot be; the result is an exit code or the
  chosen configuration and its controller paths.\<close>

definition choose_config ::
  "(string \<Rightarrow> bool) \<Rightarrow> (string \<Rightarrow> (string, json) dict option) \<Rightarrow> string list \<Rightarrow> string
    \<Rightarrow> int + (string \<times> string list)" where
  "choose_config exists load files input_config =
     (let file = last_existing_path exists files
      in if file = '''' then Inl HWMNG_NO_CONFIG_FILES_SPECIFIED
         else case load file of
           None \<Rightarrow> Inl HWMNG_CONFIG_LOAD_FAILED
         | Some config \<Rightarrow>
             res_bind (if input_config = ''''
                       then (case dict_get config ''default_config'' of
                               Some (JStr s) \<Rightarrow> Inr s | _ \<Rightarrow> Inl HWMNG_NO_CONFIG_SPECIFIED)
                       else Inr input_config) (\<lambda>name.
             (case dict_get config name of
                None \<Rightarrow> Inl HWMNG_UNKNOWN_CONFIG_SPECIFIED
              | Some JNull \<Rightarrow> Inl HWMNG_UNKNOWN_CONFIG_SPECIFIED
              | Some v \<Rightarrow>
                  (case string_list v of
                     None \<Rightarrow> Inl HWMNG_INVALID_CONFIG_FORMAT
                   | Some paths \<Rightarrow> Inr (name, paths)))))"

datatype load_result =
    Import_failed | Not_a_controller_class | Instantiation_failed | Wrong_instance | Loaded HwController

definition load_controllers :: "(string \<Rightarrow> load_result) \<Rightarrow> string list \<Rightarrow> HwController list" where
  "load_controllers import paths =
     concat (map (\<lambda>p. case import p of Loaded c \<Rightarrow> [c] | _ \<Rightarrow> []) paths)"

definition check_loaded :: "nat \<Rightarrow> nat \<Rightarrow> bool \<Rightarrow> int + unit" where
  "check_loaded ok n strict =
     (if ok = n then Inr ()
      else if ok = 0 then Inl HWMNG_FAILED_TO_LOAD_CONTROLLERS
      else if \<not> strict then Inr ()
      else Inl HWMNG_FAILED_TO_LOAD_CONTROLLERS)"

section \<open>The node's state and its wiring\<close>

record HwManager =
  hm_dispatch :: "(int, nat) dispatcher"
  hm_looper :: LoopSupervisor
  hm_mcs :: "ManagedController list"
  hm_queues :: "(nat, MotionCommand list) dict"
  hm_active :: bool
  hm_shutdown_requested :: bool
  hm_alerts :: SysAlertsClient
  hm_exit :: "int option"

record wiring =
  w_looper :: LoopSupervisor
  w_dispatch :: "(int, nat) dispatcher"
  w_pairs :: "(nat \<times> HwController) list"

text \<open>One round of the wiring loop; a set is iterated once over each element.\<close>

definition wire_controller :: "HwController \<Rightarrow> wiring \<Rightarrow> looper_error + wiring" where
  "wire_controller ctrl w =
     res_bind (add_loop True (''loop-'' @ ctrl_name ctrl) (flush_freq ctrl) False False False (w_looper w))
       (\<lambda>(i, ls). Inr \<lparr>w_looper = ls,
           w_dispatch = foldl (\<lambda>d k. add_handler k i d) (w_dispatch w) (sorted_list_of_set (command_group ctrl)),
           w_pairs = w_pairs w @ [(i, ctrl)]\<rparr>)"

fun wire_all :: "HwController list \<Rightarrow> wiring \<Rightarrow> looper_error + wiring" where
  "wire_all [] w = Inr w"
| "wire_all (c # cs) w = res_bind (wire_controller c w) (wire_all cs)"

definition wiring_init :: wiring where
  "wiring_init = \<lparr>w_looper = LoopSupervisor_init, w_dispatch = [], w_pairs = []\<rparr>"

text \<open>\<open>main\<close> up to the construction of the node: an exit code (1 for an uncaught exception) or the
  wiring. \<open>bus_ok\<close> says whether the databus could be finalized after the controllers were built.\<close>

definition startup ::
  "(string \<Rightarrow> bool) \<Rightarrow> (string \<Rightarrow> (string, json) dict option) \<Rightarrow> (string \<Rightarrow> load_result)
    \<Rightarrow> bool \<Rightarrow> bool \<Rightarrow> string list \<Rightarrow> string \<Rightarrow> int + wiring" where
  "startup exists load import bus_ok strict files input_config =
     res_bind (choose_config exists load files input_config) (\<lambda>(_, paths).
       (let controllers = load_controllers import paths
        in if \<not> bus_ok then Inl HWMNG_DATABUS_FIN_ERROR
           else res_bind (check_loaded (length controllers) (length paths) strict) (\<lambda>_.
                  map_sum (\<lambda>_. 1) id (wire_all controllers wiring_init))))"

text \<open>The node's constructor: every loop gets a signal handler and an empty input queue.\<close>

definition HwManager_init :: "wiring \<Rightarrow> HwManager" where
  "HwManager_init w =
     \<lparr>hm_dispatch = w_dispatch w,
      hm_looper = map_loops (\<lambda>d. d\<lparr>has_handler := True\<rparr>) (w_looper w),
      hm_mcs = foldl (\<lambda>mcs (i, c). add_controller i c mcs) [] (w_pairs w),
      hm_queues = map (\<lambda>(i, _). (i, [])) (w_pairs w),
      hm_active = False, hm_shutdown_requested = False, hm_alerts = client_init, hm_exit = None\<rparr>"

section \<open>Signals and reconciliation\<close>

datatype handler_exception = HxRuntime looper_error | HxExit int

record hm_env =
  he_rc :: "nat \<Rightarrow> rc_env"
  he_sched :: "nat \<Rightarrow> sched"
  he_str :: "looper_error \<Rightarrow> string"

definition kwarg_int :: "Signal \<Rightarrow> string \<Rightarrow> int \<Rightarrow> int" where
  "kwarg_int s k d = (case dict_get (sig_kwargs s) k of Some (KInt i) \<Rightarrow> i | _ \<Rightarrow> d)"

definition kwarg_str :: "Signal \<Rightarrow> string \<Rightarrow> string \<Rightarrow> string" where
  "kwarg_str s k d = (case dict_get (sig_kwargs s) k of Some (KStr v) \<Rightarrow> v | _ \<Rightarrow> d)"

definition raise_fatal_alert :: "string \<Rightarrow> Signal \<Rightarrow> HwManager \<Rightarrow> HwManager" where
  "raise_fatal_alert ctrl sig s =
     (case client_raise_alert Level_FATAL ''hardware_manager'' FTL_HW_CONTROLLER_FATAL None
             (kwarg_int sig ''code'' 0)
             (''Fatal error in controller '' @ [CHR 0x27] @ ctrl @ [CHR 0x27])
             (kwarg_str sig ''note'' ''no further description available'') (hm_alerts s) of
        Inl _ \<Rightarrow> s | Inr c \<Rightarrow> s\<lparr>hm_alerts := c\<rparr>)"

text \<open>A whole pass with signals ignored: the one made while a shutdown has been requested.\<close>

definition reconcile_quietly :: "hm_env \<Rightarrow> HwManager \<Rightarrow> HwManager" where
  "reconcile_quietly env s =
     (let (_, ls, mcs) = reconcile (he_str env) (he_rc env) (hm_looper s) (hm_mcs s)
      in s\<lparr>hm_looper := ls, hm_mcs := mcs\<rparr>)"

definition handle_loop_signal ::
  "hm_env \<Rightarrow> nat option \<Rightarrow> string \<Rightarrow> Signal \<Rightarrow> HwManager \<Rightarrow> handler_exception option \<times> HwManager" where
  "handle_loop_signal env caller ctrl sig s =
     (if sig_name sig = SIG_CONTROLLER_FATAL then
        (if hm_shutdown_requested s then (None, s)
         else
           (let s = (raise_fatal_alert ctrl sig s)\<lparr>hm_shutdown_requested := True, hm_active := False\<rparr>;
                (err, ls) = stop_all caller True (he_sched env) (hm_looper s);
                s = s\<lparr>hm_looper := ls\<rparr>
            in case err of
                 Some e \<Rightarrow> (Some (HxRuntime e), s)
               | None \<Rightarrow>
                   (Some (HxExit HWMNG_CONTROLLER_FATAL),
                    reconcile_quietly env (s\<lparr>hm_mcs := set_goal_all UNINITIALIZED (hm_mcs s)\<rparr>))))
      else (None, s))"

text \<open>The reconciler's pass with the node's handler: it runs on the executor's thread, and an
  exception of the handler ends it.\<close>

fun reconcile_from :: "hm_env \<Rightarrow> nat list \<Rightarrow> HwManager \<Rightarrow> handler_exception option \<times> HwManager" where
  "reconcile_from env [] s = (None, s)"
| "reconcile_from env (k # ks) s =
     (let mc = hm_mcs s ! k;
          (err, (ls, mc')) = step_to_goal (he_rc env (mc_loop mc)) (hm_looper s, mc);
          s = s\<lparr>hm_looper := ls, hm_mcs := (hm_mcs s)[k := mc']\<rparr>
      in case err of
           None \<Rightarrow> reconcile_from env ks s
         | Some e \<Rightarrow>
             (case handle_loop_signal env None (ctrl_name (mc_ctrl mc')) (rc_signal (he_str env) e) s of
                (Some x, s) \<Rightarrow> (Some x, s)
              | (None, s) \<Rightarrow> reconcile_from env ks s))"

definition mgr_reconcile :: "hm_env \<Rightarrow> HwManager \<Rightarrow> handler_exception option \<times> HwManager" where
  "mgr_reconcile env s = reconcile_from env [0..<length (hm_mcs s)] s"

definition note_exit :: "handler_exception option \<times> HwManager \<Rightarrow> HwManager" where
  "note_exit r = (case fst r of Some (HxExit c) \<Rightarrow> (snd r)\<lparr>hm_exit := Some c\<rparr> | _ \<Rightarrow> snd r)"

section \<open>Callbacks\<close>

definition put_command :: "nat \<times> MotionCommand \<Rightarrow> (nat, MotionCommand list) dict \<Rightarrow> (nat, MotionCommand list) dict" where
  "put_command call qs =
     (let (i, cmd) = call
      in case dict_get qs i of None \<Rightarrow> qs | Some q \<Rightarrow> dict_set qs i (q @ [cmd]))"

definition motionframe_callback :: "int list \<Rightarrow> real list \<Rightarrow> HwManager \<Rightarrow> HwManager" where
  "motionframe_callback ids vs s =
     (if \<not> hm_active s then s
      else foldl (\<lambda>s (i, v).
             s\<lparr>hm_queues := foldl (\<lambda>qs call. put_command call qs) (hm_queues s)
                  (dispatch (hm_dispatch s) (i, \<lparr>mc_id = i, mc_value = v\<rparr>))\<rparr>)
           s (zip ids vs))"

text \<open>\<open>None\<close> is a message that is no JSON.\<close>

definition update_config_callback :: "json option \<Rightarrow> HwManager \<Rightarrow> HwManager" where
  "update_config_callback data s =
     (if \<not> hm_active s then s
      else case data of
        None \<Rightarrow> s
      | Some cfg \<Rightarrow>
          s\<lparr>hm_mcs := map (\<lambda>mc. mc\<lparr>mc_ctrl := queue_config_update cfg (mc_ctrl mc)\<rparr>) (hm_mcs s)\<rparr>)"

definition drive_all :: "hm_env \<Rightarrow> ControllerState \<Rightarrow> bool option \<Rightarrow> HwManager \<Rightarrow> HwManager" where
  "drive_all env goal active s =
     (let r = mgr_reconcile env (s\<lparr>hm_mcs := set_goal_all goal (hm_mcs s)\<rparr>)
      in if fst r \<noteq> None then note_exit r
         else (case active of None \<Rightarrow> snd r | Some a \<Rightarrow> (snd r)\<lparr>hm_active := a\<rparr>))"

definition on_configure :: "hm_env \<Rightarrow> HwManager \<Rightarrow> HwManager" where
  "on_configure env s = drive_all env INITIALIZED None s"

definition on_activate :: "hm_env \<Rightarrow> HwManager \<Rightarrow> HwManager" where
  "on_activate env s = drive_all env RUNNING (Some True) s"

definition on_deactivate :: "hm_env \<Rightarrow> HwManager \<Rightarrow> HwManager" where
  "on_deactivate env s = drive_all env INITIALIZED (Some False) s"

definition on_cleanup :: "hm_env \<Rightarrow> HwManager \<Rightarrow> HwManager" where
  "on_cleanup env s = drive_all env UNINITIALIZED None s"

definition on_shutdown :: "hm_env \<Rightarrow> HwManager \<Rightarrow> HwManager" where
  "on_shutdown env s = drive_all env UNINITIALIZED (Some False) s"

definition reconcile_timer :: "hm_env \<Rightarrow> HwManager \<Rightarrow> HwManager" where
  "reconcile_timer env s = note_exit (mgr_reconcile env s)"

definition check_reconciler_status ::
  "(json \<Rightarrow> string) \<Rightarrow> HwManager \<Rightarrow> ManagedController \<Rightarrow> bool \<times> (string, string) dict" where
  "check_reconciler_status py_str s mc =
     (let status = get_status_for_controller_json (hm_looper s) mc
      in (dict_get status ''goal'' = dict_get status ''state'',
          flatten_for_diagnostics py_str (JObj status)))"

section \<open>The wiring routes each command to the controllers that asked for it\<close>

lemma bucket_add: "bucket (add_handler k h d) k' = bucket d k' @ (if k' = k then [h] else [])"
  by (simp add: bucket_def add_handler_def dict_get_set)

lemma bucket_add_all:
  "distinct ks \<Longrightarrow> bucket (foldl (\<lambda>d k. add_handler k h d) d ks) k' = bucket d k' @ (if k' \<in> set ks then [h] else [])"
  by (induction ks arbitrary: d) (auto simp: bucket_add)

definition subscribers :: "(nat \<times> HwController) list \<Rightarrow> int \<Rightarrow> nat list" where
  "subscribers ps k = map fst (filter (\<lambda>(i, c). k \<in> command_group c) ps)"

definition well_wired :: "wiring \<Rightarrow> bool" where
  "well_wired w \<longleftrightarrow> pool_inv (w_looper w) \<and> (\<forall>k. bucket (w_dispatch w) k = subscribers (w_pairs w) k)
     \<and> distinct (map fst (w_pairs w))
     \<and> list_all (\<lambda>(i, c). get_loop_from_id i (w_looper w) \<noteq> None \<and> i \<le> id_counter (w_looper w)) (w_pairs w)"

lemma add_loop_new:
  assumes "add_loop ok n f False ex sg ls = Inr (i, ls')"
  shows "i = id_counter ls + 1 \<and> id_counter ls' = i \<and>
    get_loop_from_id j ls' = (if j = i then get_loop_from_id i ls' else get_loop_from_id j ls) \<and> get_loop_from_id i ls' \<noteq> None"
  using assms by (auto simp: add_loop_def get_new_id_def Let_def put_loop_def get_loop_from_id_def dict_get_set
      split: if_splits)

lemma wire_controller_ok:
  assumes "well_wired w" "wire_controller c w = Inr w'" "finite (command_group c)"
  shows "well_wired w' \<and> map snd (w_pairs w') = map snd (w_pairs w) @ [c]"
proof -
  from assms(2) obtain i ls where add: "add_loop True (''loop-'' @ ctrl_name c) (flush_freq c) False False False (w_looper w) = Inr (i, ls)"
    and w': "w' = \<lparr>w_looper = ls,
        w_dispatch = foldl (\<lambda>d k. add_handler k i d) (w_dispatch w) (sorted_list_of_set (command_group c)),
        w_pairs = w_pairs w @ [(i, c)]\<rparr>"
    by (auto simp: wire_controller_def res_bind_Inr)
  note new = add_loop_new [OF add]
  have fresh: "i \<notin> set (map fst (w_pairs w))"
    using assms(1) new by (force simp: well_wired_def list_all_iff)
  have "pool_inv ls" using assms(1) add by (auto simp: well_wired_def dest: add_loop_inv)
  moreover have "bucket (w_dispatch w') k = subscribers (w_pairs w') k" for k
    using assms(1,3) by (simp add: w' bucket_add_all well_wired_def subscribers_def)
  moreover have "list_all (\<lambda>(j, c). get_loop_from_id j ls \<noteq> None \<and> j \<le> id_counter ls) (w_pairs w)"
  proof -
    have "get_loop_from_id j ls \<noteq> None \<and> j \<le> id_counter ls" if "(j, b) \<in> set (w_pairs w)" for j b
      using that assms(1) new [of j] fresh by (force simp: well_wired_def list_all_iff)
    then show ?thesis by (auto simp: list_all_iff)
  qed
  ultimately show ?thesis
    using assms(1) fresh new [of i] by (auto simp: w' well_wired_def)
qed

lemma wire_all_ok:
  assumes "well_wired w" "wire_all cs w = Inr w'" "\<forall>c \<in> set cs. finite (command_group c)"
  shows "well_wired w' \<and> map snd (w_pairs w') = map snd (w_pairs w) @ cs"
  using assms
proof (induction cs arbitrary: w)
  case (Cons c cs)
  then obtain w1 where "wire_controller c w = Inr w1" "wire_all cs w1 = Inr w'" by (auto simp: res_bind_Inr)
  with Cons.IH [of w1] Cons.prems wire_controller_ok [of w c w1] show ?case by auto
qed simp

lemma wiring_init_ok: "well_wired wiring_init"
  by (simp add: well_wired_def wiring_init_def pool_inv_def LoopSupervisor_init_def bucket_def subscribers_def)

text \<open>What a batch of commands does to the queue of one loop.\<close>

lemma put_commands_get:
  "dict_get (foldl (\<lambda>qs call. put_command call qs) qs (map (\<lambda>h. (h, cmd)) hs)) i =
     map_option (\<lambda>q. q @ replicate (count_list hs i) cmd) (dict_get qs i)"
proof (induction hs arbitrary: qs)
  case (Cons h hs)
  have "dict_get (put_command (h, cmd) qs) i = map_option (\<lambda>q. q @ (if h = i then [cmd] else [])) (dict_get qs i)"
    by (cases "dict_get qs h") (auto simp: put_command_def dict_get_set option.map_ident)
  with Cons.IH [of "put_command (h, cmd) qs"] show ?case
    by (auto simp: option.map_comp comp_def)
qed (simp add: option.map_ident)

lemma count_subscribers:
  "distinct (map fst ps) \<Longrightarrow> (i, c) \<in> set ps \<Longrightarrow> count_list (subscribers ps k) i = (if k \<in> command_group c then 1 else 0)"
proof (induction ps)
  case (Cons p ps)
  obtain j b where p: "p = (j, b)" by (cases p)
  have notin: "count_list (subscribers ps k) j = 0" if "j \<notin> set (map fst ps)" for j
    using that by (auto simp: subscribers_def count_list_0_iff)
  show ?case
  proof (cases "j = i")
    case True
    with Cons.prems have "b = c" by (auto simp: p rev_image_eqI)
    with True Cons.prems notin [of i] show ?thesis by (simp add: p subscribers_def)
  next
    case False
    with Cons show ?thesis by (simp add: p subscribers_def)
  qed
qed simp

lemma motionframe_frame:
  "hm_dispatch (motionframe_callback ids vs s) = hm_dispatch s \<and> hm_active (motionframe_callback ids vs s) = hm_active s"
proof -
  have "hm_dispatch (foldl (\<lambda>s (i, v). s\<lparr>hm_queues := foldl (\<lambda>qs call. put_command call qs) (hm_queues s)
      (dispatch (hm_dispatch s) (i, \<lparr>mc_id = i, mc_value = v\<rparr>))\<rparr>) s ps) = hm_dispatch s
    \<and> hm_active (foldl (\<lambda>s (i, v). s\<lparr>hm_queues := foldl (\<lambda>qs call. put_command call qs) (hm_queues s)
      (dispatch (hm_dispatch s) (i, \<lparr>mc_id = i, mc_value = v\<rparr>))\<rparr>) s ps) = hm_active s" for ps
    by (induction ps arbitrary: s) (auto simp: split_beta)
  then show ?thesis by (simp add: motionframe_callback_def)
qed

lemma motionframe_queue:
  assumes "\<forall>k. bucket (hm_dispatch s) k = subscribers ps k" "distinct (map fst ps)" "(i, c) \<in> set ps"
    and "hm_active s"
  shows "dict_get (hm_queues (motionframe_callback ids vs s)) i =
    map_option (\<lambda>q. q @ map (\<lambda>(k, v). \<lparr>mc_id = k, mc_value = v\<rparr>) (filter (\<lambda>(k, v). k \<in> command_group c) (zip ids vs)))
      (dict_get (hm_queues s) i)"
proof -
  let ?step = "\<lambda>s (i, v). s\<lparr>hm_queues := foldl (\<lambda>qs call. put_command call qs) (hm_queues s)
      (dispatch (hm_dispatch s) (i, \<lparr>mc_id = i, mc_value = v\<rparr>))\<rparr>"
  have "dict_get (hm_queues (foldl ?step s xs)) i =
      map_option (\<lambda>q. q @ map (\<lambda>(k, v). \<lparr>mc_id = k, mc_value = v\<rparr>) (filter (\<lambda>(k, v). k \<in> command_group c) xs))
      (dict_get (hm_queues s) i)" for xs
    using assms(1)
  proof (induction xs arbitrary: s)
    case (Cons x xs)
    obtain k v where x: "x = (k, v)" by (cases x)
    have "dict_get (hm_queues (?step s x)) i =
        map_option (\<lambda>q. q @ (if k \<in> command_group c then [\<lparr>mc_id = k, mc_value = v\<rparr>] else [])) (dict_get (hm_queues s) i)"
      using Cons.prems by (simp add: x dispatch_def put_commands_get count_subscribers [OF assms(2,3)])
    moreover have "hm_dispatch (?step s x) = hm_dispatch s" by (simp add: x)
    ultimately show ?case using Cons.IH [of "?step s x"] Cons.prems
      by (simp add: x option.map_comp comp_def)
  qed (simp add: option.map_ident)
  with assms(4) show ?thesis by (simp add: motionframe_callback_def)
qed

lemma HwManager_init_queue:
  assumes "(i, c) \<in> set (w_pairs w)"
  shows "dict_get (hm_queues (HwManager_init w)) i = Some []"
proof -
  have "dict_get (map (\<lambda>(i, _). (i, [] :: MotionCommand list)) ps) i = (if i \<in> fst ` set ps then Some [] else None)"
    for ps :: "(nat \<times> HwController) list"
    by (induction ps) auto
  moreover have "i \<in> fst ` set (w_pairs w)" using assms by force
  ultimately show ?thesis by (simp add: HwManager_init_def)
qed

section \<open>Stopping all loops\<close>

definition joinable :: "LoopSupervisor \<Rightarrow> bool" where
  "joinable ls \<longleftrightarrow> list_all (\<lambda>d. loop_thread d \<noteq> Start_failed) (get_loops ls)"

lemma request_stop_thread [simp]: "loop_thread (request_loop_stop d) = loop_thread d"
  by (simp add: request_loop_stop_def)

lemma join_all_main:
  "list_all (\<lambda>d. loop_thread d \<noteq> Start_failed) (dict_values ds) \<Longrightarrow> fst (join_all None sc ds) = None"
  by (induction "None :: nat option" sc ds rule: join_all.induct) (auto simp: join_desc_def split_beta Let_def)

lemma join_all_self:
  assumes "(i, d) \<in> set ds" "loop_id d = i" "is_running d"
    and "list_all (\<lambda>d. loop_thread d \<noteq> Start_failed) (dict_values ds)"
  shows "fst (join_all (Some i) sc ds) = Some Join_current_thread"
  using assms
proof (induction "Some i" sc ds rule: join_all.induct)
  case (2 sc j e ds)
  then show ?case
    by (cases "join_desc (Some i) (sc j) e")
      (auto simp: split_beta Let_def, auto simp: join_desc_def is_running_def split: if_splits)
qed simp

lemma stop_all_main: "joinable ls \<Longrightarrow> fst (stop_all None b sc ls) = None"
  using join_all_main [of "loop_pool (map_loops request_loop_stop ls)" sc]
  by (auto simp: stop_all_def Let_def split_beta joinable_def get_loops_def map_loops_def list_all_iff)

lemma stop_all_self:
  assumes "get_loop_from_id i ls = Some d" "loop_id d = i" "is_running d" "joinable ls"
  shows "fst (stop_all (Some i) True sc ls) = Some Join_current_thread"
proof -
  let ?pool = "loop_pool (map_loops request_loop_stop ls)"
  have "(i, request_loop_stop d) \<in> set ?pool"
    using assms(1) by (force simp: map_loops_def get_loop_from_id_def dest: map_of_SomeD)
  moreover have "is_running (request_loop_stop d)" using assms(3) by (simp add: request_loop_stop_def)
  moreover have "list_all (\<lambda>d. loop_thread d \<noteq> Start_failed) (dict_values ?pool)"
    using assms(4) by (auto simp: joinable_def get_loops_def map_loops_def list_all_iff)
  ultimately have "fst (join_all (Some i) sc ?pool) = Some Join_current_thread"
    using assms(2) by (intro join_all_self) auto
  then show ?thesis by (simp add: stop_all_def Let_def split_beta)
qed

lemma reconcile_goals: "map mc_goal (snd (snd (reconcile str env ls mcs))) = map mc_goal mcs"
proof (induction mcs arbitrary: ls)
  case (Cons mc mcs)
  have goal: "mc_goal (snd (snd (step_to_goal e (l, m)))) = mc_goal m" for e l m
    by (simp add: step_goal_kept)
  show ?case using Cons.IH goal by (simp add: split_beta Let_def)
qed simp

lemma reconcile_quietly_frame:
  "hm_active (reconcile_quietly env s) = hm_active s" "hm_alerts (reconcile_quietly env s) = hm_alerts s"
  "hm_shutdown_requested (reconcile_quietly env s) = hm_shutdown_requested s"
  "map mc_goal (hm_mcs (reconcile_quietly env s)) = map mc_goal (hm_mcs s)"
  by (simp_all add: reconcile_quietly_def split_beta Let_def reconcile_goals)

lemma raise_fatal_frame [simp]:
  "hm_looper (raise_fatal_alert c sig s) = hm_looper s" "hm_mcs (raise_fatal_alert c sig s) = hm_mcs s"
  "hm_exit (raise_fatal_alert c sig s) = hm_exit s"
  by (simp_all add: raise_fatal_alert_def split: sum.split)

lemma raise_fatal_sent:
  "\<exists>a. cli_sent (hm_alerts (raise_fatal_alert c sig s)) = cli_sent (hm_alerts s) @ [build_message RAISE a]
     \<and> alert_level a = Level_FATAL \<and> alert_code a = FTL_HW_CONTROLLER_FATAL \<and> alert_ttl a = Forever"
  by (simp add: raise_fatal_alert_def client_raise_alert_def default_ttl_def publish_action_def level_defs)
    (rule exI, rule conjI, rule refl, simp)

text \<open>A node with one head controller, started and running.\<close>

definition head_controller :: HwController where
  "head_controller = \<lparr>ctrl_name = ''head'', flush_freq = 50, command_group = {1, 2}, config_handlers = [],
     cfg_updates = [], ctrl_initialized = True\<rparr>"

definition head_loop :: LoopDescriptor where
  "head_loop = \<lparr>loop_name = ''loop-head'', loop_id = 1, run_evt = False, wait_evt = True, freq = 50,
     loop_thread = InJob, exception_cb = False, has_handler = True\<rparr>"

definition head_manager :: HwManager where
  "head_manager =
     \<lparr>hm_dispatch = [(1, [1]), (2, [1])], hm_looper = \<lparr>loop_pool = [(1, head_loop)], id_counter = 1\<rparr>,
      hm_mcs = [\<lparr>mc_loop = 1, mc_ctrl = head_controller, mc_goal = RUNNING\<rparr>],
      hm_queues = [(1, [])], hm_active = True, hm_shutdown_requested = False,
      hm_alerts = client_init, hm_exit = None\<rparr>"

definition calm_env :: hm_env where
  "calm_env = \<lparr>he_rc = (\<lambda>_. good_env), he_sched = (\<lambda>_. []), he_str = (\<lambda>_. [])\<rparr>"

lemma wired_queue:
  assumes "wire_all cs wiring_init = Inr w" and "\<forall>c \<in> set cs. finite (command_group c)"
    and "(i, c) \<in> set (w_pairs w)"
  defines "s \<equiv> (HwManager_init w)\<lparr>hm_active := True\<rparr>"
  shows "map snd (w_pairs w) = cs
    \<and> dict_get (hm_queues (motionframe_callback ids vs s)) i =
        Some (map (\<lambda>(k, v). \<lparr>mc_id = k, mc_value = v\<rparr>) (filter (\<lambda>(k, v). k \<in> command_group c) (zip ids vs)))"
proof -
  have w: "well_wired w" "map snd (w_pairs w) = cs"
    using wire_all_ok [OF wiring_init_ok assms(1,2)] by (simp_all add: wiring_init_def)
  have q: "dict_get (hm_queues s) i = Some []" using HwManager_init_queue [OF assms(3)] by (simp add: s_def)
  have "\<forall>k. bucket (hm_dispatch s) k = subscribers (w_pairs w) k" "distinct (map fst (w_pairs w))" "hm_active s"
    using w(1) by (simp_all add: well_wired_def s_def HwManager_init_def)
  from motionframe_queue [OF this(1,2) assms(3) this(3), of ids vs] w(2) q show ?thesis by simp
qed

section \<open>Properties\<close>

text \<open>
  Each motion command reaches exactly the controllers that subscribed to its identifier: after
  the entrypoint has wired the controllers, a motion frame received by the active node appends
  to a controller's input queue exactly the commands of the frame whose identifier is in the
  controller's group, in the order of the frame, and every loaded controller has its loop.
\<close>

theorem commands_reach_subscribers:
  assumes "wire_all cs wiring_init = Inr w" and "\<forall>c \<in> set cs. finite (command_group c)"
    and "(i, c) \<in> set (w_pairs w)"
  defines "s \<equiv> (HwManager_init w)\<lparr>hm_active := True\<rparr>"
  shows "map snd (w_pairs w) = cs
    \<and> dict_get (hm_queues (motionframe_callback ids vs s)) i =
        Some (map (\<lambda>(k, v). \<lparr>mc_id = k, mc_value = v\<rparr>) (filter (\<lambda>(k, v). k \<in> command_group c) (zip ids vs)))"
  unfolding s_def by (rule wired_queue [OF assms(1-3)])

theorem commands_reach_subscribers_witness:
  "\<exists>w i. wire_all [head_controller] wiring_init = Inr w
    \<and> dict_get (hm_queues (motionframe_callback [1, 7, 2] [0, 5, 9] ((HwManager_init w)\<lparr>hm_active := True\<rparr>))) i =
        Some [\<lparr>mc_id = 1, mc_value = 0\<rparr>, \<lparr>mc_id = 2, mc_value = 9\<rparr>]"
proof -
  obtain w where w: "wire_all [head_controller] wiring_init = Inr w" "(1, head_controller) \<in> set (w_pairs w)"
    by (simp add: wire_controller_def wiring_init_def add_loop_def get_new_id_def LoopSupervisor_init_def
        head_controller_def Let_def)
  from commands_reach_subscribers [OF w(1) _ w(2), of "[1, 7, 2]" "[0, 5, 9]"] w(1)
  show ?thesis by (auto simp: head_controller_def)
qed

text \<open>
  The first fatal signal handled on the executor's thread ends the process in order: a FATAL
  alert for the supervisor, the node inactive, all loops asked to stop, every controller's goal
  UNINITIALIZED with one pass made, and exit with the controller-fatal code. A second fatal
  signal does nothing.
\<close>

theorem fatal_signal_exits:
  fixes env ctrl
  assumes "sig_name sig = SIG_CONTROLLER_FATAL" and "\<not> hm_shutdown_requested s" and "joinable (hm_looper s)"
  defines "r \<equiv> handle_loop_signal env None ctrl sig s"
  shows "fst r = Some (HxExit HWMNG_CONTROLLER_FATAL) \<and> \<not> hm_active (snd r)
    \<and> list_all (\<lambda>mc. mc_goal mc = UNINITIALIZED) (hm_mcs (snd r))
    \<and> (\<exists>a. cli_sent (hm_alerts (snd r)) = cli_sent (hm_alerts s) @ [build_message RAISE a]
          \<and> alert_level a = Level_FATAL \<and> alert_code a = FTL_HW_CONTROLLER_FATAL)
    \<and> handle_loop_signal env' c' ctrl' sig (snd r) = (None, snd r)"
proof -
  let ?s = "(raise_fatal_alert ctrl sig s)\<lparr>hm_shutdown_requested := True, hm_active := False\<rparr>"
  obtain ls where st: "stop_all None True (he_sched env) (hm_looper s) = (None, ls)"
    using stop_all_main [OF assms(3), of True "he_sched env"] by (metis prod.collapse)
  let ?s2 = "?s\<lparr>hm_looper := ls, hm_mcs := set_goal_all UNINITIALIZED (hm_mcs s)\<rparr>"
  define s2 where "s2 = ?s2"
  have r: "r = (Some (HxExit HWMNG_CONTROLLER_FATAL), reconcile_quietly env s2)"
    using assms(1,2) by (simp add: r_def handle_loop_signal_def Let_def st s2_def)
  have q: "hm_active (reconcile_quietly env s2) = False"
    "hm_alerts (reconcile_quietly env s2) = hm_alerts (raise_fatal_alert ctrl sig s)"
    "hm_shutdown_requested (reconcile_quietly env s2)"
    by (simp_all add: reconcile_quietly_frame s2_def)
  have "map mc_goal (hm_mcs (reconcile_quietly env s2)) = replicate (length (hm_mcs s)) UNINITIALIZED"
    by (simp add: reconcile_quietly_frame s2_def set_goal_all_def comp_def map_replicate_const)
  then have "set (map mc_goal (hm_mcs (reconcile_quietly env s2))) \<subseteq> {UNINITIALIZED}"
    by (simp only: set_replicate_conv_if) simp
  then have "list_all (\<lambda>mc. mc_goal mc = UNINITIALIZED) (hm_mcs (reconcile_quietly env s2))"
    by (auto simp: list_all_iff)
  moreover have "handle_loop_signal env' c' ctrl' sig (snd r) = (None, snd r)"
    using q(3) assms(1) by (simp add: r handle_loop_signal_def)
  moreover have "\<exists>a. cli_sent (hm_alerts (snd r)) = cli_sent (hm_alerts s) @ [build_message RAISE a]
      \<and> alert_level a = Level_FATAL \<and> alert_code a = FTL_HW_CONTROLLER_FATAL"
    using raise_fatal_sent [of ctrl sig s] q(2) r by auto
  ultimately show ?thesis using q(1) r by simp
qed

theorem fatal_signal_exits_witness:
  "fst (handle_loop_signal calm_env None ''head'' (ctrl_signal SIG_CONTROLLER_FATAL 7 ''fire'') head_manager)
     = Some (HxExit 40)"
  using fatal_signal_exits [of "ctrl_signal SIG_CONTROLLER_FATAL 7 ''fire''" head_manager calm_env "''head''"]
  by (simp add: ctrl_signal_def head_manager_def joinable_def get_loops_def head_loop_def exit_code_defs)

text \<open>
  C36. A fatal signal raised by a controller's own loop never gets that far: joining all loops
  from the loop's own thread raises, so the handler is left after the alert was sent with every
  goal unchanged, no pass made and no exit; the periodic pass goes on towards the old goals.
\<close>

theorem fatal_signal_in_loop_thread_aborts:
  fixes env ctrl
  assumes "sig_name sig = SIG_CONTROLLER_FATAL" and "\<not> hm_shutdown_requested s" and "joinable (hm_looper s)"
    and "get_loop_from_id i (hm_looper s) = Some d" "loop_id d = i" "is_running d"
  defines "r \<equiv> handle_loop_signal env (Some i) ctrl sig s"
  shows "fst r = Some (HxRuntime Join_current_thread) \<and> hm_mcs (snd r) = hm_mcs s \<and> hm_exit (snd r) = hm_exit s
    \<and> (\<exists>a. cli_sent (hm_alerts (snd r)) = cli_sent (hm_alerts s) @ [build_message RAISE a])"
proof -
  obtain ls where st: "stop_all (Some i) True (he_sched env) (hm_looper s) = (Some Join_current_thread, ls)"
    using stop_all_self [OF assms(4-6,3), of "he_sched env"] by (metis prod.collapse)
  show ?thesis
    using assms(1,2) raise_fatal_sent [of ctrl sig s] by (auto simp: r_def handle_loop_signal_def Let_def st)
qed

theorem fatal_signal_in_loop_thread_aborts_witness:
  "let r = handle_loop_signal calm_env (Some 1) ''head'' (ctrl_signal SIG_CONTROLLER_FATAL 7 ''fire'') head_manager
   in fst r = Some (HxRuntime Join_current_thread) \<and> map mc_goal (hm_mcs (snd r)) = [RUNNING]"
  using fatal_signal_in_loop_thread_aborts [of "ctrl_signal SIG_CONTROLLER_FATAL 7 ''fire''" head_manager 1 head_loop
      calm_env "''head''"]
  by (simp add: ctrl_signal_def head_manager_def joinable_def get_loops_def head_loop_def get_loop_from_id_def
      is_running_def)

end
