(* ===== verification/Diagnostics.thy ===== *)
theory Diagnostics
  imports HwManager
begin

text \<open>
  The diagnostics of the hardware manager (\<open>hardware_mng_node.py\<close>): the tasks that the node registers with its updater,
  one for each managed controller and one for each loop, and what they report when the updater's timer runs
  them. The updater itself, which calls its tasks in order and publishes their reports, is the function \<open>diagnostics_update\<close>.
\<close>

section \<open>Tasks and reports\<close>

datatype diag_level = DiagOK | DiagWARN

record report =
  report_name :: string
  report_level :: diag_level
  report_message :: string
  report_values :: "(string \<times> string) list"

text \<open>A task holds on to its controller or loop, which the closures bind by a default argument.\<close>

datatype diag_task = ReconcilerTask nat | LoopTask nat

definition diagnostics_setup :: "HwManager \<Rightarrow> (string \<times> diag_task) list" where
  "diagnostics_setup s =
     map (\<lambda>k. (''reconciler-'' @ ctrl_name (mc_ctrl (hm_mcs s ! k)), ReconcilerTask k)) [0..<length (hm_mcs s)]
     @ map (\<lambda>d. (''loop-'' @ show_nat (loop_id d), LoopTask (loop_id d))) (get_loops (hm_looper s))"

definition reconciler_report :: "(json \<Rightarrow> string) \<Rightarrow> string \<Rightarrow> HwManager \<Rightarrow> ManagedController \<Rightarrow> report" where
  "reconciler_report py_str name s mc =
     (case check_reconciler_status py_str s mc of (ok, values) \<Rightarrow>
       \<lparr>report_name = name, report_level = (if ok then DiagOK else DiagWARN),
        report_message = (if ok then ''The managed controller is in the correct state'' else ''The managed controller is in an unwanted state''),
        report_values = values\<rparr>)"

text \<open>The status of a loop without the two entries that are deleted from it; \<open>fl_str\<close> is \<open>str\<close> on floats.\<close>

definition check_loop_status :: "(real \<Rightarrow> string) \<Rightarrow> string \<Rightarrow> LoopDescriptor \<Rightarrow> report" where
  "check_loop_status fl_str name d =
     (let status = get_loop_status_json d
      in \<lparr>report_name = name, report_level = DiagOK,
          report_message = ''Status check for loop(id='' @ show_nat (loop_id d) @ '', name='' @ loop_name d @ '')'',
          report_values =
            [(''name'', st_name status), (''id'', show_nat (st_id status)), (''state'', st_state status),
             (''freq'', fl_str (st_freq status)), (''is_running'', (if st_is_running status then ''True'' else ''False''))]\<rparr>)"

definition run_task :: "(json \<Rightarrow> string) \<Rightarrow> (real \<Rightarrow> string) \<Rightarrow> HwManager \<Rightarrow> string \<times> diag_task \<Rightarrow> report list" where
  "run_task py_str fl_str s t =
     (case t of
        (name, ReconcilerTask k) \<Rightarrow> [reconciler_report py_str name s (hm_mcs s ! k)]
      | (name, LoopTask i) \<Rightarrow> (case get_loop_from_id i (hm_looper s) of None \<Rightarrow> [] | Some d \<Rightarrow> [check_loop_status fl_str name d]))"

definition diagnostics_update ::
    "(json \<Rightarrow> string) \<Rightarrow> (real \<Rightarrow> string) \<Rightarrow> (string \<times> diag_task) list \<Rightarrow> HwManager \<Rightarrow> report list" where
  "diagnostics_update py_str fl_str tasks s = concat (map (run_task py_str fl_str s) tasks)"

section \<open>Properties\<close>

lemma reconciler_report_level:
  "report_level (reconciler_report py_str name s mc) = DiagWARN \<longleftrightarrow> discrepancy (hm_looper s) mc"
  by (simp add: reconciler_report_def check_reconciler_status_def get_status_for_controller_json_def discrepancy_def Let_def)

lemma reconciler_report_values:
  "report_values (reconciler_report py_str name s mc) =
     [(''goal'', py_str (JStr (ctrl_state_name (mc_goal mc)))),
      (''state'', py_str (JStr (ctrl_state_name (actual_state (hm_looper s, mc))))),
      (''loop_running'', if loop_running (hm_looper s) mc then ''true'' else ''false''),
      (''hw_initialized'', if ctrl_initialized (mc_ctrl mc) then ''true'' else ''false'')]"
  by (simp add: reconciler_report_def check_reconciler_status_def get_status_for_controller_json_def flatten_for_diagnostics_def Let_def
      eval_nat_numeral sub_key_def dict_update_def leaf_text_def)

lemma run_loop_tasks:
  assumes "\<forall>d \<in> set ds. \<exists>d'. get_loop_from_id (loop_id d) (hm_looper s) = Some d'"
  shows "map report_name (concat (map (run_task p f s \<circ> (\<lambda>d. (n d, LoopTask (loop_id d)))) ds)) = map n ds
    \<and> list_all (\<lambda>r. report_level r = DiagOK) (concat (map (run_task p f s \<circ> (\<lambda>d. (n d, LoopTask (loop_id d)))) ds))"
  using assms by (induction ds) (auto simp: run_task_def check_loop_status_def Let_def)

lemma run_reconciler_tasks:
  "concat (map (run_task p f s \<circ> (\<lambda>k. (n k, ReconcilerTask k))) ks) = map (\<lambda>k. reconciler_report p (n k) s (hm_mcs s ! k)) ks"
  by (induction ks) (simp_all add: run_task_def)

lemma has_discrepancy_get:
  "dict_get (get_status_json ls mcs) ''has_discrepancy'' = Some (JBool (list_ex (discrepancy ls) mcs))"
  by (simp add: get_status_json_def dict_simps)

text \<open>
  The diagnostics show whether the hardware is as it should be: the tasks registered for the controllers and loops
  report, at any later state of the same controllers with the same loops, one status each, in order and
  under their names; and one of them is a warning exactly if the reconciler sees a controller away from its goal.
\<close>

theorem diagnostics_show_discrepancy:
  fixes py_str :: "json \<Rightarrow> string" and fl_str :: "real \<Rightarrow> string" and s s0 :: HwManager
  assumes "map (ctrl_name \<circ> mc_ctrl) (hm_mcs s) = map (ctrl_name \<circ> mc_ctrl) (hm_mcs s0)"
    and "\<forall>d \<in> set (get_loops (hm_looper s0)). get_loop_from_id (loop_id d) (hm_looper s) \<noteq> None"
  defines "rs \<equiv> diagnostics_update py_str fl_str (diagnostics_setup s0) s"
  shows "map report_name rs = map (\<lambda>mc. ''reconciler-'' @ ctrl_name (mc_ctrl mc)) (hm_mcs s)
      @ map (\<lambda>d. ''loop-'' @ show_nat (loop_id d)) (get_loops (hm_looper s0))
    \<and> (list_ex (\<lambda>r. report_level r = DiagWARN) rs
        \<longleftrightarrow> dict_get (get_status_json (hm_looper s) (hm_mcs s)) ''has_discrepancy'' = Some (JBool True))"
proof -
  let ?n = "\<lambda>k. ''reconciler-'' @ ctrl_name (mc_ctrl (hm_mcs s0 ! k))"
  let ?cs = "map (\<lambda>k. reconciler_report py_str (?n k) s (hm_mcs s ! k)) [0..<length (hm_mcs s0)]"
  let ?ls = "concat (map (run_task py_str fl_str s \<circ> (\<lambda>d. (''loop-'' @ show_nat (loop_id d), LoopTask (loop_id d)))) (get_loops (hm_looper s0)))"
  have rs: "rs = ?cs @ ?ls"
    by (simp add: rs_def diagnostics_update_def diagnostics_setup_def comp_def run_reconciler_tasks [unfolded comp_def])
  have len: "length (hm_mcs s0) = length (hm_mcs s)" using arg_cong [OF assms(1), of length] by simp
  have loops: "map report_name ?ls = map (\<lambda>d. ''loop-'' @ show_nat (loop_id d)) (get_loops (hm_looper s0))"
    "list_all (\<lambda>r. report_level r = DiagOK) ?ls"
    using run_loop_tasks [of "get_loops (hm_looper s0)" s py_str fl_str "\<lambda>d. ''loop-'' @ show_nat (loop_id d)"] assms(2) by auto
  have name: "ctrl_name (mc_ctrl (hm_mcs s0 ! k)) = ctrl_name (mc_ctrl (hm_mcs s ! k))" if "k < length (hm_mcs s)" for k
    using arg_cong [OF assms(1), of "\<lambda>xs. xs ! k"] that len by simp
  have ctrls: "map report_name ?cs = map (\<lambda>mc. ''reconciler-'' @ ctrl_name (mc_ctrl mc)) (hm_mcs s)"
    by (rule nth_equalityI) (simp_all add: len name reconciler_report_def split: prod.split)
  have warn: "list_ex (\<lambda>r. report_level r = DiagWARN) ?cs \<longleftrightarrow> list_ex (discrepancy (hm_looper s)) (hm_mcs s)"
    by (fastforce simp: list_ex_iff len reconciler_report_level in_set_conv_nth)
  have "\<not> list_ex (\<lambda>r. report_level r = DiagWARN) ?ls" using loops(2) by (auto simp: list_all_iff list_ex_iff)
  then show ?thesis unfolding rs map_append ctrls loops(1) list_ex_append warn by (simp add: has_discrepancy_get)
qed

text \<open>The node of a manager whose one controller was told to run and has not been initialized yet.\<close>

theorem diagnostics_show_discrepancy_witness:
  "\<exists>w s0. wire_all [head_controller] wiring_init = Inr w \<and> s0 = HwManager_init w
    \<and> list_ex (\<lambda>r. report_level r = DiagWARN) (diagnostics_update (\<lambda>_. ''?'') (\<lambda>_. ''1.0'') (diagnostics_setup s0)
        (s0\<lparr>hm_mcs := set_goal_all RUNNING (hm_mcs s0)\<rparr>))"
proof -
  obtain w where w: "wire_all [head_controller] wiring_init = Inr w" "length (w_pairs w) = 1"
    by (simp add: wire_controller_def wiring_init_def add_loop_def get_new_id_def LoopSupervisor_init_def
        head_controller_def Let_def)
  let ?init = "HwManager_init w"
  let ?told = "?init\<lparr>hm_mcs := set_goal_all RUNNING (hm_mcs ?init)\<rparr>"
  have loops: "\<forall>d \<in> set (get_loops (hm_looper ?init)). get_loop_from_id (loop_id d) (hm_looper ?told) \<noteq> None"
    using w by (auto simp: HwManager_init_def wire_controller_def wiring_init_def add_loop_def get_new_id_def LoopSupervisor_init_def
        head_controller_def Let_def get_loops_def get_loop_from_id_def put_loop_def map_loops_def)
  have names: "map (ctrl_name \<circ> mc_ctrl) (hm_mcs ?told) = map (ctrl_name \<circ> mc_ctrl) (hm_mcs ?init)" by (simp add: set_goal_all_def)
  have away: "dict_get (get_status_json (hm_looper ?told) (hm_mcs ?told)) ''has_discrepancy'' = Some (JBool True)"
    using w by (auto simp: has_discrepancy_get HwManager_init_def wire_controller_def wiring_init_def add_loop_def get_new_id_def
        LoopSupervisor_init_def head_controller_def Let_def set_goal_all_def add_controller_def discrepancy_def actual_state_def
        loop_running_def get_loop_from_id_def put_loop_def map_loops_def is_running_def)
  from diagnostics_show_discrepancy [of ?told ?init "\<lambda>_. ''?''" "\<lambda>_. ''1.0''", OF names loops, THEN conjunct2, THEN iffD2, OF away]
  show ?thesis by (intro exI conjI) (rule w(1), rule refl)
qed

end
