(* ===== verification/DatabusSelfTest.thy ===== *)
theory DatabusSelfTest
  imports Databus Complex_Main
begin

text \<open>
  The self-test at the end of the databus module (\<open>hardware_mng/databus/__init__.py\<close>): seven sections that create
  buses and print what they see. A section gives the lines it printed and the exception that left it, if
  any; the script ends with the first such exception. Four sections are meant to provoke an error and
  catch \<open>RuntimeError\<close>.
\<close>

section \<open>Values, printed lines, sections\<close>

datatype py_value = PInt int | PStr string | PTuple real real
datatype py_type = TInt | TStr | TTuple

fun py_isinstance :: "py_value \<Rightarrow> py_type \<Rightarrow> bool" where
  "py_isinstance (PInt i) t \<longleftrightarrow> t = TInt"
| "py_isinstance (PStr s) t \<longleftrightarrow> t = TStr"
| "py_isinstance (PTuple x y) t \<longleftrightarrow> t = TTuple"

datatype printed = Title string | ShowsBool string bool | ShowsValue string "py_value option" | Says string | SaysError string databus_error

type_synonym test_bus = "(py_value, py_type) Databus"
type_synonym section_result = "printed list \<times> databus_error option"

text \<open>The exceptions of the module derive from \<open>Exception\<close>, not from \<open>RuntimeError\<close>.\<close>

fun is_runtime_error :: "databus_error \<Rightarrow> bool" where
  "is_runtime_error (DatabusError m) = False"
| "is_runtime_error (DatabusTopologyError m) = False"

text \<open>A call that may raise, and the rest of its block.\<close>

definition call :: "(databus_error + 'a) \<times> test_bus \<Rightarrow> ('a \<Rightarrow> test_bus \<Rightarrow> section_result) \<Rightarrow> section_result" where
  "call r k = (case r of (Inl e, bus) \<Rightarrow> ([], Some e) | (Inr a, bus) \<Rightarrow> k a bus)"

definition call_finalize :: "test_bus \<Rightarrow> (test_bus \<Rightarrow> section_result) \<Rightarrow> section_result" where
  "call_finalize bus k = (case finalize bus of Inl e \<Rightarrow> ([], Some e) | Inr bus \<Rightarrow> k bus)"

definition titled :: "string \<Rightarrow> section_result \<Rightarrow> section_result" where
  "titled t r = (Title t # fst r, snd r)"

definition except_runtime_error :: "section_result \<Rightarrow> section_result" where
  "except_runtime_error r =
     (case snd r of
        Some e \<Rightarrow> if is_runtime_error e then (fst r @ [SaysError ''PASSED:'' e], None) else r
      | None \<Rightarrow> r)"

section \<open>The sections\<close>

definition basic_test :: section_result where
  "basic_test = titled ''BASIC READ/WRITE TEST''
     (call (create_writer py_isinstance ''robot/pose'' TTuple (PTuple 0 0) Databus_init) (\<lambda>w bus.
      call (create_reader ''robot/pose'' TTuple bus) (\<lambda>r bus.
      call_finalize bus (\<lambda>bus.
        (let available = has_update bus r;
             (initial, r) = data_read bus r;
             after_read = has_update bus r;
             bus = data_write w (PTuple 1 2) bus;
             after_write = has_update bus r;
             (updated, r) = data_read bus r;
             after_second = has_update bus r
         in ([ShowsBool ''Initial update available:'' available, ShowsValue ''Initial read:'' initial,
              ShowsBool ''Update available after read:'' after_read, ShowsBool ''Update available after write:'' after_write,
              ShowsValue ''Updated read:'' updated, ShowsBool ''Update available after second read:'' after_second], None))))))"

definition multi_topic_test :: section_result where
  "multi_topic_test = titled ''MULTI TOPIC TEST''
     (call (create_writer py_isinstance ''counter'' TInt (PInt 0) Databus_init) (\<lambda>int_writer bus.
      call (create_writer py_isinstance ''status'' TStr (PStr ''boot'') bus) (\<lambda>str_writer bus.
      call (create_reader ''counter'' TInt bus) (\<lambda>int_reader bus.
      call (create_reader ''status'' TStr bus) (\<lambda>str_reader bus.
      call_finalize bus (\<lambda>bus.
        (let bus = data_write int_writer (PInt 42) bus;
             bus = data_write str_writer (PStr ''running'') bus
         in ([ShowsValue ''Counter:'' (fst (data_read bus int_reader)), ShowsValue ''Status:'' (fst (data_read bus str_reader))], None))))))))"

definition sequence_test :: section_result where
  "sequence_test = titled ''SEQUENCE TRACKING TEST''
     (call (create_writer py_isinstance ''tick'' TInt (PInt 0) Databus_init) (\<lambda>w bus.
      call (create_reader ''tick'' TInt bus) (\<lambda>r bus.
      call_finalize bus (\<lambda>bus.
        (let bus = foldl (\<lambda>bus i. data_write w (PInt i) bus) bus [0, 1, 2, 3, 4];
             sees = has_update bus r;
             (latest, r) = data_read bus r;
             after_read = has_update bus r
         in ([ShowsBool ''Reader sees update:'' sees, ShowsValue ''Latest value:'' latest,
              ShowsBool ''Reader sees update after read:'' after_read], None))))))"

definition type_body :: section_result where
  "type_body =
     call (create_writer py_isinstance ''value'' TInt (PInt 123) Databus_init) (\<lambda>_ bus.
     call (create_reader ''value'' TStr bus) (\<lambda>_ bus.
       ([Says ''FAILED: type mismatch was not detected''], None)))"

definition single_writer_body :: section_result where
  "single_writer_body =
     call (create_writer py_isinstance ''topic'' TInt (PInt 0) Databus_init) (\<lambda>_ bus.
     call (create_writer py_isinstance ''topic'' TInt (PInt 1) bus) (\<lambda>_ bus.
       ([Says ''FAILED: duplicate writer was not detected''], None)))"

definition finalization_body :: section_result where
  "finalization_body =
     call (create_writer py_isinstance ''value'' TInt (PInt 0) Databus_init) (\<lambda>_ bus.
     call_finalize bus (\<lambda>bus.
     call (create_reader ''another'' TInt bus) (\<lambda>_ bus.
       ([Says ''FAILED: post-finalize mutation was not blocked''], None))))"

definition missing_writer_body :: section_result where
  "missing_writer_body =
     call (create_reader ''orphan_topic'' TInt Databus_init) (\<lambda>_ bus.
     call_finalize bus (\<lambda>bus.
       ([Says ''FAILED: missing writer was not detected''], None)))"

definition sections :: "section_result list" where
  "sections =
     [basic_test, multi_topic_test, sequence_test,
      titled ''TYPE VALIDATION TEST'' (except_runtime_error type_body),
      titled ''SINGLE WRITER VALIDATION TEST'' (except_runtime_error single_writer_body),
      titled ''FINALIZATION TEST'' (except_runtime_error finalization_body),
      titled ''MISSING WRITER TEST'' (except_runtime_error missing_writer_body)]"

fun run_script :: "section_result list \<Rightarrow> section_result" where
  "run_script [] = ([], None)"
| "run_script ((lines, Some e) # rs) = (lines, Some e)"
| "run_script ((lines, None) # rs) = (lines @ fst (run_script rs), snd (run_script rs))"

section \<open>Properties\<close>

lemmas section_eval = call_def call_finalize_def create_writer_def create_reader_def require_unfinalized_def require_topic_def topic_of_def
  dict_has_def data_write_def write_topic_def set_val_def register_writer_def Databus_init_def finalize_def assert_topics_have_writers_def
  has_update_def data_read_def seqnum_def Let_def

text \<open>Each validation section provokes the error it is about.\<close>

lemma validations_raise:
  "type_body = ([], Some (DatabusTopologyError ''value''))"
  "single_writer_body = ([], Some (DatabusTopologyError ''topic''))"
  "\<exists>m. finalization_body = ([], Some (DatabusError m))"
  "missing_writer_body = ([], Some (DatabusTopologyError ''orphan_topic''))"
  by (simp_all add: type_body_def single_writer_body_def finalization_body_def missing_writer_body_def section_eval)

lemma first_sections:
  "basic_test = ([Title ''BASIC READ/WRITE TEST'', ShowsBool ''Initial update available:'' True, ShowsValue ''Initial read:'' (Some (PTuple 0 0)),
     ShowsBool ''Update available after read:'' False, ShowsBool ''Update available after write:'' True,
     ShowsValue ''Updated read:'' (Some (PTuple 1 2)), ShowsBool ''Update available after second read:'' False], None)"
  "multi_topic_test = ([Title ''MULTI TOPIC TEST'', ShowsValue ''Counter:'' (Some (PInt 42)), ShowsValue ''Status:'' (Some (PStr ''running''))], None)"
  "sequence_test = ([Title ''SEQUENCE TRACKING TEST'', ShowsBool ''Reader sees update:'' True, ShowsValue ''Latest value:'' (Some (PInt 4)),
     ShowsBool ''Reader sees update after read:'' False], None)"
  by (simp_all add: basic_test_def multi_topic_test_def sequence_test_def titled_def section_eval)

text \<open>
  The self-test dies half-way: its fourth section provokes the type error it means to catch, but catches an
  unrelated exception class, so the script ends with that error and the last three sections never run; nothing is
  ever reported as passed.
\<close>

theorem self_test_aborts:
  "snd (run_script sections) = Some (DatabusTopologyError ''value'')
   \<and> last (fst (run_script sections)) = Title ''TYPE VALIDATION TEST''
   \<and> Title ''SINGLE WRITER VALIDATION TEST'' \<notin> set (fst (run_script sections))
   \<and> (\<forall>e. SaysError ''PASSED:'' e \<notin> set (fst (run_script sections)))"
  by (simp add: sections_def first_sections validations_raise except_runtime_error_def titled_def)

end
