(* ===== verification/StatusDisplay.thy ===== *)
theory StatusDisplay
  imports Reconciler
begin

text \<open>
  The two textual status displays of the hardware manager: the box drawn from the looper's status
  (\<open>looper/display_ascii.py\<close>) and the table of controllers with their goals
  (\<open>get_ascii_status\<close> of \<open>hw_controller_state_reconciler.py\<close>).

  A drawn line is a constructor that says which border it is, or a row with its padded content. The format
  \<open>.3f\<close> and the name of a context manager's type are arguments.
\<close>

section \<open>Text\<close>

definition ljust :: "nat \<Rightarrow> string \<Rightarrow> string" where
  "ljust n s = s @ replicate (n - length s) CHR '' ''"

lemma length_ljust [simp]: "length (ljust n s) = max n (length s)"
  by (simp add: ljust_def)

section \<open>The box (display\_ascii.py)\<close>

datatype drawn = BlankLine | Top | Separator | Bottom | Row string

text \<open>What iterating over the value of \<open>loops\<close> gives: the keys of a dictionary, or the elements of a list of statuses.\<close>

datatype loop_item = Key nat | Status loop_status

datatype display_error = AttributeError

definition box_line :: "string \<Rightarrow> drawn" where
  "box_line content = Row (ljust 64 content)"

definition yes_no :: "bool \<Rightarrow> string" where "yes_no b = (if b then ''YES'' else ''NO'')"
definition py_bool :: "bool \<Rightarrow> string" where "py_bool b = (if b then ''True'' else ''False'')"

definition loop_box :: "(real \<Rightarrow> string) \<Rightarrow> string \<Rightarrow> loop_status \<Rightarrow> drawn list" where
  "loop_box fmt lock_type l =
     [box_line (''Loop ID: '' @ show_int (int (st_id l)) @ '', name: '' @ st_name l),
      box_line (''  State              : '' @ st_state l),
      box_line (''  Frequency          : '' @ fmt (st_freq l) @ '' Hz''),
      box_line (''  Thread Alive       : '' @ py_bool (st_is_running l)),
      box_line (''  CtxMng Type          : '' @ lock_type),
      box_line (''  Exception Callback : '' @ yes_no (st_exception_cb l)),
      Separator]"

fun loop_boxes :: "(real \<Rightarrow> string) \<Rightarrow> string \<Rightarrow> loop_item list \<Rightarrow> display_error + drawn list" where
  "loop_boxes fmt lock_type [] = Inr []"
| "loop_boxes fmt lock_type (Key i # ls) = Inl AttributeError"
| "loop_boxes fmt lock_type (Status l # ls) =
     res_bind (loop_boxes fmt lock_type ls) (\<lambda>ds. Inr (loop_box fmt lock_type l @ ds))"

definition display_status_from_json ::
    "(real \<Rightarrow> string) \<Rightarrow> string \<Rightarrow> int \<Rightarrow> int \<Rightarrow> int \<Rightarrow> int \<Rightarrow> loop_item list \<Rightarrow> display_error + drawn list" where
  "display_status_from_json fmt lock_type n_total n_running n_paused n_stopped loops =
     (let lines = [BlankLine, Top, box_line ''THREADED LOOPER STATUS'', Separator,
            box_line (''Total: '' @ show_int n_total @ '' | Running: '' @ show_int n_running @ '' | Paused: '' @ show_int n_paused @
              '' | Stopped: '' @ show_int n_stopped), Separator]
      in res_bind (loop_boxes fmt lock_type loops) (\<lambda>boxes. Inr ((lines @ boxes)[length (lines @ boxes) - 1 := Bottom])))"

text \<open>Called with the status that the looper gives, whose \<open>loops\<close> is a dictionary.\<close>

definition display_looper :: "(real \<Rightarrow> string) \<Rightarrow> LoopSupervisor \<Rightarrow> display_error + drawn list" where
  "display_looper fmt ls =
     (let st = status_as_json ls
      in display_status_from_json fmt ''None'' (ps_total st) (ps_running st) (ps_paused st) (ps_stopped st) (map Key (dict_keys (ps_loops st))))"

text \<open>The display works only for a looper without loops: of a loop it is given the number, which has no \<open>get\<close>.\<close>

theorem display_fails_with_loops:
  "display_looper fmt ls = Inl AttributeError \<longleftrightarrow> ps_loops (status_as_json ls) \<noteq> []"
  by (cases "ps_loops (status_as_json ls)") (auto simp: display_looper_def display_status_from_json_def Let_def)

text \<open>For a list of statuses, as its documentation describes, every loop gets its six rows.\<close>

lemma loop_boxes_ok: "loop_boxes fmt lock_type (map Status ls) = Inr (concat (map (loop_box fmt lock_type) ls))"
  by (induction ls) simp_all

section \<open>The table of controllers\<close>

text \<open>A line is text with the escape codes \<open>RED\<close>, \<open>RESET\<close> and \<open>BOLD\<close> in it.\<close>

datatype token = Txt string | RED | RESET | BOLD

definition name_w :: nat where "name_w = 25"
definition state_w :: nat where "state_w = 15"
definition bool_w :: nat where "bool_w = 10"

definition ascii_header :: string where
  "ascii_header = ljust name_w ''CONTROLLER'' @ '' | '' @ ljust state_w ''ACTUAL'' @ '' | '' @ ljust state_w ''GOAL'' @ '' | '' @
     ljust bool_w ''LOOP'' @ '' | '' @ ljust bool_w ''HW''"

definition short_name :: "string \<Rightarrow> string" where
  "short_name name = (if length name > name_w then take (name_w - 3) name @ ''...'' else name)"

definition loop_word :: "LoopSupervisor \<Rightarrow> ManagedController \<Rightarrow> string" where
  "loop_word ls mc =
     (case get_loop_from_id (mc_loop mc) ls of
        None \<Rightarrow> ''STOP''
      | Some d \<Rightarrow> if is_running d then (if is_paused (mc_loop mc) ls then ''PAUSED'' else ''RUNNING'') else ''STOP'')"

definition hw_word :: "ManagedController \<Rightarrow> string" where
  "hw_word mc = (if ctrl_initialized (mc_ctrl mc) then ''OK'' else ''DOWN'')"

definition ascii_row :: "LoopSupervisor \<Rightarrow> ManagedController \<Rightarrow> token list" where
  "ascii_row ls mc =
     (let actual = actual_state (ls, mc);
          red = (if actual \<noteq> mc_goal mc then [RED] else []);
          row = [Txt (ljust name_w (short_name (ctrl_name (mc_ctrl mc)))), Txt '' | ''] @
            red @ [Txt (ljust state_w (ctrl_state_name actual)), Txt '' | '', RESET] @
            red @ [Txt (ljust state_w (ctrl_state_name (mc_goal mc))), Txt '' | '', RESET] @
            [Txt (ljust bool_w (loop_word ls mc)), Txt '' | '', Txt (ljust bool_w (hw_word mc))]
      in if actual \<noteq> mc_goal mc then RED # row @ [RESET] else row)"

definition get_ascii_status :: "LoopSupervisor \<Rightarrow> ManagedController list \<Rightarrow> token list list" where
  "get_ascii_status ls mcs =
     (if mcs = [] then [[Txt ''No controllers registered.'']]
      else (let separator = [Txt (replicate (length ascii_header) CHR ''-'')]
            in [separator, [BOLD, Txt ascii_header, RESET], separator] @ map (ascii_row ls) mcs @ [separator]))"

text \<open>What a terminal shows: the characters, and whether each is red.\<close>

fun shown :: "bool \<Rightarrow> token list \<Rightarrow> (char \<times> bool) list" where
  "shown red [] = []"
| "shown red (Txt s # ts) = map (\<lambda>c. (c, red)) s @ shown red ts"
| "shown red (RED # ts) = shown True ts"
| "shown red (RESET # ts) = shown False ts"
| "shown red (BOLD # ts) = shown red ts"

lemma state_name_short: "length (ctrl_state_name st) \<le> state_w"
  by (cases st) (simp_all add: state_w_def)

lemma words_short: "length (loop_word ls mc) \<le> bool_w" "length (hw_word mc) \<le> bool_w" "length (short_name n) \<le> name_w"
  by (auto simp: loop_word_def hw_word_def bool_w_def short_name_def name_w_def split: option.splits)

lemma columns: "length (ljust name_w (short_name n)) = 25" "length (ljust state_w (ctrl_state_name st)) = 15"
  "length (ljust bool_w (loop_word ls mc)) = 10" "length (ljust bool_w (hw_word mc)) = 10"
  using state_name_short [of st] words_short(1) [of ls mc] words_short(2) [of mc] words_short(3) [of n] by (simp_all add: name_w_def state_w_def bool_w_def)

lemma header_width: "length ascii_header = 87"
  by (simp add: ascii_header_def name_w_def state_w_def bool_w_def)

lemma row_shown:
  "map snd (shown False (ascii_row ls mc)) =
     replicate 64 (actual_state (ls, mc) \<noteq> mc_goal mc) @ replicate 23 False"
proof -
  have plain: "map snd (map (\<lambda>c. (c, b)) s) = replicate (length s) b" for s :: string and b :: bool
    by (induction s) simp_all
  have add: "replicate 64 b = replicate 25 b @ replicate 3 b @ replicate 15 b @ replicate 3 b @ replicate 15 b @ replicate 3 b"
    "replicate 23 b = replicate 10 b @ replicate 3 b @ replicate 10 b" for b :: bool
    by (simp_all only: replicate_add [symmetric]) simp_all
  have row: "map snd (shown r (ascii_row ls mc)) = (if actual_state (ls, mc) \<noteq> mc_goal mc
      then replicate 25 True @ replicate 3 True @ replicate 15 True @ replicate 3 True @ replicate 15 True @ replicate 3 True
        @ replicate 10 False @ replicate 3 False @ replicate 10 False
      else replicate 25 r @ replicate 3 r @ replicate 15 r @ replicate 3 r @ replicate 15 False @ replicate 3 False
        @ replicate 10 False @ replicate 3 False @ replicate 10 False)" for r
    by (simp only: ascii_row_def Let_def plain columns shown.simps map_append append_Cons append_Nil append_Nil2 list.map list.size split: if_split)
      (simp add: plain columns numeral_3_eq_3)
  show ?thesis unfolding row add by simp
qed

text \<open>
  The table is well formed and highlights what is wrong: for any controllers every line is 87 characters wide, there is one
  row per controller in order, and name and states of a row are red exactly when the controller is not in
  its goal state; the columns of the loop and the hardware never are, because the escape codes of the goal column end
  the colour of the row.
\<close>

theorem ascii_table_shows_discrepancies:
  "mcs \<noteq> [] \<Longrightarrow> list_all (\<lambda>l. length (shown False l) = 87) (get_ascii_status ls mcs)
     \<and> map (map snd \<circ> shown False) (butlast (drop 3 (get_ascii_status ls mcs))) =
         map (\<lambda>mc. replicate 64 (actual_state (ls, mc) \<noteq> mc_goal mc) @ replicate 23 False) mcs"
proof -
  have "length (shown False (ascii_row ls mc)) = 87" for mc
    using arg_cong [OF row_shown [of ls mc], of length] by simp
  then show "mcs \<noteq> [] \<Longrightarrow> ?thesis" by (simp add: get_ascii_status_def Let_def header_width list_all_iff row_shown)
qed

end
