(* ===== verification/SdkGen.thy ===== *)
theory SdkGen
  imports Prelude
begin

text \<open>
  The generator of the SDK's type stubs (\<open>src/tools/sdk_gen.py\<close>): after \<open>stubgen\<close> has written the stub files below
  \<open>STUB_OUTPUT_DIR\<close>, imports of modules that have no stub are removed and nested packages are moved up.

  A stub file is the list of its top-level items, as the parser delimits them, one statement to a line: the comments and
  blanks in front of a statement, its decorator lines, which the parser counts before its first line, and the lines from the
  first to the last. A path is the list of its components from the root of the file system, and a directory exists as long as
  it holds a file. What \<open>stubgen\<close> writes and the working directory are arguments.
\<close>

section \<open>Stub files\<close>

type_synonym path = "string list"

datatype import_from = RelativeImport nat "string option"

record item =
  trivia :: "string list"
  decorators :: "string list"
  source_lines :: "string list"
  imported :: "import_from option"

type_synonym stubs = "(path, item list) dict"

text \<open>The suffix of a name starts at its last dot, unless that is its first or its last character.\<close>

definition parent :: "path \<Rightarrow> path" where "parent p = butlast p"

definition name_stem :: "string \<Rightarrow> string" where
  "name_stem n = (let r = rev n; before = dropWhile (\<lambda>c. c \<noteq> CHR ''.'') r
     in if before = [] \<or> tl before = [] \<or> hd r = CHR ''.'' then n else rev (tl before))"

definition with_suffix_pyi :: "path \<Rightarrow> path" where
  "with_suffix_pyi p = butlast p @ [name_stem (last p) @ ''.pyi'']"

definition src_root :: "path \<Rightarrow> path" where
  "src_root cwd = cwd @ [''src'', ''engine_sdk'', ''src'']"

definition stub_output_dir :: "path \<Rightarrow> path" where
  "stub_output_dir cwd = src_root cwd @ [''animaengine'']"

text \<open>The part of a path below a directory, when it has one.\<close>

definition below :: "path \<Rightarrow> path \<Rightarrow> path option" where
  "below d p = (if length d < length p \<and> take (length d) p = d then Some (drop (length d) p) else None)"

section \<open>Removing invalid imports (remove\_invalid\_imports\_from\_stubs)\<close>

definition module_parts :: "string option \<Rightarrow> path" where
  "module_parts m = (case m of None \<Rightarrow> [] | Some name \<Rightarrow> filter (\<lambda>w. w \<noteq> []) (split_on CHR ''.'' name))"

definition module_path :: "path \<Rightarrow> nat \<Rightarrow> string option \<Rightarrow> path" where
  "module_path file level m = (parent ^^ (level - 1)) (parent file) @ module_parts m"

definition stub_exists :: "stubs \<Rightarrow> path \<Rightarrow> bool" where
  "stub_exists fs p \<longleftrightarrow> dict_has fs (with_suffix_pyi p) \<or> dict_has fs (p @ [''__init__.pyi''])"

definition valid_import :: "stubs \<Rightarrow> path \<Rightarrow> item \<Rightarrow> bool" where
  "valid_import fs file it \<longleftrightarrow>
     (case imported it of
        None \<Rightarrow> True
      | Some (RelativeImport level m) \<Rightarrow> level = 0 \<or> stub_exists fs (module_path file level m))"

text \<open>Only the lines of the statement itself are written back.\<close>

definition rewritten :: "item \<Rightarrow> item" where
  "rewritten it = it\<lparr>trivia := [], decorators := []\<rparr>"

definition is_pyi :: "path \<Rightarrow> bool" where
  "is_pyi p \<longleftrightarrow> p \<noteq> [] \<and> (let n = last p in drop (length n - 4) n = ''.pyi'')"

definition remove_from_file :: "stubs \<Rightarrow> path \<Rightarrow> item list \<Rightarrow> item list" where
  "remove_from_file fs p items = map rewritten (filter (valid_import fs p) items)"

definition remove_invalid_imports :: "path \<Rightarrow> stubs \<Rightarrow> stubs" where
  "remove_invalid_imports cwd fs = map (\<lambda>(p, items).
     (p, if is_pyi p \<and> below (stub_output_dir cwd) p \<noteq> None then remove_from_file fs p items else items)) fs"

section \<open>Moving nested packages up (flatten\_generated\_package)\<close>

definition is_dir :: "stubs \<Rightarrow> path \<Rightarrow> bool" where
  "is_dir fs d \<longleftrightarrow> list_ex (\<lambda>p. below d p \<noteq> None) (dict_keys fs)"

definition path_exists :: "stubs \<Rightarrow> path \<Rightarrow> bool" where
  "path_exists fs p \<longleftrightarrow> dict_has fs p \<or> is_dir fs p"

definition iterdir :: "stubs \<Rightarrow> path \<Rightarrow> string list" where
  "iterdir fs d = remdups (map hd (List.map_filter (below d) (dict_keys fs)))"

text \<open>\<open>os.rename\<close> of a file or a directory to a path that is no directory; a file that is there is replaced.\<close>

definition move_path :: "path \<Rightarrow> path \<Rightarrow> path \<Rightarrow> path" where
  "move_path src dst p =
     (if p = src then dst else case below src p of None \<Rightarrow> p | Some r \<Rightarrow> dst @ r)"

definition rename :: "path \<Rightarrow> path \<Rightarrow> stubs \<Rightarrow> stubs" where
  "rename src dst fs = map (\<lambda>(p, c). (move_path src dst p, c)) (filter (\<lambda>(p, c). p \<noteq> dst) fs)"

text \<open>
  \<open>shutil.move\<close>: into the target when that is a directory, an error when the name is taken there, and an error for a
  directory that would replace a file.
\<close>

definition shutil_move :: "path \<Rightarrow> path \<Rightarrow> stubs \<Rightarrow> string + stubs" where
  "shutil_move src dst fs =
     (if is_dir fs dst then
        (let real_dst = dst @ [last src]
         in if path_exists fs real_dst then Inl ''Destination path already exists'' else Inr (rename src real_dst fs))
      else if dict_has fs dst \<and> is_dir fs src then Inl ''File exists''
      else Inr (rename src dst fs))"

fun move_all :: "path \<Rightarrow> path \<Rightarrow> string list \<Rightarrow> stubs \<Rightarrow> string + stubs" where
  "move_all pkg nested [] fs = Inr fs"
| "move_all pkg nested (n # ns) fs = res_bind (shutil_move (nested @ [n]) (pkg @ [n]) fs) (move_all pkg nested ns)"

definition rmtree :: "path \<Rightarrow> stubs \<Rightarrow> stubs" where
  "rmtree d fs = filter (\<lambda>(p, c). below d p = None) fs"

definition flatten_dir :: "path \<Rightarrow> stubs \<Rightarrow> string + stubs" where
  "flatten_dir pkg fs =
     (let nested = pkg @ [last pkg]
      in if \<not> is_dir fs pkg then Inr fs
         else if \<not> is_dir fs nested then Inr fs
         else res_bind (move_all pkg nested (iterdir fs nested) fs) (\<lambda>fs'. Inr (rmtree nested fs')))"

fun flatten_dirs :: "path \<Rightarrow> string list \<Rightarrow> stubs \<Rightarrow> string + stubs" where
  "flatten_dirs root [] fs = Inr fs"
| "flatten_dirs root (n # ns) fs = res_bind (flatten_dir (root @ [n]) fs) (flatten_dirs root ns)"

definition flatten_generated_package :: "path \<Rightarrow> stubs \<Rightarrow> string + stubs" where
  "flatten_generated_package cwd fs = flatten_dirs (src_root cwd) (iterdir fs (src_root cwd)) fs"

definition sdk_main :: "path \<Rightarrow> (stubs \<Rightarrow> string + stubs) \<Rightarrow> stubs \<Rightarrow> string + stubs" where
  "sdk_main cwd run_stubgen fs =
     res_bind (run_stubgen fs) (\<lambda>fs'. flatten_generated_package cwd (remove_invalid_imports cwd fs'))"

section \<open>Properties\<close>

definition is_stub :: "path \<Rightarrow> path \<Rightarrow> bool" where
  "is_stub cwd p \<longleftrightarrow> is_pyi p \<and> below (stub_output_dir cwd) p \<noteq> None"

lemma removed_keys [simp]: "dict_keys (remove_invalid_imports cwd fs) = dict_keys fs"
  by (induction fs) (auto simp: remove_invalid_imports_def)

lemma dict_get_map_entries: "dict_get (map (\<lambda>(p, c). (p, f p c)) d) p = map_option (f p) (dict_get d p)"
  by (induction d) auto

lemma removed_get: "dict_get (remove_invalid_imports cwd fs) p =
    map_option (\<lambda>items. if is_stub cwd p then remove_from_file fs p items else items) (dict_get fs p)"
  unfolding remove_invalid_imports_def is_stub_def by (rule dict_get_map_entries)

lemma removed_stub:
  "dict_get fs p = Some items \<Longrightarrow> is_stub cwd p
    \<Longrightarrow> dict_get (remove_invalid_imports cwd fs) p = Some (remove_from_file fs p items)"
  by (simp add: removed_get)

lemma rewritten_sel [simp]: "source_lines (rewritten it) = source_lines it" "imported (rewritten it) = imported it"
  "decorators (rewritten it) = []"
  by (simp_all add: rewritten_def)

lemma stub_exists_removed [simp]: "stub_exists (remove_invalid_imports cwd fs) = stub_exists fs"
  by (rule ext) (simp only: stub_exists_def dict_has_iff removed_keys)

lemma valid_removed [simp]: "valid_import (remove_invalid_imports cwd fs) p it = valid_import fs p it"
  by (simp add: valid_import_def split: option.split import_from.split)

lemma valid_rewritten [simp]: "valid_import fs p (rewritten it) = valid_import fs p it"
  by (simp add: valid_import_def split: option.split import_from.split)

text \<open>
  Removing invalid imports does what it says: in every stub file exactly the relative imports of modules without a stub go,
  every other statement stays in its order, and no relative import of a missing stub is left.
\<close>

theorem invalid_imports_removed:
  assumes "dict_get fs p = Some items" "is_stub cwd p"
  shows "\<exists>items'. dict_get (remove_invalid_imports cwd fs) p = Some items'
    \<and> map source_lines items' = map source_lines (filter (valid_import fs p) items)
    \<and> list_all (valid_import (remove_invalid_imports cwd fs) p) items'"
  using assms by (auto simp: removed_stub remove_from_file_def list_all_iff comp_def)

text \<open>
  But it also removes every decorator of a top-level function or class, because the lines it copies start at the
  \<open>def\<close> or \<open>class\<close>: the stubs of the SDK have no data classes and no overloads at top level.
\<close>

theorem decorators_are_lost:
  "dict_get fs p = Some items \<Longrightarrow> is_stub cwd p
    \<Longrightarrow> \<exists>items'. dict_get (remove_invalid_imports cwd fs) p = Some items' \<and> list_all (\<lambda>it. decorators it = []) items'"
  by (auto simp: removed_stub remove_from_file_def list_all_iff)

text \<open>
  One generation: the package \<open>animaengine\<close> is written below the output directory of the same name and moved up, next to
  \<open>hardware_mng\<close>, and the import of the module that was not generated goes. A second generation replaces the files.
\<close>

definition stmt :: "string \<Rightarrow> import_from option \<Rightarrow> item" where
  "stmt l i = \<lparr>trivia = [], decorators = [], source_lines = [l], imported = i\<rparr>"

definition sample_stubgen :: "stubs \<Rightarrow> string + stubs" where
  "sample_stubgen fs = Inr (dict_set (dict_set fs
     [''src'', ''engine_sdk'', ''src'', ''animaengine'', ''animaengine'', ''__init__.pyi'']
        [stmt ''from . import behaviors'' (Some (RelativeImport 1 None))])
     [''src'', ''engine_sdk'', ''src'', ''animaengine'', ''hardware_mng'', ''base.pyi'']
        [stmt ''from .utils import f'' (Some (RelativeImport 1 (Some ''utils''))), stmt ''class Base'' None])"

definition sample_sdk :: stubs where
  "sample_sdk =
     [([''src'', ''engine_sdk'', ''src'', ''animaengine'', ''__init__.pyi''],
        [stmt ''from . import behaviors'' (Some (RelativeImport 1 None))]),
      ([''src'', ''engine_sdk'', ''src'', ''animaengine'', ''hardware_mng'', ''base.pyi''], [stmt ''class Base'' None])]"

lemmas sdk_run = sdk_main_def sample_stubgen_def sample_sdk_def flatten_generated_package_def flatten_dir_def
  remove_invalid_imports_def remove_from_file_def is_pyi_def below_def stub_output_dir_def src_root_def iterdir_def
  is_dir_def shutil_move_def rename_def move_path_def path_exists_def rmtree_def rewritten_def valid_import_def
  stub_exists_def module_path_def module_parts_def with_suffix_pyi_def name_stem_def parent_def stmt_def
  List.map_filter_def dict_has_iff

theorem generation_example:
  "sdk_main [] sample_stubgen [] = Inr sample_sdk"
  "map_option set (case sdk_main [] sample_stubgen sample_sdk of Inl _ \<Rightarrow> None | Inr fs \<Rightarrow> Some fs) = Some (set sample_sdk)"
  by (simp_all add: sdk_run eval_nat_numeral insert_commute)

end
