(* ===== verification/BehaviorEngine.thy ===== *)
theory BehaviorEngine
  imports Prelude Complex_Main "HOL-Library.List_Lexorder" "HOL-Library.Char_ord"
begin

text \<open>
  The behavior engine (\<open>libs/behavior_engine\<close>): the registry of named behaviors (\<open>registry.py\<close>), the
  scheduler (\<open>behavior.py\<close>, \<open>executor.py\<close>) and the engine that plays behaviors and takes them back
  (\<open>engine.py\<close>).

  Behavior instances are shared by the executor's list and the engine's table, so they live in a
  store and are named by their index. A behavior function is called through the argument \<open>call\<close>,
  which says what it gave; what advancing an iterator gave is part of a tick. Iterators are different
  objects, so comparing instances compares their identity.
\<close>

section \<open>Actions and instances (actions.py, behavior.py)\<close>

datatype BehaviorActionType = STOP | CONTINUE | SLEEP | TICK

type_synonym BehaviorActionRaw = "BehaviorActionType \<times> real"

definition action_sleep :: "real \<Rightarrow> BehaviorActionRaw" where "action_sleep seconds = (SLEEP, seconds)"
definition action_tick :: "real \<Rightarrow> BehaviorActionRaw" where "action_tick freq = (TICK, freq)"
definition action_stop :: BehaviorActionRaw where "action_stop = (STOP, 0)"
definition action_continue :: BehaviorActionRaw where "action_continue = (CONTINUE, 0)"

record BehaviorInstance =
  priority :: int
  sleep_until :: real
  is_done :: bool

text \<open>What \<open>next(gen)\<close> gave: a yielded value, exhaustion, or another exception.\<close>

datatype next_outcome = Yields "BehaviorActionRaw option" | StopIteration | NextRaises string

datatype step_result = StepIdle | StepNone | StepAction BehaviorActionRaw | StepRaises string

text \<open>\<open>StepIdle\<close> and \<open>StepNone\<close> both are Python's \<open>None\<close>; the first is an iterator that was not advanced.\<close>

definition step :: "real \<Rightarrow> next_outcome \<Rightarrow> BehaviorInstance \<Rightarrow> step_result" where
  "step time out b =
     (if is_done b \<or> time < sleep_until b then StepIdle
      else case out of
        StopIteration \<Rightarrow> StepAction action_stop
      | NextRaises e \<Rightarrow> StepRaises e
      | Yields None \<Rightarrow> StepNone
      | Yields (Some a) \<Rightarrow> StepAction a)"

definition handle_action :: "BehaviorActionRaw \<Rightarrow> real \<Rightarrow> BehaviorInstance \<Rightarrow> BehaviorInstance" where
  "handle_action action time b =
     (let (action_type, arg) = action
      in case action_type of
           CONTINUE \<Rightarrow> b
         | STOP \<Rightarrow> b\<lparr>is_done := True\<rparr>
         | SLEEP \<Rightarrow> b\<lparr>sleep_until := max 0 time + arg\<rparr>
         | TICK \<Rightarrow> b)"

section \<open>State\<close>

datatype engine_error =
    KeyError string
  | AlreadyRegistered string
  | AlreadyBorrowed string
  | NotAnIterator
  | FactoryRaised string
  | BehaviorRaised string

datatype factory_result = MakesIterator | MakesOther | FactoryRaises string

record ('b, 'm) BehaviorEntry =
  entry_name :: string
  entry_behavior :: 'b
  entry_groups :: "string list"
  entry_metadata :: 'm
  borrowed :: bool

record ('b, 'm) Engine =
  instances :: "BehaviorInstance list"
  behaviors :: "nat list"
  entries :: "(string, ('b, 'm) BehaviorEntry) dict"
  group_table :: "(string, string set) dict"
  running :: "(string, nat) dict"
  sync_time :: real

definition Engine_init :: "('b, 'm) Engine" where
  "Engine_init = \<lparr>instances = [], behaviors = [], entries = [], group_table = [], running = [], sync_time = 0\<rparr>"

section \<open>The registry (registry.py)\<close>

definition group_names :: "(string, string set) dict \<Rightarrow> string \<Rightarrow> string set" where
  "group_names d g = (case dict_get d g of None \<Rightarrow> {} | Some ns \<Rightarrow> ns)"

definition register ::
    "string \<Rightarrow> 'b \<Rightarrow> string list option \<Rightarrow> 'm \<Rightarrow> ('b, 'm) Engine \<Rightarrow> (engine_error + ('b, 'm) BehaviorEntry) \<times> ('b, 'm) Engine" where
  "register name b gs metadata s =
     (if dict_has (entries s) name then (Inl (AlreadyRegistered name), s)
      else
        (let entry = \<lparr>entry_name = name, entry_behavior = b, entry_groups = (case gs of None \<Rightarrow> [] | Some gs \<Rightarrow> gs),
                      entry_metadata = metadata, borrowed = False\<rparr>
         in (Inr entry,
             s\<lparr>entries := dict_set (entries s) name entry,
               group_table := foldl (\<lambda>d g. dict_set d g (insert name (group_names d g))) (group_table s) (entry_groups entry)\<rparr>)))"

definition get :: "string \<Rightarrow> ('b, 'm) Engine \<Rightarrow> engine_error + ('b, 'm) BehaviorEntry" where
  "get name s = (case dict_get (entries s) name of None \<Rightarrow> Inl (KeyError name) | Some e \<Rightarrow> Inr e)"

definition get_optional :: "string \<Rightarrow> ('b, 'm) Engine \<Rightarrow> ('b, 'm) BehaviorEntry option" where
  "get_optional name s = dict_get (entries s) name"

text \<open>A list comprehension over \<open>self._entries[name]\<close>.\<close>

fun entries_of :: "string list \<Rightarrow> ('b, 'm) Engine \<Rightarrow> engine_error + ('b, 'm) BehaviorEntry list" where
  "entries_of [] s = Inr []"
| "entries_of (n # ns) s = res_bind (get n s) (\<lambda>e. res_bind (entries_of ns s) (\<lambda>es. Inr (e # es)))"

definition by_group :: "string \<Rightarrow> ('b, 'm) Engine \<Rightarrow> engine_error + ('b, 'm) BehaviorEntry list" where
  "by_group g s = entries_of (sorted_list_of_set (group_names (group_table s) g)) s"

definition by_groups :: "string list \<Rightarrow> ('b, 'm) Engine \<Rightarrow> engine_error + ('b, 'm) BehaviorEntry list" where
  "by_groups gs s =
     entries_of (sorted_list_of_set (foldl (\<lambda>names g. names \<union> group_names (group_table s) g) {} gs)) s"

definition all_entries :: "('b, 'm) Engine \<Rightarrow> ('b, 'm) BehaviorEntry list" where
  "all_entries s = dict_values (entries s)"

definition set_borrowed :: "string \<Rightarrow> bool \<Rightarrow> ('b, 'm) Engine \<Rightarrow> ('b, 'm) Engine" where
  "set_borrowed name v s =
     (case dict_get (entries s) name of
        None \<Rightarrow> s
      | Some e \<Rightarrow> s\<lparr>entries := dict_set (entries s) name (e\<lparr>borrowed := v\<rparr>)\<rparr>)"

definition borrow :: "string \<Rightarrow> ('b, 'm) Engine \<Rightarrow> (engine_error + ('b, 'm) BehaviorEntry) \<times> ('b, 'm) Engine" where
  "borrow name s =
     (case get name s of
        Inl err \<Rightarrow> (Inl err, s)
      | Inr entry \<Rightarrow>
          if borrowed entry then (Inl (AlreadyBorrowed name), s)
          else (Inr (entry\<lparr>borrowed := True\<rparr>), set_borrowed name True s))"

definition release :: "string \<Rightarrow> ('b, 'm) Engine \<Rightarrow> (engine_error + unit) \<times> ('b, 'm) Engine" where
  "release name s = (case get name s of Inl err \<Rightarrow> (Inl err, s) | Inr _ \<Rightarrow> (Inr (), set_borrowed name False s))"

section \<open>The executor (executor.py)\<close>

definition executor_add ::
    "('b \<Rightarrow> factory_result) \<Rightarrow> 'b \<Rightarrow> int \<Rightarrow> ('b, 'm) Engine \<Rightarrow> (engine_error + nat) \<times> ('b, 'm) Engine" where
  "executor_add call b prio s =
     (case call b of
        FactoryRaises e \<Rightarrow> (Inl (FactoryRaised e), s)
      | MakesOther \<Rightarrow> (Inl NotAnIterator, s)
      | MakesIterator \<Rightarrow>
          (let i = length (instances s);
               insts = instances s @ [\<lparr>priority = prio, sleep_until = 0, is_done = False\<rparr>]
           in (Inr i, s\<lparr>instances := insts, behaviors := sort_key (\<lambda>j. priority (insts ! j)) (behaviors s @ [i])\<rparr>)))"

definition executor_remove :: "nat \<Rightarrow> ('b, 'm) Engine \<Rightarrow> ('b, 'm) Engine" where
  "executor_remove i s = (if i \<in> set (behaviors s) then s\<lparr>behaviors := remove1 i (behaviors s)\<rparr> else s)"

text \<open>The loop over the snapshot of the behaviors; the iterators that were advanced are part of the result.\<close>

fun tick_loop ::
    "(nat \<Rightarrow> next_outcome) \<Rightarrow> real \<Rightarrow> nat list \<Rightarrow> ('b, 'm) Engine \<Rightarrow> engine_error option \<times> nat list \<times> ('b, 'm) Engine" where
  "tick_loop out now [] s = (None, [], s)"
| "tick_loop out now (i # is) s =
     (case step now (out i) (instances s ! i) of
        StepRaises e \<Rightarrow> (Some (BehaviorRaised e), [i], s)
      | StepIdle \<Rightarrow> tick_loop out now is s
      | StepNone \<Rightarrow> (let (err, adv, s') = tick_loop out now is s in (err, i # adv, s'))
      | StepAction a \<Rightarrow>
          (let b = handle_action a now (instances s ! i);
               s1 = s\<lparr>instances := (instances s)[i := b]\<rparr>;
               s2 = (if is_done b then s1\<lparr>behaviors := remove1 i (behaviors s1)\<rparr> else s1);
               (err, adv, s') = tick_loop out now is s2
           in (err, i # adv, s')))"

definition executor_tick ::
    "(nat \<Rightarrow> next_outcome) \<Rightarrow> real \<Rightarrow> ('b, 'm) Engine \<Rightarrow> engine_error option \<times> nat list \<times> ('b, 'm) Engine" where
  "executor_tick out now s = tick_loop out now (behaviors s) (s\<lparr>sync_time := now\<rparr>)"

section \<open>The engine (engine.py)\<close>

definition play_behavior ::
    "('b \<Rightarrow> factory_result) \<Rightarrow> string \<Rightarrow> int \<Rightarrow> ('b, 'm) Engine \<Rightarrow> (engine_error + nat) \<times> ('b, 'm) Engine" where
  "play_behavior call name prio s =
     (case borrow name s of
        (Inl err, s) \<Rightarrow> (Inl err, s)
      | (Inr entry, s) \<Rightarrow>
          (case executor_add call (entry_behavior entry) prio s of
             (Inl err, s) \<Rightarrow> (Inl err, s)
           | (Inr i, s) \<Rightarrow> (Inr i, s\<lparr>running := dict_set (running s) name i\<rparr>)))"

fun play_all ::
    "('b \<Rightarrow> factory_result) \<Rightarrow> ('b, 'm) BehaviorEntry list \<Rightarrow> int \<Rightarrow> ('b, 'm) Engine \<Rightarrow> (engine_error + nat list) \<times> ('b, 'm) Engine" where
  "play_all call [] prio s = (Inr [], s)"
| "play_all call (e # es) prio s =
     (case play_behavior call (entry_name e) prio s of
        (Inl err, s) \<Rightarrow> (Inl err, s)
      | (Inr i, s) \<Rightarrow> (let (r, s) = play_all call es prio s in (res_bind r (\<lambda>is. Inr (i # is)), s)))"

definition play_behavior_group ::
    "('b \<Rightarrow> factory_result) \<Rightarrow> string \<Rightarrow> int \<Rightarrow> ('b, 'm) Engine \<Rightarrow> (engine_error + nat list) \<times> ('b, 'm) Engine" where
  "play_behavior_group call g prio s =
     (case by_group g s of Inl err \<Rightarrow> (Inl err, s) | Inr es \<Rightarrow> play_all call es prio s)"

definition stop_behavior :: "string \<Rightarrow> ('b, 'm) Engine \<Rightarrow> ('b, 'm) Engine" where
  "stop_behavior name s =
     (case dict_get (running s) name of
        None \<Rightarrow> s
      | Some i \<Rightarrow> set_borrowed name False (executor_remove i (s\<lparr>running := dict_pop (running s) name\<rparr>)))"

definition stop_all :: "('b, 'm) Engine \<Rightarrow> ('b, 'm) Engine" where
  "stop_all s = foldl (\<lambda>s name. stop_behavior name s) s (dict_keys (running s))"

definition is_running :: "string \<Rightarrow> ('b, 'm) Engine \<Rightarrow> bool" where
  "is_running name s = dict_has (running s) name"

definition running_behaviors :: "('b, 'm) Engine \<Rightarrow> string list" where
  "running_behaviors s = dict_keys (running s)"

definition finished :: "('b, 'm) Engine \<Rightarrow> nat \<Rightarrow> bool" where
  "finished s i \<longleftrightarrow> is_done (instances s ! i) \<or> i \<notin> set (behaviors s)"

definition cleanup_finished :: "('b, 'm) Engine \<Rightarrow> ('b, 'm) Engine" where
  "cleanup_finished s =
     foldl (\<lambda>s (name, i). if finished s i then set_borrowed name False (s\<lparr>running := dict_pop (running s) name\<rparr>) else s)
       s (running s)"

text \<open>When a behavior raises, the tick ends there and nothing is cleaned up.\<close>

definition tick :: "(nat \<Rightarrow> next_outcome) \<Rightarrow> real \<Rightarrow> ('b, 'm) Engine \<Rightarrow> engine_error option \<times> nat list \<times> ('b, 'm) Engine" where
  "tick out now s =
     (case executor_tick out now s of
        (Some err, adv, s) \<Rightarrow> (Some err, adv, s)
      | (None, adv, s) \<Rightarrow> (None, adv, cleanup_finished s))"

section \<open>Use of the engine\<close>

datatype ('b, 'm) engine_event =
    Load string 'b "string list option" 'm
  | Play string int
  | PlayGroup string int
  | Stop string
  | StopAll
  | Tick "nat \<Rightarrow> next_outcome" real

fun engine_step :: "('b \<Rightarrow> factory_result) \<Rightarrow> ('b, 'm) Engine \<Rightarrow> ('b, 'm) engine_event \<Rightarrow> ('b, 'm) Engine" where
  "engine_step call s (Load n b gs m) = snd (register n b gs m s)"
| "engine_step call s (Play n p) = snd (play_behavior call n p s)"
| "engine_step call s (PlayGroup g p) = snd (play_behavior_group call g p s)"
| "engine_step call s (Stop n) = stop_behavior n s"
| "engine_step call s StopAll = stop_all s"
| "engine_step call s (Tick out now) = snd (snd (tick out now s))"

section \<open>Invariants\<close>

text \<open>The registry: entries under their own name, and a group table that lists exactly their groups.\<close>

definition in_group :: "('b, 'm) Engine \<Rightarrow> string \<Rightarrow> string \<Rightarrow> bool" where
  "in_group s g n = (case dict_get (entries s) n of None \<Rightarrow> False | Some e \<Rightarrow> g \<in> set (entry_groups e))"

definition named :: "('b, 'm) Engine \<Rightarrow> string \<Rightarrow> bool" where
  "named s n = (case dict_get (entries s) n of None \<Rightarrow> True | Some e \<Rightarrow> entry_name e = n)"

definition reg_inv :: "('b, 'm) Engine \<Rightarrow> bool" where
  "reg_inv s \<longleftrightarrow> (\<forall>n. named s n) \<and> (\<forall>g. group_names (group_table s) g = {n. in_group s g n})"

text \<open>The schedule: each unfinished instance once, in order of priority.\<close>

definition sched_inv :: "('b, 'm) Engine \<Rightarrow> bool" where
  "sched_inv s \<longleftrightarrow>
     distinct (behaviors s) \<and> sorted (map (\<lambda>i. priority (instances s ! i)) (behaviors s)) \<and>
     (\<forall>i \<in> set (behaviors s). i < length (instances s) \<and> \<not> is_done (instances s ! i))"

text \<open>Ownership: what is scheduled is running under a name, what is running is borrowed, and what is
  borrowed is running, unless its function does not make an iterator.\<close>

definition owner_ok :: "('b \<Rightarrow> factory_result) \<Rightarrow> ('b, 'm) Engine \<Rightarrow> string \<Rightarrow> bool" where
  "owner_ok call s n =
     (case dict_get (entries s) n of
        None \<Rightarrow> dict_get (running s) n = None
      | Some e \<Rightarrow>
          (case dict_get (running s) n of
             None \<Rightarrow> borrowed e \<longrightarrow> call (entry_behavior e) \<noteq> MakesIterator
           | Some i \<Rightarrow> borrowed e \<and> i < length (instances s)))"

definition own_inv :: "('b \<Rightarrow> factory_result) \<Rightarrow> ('b, 'm) Engine \<Rightarrow> bool" where
  "own_inv call s \<longleftrightarrow>
     dict_ok (running s) \<and> distinct (dict_values (running s)) \<and> set (behaviors s) \<subseteq> set (dict_values (running s)) \<and>
     (\<forall>n. owner_ok call s n)"

definition engine_inv :: "('b \<Rightarrow> factory_result) \<Rightarrow> ('b, 'm) Engine \<Rightarrow> bool" where
  "engine_inv call s \<longleftrightarrow> reg_inv s \<and> sched_inv s \<and> own_inv call s"

lemma set_borrowed_get:
  "dict_get (entries (set_borrowed n v s)) m =
     (if m = n then map_option (\<lambda>e. e\<lparr>borrowed := v\<rparr>) (dict_get (entries s) m) else dict_get (entries s) m)"
  by (auto simp: set_borrowed_def dict_simps split: option.splits)

lemma set_borrowed_simps [simp]:
  "instances (set_borrowed n v s) = instances s" "behaviors (set_borrowed n v s) = behaviors s"
  "running (set_borrowed n v s) = running s" "group_table (set_borrowed n v s) = group_table s"
  by (simp_all add: set_borrowed_def split: option.splits)

lemma reg_inv_borrowed: "reg_inv (set_borrowed n v s) = reg_inv s"
proof -
  have "in_group (set_borrowed n v s) g m = in_group s g m" "named (set_borrowed n v s) m = named s m" for g m
    by (simp_all add: in_group_def named_def set_borrowed_get split: option.splits)
  then show ?thesis by (simp add: reg_inv_def)
qed

lemma sched_inv_borrowed: "sched_inv (set_borrowed n v s) = sched_inv s"
  by (simp add: sched_inv_def)

lemma reg_inv_frame:
  "entries s' = entries s \<Longrightarrow> group_table s' = group_table s \<Longrightarrow> reg_inv s \<Longrightarrow> reg_inv s'"
  by (simp add: reg_inv_def in_group_def named_def)

lemma group_names_add:
  "group_names (foldl (\<lambda>d g. dict_set d g (insert n (group_names d g))) d gs) g =
     (if g \<in> set gs then insert n (group_names d g) else group_names d g)"
  by (induction gs arbitrary: d) (auto simp: group_names_def dict_simps split: option.splits)

lemma register_inv: "engine_inv call s \<Longrightarrow> engine_inv call (snd (register n b gs m s))"
proof (cases "dict_has (entries s) n")
  case False
  assume i: "engine_inv call s"
  let ?s = "snd (register n b gs m s)"
  have new: "dict_get (entries s) n = None" using False by (simp add: dict_has_def)
  have e: "dict_get (entries ?s) k =
      (if k = n then Some \<lparr>entry_name = n, entry_behavior = b, entry_groups = (case gs of None \<Rightarrow> [] | Some gs \<Rightarrow> gs),
         entry_metadata = m, borrowed = False\<rparr> else dict_get (entries s) k)" for k
    using False by (simp add: register_def Let_def dict_simps)
  have f: "instances ?s = instances s" "behaviors ?s = behaviors s" "running ?s = running s"
    using False by (simp_all add: register_def Let_def)
  have "in_group ?s g k = (if k = n then g \<in> set (case gs of None \<Rightarrow> [] | Some gs \<Rightarrow> gs) else in_group s g k)"
    "named ?s k = (k = n \<or> named s k)" "\<not> in_group s g n" for g k
    unfolding in_group_def named_def e using new by simp_all
  moreover have "group_names (group_table ?s) g =
      (if g \<in> set (case gs of None \<Rightarrow> [] | Some gs \<Rightarrow> gs) then insert n (group_names (group_table s) g) else group_names (group_table s) g)" for g
    using False by (simp add: register_def Let_def group_names_add)
  ultimately have "reg_inv ?s" using i by (auto simp: engine_inv_def reg_inv_def)
  moreover have "sched_inv ?s" using i by (simp add: engine_inv_def sched_inv_def f)
  moreover have "owner_ok call ?s k" if "owner_ok call s k" for k
    using that new by (auto simp: owner_ok_def e f split: option.splits)
  then have "own_inv call ?s" using i by (simp add: engine_inv_def own_inv_def f)
  ultimately show ?thesis by (simp add: engine_inv_def)
qed (simp add: register_def)

lemma sort_key_snoc_sorted: "sorted (map f (sort_key f xs))"
  by (rule sorted_sort_key)

lemma executor_add_sched:
  assumes "sched_inv s" "executor_add call b prio s = (Inr i, s')"
  shows "sched_inv s' \<and> i = length (instances s) \<and> set (behaviors s') = insert i (set (behaviors s))
    \<and> length (instances s') = Suc i \<and> entries s' = entries s \<and> group_table s' = group_table s \<and> running s' = running s"
proof -
  let ?new = "\<lparr>priority = prio, sleep_until = 0, is_done = False\<rparr>"
  have s': "i = length (instances s)"
    "s' = s\<lparr>instances := instances s @ [?new],
            behaviors := sort_key (\<lambda>j. priority ((instances s @ [?new]) ! j)) (behaviors s @ [i])\<rparr>"
    using assms(2) by (auto simp: executor_add_def Let_def split: factory_result.splits)
  have "i \<notin> set (behaviors s)" using assms(1) by (auto simp: sched_inv_def s'(1))
  then have "sched_inv s'" using assms(1)
    by (auto simp: sched_inv_def s'(2) sorted_sort_key nth_append s'(1))
  then show ?thesis using s' by auto
qed

lemma play_cases:
  obtains (refused) "snd (play_behavior call n p s) = s" "\<exists>err. fst (play_behavior call n p s) = Inl err"
  | (leaked) e where "dict_get (entries s) n = Some e" "\<not> borrowed e" "call (entry_behavior e) \<noteq> MakesIterator"
      "snd (play_behavior call n p s) = set_borrowed n True s" "\<exists>err. fst (play_behavior call n p s) = Inl err"
  | (played) e i s' where "dict_get (entries s) n = Some e" "\<not> borrowed e"
      "executor_add call (entry_behavior e) p (set_borrowed n True s) = (Inr i, s')"
      "snd (play_behavior call n p s) = s'\<lparr>running := dict_set (running s') n i\<rparr>" "fst (play_behavior call n p s) = Inr i"
proof (cases "dict_get (entries s) n")
  case None
  then show ?thesis by (intro refused) (simp_all add: play_behavior_def borrow_def get_def)
next
  case (Some e)
  show ?thesis
  proof (cases "borrowed e")
    case True
    then show ?thesis using Some by (intro refused) (simp_all add: play_behavior_def borrow_def get_def)
  next
    case False
    then have p: "play_behavior call n p s =
        (case executor_add call (entry_behavior e) p (set_borrowed n True s) of
           (Inl err, s) \<Rightarrow> (Inl err, s) | (Inr i, s) \<Rightarrow> (Inr i, s\<lparr>running := dict_set (running s) n i\<rparr>))"
      using Some by (simp add: play_behavior_def borrow_def get_def)
    obtain r s' where a: "executor_add call (entry_behavior e) p (set_borrowed n True s) = (r, s')"
      by (cases "executor_add call (entry_behavior e) p (set_borrowed n True s)")
    show ?thesis
    proof (cases r)
      case (Inl err)
      then have "s' = set_borrowed n True s" "call (entry_behavior e) \<noteq> MakesIterator"
        using a by (auto simp: executor_add_def Let_def split: factory_result.splits)
      then show ?thesis using leaked [OF Some False] p a Inl by simp
    next
      case (Inr i)
      then show ?thesis using played [OF Some False] p a by simp
    qed
  qed
qed

lemma owner_ok_cong:
  "entries s' = entries s \<Longrightarrow> running s' = running s \<Longrightarrow> length (instances s') = length (instances s) \<Longrightarrow>
   owner_ok call s' n = owner_ok call s n"
  by (simp add: owner_ok_def split: option.splits)

lemma values_set_new: "\<not> dict_has d k \<Longrightarrow> dict_values (dict_set d k v) = dict_values d @ [v]"
  unfolding dict_has_iff by (induction d) auto

lemma play_inv: "engine_inv call s \<Longrightarrow> engine_inv call (snd (play_behavior call n p s))"
proof (cases rule: play_cases [of call n p s])
  case refused
  then show "engine_inv call s \<Longrightarrow> ?thesis" by simp
next
  case (leaked e)
  assume i: "engine_inv call s"
  have "owner_ok call (set_borrowed n True s) k" if "owner_ok call s k" for k
    using that leaked(1-3) by (auto simp: owner_ok_def set_borrowed_get split: option.splits)
  then have "own_inv call (set_borrowed n True s)" using i by (simp add: engine_inv_def own_inv_def)
  then show ?thesis using i leaked(4) by (simp add: engine_inv_def reg_inv_borrowed sched_inv_borrowed)
next
  case (played e i s')
  assume inv: "engine_inv call s"
  let ?t = "s'\<lparr>running := dict_set (running s') n i\<rparr>"
  have "sched_inv (set_borrowed n True s)" using inv by (simp add: engine_inv_def sched_inv_borrowed)
  from executor_add_sched [OF this played(3)]
  have s': "sched_inv s'" "i = length (instances s)" "set (behaviors s') = insert i (set (behaviors s))" "length (instances s') = Suc i"
    "entries s' = entries (set_borrowed n True s)" "group_table s' = group_table s" "running s' = running s" by simp_all
  have own: "owner_ok call s k" for k using inv by (simp add: engine_inv_def own_inv_def)
  have free: "\<not> dict_has (running s) n" using own [of n] played(1,2) by (simp add: owner_ok_def dict_has_def split: option.splits)
  have "i \<notin> set (dict_values (running s))"
  proof
    assume "i \<in> set (dict_values (running s))"
    then obtain m where "(m, i) \<in> set (running s)" by auto
    then have "dict_get (running s) m = Some i" using inv dict_mem_iff [of "running s" m i] by (simp add: engine_inv_def own_inv_def)
    then show False using own [of m] s'(2) by (simp add: owner_ok_def split: option.splits)
  qed
  moreover have "owner_ok call ?t k" for k
    using own [of k] played(1) by (auto simp: owner_ok_def s'(2,4,5,7) set_borrowed_get dict_simps split: option.splits)
  ultimately have "own_inv call ?t" using inv free by (auto simp: engine_inv_def own_inv_def s'(3,7) values_set_new)
  moreover have "reg_inv ?t"
    using inv reg_inv_frame [of ?t "set_borrowed n True s"] s'(5,6) by (simp add: engine_inv_def reg_inv_borrowed)
  moreover have "sched_inv ?t" using s'(1) by (simp add: sched_inv_def)
  ultimately show ?thesis using played(4) by (simp add: engine_inv_def)
qed

lemma play_all_inv: "engine_inv call s \<Longrightarrow> engine_inv call (snd (play_all call es p s))"
proof (induction es arbitrary: s)
  case (Cons e es)
  have "engine_inv call (snd (play_behavior call (entry_name e) p s))" by (rule play_inv [OF Cons.prems])
  then show ?case using Cons.IH [of "snd (play_behavior call (entry_name e) p s)"]
    by (auto simp: split_beta split: sum.splits prod.splits)
qed simp

lemma executor_remove_simps [simp]:
  "instances (executor_remove i s) = instances s" "entries (executor_remove i s) = entries s"
  "group_table (executor_remove i s) = group_table s" "running (executor_remove i s) = running s"
  "behaviors (executor_remove i s) = remove1 i (behaviors s)"
  by (simp_all add: executor_remove_def remove1_idem)

lemma sorted_remove1: "sorted (map f xs) \<Longrightarrow> sorted (map f (remove1 x xs))"
  by (induction xs) (auto simp: dest: notin_set_remove1)

lemma sched_inv_remove:
  assumes "sched_inv s"
  shows "sched_inv (s\<lparr>behaviors := remove1 i (behaviors s)\<rparr>)"
  using assms by (auto simp: sched_inv_def sorted_remove1 dest: set_remove1_subset [THEN subsetD])

text \<open>A running name gives up its instance, which leaves the schedule.\<close>

definition give_back :: "string \<Rightarrow> ('b, 'm) Engine \<Rightarrow> ('b, 'm) Engine" where
  "give_back n s = set_borrowed n False (s\<lparr>running := dict_pop (running s) n\<rparr>)"

lemma values_pop:
  "dict_ok d \<Longrightarrow> distinct (dict_values d) \<Longrightarrow> dict_get d n = Some i \<Longrightarrow>
   distinct (dict_values (dict_pop d n)) \<and> set (dict_values (dict_pop d n)) = set (dict_values d) - {i}"
proof (induction d)
  case (Cons p d)
  show ?case
  proof (cases "fst p = n")
    case True
    then have "n \<notin> set (dict_keys d)" using Cons.prems(1) by (auto simp: dict_ok_def)
    then have "dict_pop (p # d) n = d" using True by (simp add: dict_pop_absent dict_has_iff)
    then show ?thesis using Cons.prems True by (cases p) auto
  next
    case False
    then have "dict_pop (p # d) n = p # dict_pop d n" "dict_get d n = Some i" "dict_ok d" "distinct (dict_values d)"
      using Cons.prems by (cases p; auto simp: dict_ok_def)+
    moreover have "i \<noteq> snd p"
      using Cons.prems(2) \<open>dict_get d n = Some i\<close> by (auto dest!: map_of_SomeD simp: rev_image_eqI)
    ultimately show ?thesis using Cons.IH Cons.prems(2) by auto
  qed
qed simp

lemma give_back_inv:
  assumes "engine_inv call s" "dict_get (running s) n = Some i" "i \<notin> set (behaviors s)"
  shows "engine_inv call (give_back n s)"
proof -
  let ?s = "give_back n s"
  have v: "dict_ok (running s)" "distinct (dict_values (running s))" "set (behaviors s) \<subseteq> set (dict_values (running s))"
    and own: "owner_ok call s k" for k using assms(1) by (simp_all add: engine_inv_def own_inv_def)
  have r: "running ?s = dict_pop (running s) n" "behaviors ?s = behaviors s" "instances ?s = instances s"
    by (simp_all add: give_back_def)
  have "owner_ok call ?s k" for k
    using own [of k] assms(2) by (auto simp: owner_ok_def r give_back_def set_borrowed_get dict_simps split: option.splits)
  then have "own_inv call ?s" using values_pop [OF v(1,2) assms(2)] v assms(3) by (auto simp: own_inv_def r)
  moreover have "reg_inv ?s" using assms(1) reg_inv_frame [of "s\<lparr>running := dict_pop (running s) n\<rparr>" s]
    by (simp add: give_back_def reg_inv_borrowed engine_inv_def)
  moreover have "sched_inv ?s" using assms(1) by (simp add: give_back_def sched_inv_borrowed engine_inv_def sched_inv_def)
  ultimately show ?thesis by (simp add: engine_inv_def)
qed

lemma unschedule_inv: "engine_inv call s \<Longrightarrow> engine_inv call (s\<lparr>behaviors := remove1 i (behaviors s)\<rparr>)"
proof -
  assume i: "engine_inv call s"
  have "own_inv call (s\<lparr>behaviors := remove1 i (behaviors s)\<rparr>)"
    using i owner_ok_cong [of "s\<lparr>behaviors := remove1 i (behaviors s)\<rparr>" s call]
    by (auto simp: engine_inv_def own_inv_def dest: set_remove1_subset [THEN subsetD])
  then show ?thesis using i sched_inv_remove [of s i] reg_inv_frame [of "s\<lparr>behaviors := remove1 i (behaviors s)\<rparr>" s]
    by (simp add: engine_inv_def)
qed

lemma stop_inv: "engine_inv call s \<Longrightarrow> engine_inv call (stop_behavior n s)"
proof (cases "dict_get (running s) n")
  case (Some i)
  assume inv: "engine_inv call s"
  let ?s = "s\<lparr>behaviors := remove1 i (behaviors s)\<rparr>"
  have "stop_behavior n s = give_back n ?s"
    using Some by (cases s) (simp add: stop_behavior_def give_back_def executor_remove_def remove1_idem)
  moreover have "engine_inv call ?s" by (rule unschedule_inv [OF inv])
  moreover have "i \<notin> set (behaviors ?s)" using inv by (simp add: engine_inv_def sched_inv_def)
  ultimately show ?thesis using give_back_inv [of call ?s n i] Some by simp
qed (simp add: stop_behavior_def)

lemma engine_stop_all_inv: "engine_inv call s \<Longrightarrow> engine_inv call (stop_all s)"
proof -
  have "engine_inv call s \<Longrightarrow> engine_inv call (foldl (\<lambda>s n. stop_behavior n s) s ns)" for ns
    by (induction ns arbitrary: s) (simp_all add: stop_inv)
  then show "engine_inv call s \<Longrightarrow> ?thesis" by (simp add: stop_all_def)
qed

section \<open>Ticks\<close>

text \<open>What one tick does to an instance.\<close>

definition awake :: "real \<Rightarrow> BehaviorInstance \<Rightarrow> bool" where
  "awake now b \<longleftrightarrow> \<not> is_done b \<and> sleep_until b \<le> now"

definition ticked :: "real \<Rightarrow> next_outcome \<Rightarrow> BehaviorInstance \<Rightarrow> BehaviorInstance" where
  "ticked now out b = (case step now out b of StepAction a \<Rightarrow> handle_action a now b | _ \<Rightarrow> b)"

definition raises :: "next_outcome \<Rightarrow> bool" where
  "raises out = (case out of NextRaises e \<Rightarrow> True | _ \<Rightarrow> False)"

lemma handle_action_priority [simp]: "priority (handle_action a now b) = priority b"
  by (simp add: handle_action_def split: prod.splits BehaviorActionType.splits)

lemma ticked_priority [simp]: "priority (ticked now out b) = priority b"
  by (simp add: ticked_def split: step_result.splits)

text \<open>The state after one behavior has had its turn, when it did not raise.\<close>

definition turn :: "(nat \<Rightarrow> next_outcome) \<Rightarrow> real \<Rightarrow> nat \<Rightarrow> ('b, 'm) Engine \<Rightarrow> ('b, 'm) Engine" where
  "turn out now i s =
     (let b = ticked now (out i) (instances s ! i);
          s1 = s\<lparr>instances := (instances s)[i := b]\<rparr>
      in if is_done b then s1\<lparr>behaviors := remove1 i (behaviors s1)\<rparr> else s1)"

lemma turn_simps [simp]:
  "instances (turn out now i s) = (instances s)[i := ticked now (out i) (instances s ! i)]"
  "entries (turn out now i s) = entries s" "running (turn out now i s) = running s" "group_table (turn out now i s) = group_table s"
  "behaviors (turn out now i s) =
     (if is_done (ticked now (out i) (instances s ! i)) then remove1 i (behaviors s) else behaviors s)"
  by (simp_all add: turn_def Let_def)

lemma tick_loop_turn:
  assumes "i < length (instances s)" "\<not> is_done (instances s ! i)"
  shows "tick_loop out now (i # is) s =
    (if awake now (instances s ! i) \<and> raises (out i) then (Some (BehaviorRaised (case out i of NextRaises e \<Rightarrow> e)), [i], s)
     else let (err, adv, s') = tick_loop out now is (turn out now i s)
       in (err, if awake now (instances s ! i) then i # adv else adv, s'))"
  using assms
  by (auto simp: turn_def ticked_def step_def awake_def raises_def Let_def list_update_same_conv list_update_id
      split: next_outcome.splits option.splits)

lemma turn_inv:
  assumes "engine_inv call s" "i < length (instances s)"
  shows "engine_inv call (turn out now i s)"
proof -
  let ?t = "turn out now i s"
  have beh: "set (behaviors ?t) \<subseteq> set (behaviors s)" by (auto dest: set_remove1_subset [THEN subsetD])
  have prio: "priority (instances ?t ! j) = priority (instances s ! j)" for j
    using assms(2) by (cases "j = i") simp_all
  have "sched_inv ?t"
    unfolding sched_inv_def
  proof (intro conjI ballI)
    have d: "distinct (behaviors s)" "sorted (map (\<lambda>i. priority (instances s ! i)) (behaviors s))"
      using assms(1) by (simp_all add: engine_inv_def sched_inv_def)
    then show "distinct (behaviors ?t)" by simp
    show "sorted (map (\<lambda>i. priority (instances ?t ! i)) (behaviors ?t))" unfolding prio using d(2) by (simp add: sorted_remove1)
    fix j assume j: "j \<in> set (behaviors ?t)"
    then have old: "j < length (instances s)" "\<not> is_done (instances s ! j)"
      using beh assms(1) by (auto simp: engine_inv_def sched_inv_def)
    then show "j < length (instances ?t)" by simp
    show "\<not> is_done (instances ?t ! j)"
    proof (cases "j = i")
      case True
      then show ?thesis using j d(1) assms(2) by (auto split: if_splits)
    qed (use old in simp)
  qed
  moreover have "own_inv call ?t"
    using assms(1) beh owner_ok_cong [of ?t s call] by (auto simp: engine_inv_def own_inv_def)
  moreover have "reg_inv ?t" using assms(1) reg_inv_frame [of ?t s] by (simp add: engine_inv_def)
  ultimately show ?thesis by (simp add: engine_inv_def)
qed

lemma tick_loop_inv:
  "engine_inv call s \<Longrightarrow> distinct is \<Longrightarrow> \<forall>i \<in> set is. i < length (instances s) \<and> \<not> is_done (instances s ! i) \<Longrightarrow>
   engine_inv call (snd (snd (tick_loop out now is s)))"
proof (induction "is" arbitrary: s)
  case (Cons i "is")
  have i: "i < length (instances s)" "\<not> is_done (instances s ! i)" using Cons.prems(3) by simp_all
  have "engine_inv call (turn out now i s)" by (rule turn_inv [OF Cons.prems(1) i(1)])
  moreover have "\<forall>j \<in> set is. j < length (instances (turn out now i s)) \<and> \<not> is_done (instances (turn out now i s) ! j)"
    using Cons.prems(2,3) by (auto simp: nth_list_update)
  ultimately show ?case using Cons.IH [of "turn out now i s"] Cons.prems(1,2)
    by (simp add: tick_loop_turn [OF i] split_beta Let_def del: tick_loop.simps)
qed simp

lemma tick_loop_calm:
  assumes "\<forall>i \<in> set is. i < length (instances s) \<and> \<not> is_done (instances s ! i)" "distinct is" "distinct (behaviors s)"
    and "\<forall>i \<in> set is. awake now (instances s ! i) \<longrightarrow> \<not> raises (out i)"
  shows "\<exists>s'. tick_loop out now is s = (None, filter (\<lambda>i. awake now (instances s ! i)) is, s')
    \<and> entries s' = entries s \<and> running s' = running s \<and> length (instances s') = length (instances s)
    \<and> (\<forall>j. instances s' ! j = (if j \<in> set is then ticked now (out j) (instances s ! j) else instances s ! j))
    \<and> behaviors s' = filter (\<lambda>j. \<not> (j \<in> set is \<and> is_done (ticked now (out j) (instances s ! j)))) (behaviors s)"
  using assms
proof (induction "is" arbitrary: s)
  case (Cons i "is")
  let ?t = "turn out now i s"
  have i: "i < length (instances s)" "\<not> is_done (instances s ! i)" using Cons.prems(1) by simp_all
  have ne: "j \<noteq> i" if "j \<in> set is" for j using that Cons.prems(2) by auto
  have same: "instances ?t ! j = instances s ! j" if "j \<in> set is" for j using ne [OF that] by simp
  have pre: "\<forall>j \<in> set is. j < length (instances ?t) \<and> \<not> is_done (instances ?t ! j)"
    "distinct is" "distinct (behaviors ?t)" "\<forall>j \<in> set is. awake now (instances ?t ! j) \<longrightarrow> \<not> raises (out j)"
    using Cons.prems same by (simp_all del: turn_simps(1)) simp
  obtain s' where s': "tick_loop out now is ?t = (None, filter (\<lambda>i. awake now (instances ?t ! i)) is, s')"
    "entries s' = entries ?t" "running s' = running ?t" "length (instances s') = length (instances ?t)"
    "\<forall>j. instances s' ! j = (if j \<in> set is then ticked now (out j) (instances ?t ! j) else instances ?t ! j)"
    "behaviors s' = filter (\<lambda>j. \<not> (j \<in> set is \<and> is_done (ticked now (out j) (instances ?t ! j)))) (behaviors ?t)"
    using Cons.IH [OF pre] by blast
  have adv: "filter (\<lambda>i. awake now (instances ?t ! i)) is = filter (\<lambda>i. awake now (instances s ! i)) is"
    using same by (intro filter_cong) simp_all
  have "tick_loop out now (i # is) s = (None, filter (\<lambda>i. awake now (instances s ! i)) (i # is), s')"
    using Cons.prems(4) by (simp add: tick_loop_turn [OF i] s'(1) adv del: turn_simps(1) tick_loop.simps)
  moreover have "instances s' ! j = (if j \<in> set (i # is) then ticked now (out j) (instances s ! j) else instances s ! j)" for j
    using s'(5) i(1) ne by (auto simp: nth_list_update)
  moreover have "behaviors s' = filter (\<lambda>j. \<not> (j \<in> set (i # is) \<and> is_done (ticked now (out j) (instances s ! j)))) (behaviors s)"
    unfolding s'(6) using Cons.prems(3) ne same
    by (auto simp: distinct_remove1_removeAll removeAll_filter_not_eq simp del: turn_simps(1) intro!: filter_cong)
  ultimately show ?case using s'(2-4) by (intro exI [of _ s']) simp
qed (auto simp: filter_id_conv)

section \<open>Finished behaviors\<close>

lemma give_back_simps [simp]:
  "running (give_back n s) = dict_pop (running s) n" "behaviors (give_back n s) = behaviors s"
  "instances (give_back n s) = instances s" "finished (give_back n s) = finished s"
  by (simp_all add: give_back_def finished_def fun_eq_iff)

lemma give_back_entries:
  "dict_get (entries (give_back n s)) m =
     (if m = n then map_option (\<lambda>e. e\<lparr>borrowed := False\<rparr>) (dict_get (entries s) m) else dict_get (entries s) m)"
  by (simp add: give_back_def set_borrowed_get)

definition sweep :: "(string \<times> nat) list \<Rightarrow> ('b, 'm) Engine \<Rightarrow> ('b, 'm) Engine" where
  "sweep ps s = foldl (\<lambda>s (n, i). if finished s i then give_back n s else s) s ps"

lemma cleanup_sweep: "cleanup_finished s = sweep (running s) s"
  unfolding cleanup_finished_def sweep_def give_back_def ..

lemma sweep_spec:
  assumes "engine_inv call s" "distinct (map fst ps)" "\<forall>(n, i) \<in> set ps. dict_get (running s) n = Some i"
  shows "engine_inv call (sweep ps s) \<and> instances (sweep ps s) = instances s \<and> behaviors (sweep ps s) = behaviors s
    \<and> (\<forall>m. dict_get (running (sweep ps s)) m = (if \<exists>i. (m, i) \<in> set ps \<and> finished s i then None else dict_get (running s) m))
    \<and> (\<forall>m. dict_get (entries (sweep ps s)) m =
        (if \<exists>i. (m, i) \<in> set ps \<and> finished s i then map_option (\<lambda>e. e\<lparr>borrowed := False\<rparr>) (dict_get (entries s) m)
         else dict_get (entries s) m))"
  using assms
proof (induction ps arbitrary: s)
  case (Cons p ps)
  obtain n i where p: "p = (n, i)" by (cases p)
  show ?case
  proof (cases "finished s i")
    case False
    then have "sweep (p # ps) s = sweep ps s" by (simp add: sweep_def p)
    then show ?thesis using Cons.IH [of s] Cons.prems False by (auto simp: p)
  next
    case True
    let ?s = "give_back n s"
    have sw: "sweep (p # ps) s = sweep ps ?s" using True by (simp add: sweep_def p)
    have run: "dict_get (running s) n = Some i" using Cons.prems(3) by (simp add: p)
    have "i \<notin> set (behaviors s)" using True Cons.prems(1) by (auto simp: finished_def engine_inv_def sched_inv_def)
    then have inv: "engine_inv call ?s" by (rule give_back_inv [OF Cons.prems(1) run])
    have keys: "n \<notin> fst ` set ps" using Cons.prems(2) by (simp add: p)
    then have ps: "\<forall>(m, j) \<in> set ps. dict_get (running ?s) m = Some j"
    proof clarify
      fix m j assume mj: "(m, j) \<in> set ps"
      then have "m \<noteq> n" using keys by force
      then show "dict_get (running ?s) m = Some j" using Cons.prems(3) mj by (auto simp: dict_simps)
    qed
    have "(n, j) \<notin> set ps" for j using keys by force
    then show ?thesis unfolding sw using Cons.IH [OF inv _ ps] Cons.prems(2) True
      by (auto simp: p dict_simps give_back_entries)
  qed
qed (simp add: sweep_def)

lemma cleanup_inv: "engine_inv call s \<Longrightarrow> engine_inv call (cleanup_finished s)"
proof -
  assume inv: "engine_inv call s"
  then have "dict_ok (running s)" by (simp add: engine_inv_def own_inv_def)
  then have "distinct (map fst (running s))" "\<forall>(n, i) \<in> set (running s). dict_get (running s) n = Some i"
    by (auto simp: dict_ok_def)
  from sweep_spec [OF inv this] show ?thesis by (simp add: cleanup_sweep)
qed

lemma sync_inv: "engine_inv call (s\<lparr>sync_time := t\<rparr>) = engine_inv call s"
proof -
  have "owner_ok call (s\<lparr>sync_time := t\<rparr>) n = owner_ok call s n" for n by (rule owner_ok_cong) simp_all
  then show ?thesis by (simp add: engine_inv_def own_inv_def sched_inv_def reg_inv_def in_group_def named_def)
qed

lemma tick_inv: "engine_inv call s \<Longrightarrow> engine_inv call (snd (snd (tick out now s)))"
proof -
  assume inv: "engine_inv call s"
  then have "engine_inv call (snd (snd (executor_tick out now s)))"
    unfolding executor_tick_def by (intro tick_loop_inv) (auto simp: sync_inv, auto simp: engine_inv_def sched_inv_def)
  then show ?thesis by (auto simp: tick_def cleanup_inv split: prod.splits option.splits)
qed

lemma engine_step_inv: "engine_inv call s \<Longrightarrow> engine_inv call (engine_step call s e)"
  by (cases e) (auto simp: register_inv play_inv play_behavior_group_def play_all_inv stop_inv engine_stop_all_inv tick_inv split: sum.splits)

interpretation engine: event_machine "engine_step call" "engine_inv call" for call
  by unfold_locales (rule engine_step_inv)

lemma Engine_init_inv: "engine_inv call Engine_init"
  by (simp add: Engine_init_def engine_inv_def reg_inv_def in_group_def named_def group_names_def sched_inv_def own_inv_def owner_ok_def)

section \<open>Properties\<close>

lemma tick_calm:
  assumes inv: "engine_inv call s"
    and quiet: "\<And>i. i \<in> set (behaviors s) \<Longrightarrow> awake now (instances s ! i) \<Longrightarrow> \<not> raises (out i)"
  shows "\<exists>s'. tick out now s = (None, filter (\<lambda>i. awake now (instances s ! i)) (behaviors s), s')
    \<and> behaviors s' = filter (\<lambda>i. \<not> is_done (ticked now (out i) (instances s ! i))) (behaviors s)
    \<and> (\<forall>j. instances s' ! j = (if j \<in> set (behaviors s) then ticked now (out j) (instances s ! j) else instances s ! j))
    \<and> (\<forall>n. dict_get (running s') n =
        (case dict_get (running s) n of None \<Rightarrow> None | Some i \<Rightarrow> if i \<in> set (behaviors s') then Some i else None))
    \<and> engine_inv call s'"
proof -
  let ?t = "s\<lparr>sync_time := now\<rparr>"
  have sched: "\<forall>i \<in> set (behaviors s). i < length (instances ?t) \<and> \<not> is_done (instances ?t ! i)" "distinct (behaviors s)"
    using inv by (simp_all add: engine_inv_def sched_inv_def)
  obtain u where u: "executor_tick out now s = (None, filter (\<lambda>i. awake now (instances s ! i)) (behaviors s), u)"
    "running u = running s" "entries u = entries s"
    "\<forall>j. instances u ! j = (if j \<in> set (behaviors s) then ticked now (out j) (instances s ! j) else instances s ! j)"
    "behaviors u = filter (\<lambda>j. \<not> (j \<in> set (behaviors s) \<and> is_done (ticked now (out j) (instances s ! j)))) (behaviors s)"
    using tick_loop_calm [OF sched, of now out] sched(2) quiet by (auto simp: executor_tick_def)
  have uinv: "engine_inv call u"
    using tick_loop_inv [of call ?t "behaviors s" out now] inv sched u(1) by (simp add: sync_inv executor_tick_def)
  then have ok: "dict_ok (running u)" by (simp add: engine_inv_def own_inv_def)
  then have keys: "distinct (map fst (running u))" "\<forall>(n, i) \<in> set (running u). dict_get (running u) n = Some i"
    by (auto simp: dict_ok_def)
  have fin: "finished u i = (i \<notin> set (behaviors u))" for i using uinv by (auto simp: finished_def engine_inv_def sched_inv_def)
  from sweep_spec [OF uinv keys]
  have c: "engine_inv call (cleanup_finished u)" "behaviors (cleanup_finished u) = behaviors u"
    "instances (cleanup_finished u) = instances u"
    and run: "dict_get (running (cleanup_finished u)) m =
      (if \<exists>i. (m, i) \<in> set (running u) \<and> finished u i then None else dict_get (running u) m)" for m
    by (simp_all add: cleanup_sweep)
  have "dict_get (running (cleanup_finished u)) m =
      (case dict_get (running s) m of None \<Rightarrow> None | Some i \<Rightarrow> if i \<in> set (behaviors (cleanup_finished u)) then Some i else None)" for m
    unfolding run fin c(2) using dict_mem_iff [OF ok, of m] u(2) by (auto split: option.splits)
  moreover have "behaviors u = filter (\<lambda>i. \<not> is_done (ticked now (out i) (instances s ! i))) (behaviors s)"
    unfolding u(5) by (rule filter_cong) simp_all
  ultimately show ?thesis using c u(1,4) by (intro exI [of _ "cleanup_finished u"]) (simp add: tick_def)
qed

lemma tick_loop_frame:
  "entries (snd (snd (tick_loop out now is s))) = entries s \<and> running (snd (snd (tick_loop out now is s))) = running s"
  by (induction "is" arbitrary: s) (auto simp: split_beta Let_def split: step_result.splits)

lemma executor_tick_frame:
  "entries (snd (snd (executor_tick out now s))) = entries s" "running (snd (snd (executor_tick out now s))) = running s"
  by (simp_all add: executor_tick_def tick_loop_frame)

lemma tick_keeps_idle:
  assumes "engine_inv call s" "dict_get (running s) n = None"
  shows "dict_get (entries (snd (snd (tick out now s)))) n = dict_get (entries s) n"
proof -
  let ?u = "snd (snd (executor_tick out now s))"
  have inv: "engine_inv call ?u"
    unfolding executor_tick_def using assms(1)
    by (intro tick_loop_inv) (auto simp: sync_inv, auto simp: engine_inv_def sched_inv_def)
  have keys: "distinct (map fst (running ?u))" "\<forall>(m, i) \<in> set (running ?u). dict_get (running ?u) m = Some i"
    using inv by (auto simp: dict_ok_def engine_inv_def own_inv_def)
  have "(n, i) \<notin> set (running ?u)" for i using assms(2) keys(2) executor_tick_frame(2) [of out now s] by auto
  then have "dict_get (entries (cleanup_finished ?u)) n = dict_get (entries s) n"
    using sweep_spec [OF inv keys] by (simp add: cleanup_sweep executor_tick_frame)
  then show ?thesis using executor_tick_frame(1) [of out now s]
    by (auto simp: tick_def split: prod.splits option.splits)
qed

text \<open>Loaded and played behaviors for the examples below.\<close>

definition sample_call :: "nat \<Rightarrow> factory_result" where
  "sample_call b = (if b = 0 then MakesOther else MakesIterator)"

definition sample_events :: "(nat, unit) engine_event list" where
  "sample_events =
     [Load ''wave'' 1 (Some [''arms'']) (), Load ''blink'' 2 None (), Load ''broken'' 0 None (),
      Play ''wave'' 5, Play ''blink'' 1, Play ''broken'' 0]"

text \<open>
  C26. After any sequence of loads, plays, stops and ticks, whatever the behavior functions and their
  iterators do: the schedule is in order of priority, names no instance twice and none that is done,
  every scheduled instance is held by a running name, and an entry whose function makes an iterator is
  borrowed exactly while it is running.
\<close>

theorem engine_ownership:
  assumes "s = foldl (engine_step call) Engine_init es"
    and "dict_get (entries s) n = Some e" "call (entry_behavior e) = MakesIterator"
  shows "sorted (map (\<lambda>i. priority (instances s ! i)) (behaviors s)) \<and> distinct (behaviors s)
    \<and> filter (\<lambda>i. is_done (instances s ! i)) (behaviors s) = []
    \<and> set (behaviors s) \<subseteq> set (dict_values (running s)) \<and> borrowed e = is_running n s"
proof -
  have "engine_inv call s" unfolding assms(1) by (rule engine.run_inv [OF Engine_init_inv])
  then have "sched_inv s" "own_inv call s" by (simp_all add: engine_inv_def)
  moreover from this have "owner_ok call s n" by (simp add: own_inv_def)
  ultimately show ?thesis using assms(2,3)
    by (auto simp: sched_inv_def own_inv_def owner_ok_def is_running_def dict_has_def filter_empty_conv split: option.splits)
qed

text \<open>The engine after the sample events: blink is scheduled before wave, and broken is borrowed.\<close>

definition sample_engine :: "(nat, unit) Engine" where
  "sample_engine = foldl (engine_step sample_call) Engine_init sample_events"

lemmas sample_defs = sample_call_def sample_events_def register_def play_behavior_def borrow_def get_def set_borrowed_def
  executor_add_def Engine_init_def dict_has_def group_names_def

lemma sample_engine_eq: "sample_engine =
  \<lparr>instances = [\<lparr>priority = 5, sleep_until = 0, is_done = False\<rparr>, \<lparr>priority = 1, sleep_until = 0, is_done = False\<rparr>],
   behaviors = [1, 0],
   entries = [(''wave'', \<lparr>entry_name = ''wave'', entry_behavior = 1, entry_groups = [''arms''], entry_metadata = (), borrowed = True\<rparr>),
     (''blink'', \<lparr>entry_name = ''blink'', entry_behavior = 2, entry_groups = [], entry_metadata = (), borrowed = True\<rparr>),
     (''broken'', \<lparr>entry_name = ''broken'', entry_behavior = 0, entry_groups = [], entry_metadata = (), borrowed = True\<rparr>)],
   group_table = [(''arms'', {''wave''})], running = [(''wave'', 0), (''blink'', 1)], sync_time = 0\<rparr>"
  by (simp add: sample_engine_def sample_defs Let_def)

lemma sample_engine_inv: "engine_inv sample_call sample_engine"
  unfolding sample_engine_def by (rule engine.run_inv [OF Engine_init_inv])

theorem engine_ownership_witness:
  "sorted (map (\<lambda>i. priority (instances sample_engine ! i)) (behaviors sample_engine))
    \<and> behaviors sample_engine = [1, 0] \<and> is_running ''wave'' sample_engine"
  using engine_ownership [OF sample_engine_def, of "''wave''"] by (simp add: sample_engine_eq sample_call_def)

text \<open>
  C27. A tick in which no awake behavior raises advances exactly the behaviors that are not asleep, once
  each and in order of the schedule. Afterwards each scheduled instance is what its action made of it,
  the finished ones are no longer scheduled, and a name is running exactly when it was running and its
  instance is still scheduled; the others' entries can be borrowed again.
\<close>

theorem tick_runs_awake_behaviors:
  assumes "s = foldl (engine_step call) Engine_init es"
    and "\<And>i. i \<in> set (behaviors s) \<Longrightarrow> sleep_until (instances s ! i) \<le> now \<Longrightarrow> \<not> raises (out i)"
  shows "\<exists>s'. tick out now s = (None, filter (\<lambda>i. sleep_until (instances s ! i) \<le> now) (behaviors s), s')
    \<and> behaviors s' = filter (\<lambda>i. \<not> is_done (ticked now (out i) (instances s ! i))) (behaviors s)
    \<and> (\<forall>j. instances s' ! j = (if j \<in> set (behaviors s) then ticked now (out j) (instances s ! j) else instances s ! j))
    \<and> (\<forall>n. dict_get (running s') n =
        (case dict_get (running s) n of None \<Rightarrow> None | Some i \<Rightarrow> if i \<in> set (behaviors s') then Some i else None))
    \<and> engine_inv call s'"
proof -
  have inv: "engine_inv call s" unfolding assms(1) by (rule engine.run_inv [OF Engine_init_inv])
  have "filter (\<lambda>i. sleep_until (instances s ! i) \<le> now) (behaviors s) = filter (\<lambda>i. awake now (instances s ! i)) (behaviors s)"
    using inv by (intro filter_cong) (auto simp: awake_def engine_inv_def sched_inv_def)
  then show ?thesis using tick_calm [OF inv, of now out] assms(2) by (simp add: awake_def)
qed

theorem tick_runs_awake_behaviors_witness:
  "\<exists>s'. tick (\<lambda>i. if i = 1 then StopIteration else Yields (Some (action_sleep 2))) 10 sample_engine = (None, [1, 0], s')
    \<and> behaviors s' = [0] \<and> sleep_until (instances s' ! 0) = 12 \<and> is_running ''wave'' s' \<and> \<not> is_running ''blink'' s'"
proof -
  have "\<exists>s'. tick (\<lambda>i. if i = 1 then StopIteration else Yields (Some (action_sleep 2))) 10 sample_engine =
      (None, filter (\<lambda>i. sleep_until (instances sample_engine ! i) \<le> 10) (behaviors sample_engine), s')
    \<and> behaviors s' = filter (\<lambda>i. \<not> is_done (ticked 10 (if i = 1 then StopIteration else Yields (Some (action_sleep 2)))
        (instances sample_engine ! i))) (behaviors sample_engine)
    \<and> (\<forall>j. instances s' ! j = (if j \<in> set (behaviors sample_engine)
        then ticked 10 (if j = 1 then StopIteration else Yields (Some (action_sleep 2))) (instances sample_engine ! j)
        else instances sample_engine ! j))
    \<and> (\<forall>n. dict_get (running s') n = (case dict_get (running sample_engine) n of None \<Rightarrow> None
        | Some i \<Rightarrow> if i \<in> set (behaviors s') then Some i else None))
    \<and> engine_inv sample_call s'"
    by (rule tick_runs_awake_behaviors [OF sample_engine_def]) (simp add: raises_def)
  then show ?thesis
    by (auto simp: sample_engine_eq ticked_def step_def action_sleep_def action_stop_def handle_action_def is_running_def dict_has_def)
qed

text \<open>
  When a behavior's function raises or returns something that is not an iterator, playing it fails,
  and the entry stays borrowed although nothing runs under its name: until somebody releases it by hand,
  no stop and no tick frees it and playing it again is refused.
\<close>

theorem failed_play_leaks_borrow:
  assumes "engine_inv call s" "dict_get (entries s) n = Some e" "\<not> borrowed e" "call (entry_behavior e) \<noteq> MakesIterator"
  shows "let s1 = snd (play_behavior call n p s);
             s2 = stop_behavior n s1;
             s3 = snd (snd (tick out now s2))
         in (\<exists>err. fst (play_behavior call n p s) = Inl err) \<and> \<not> is_running n s1
           \<and> s2 = s1 \<and> play_behavior call n p' s3 = (Inl (AlreadyBorrowed n), s3)"
proof -
  let ?s1 = "set_borrowed n True s"
  obtain err where play: "play_behavior call n p s = (Inl err, ?s1)"
    using assms(2-4) by (cases "call (entry_behavior e)") (simp_all add: play_behavior_def borrow_def get_def executor_add_def)
  have "owner_ok call s n" using assms(1) by (simp add: engine_inv_def own_inv_def)
  then have idle: "dict_get (running s) n = None" using assms(2,3) by (simp add: owner_ok_def split: option.splits)
  then have stop: "stop_behavior n ?s1 = ?s1" by (simp add: stop_behavior_def)
  have inv1: "engine_inv call ?s1" using play_inv [OF assms(1), of n p] play by simp
  show ?thesis unfolding Let_def play snd_conv fst_conv stop using idle tick_keeps_idle [OF inv1, of n] assms(2)
    by (simp add: is_running_def dict_has_def play_behavior_def borrow_def get_def set_borrowed_get)
qed

theorem failed_play_leaks_borrow_witness:
  "\<not> is_running ''broken'' sample_engine \<and>
   play_behavior sample_call ''broken'' 0 (snd (snd (tick (\<lambda>i. StopIteration) 1 sample_engine))) =
     (Inl (AlreadyBorrowed ''broken''), snd (snd (tick (\<lambda>i. StopIteration) 1 sample_engine)))"
proof -
  let ?s = "foldl (engine_step sample_call) Engine_init (butlast sample_events)"
  have inv: "engine_inv sample_call ?s" by (rule engine.run_inv [OF Engine_init_inv])
  have s: "snd (play_behavior sample_call ''broken'' 0 ?s) = sample_engine"
    by (simp add: sample_engine_def sample_events_def)
  have e: "dict_get (entries ?s) ''broken'' =
      Some \<lparr>entry_name = ''broken'', entry_behavior = 0, entry_groups = [], entry_metadata = (), borrowed = False\<rparr>"
    by (simp add: sample_defs Let_def)
  show ?thesis using failed_play_leaks_borrow [OF inv e, of 0 "\<lambda>i. StopIteration" 1 0]
    by (auto simp: Let_def s sample_call_def)
qed

end
