(* ===== verification/BehaviorSupport.thy ===== *)
theory BehaviorSupport
  imports BehaviorEngine
begin

text \<open>
  The rest of the behavior engine (\<open>libs/behavior_engine\<close>): topics between behaviors (\<open>context.py\<close>), behaviors
  written as classes (\<open>behavior.py\<close>), the executor with a thread per behavior
  (\<open>deterministic_executor.py\<close>), and loading behaviors from modules (\<open>plugin.py\<close>).

  Subscribers and publishers are shared objects and live in stores; a pull is consumed at once. Times are
  real numbers, and what the clock said is an argument of the step that reads it.
\<close>

section \<open>Topics (context.py)\<close>

record 'a BehaviorContext =
  messages :: "'a list list"
  publishers :: "(string, nat list) dict"

definition BehaviorContext_init :: "'a BehaviorContext" where
  "BehaviorContext_init = \<lparr>messages = [], publishers = []\<rparr>"

text \<open>A publisher is named by its topic, of which there is one; its value is the list of its subscribers.\<close>

definition create_publisher :: "string \<Rightarrow> 'a BehaviorContext \<Rightarrow> 'a BehaviorContext" where
  "create_publisher topic c = (if dict_has (publishers c) topic then c else c\<lparr>publishers := dict_set (publishers c) topic []\<rparr>)"

definition subscribers :: "'a BehaviorContext \<Rightarrow> string \<Rightarrow> nat list" where
  "subscribers c topic = (case dict_get (publishers c) topic of None \<Rightarrow> [] | Some subs \<Rightarrow> subs)"

definition add_subscriber :: "string \<Rightarrow> nat \<Rightarrow> 'a BehaviorContext \<Rightarrow> 'a BehaviorContext" where
  "add_subscriber topic i c = c\<lparr>publishers := dict_set (publishers c) topic (subscribers c topic @ [i])\<rparr>"

definition create_subscriber :: "string \<Rightarrow> 'a BehaviorContext \<Rightarrow> nat \<times> 'a BehaviorContext" where
  "create_subscriber topic c =
     (let i = length (messages c); c = create_publisher topic (c\<lparr>messages := messages c @ [[]]\<rparr>)
      in (i, add_subscriber topic i c))"

definition publish :: "string \<Rightarrow> 'a \<Rightarrow> 'a BehaviorContext \<Rightarrow> 'a BehaviorContext" where
  "publish topic msg c =
     foldl (\<lambda>c i. c\<lparr>messages := (messages c)[i := messages c ! i @ [msg]]\<rparr>) c (subscribers c topic)"

definition pull :: "nat \<Rightarrow> 'a BehaviorContext \<Rightarrow> 'a list \<times> 'a BehaviorContext" where
  "pull i c = (messages c ! i, c\<lparr>messages := (messages c)[i := []]\<rparr>)"

definition clear_messages :: "nat \<Rightarrow> 'a BehaviorContext \<Rightarrow> 'a BehaviorContext" where
  "clear_messages i c = c\<lparr>messages := (messages c)[i := []]\<rparr>"

section \<open>Behaviors as classes (behavior.py)\<close>

text \<open>The iterator calls \<open>setup\<close> once, before the first \<open>tick\<close>; what \<open>setup\<close> returns is dropped. An exception ends a
  generator.\<close>

datatype abstract_pc = NotStarted | Ticking | Ended

definition abstract_next ::
    "string option \<Rightarrow> string + BehaviorActionRaw option \<Rightarrow> abstract_pc \<Rightarrow> next_outcome \<times> abstract_pc" where
  "abstract_next setup tck pc =
     (let ticked = (case tck of Inl e \<Rightarrow> (NextRaises e, Ended) | Inr a \<Rightarrow> (Yields a, Ticking))
      in case pc of
           Ended \<Rightarrow> (StopIteration, Ended)
         | Ticking \<Rightarrow> ticked
         | NotStarted \<Rightarrow> (case setup of Some e \<Rightarrow> (NextRaises e, Ended) | None \<Rightarrow> ticked))"

section \<open>A thread per behavior (deterministic\_executor.py)\<close>

record BehaviorThread =
  thread_instance :: BehaviorInstance
  thread_running :: bool
  tick_period :: "real option"
  next_tick :: "real option"
  slept_until :: "real list"

definition BehaviorThread_init :: "BehaviorInstance \<Rightarrow> BehaviorThread" where
  "BehaviorThread_init b =
     \<lparr>thread_instance = b, thread_running = False, tick_period = None, next_tick = None, slept_until = []\<rparr>"

definition thread_start :: "BehaviorThread \<Rightarrow> BehaviorThread" where
  "thread_start th = th\<lparr>thread_running := True\<rparr>"

definition thread_stop :: "BehaviorThread \<Rightarrow> BehaviorThread" where
  "thread_stop th = th\<lparr>thread_running := False\<rparr>"

text \<open>\<open>slept_until\<close> records the times until which the thread asked to sleep; \<open>now\<close> and \<open>now_after\<close> are the two
  readings of the clock.\<close>

definition tick_sleep :: "real \<Rightarrow> real \<Rightarrow> real \<Rightarrow> BehaviorThread \<Rightarrow> BehaviorThread" where
  "tick_sleep freq now now_after th =
     (if freq \<le> 0 then th
      else
        (let period = 1 / freq;
             th = (if tick_period th \<noteq> Some period then th\<lparr>tick_period := Some period, next_tick := Some (now + period)\<rparr> else th);
             due = (case next_tick th of None \<Rightarrow> now + period | Some t \<Rightarrow> t);
             th = (if due - now > 0 then th\<lparr>slept_until := slept_until th @ [due]\<rparr> else th);
             next = due + period
         in th\<lparr>next_tick := Some (if next < now_after then now_after + period else next)\<rparr>))"

definition thread_handle_action :: "BehaviorActionRaw \<Rightarrow> real \<Rightarrow> real \<Rightarrow> BehaviorThread \<Rightarrow> BehaviorThread" where
  "thread_handle_action action now now_after th =
     (let (action_type, arg) = action
      in case action_type of
           STOP \<Rightarrow> th\<lparr>thread_instance := (thread_instance th)\<lparr>is_done := True\<rparr>, thread_running := False\<rparr>
         | CONTINUE \<Rightarrow> th
         | SLEEP \<Rightarrow> th\<lparr>slept_until := slept_until th @ [now + max 0 arg]\<rparr>
         | TICK \<Rightarrow> tick_sleep arg now now_after th)"

datatype thread_result = ThreadEnded | ThreadContinues | ThreadRaised string

text \<open>One turn of the loop of \<open>_run\<close>.\<close>

definition run_turn :: "real \<Rightarrow> next_outcome \<Rightarrow> real \<Rightarrow> real \<Rightarrow> BehaviorThread \<Rightarrow> thread_result \<times> BehaviorThread" where
  "run_turn now out t t_after th =
     (if \<not> (thread_running th \<and> \<not> is_done (thread_instance th)) then (ThreadEnded, th)
      else case step now out (thread_instance th) of
        StepRaises e \<Rightarrow> (ThreadRaised e, th)
      | StepAction a \<Rightarrow> (ThreadContinues, thread_handle_action a t t_after th)
      | _ \<Rightarrow> (ThreadContinues, thread_handle_action action_continue t t_after th))"

text \<open>The executor: its table is keyed by instances, and an instance is a dataclass with equality, which
  Python makes unhashable. The thread is started after the table was updated.\<close>

datatype det_error = DetNotAnIterator | DetFactoryRaised string | Unhashable

record DeterministicExecutor =
  det_behaviors :: "(BehaviorInstance \<times> BehaviorThread) list"

definition det_set :: "BehaviorInstance \<Rightarrow> BehaviorThread \<Rightarrow> DeterministicExecutor \<Rightarrow> det_error + DeterministicExecutor" where
  "det_set b th x = Inl Unhashable"

definition det_add :: "('b \<Rightarrow> factory_result) \<Rightarrow> 'b \<Rightarrow> int \<Rightarrow> DeterministicExecutor \<Rightarrow> (det_error + BehaviorInstance) \<times> DeterministicExecutor" where
  "det_add call b prio x =
     (case call b of
        FactoryRaises e \<Rightarrow> (Inl (DetFactoryRaised e), x)
      | MakesOther \<Rightarrow> (Inl DetNotAnIterator, x)
      | MakesIterator \<Rightarrow>
          (let inst = \<lparr>priority = prio, sleep_until = 0, is_done = False\<rparr>
           in case det_set inst (BehaviorThread_init inst) x of
                Inl e \<Rightarrow> (Inl e, x)
              | Inr x \<Rightarrow> (Inr inst, x\<lparr>det_behaviors := map (\<lambda>(b, th). (b, thread_start th)) (det_behaviors x)\<rparr>)))"

text \<open>\<open>dict.pop\<close> with a default does not look at the key of an empty dictionary.\<close>

definition det_remove :: "BehaviorInstance \<Rightarrow> DeterministicExecutor \<Rightarrow> (det_error + unit) \<times> DeterministicExecutor" where
  "det_remove b x = (if det_behaviors x = [] then Inr () else Inl Unhashable, x)"

definition det_shutdown :: "DeterministicExecutor \<Rightarrow> DeterministicExecutor" where
  "det_shutdown x = x\<lparr>det_behaviors := []\<rparr>"

section \<open>Loading behaviors (plugin.py)\<close>

record ('b, 'm) BehaviorPlugin =
  plugin_name :: string
  plugin_behavior :: 'b
  plugin_groups :: "string list"
  plugin_metadata :: 'm

text \<open>
  The metadata stands for the keyword arguments under names other than \<open>self\<close>, \<open>name\<close>, \<open>behavior\<close> and
  \<open>groups\<close>. The decorator takes \<open>self\<close> and \<open>behavior\<close> as metadata too, but \<open>load_behavior\<close> then
  raises a \<open>TypeError\<close>, as these are the names of its own parameters; such plugins are not modelled.
\<close>

text \<open>The values of a module's variables, with the plugin a decorator attached.\<close>

type_synonym ('b, 'm) module = "(string \<times> ('b, 'm) BehaviorPlugin option) list"

definition discover_behaviors :: "('b, 'm) module \<Rightarrow> ('b, 'm) BehaviorPlugin list" where
  "discover_behaviors m = List.map_filter snd m"

fun load_plugins :: "('b, 'm) BehaviorPlugin list \<Rightarrow> ('b, 'm) Engine \<Rightarrow> (engine_error + ('b, 'm) BehaviorEntry list) \<times> ('b, 'm) Engine" where
  "load_plugins [] s = (Inr [], s)"
| "load_plugins (p # ps) s =
     (case register (plugin_name p) (plugin_behavior p) (if plugin_groups p = [] then None else Some (plugin_groups p)) (plugin_metadata p) s of
        (Inl e, s) \<Rightarrow> (Inl e, s)
      | (Inr entry, s) \<Rightarrow> (let (r, s) = load_plugins ps s in (res_bind r (\<lambda>es. Inr (entry # es)), s)))"

definition load_behaviors_from_module ::
    "('b, 'm) module \<Rightarrow> ('b, 'm) Engine \<Rightarrow> (engine_error + ('b, 'm) BehaviorEntry list) \<times> ('b, 'm) Engine" where
  "load_behaviors_from_module m s = load_plugins (discover_behaviors m) s"

text \<open>A file of a directory: its name, whether it is a regular file, and the module it holds.\<close>

record ('b, 'm) plugin_file =
  file_name :: string
  is_regular :: bool
  file_module :: "('b, 'm) module"

fun load_files :: "('b, 'm) plugin_file list \<Rightarrow> ('b, 'm) Engine \<Rightarrow> (engine_error + ('b, 'm) BehaviorEntry list) \<times> ('b, 'm) Engine" where
  "load_files [] s = (Inr [], s)"
| "load_files (f # fs) s =
     (if take 1 (file_name f) = ''_'' \<or> \<not> is_regular f then load_files fs s
      else case load_behaviors_from_module (file_module f) s of
        (Inl e, s) \<Rightarrow> (Inl e, s)
      | (Inr es, s) \<Rightarrow> (let (r, s) = load_files fs s in (res_bind r (\<lambda>es'. Inr (es @ es')), s)))"

datatype load_error = NotADirectory | LoadFailed engine_error

definition load_behaviors_from_directory ::
    "bool \<Rightarrow> ('b, 'm) plugin_file list \<Rightarrow> ('b, 'm) Engine \<Rightarrow> (load_error + ('b, 'm) BehaviorEntry list) \<times> ('b, 'm) Engine" where
  "load_behaviors_from_directory is_dir fs s =
     (if \<not> is_dir then (Inl NotADirectory, s)
      else (let (r, s) = load_files (sort_key file_name fs) s in (map_sum LoadFailed id r, s)))"

section \<open>Topics deliver each message once\<close>

datatype 'a ctx_event =
    NewPublisher string
  | NewSubscriber string
  | Pub string 'a
  | Pull nat
  | ClearSub nat

text \<open>A step gives what was pulled, with the subscriber that pulled it.\<close>

fun ctx_step :: "'a ctx_event \<Rightarrow> 'a BehaviorContext \<Rightarrow> (nat \<times> 'a list) list \<times> 'a BehaviorContext" where
  "ctx_step (NewPublisher topic) c = ([], create_publisher topic c)"
| "ctx_step (NewSubscriber topic) c = ([], snd (create_subscriber topic c))"
| "ctx_step (Pub topic msg) c = ([], publish topic msg c)"
| "ctx_step (Pull i) c = (let (ms, c) = pull i c in ([(i, ms)], c))"
| "ctx_step (ClearSub i) c = ([], clear_messages i c)"

fun ctx_run :: "'a ctx_event list \<Rightarrow> 'a BehaviorContext \<Rightarrow> (nat \<times> 'a list) list \<times> 'a BehaviorContext" where
  "ctx_run [] c = ([], c)"
| "ctx_run (e # es) c = (let (out, c) = ctx_step e c; (outs, c) = ctx_run es c in (out @ outs, c))"

fun published_on :: "string \<Rightarrow> 'a ctx_event list \<Rightarrow> 'a list" where
  "published_on t [] = []"
| "published_on t (Pub t' m # es) = (if t' = t then m # published_on t es else published_on t es)"
| "published_on t (_ # es) = published_on t es"

definition pulled_by :: "nat \<Rightarrow> (nat \<times> 'a list) list \<Rightarrow> 'a list" where
  "pulled_by i outs = concat (map snd (filter (\<lambda>(j, ms). j = i) outs))"

text \<open>A subscriber of one topic, listed there once.\<close>

definition listens :: "'a BehaviorContext \<Rightarrow> nat \<Rightarrow> string \<Rightarrow> bool" where
  "listens c i t \<longleftrightarrow> i < length (messages c) \<and> (\<forall>t'. count_list (subscribers c t') i = of_bool (t' = t))"

definition subs_exist :: "'a BehaviorContext \<Rightarrow> bool" where
  "subs_exist c \<longleftrightarrow> (\<forall>t. \<forall>i \<in> set (subscribers c t). i < length (messages c))"

lemma subscribers_create: "subscribers (create_publisher t c) t' = subscribers c t'"
  by (simp add: create_publisher_def subscribers_def dict_has_def dict_get_set split: option.splits)

lemma create_publisher_messages [simp]: "messages (create_publisher t c) = messages c"
  by (simp add: create_publisher_def)

lemma subscribers_messages [simp]: "subscribers (c\<lparr>messages := ms\<rparr>) t = subscribers c t"
  by (simp add: subscribers_def)

lemma add_subscriber_simps:
  "subscribers (add_subscriber t i c) t' = subscribers c t' @ (if t' = t then [i] else [])" "messages (add_subscriber t i c) = messages c"
  by (auto simp: add_subscriber_def subscribers_def dict_get_set)

lemma create_subscriber_simps:
  "messages (snd (create_subscriber t c)) = messages c @ [[]]"
  "subscribers (snd (create_subscriber t c)) t' = subscribers c t' @ (if t' = t then [length (messages c)] else [])"
  "fst (create_subscriber t c) = length (messages c)"
  by (simp_all add: create_subscriber_def Let_def add_subscriber_simps subscribers_create)

lemma push_all:
  "i < length (messages c) \<Longrightarrow>
   messages (foldl (\<lambda>c i. c\<lparr>messages := (messages c)[i := messages c ! i @ [m]]\<rparr>) c is) ! i = messages c ! i @ replicate (count_list is i) m
   \<and> length (messages (foldl (\<lambda>c i. c\<lparr>messages := (messages c)[i := messages c ! i @ [m]]\<rparr>) c is)) = length (messages c)
   \<and> publishers (foldl (\<lambda>c i. c\<lparr>messages := (messages c)[i := messages c ! i @ [m]]\<rparr>) c is) = publishers c"
  by (induction "is" arbitrary: c) (auto simp: nth_list_update replicate_append_same)

lemma push_all_frame:
  "length (messages (publish t m c)) = length (messages c)" "publishers (publish t m c) = publishers c"
proof -
  have "length (messages (foldl (\<lambda>c i. c\<lparr>messages := (messages c)[i := messages c ! i @ [m]]\<rparr>) c is)) = length (messages c)
      \<and> publishers (foldl (\<lambda>c i. c\<lparr>messages := (messages c)[i := messages c ! i @ [m]]\<rparr>) c is) = publishers c" for "is"
    by (induction "is" arbitrary: c) simp_all
  then show "length (messages (publish t m c)) = length (messages c)" "publishers (publish t m c) = publishers c"
    by (simp_all add: publish_def)
qed

lemma publish_listener:
  "listens c i t \<Longrightarrow> messages (publish t' m c) ! i = messages c ! i @ (if t' = t then [m] else [])"
  using push_all [of i c m "subscribers c t'"] by (auto simp: publish_def listens_def)

lemma listens_step: "listens c i t \<Longrightarrow> listens (snd (ctx_step e c)) i t"
proof (cases e)
  case (Pub t' m)
  then show "listens c i t \<Longrightarrow> ?thesis" by (simp add: listens_def subscribers_def push_all_frame)
qed (auto simp: listens_def subscribers_create create_subscriber_simps pull_def clear_messages_def)

lemma subs_exist_step: "subs_exist c \<Longrightarrow> subs_exist (snd (ctx_step e c))"
proof (cases e)
  case (Pub t' m)
  then show "subs_exist c \<Longrightarrow> ?thesis" by (simp add: subs_exist_def subscribers_def push_all_frame)
next
  case (NewSubscriber t)
  then show "subs_exist c \<Longrightarrow> ?thesis" by (fastforce simp: subs_exist_def create_subscriber_simps split: if_splits)
qed (auto simp: subs_exist_def subscribers_create pull_def clear_messages_def)

interpretation ctx: event_machine "\<lambda>c e. snd (ctx_step e c)" subs_exist
  by unfold_locales (rule subs_exist_step)

lemma fifo_run:
  "listens c i t \<Longrightarrow> ClearSub i \<notin> set es \<Longrightarrow>
   pulled_by i (fst (ctx_run es c)) @ messages (snd (ctx_run es c)) ! i = messages c ! i @ published_on t es"
proof (induction es arbitrary: c)
  case (Cons e es)
  let ?c = "snd (ctx_step e c)"
  have IH: "pulled_by i (fst (ctx_run es ?c)) @ messages (snd (ctx_run es ?c)) ! i = messages ?c ! i @ published_on t es"
    using Cons.IH [OF listens_step [OF Cons.prems(1)]] Cons.prems(2) by simp
  have run: "ctx_run (e # es) c = (fst (ctx_step e c) @ fst (ctx_run es ?c), snd (ctx_run es ?c))" by (simp add: split_beta)
  have "pulled_by i (fst (ctx_step e c)) @ messages ?c ! i = messages c ! i @ published_on t [e]"
  proof (cases e)
    case (NewSubscriber t')
    then show ?thesis using Cons.prems(1) by (simp add: pulled_by_def create_subscriber_simps nth_append listens_def)
  next
    case (Pub t' m)
    then show ?thesis using publish_listener [OF Cons.prems(1), of t' m] by (simp add: pulled_by_def)
  next
    case (Pull j)
    then show ?thesis using Cons.prems(1) by (simp add: pulled_by_def pull_def nth_list_update listens_def)
  qed (use Cons.prems in \<open>auto simp: pulled_by_def clear_messages_def\<close>)
  moreover have "published_on t (e # es) = published_on t [e] @ published_on t es" by (cases e) simp_all
  moreover have "pulled_by i (xs @ ys) = pulled_by i xs @ pulled_by i ys" for xs ys :: "(nat \<times> 'a list) list" by (simp add: pulled_by_def)
  ultimately show ?case using IH by (metis append.assoc fst_conv run snd_conv)
qed (simp add: pulled_by_def)

section \<open>Properties\<close>

text \<open>
  A behavior that subscribes to a topic gets every message published on it afterwards exactly once and in
  order, however other publishers, subscribers and pulls interleave: what it has pulled so far followed by
  what waits for it is the sequence of messages published since, as long as it does not clear its queue.
\<close>

theorem topic_delivers_in_order:
  assumes "c0 = foldl (\<lambda>c e. snd (ctx_step e c)) BehaviorContext_init before"
    and "create_subscriber topic c0 = (i, c)" "ClearSub i \<notin> set es"
  shows "pulled_by i (fst (ctx_run es c)) @ messages (snd (ctx_run es c)) ! i = published_on topic es"
proof -
  have "subs_exist c0" unfolding assms(1)
    by (rule ctx.run_inv) (simp add: subs_exist_def BehaviorContext_init_def subscribers_def)
  then have "count_list (subscribers c0 t) (length (messages c0)) = 0" for t
    by (auto simp: subs_exist_def count_list_0_iff)
  moreover have c: "c = snd (create_subscriber topic c0)" "i = length (messages c0)"
    using assms(2) create_subscriber_simps(3) [of topic c0] by simp_all
  ultimately have "listens c i topic" by (simp add: listens_def create_subscriber_simps)
  from fifo_run [OF this assms(3)] show ?thesis by (simp add: c create_subscriber_simps)
qed

theorem topic_delivers_in_order_witness:
  "let c = snd (create_subscriber ''pose'' BehaviorContext_init);
       (outs, c') = ctx_run [Pub ''pose'' (1 :: nat), NewSubscriber ''pose'', Pull 0, Pub ''voice'' 9, Pub ''pose'' 2] c
   in pulled_by 0 outs @ messages c' ! 0 = [1, 2]"
proof -
  have c: "create_subscriber ''pose'' BehaviorContext_init = (0, snd (create_subscriber ''pose'' (BehaviorContext_init :: nat BehaviorContext)))"
    by (simp add: prod_eq_iff create_subscriber_simps BehaviorContext_init_def)
  have "BehaviorContext_init = foldl (\<lambda>c e. snd (ctx_step e c)) BehaviorContext_init ([] :: nat ctx_event list)" by simp
  from topic_delivers_in_order [OF this c, of "[Pub ''pose'' 1, NewSubscriber ''pose'', Pull 0, Pub ''voice'' 9, Pub ''pose'' 2]"]
  show ?thesis by (simp add: Let_def split_beta)
qed

text \<open>A behavior that ticks at a constant frequency: the readings of the clock before and after each sleep.\<close>

definition ticks :: "real \<Rightarrow> (real \<times> real) list \<Rightarrow> BehaviorThread \<Rightarrow> BehaviorThread" where
  "ticks freq rs th = foldl (\<lambda>th (now, after). tick_sleep freq now after th) th rs"

lemma tick_sleep_first:
  assumes "0 < freq" "tick_period th \<noteq> Some (1 / freq)" "after \<le> now + 2 / freq"
  shows "tick_sleep freq now after th =
    th\<lparr>tick_period := Some (1 / freq), next_tick := Some (now + 2 / freq), slept_until := slept_until th @ [now + 1 / freq]\<rparr>"
  using assms by (cases th) (simp add: tick_sleep_def Let_def)

lemma tick_sleep_next:
  assumes "0 < freq" "tick_period th = Some (1 / freq)" "next_tick th = Some due" "after \<le> due + 1 / freq"
  shows "tick_sleep freq now after th =
    th\<lparr>next_tick := Some (due + 1 / freq), slept_until := slept_until th @ (if now < due then [due] else [])\<rparr>"
  using assms by (cases th) (simp add: tick_sleep_def Let_def)

lemma ticks_phase:
  assumes "0 < freq" "tick_period th = None"
  shows "rs \<noteq> [] \<Longrightarrow> t0 = fst (rs ! 0) \<Longrightarrow> \<forall>k < length rs. snd (rs ! k) \<le> t0 + (real k + 2) / freq \<Longrightarrow>
    tick_period (ticks freq rs th) = Some (1 / freq) \<and> next_tick (ticks freq rs th) = Some (t0 + (real (length rs) + 1) / freq)
    \<and> slept_until (ticks freq rs th) = slept_until th @
        map (\<lambda>k. t0 + (real k + 1) / freq) (filter (\<lambda>k. fst (rs ! k) < t0 + (real k + 1) / freq) [0..<length rs])"
proof (induction rs rule: rev_induct)
  case (snoc r rs)
  obtain now after where r: "r = (now, after)" by (cases r)
  have run: "ticks freq (rs @ [r]) th = tick_sleep freq now after (ticks freq rs th)" by (simp add: ticks_def r)
  show ?case
  proof (cases "rs = []")
    case True
    then have t0: "t0 = now" "after \<le> now + 2 / freq" using snoc.prems by (simp_all add: r)
    have "tick_period (ticks freq rs th) \<noteq> Some (1 / freq)" using True assms(2) by (simp add: ticks_def)
    from tick_sleep_first [OF assms(1) this t0(2)] show ?thesis unfolding run using True assms(1) t0(1) by (simp add: r ticks_def)
  next
    case False
    let ?n = "length rs" and ?th = "ticks freq rs th"
    have "\<forall>k < length rs. snd (rs ! k) \<le> t0 + (real k + 2) / freq"
      using snoc.prems(3) by (metis (no_types) length_append less_add_same_cancel1 nth_append trans_less_add1)
    moreover have "t0 = fst (rs ! 0)" using snoc.prems(2) False by (simp add: nth_append)
    ultimately have IH: "tick_period ?th = Some (1 / freq)" "next_tick ?th = Some (t0 + (real ?n + 1) / freq)"
      "slept_until ?th = slept_until th @ map (\<lambda>k. t0 + (real k + 1) / freq) (filter (\<lambda>k. fst (rs ! k) < t0 + (real k + 1) / freq) [0..<?n])"
      using snoc.IH [OF False] by simp_all
    have "after \<le> t0 + (real ?n + 1) / freq + 1 / freq"
      using snoc.prems(3) by (auto simp: r add_divide_distrib dest!: spec [of _ ?n])
    note step = tick_sleep_next [OF assms(1) IH(1,2) this, of now]
    have "filter (\<lambda>k. fst ((rs @ [r]) ! k) < t0 + (real k + 1) / freq) [0..<?n] = filter (\<lambda>k. fst (rs ! k) < t0 + (real k + 1) / freq) [0..<?n]"
      by (rule filter_cong) (simp_all add: nth_append)
    then show ?thesis unfolding run step using IH by (simp add: r add_divide_distrib)
  qed
qed simp

text \<open>
  A behavior that ticks at a constant frequency does not drift: from the first tick at \<open>t0\<close> on, the k-th
  sleep ends at \<open>t0 + (k + 1) / freq\<close>, whatever time the behavior itself took, as long as it never overran
  by more than a period; a tick that comes late is not slept for.
\<close>

theorem ticks_do_not_drift:
  assumes "0 < freq" "tick_period th = None" "slept_until th = []" "rs \<noteq> []"
    and "\<forall>k < length rs. snd (rs ! k) \<le> fst (rs ! 0) + (real k + 2) / freq"
  shows "next_tick (ticks freq rs th) = Some (fst (rs ! 0) + (real (length rs) + 1) / freq)
    \<and> slept_until (ticks freq rs th) =
        map (\<lambda>k. fst (rs ! 0) + (real k + 1) / freq) (filter (\<lambda>k. fst (rs ! k) < fst (rs ! 0) + (real k + 1) / freq) [0..<length rs])"
  using ticks_phase [OF assms(1,2,4) refl assms(5)] assms(3) by simp

theorem ticks_do_not_drift_witness:
  "slept_until (ticks 2 [(10, 10.5), (10.7, 11), (11.6, 11.7)] (BehaviorThread_init \<lparr>priority = 0, sleep_until = 0, is_done = False\<rparr>)) = [10.5, 11]"
proof -
  let ?rs = "[(10, 10.5), (10.7, 11), (11.6, 11.7)] :: (real \<times> real) list"
  have "snd (?rs ! k) \<le> fst (?rs ! 0) + (real k + 2) / 2" if "k < length ?rs" for k
  proof -
    have "k = 0 \<or> k = 1 \<or> k = 2" using that by auto
    then show ?thesis by auto
  qed
  then show ?thesis
    using ticks_do_not_drift [of 2 "BehaviorThread_init \<lparr>priority = 0, sleep_until = 0, is_done = False\<rparr>" ?rs]
    by (simp add: BehaviorThread_init_def)
qed

text \<open>
  The executor with a thread per behavior runs nothing: whatever behavior is added, \<open>add\<close> raises, because the
  instances it uses as dictionary keys cannot be hashed; no thread is ever registered or started.
\<close>

theorem deterministic_executor_runs_nothing:
  "\<exists>e. fst (det_add call b prio x) = Inl e \<and> snd (det_add call b prio x) = x"
  by (simp add: det_add_def det_set_def Let_def split: factory_result.splits)

text \<open>
  Loading the behaviors of a module registers them all, in the order of the module, exactly when their names
  differ and none is taken; otherwise it stops at the first name that is taken, and the behaviors before
  it stay registered.
\<close>

theorem module_loads_up_to_first_clash:
  "let (r, s') = load_plugins ps s
   in if distinct (map plugin_name ps) \<and> list_all (\<lambda>p. \<not> dict_has (entries s) (plugin_name p)) ps
      then (\<exists>es. r = Inr es \<and> map entry_name es = map plugin_name ps) \<and> set (dict_keys (entries s')) = set (dict_keys (entries s)) \<union> plugin_name ` set ps
      else (\<exists>qs p rest. ps = qs @ p # rest \<and> r = Inl (AlreadyRegistered (plugin_name p))
        \<and> set (dict_keys (entries s')) = set (dict_keys (entries s)) \<union> plugin_name ` set qs)"
proof (induction ps arbitrary: s)
  case (Cons p ps)
  show ?case
  proof (cases "dict_has (entries s) (plugin_name p)")
    case True
    then show ?thesis by (auto simp: register_def intro!: exI [of _ "[]"])
  next
    case False
    let ?g = "if plugin_groups p = [] then None else Some (plugin_groups p)"
    obtain e t where reg: "register (plugin_name p) (plugin_behavior p) ?g (plugin_metadata p) s = (Inr e, t)" "entry_name e = plugin_name p"
      "set (dict_keys (entries t)) = insert (plugin_name p) (set (dict_keys (entries s)))"
      using False by (simp add: register_def Let_def dict_keys_set del: set_map)
    have keys: "fst ` set (entries t) = insert (plugin_name p) (fst ` set (entries s))" using reg(3) by simp
    obtain r s' where rec: "load_plugins ps t = (r, s')" by (cases "load_plugins ps t")
    have run: "load_plugins (p # ps) s = (res_bind r (\<lambda>es. Inr (e # es)), s')" using reg(1) rec by simp
    have fresh: "dict_has (entries t) n \<longleftrightarrow> n = plugin_name p \<or> dict_has (entries s) n" for n
      using reg(3) by (auto simp: dict_has_iff)
    have eq: "distinct (map plugin_name (p # ps)) \<and> list_all (\<lambda>q. \<not> dict_has (entries s) (plugin_name q)) (p # ps) \<longleftrightarrow>
        distinct (map plugin_name ps) \<and> list_all (\<lambda>q. \<not> dict_has (entries t) (plugin_name q)) ps"
      using False by (auto simp: fresh list_all_iff) (metis image_eqI)
    show ?thesis
    proof (cases "distinct (map plugin_name ps) \<and> list_all (\<lambda>q. \<not> dict_has (entries t) (plugin_name q)) ps")
      case True
      then show ?thesis using Cons.IH [of t] unfolding run eq rec by (auto simp: reg(2) keys)
    next
      case False
      then obtain qs q rest where "ps = qs @ q # rest" "r = Inl (AlreadyRegistered (plugin_name q))"
        "set (dict_keys (entries s')) = set (dict_keys (entries t)) \<union> plugin_name ` set qs"
        using Cons.IH [of t] unfolding rec by auto
      then show ?thesis using False unfolding run eq by (auto simp: keys intro!: exI [of _ "p # qs"])
    qed
  qed
qed simp

end
