(* ===== verification/BehaviorPlay.thy ===== *)
theory BehaviorPlay
  imports BehaviorSupport
begin

text \<open>
  From a plugin module to the stage: the decorator that declares a behavior (\<open>behavior_engine/plugin.py\<close>), the
  lookups of the engine (\<open>engine.py\<close>), and what it takes that the behaviors a module declares for a group
  can be played by the name of that group.
\<close>

section \<open>Declaring behaviors (plugin.py)\<close>

text \<open>A decorated object: a subclass of \<open>AbstractBehavior\<close>, or any other callable.\<close>

datatype 'f target = BehaviorClass 'f | OtherCallable 'f

definition behavior :: "string \<Rightarrow> string list option \<Rightarrow> 'm \<Rightarrow> 'f target \<Rightarrow> ('f target, 'm) BehaviorPlugin" where
  "behavior name groups metadata target =
     \<lparr>plugin_name = name, plugin_behavior = target, plugin_groups = (case groups of None \<Rightarrow> [] | Some gs \<Rightarrow> gs), plugin_metadata = metadata\<rparr>"

text \<open>The wrapper instantiates a class with the context; any other callable is called with it as it is.\<close>

definition make_callable :: "('f \<Rightarrow> factory_result) \<Rightarrow> ('f \<Rightarrow> factory_result) \<Rightarrow> 'f target \<Rightarrow> factory_result" where
  "make_callable instantiate call t = (case t of BehaviorClass c \<Rightarrow> instantiate c | OtherCallable f \<Rightarrow> call f)"

section \<open>Lookups of the engine (engine.py)\<close>

definition load_behavior ::
    "string \<Rightarrow> 'b \<Rightarrow> string list option \<Rightarrow> 'm \<Rightarrow> ('b, 'm) Engine \<Rightarrow> (engine_error + ('b, 'm) BehaviorEntry) \<times> ('b, 'm) Engine" where
  "load_behavior name b groups metadata s = register name b groups metadata s"

definition get_behavior :: "string \<Rightarrow> ('b, 'm) Engine \<Rightarrow> engine_error + ('b, 'm) BehaviorEntry" where
  "get_behavior name s = get name s"

definition get_behaviors_by_group :: "string \<Rightarrow> ('b, 'm) Engine \<Rightarrow> engine_error + ('b, 'm) BehaviorEntry list" where
  "get_behaviors_by_group g s = by_group g s"

definition get_behaviors_by_groups :: "string list \<Rightarrow> ('b, 'm) Engine \<Rightarrow> engine_error + ('b, 'm) BehaviorEntry list" where
  "get_behaviors_by_groups gs s = by_groups gs s"

definition loaded_behaviors :: "('b, 'm) Engine \<Rightarrow> ('b, 'm) BehaviorEntry list" where
  "loaded_behaviors s = all_entries s"

section \<open>What a loaded module leaves in the registry\<close>

definition entry_of :: "('b, 'm) BehaviorPlugin \<Rightarrow> ('b, 'm) BehaviorEntry" where
  "entry_of p = \<lparr>entry_name = plugin_name p, entry_behavior = plugin_behavior p, entry_groups = plugin_groups p,
     entry_metadata = plugin_metadata p, borrowed = False\<rparr>"

lemma register_plugin:
  assumes "\<not> dict_has (entries s) (plugin_name p)"
  shows "\<exists>s'. register (plugin_name p) (plugin_behavior p) (if plugin_groups p = [] then None else Some (plugin_groups p)) (plugin_metadata p) s
      = (Inr (entry_of p), s')
    \<and> (\<forall>n. dict_get (entries s') n = (if n = plugin_name p then Some (entry_of p) else dict_get (entries s) n))
    \<and> (\<forall>g. group_names (group_table s') g =
        (if g \<in> set (plugin_groups p) then insert (plugin_name p) (group_names (group_table s) g) else group_names (group_table s) g))
    \<and> running s' = running s \<and> behaviors s' = behaviors s \<and> instances s' = instances s"
  using assms by (simp add: register_def Let_def entry_of_def group_names_add dict_simps)

lemma load_plugins_entries:
  assumes "distinct (map plugin_name ps)" "\<forall>p \<in> set ps. \<not> dict_has (entries s) (plugin_name p)"
  shows "\<exists>s'. load_plugins ps s = (Inr (map entry_of ps), s')
    \<and> (\<forall>p \<in> set ps. dict_get (entries s') (plugin_name p) = Some (entry_of p))
    \<and> (\<forall>n. n \<notin> plugin_name ` set ps \<longrightarrow> dict_get (entries s') n = dict_get (entries s) n)
    \<and> (\<forall>g. group_names (group_table s') g = group_names (group_table s) g \<union> {plugin_name p | p. p \<in> set ps \<and> g \<in> set (plugin_groups p)})
    \<and> running s' = running s"
  using assms
proof (induction ps arbitrary: s)
  case (Cons p ps)
  from register_plugin [of s p] Cons.prems(2) obtain t where t:
    "register (plugin_name p) (plugin_behavior p) (if plugin_groups p = [] then None else Some (plugin_groups p)) (plugin_metadata p) s = (Inr (entry_of p), t)"
    "\<And>n. dict_get (entries t) n = (if n = plugin_name p then Some (entry_of p) else dict_get (entries s) n)"
    "\<And>g. group_names (group_table t) g = (if g \<in> set (plugin_groups p) then insert (plugin_name p) (group_names (group_table s) g)
      else group_names (group_table s) g)" "running t = running s" by auto
  have new: "plugin_name q \<noteq> plugin_name p" if "q \<in> set ps" for q using Cons.prems(1) that by (auto simp: rev_image_eqI)
  then have "\<forall>q \<in> set ps. \<not> dict_has (entries t) (plugin_name q)" using Cons.prems(2) by (auto simp: dict_has_def t(2))
  with Cons.IH [of t] Cons.prems(1) obtain s' where s': "load_plugins ps t = (Inr (map entry_of ps), s')"
    "\<forall>p \<in> set ps. dict_get (entries s') (plugin_name p) = Some (entry_of p)"
    "\<forall>n. n \<notin> plugin_name ` set ps \<longrightarrow> dict_get (entries s') n = dict_get (entries t) n"
    "\<forall>g. group_names (group_table s') g = group_names (group_table t) g \<union> {plugin_name p | p. p \<in> set ps \<and> g \<in> set (plugin_groups p)}"
    "running s' = running t" by auto
  have "plugin_name p \<notin> plugin_name ` set ps" using new by force
  then have "dict_get (entries s') (plugin_name p) = Some (entry_of p)" using s'(3) t(2) by simp
  moreover have "group_names (group_table s') g =
      group_names (group_table s) g \<union> {plugin_name q | q. q \<in> set (p # ps) \<and> g \<in> set (plugin_groups q)}" for g
    using s'(4) t(3) [of g] by auto
  ultimately show ?case using s' t by (intro exI [of _ s']) auto
qed (simp add: entry_of_def)

lemma entries_of_known:
  "\<forall>n \<in> set ns. \<exists>e. dict_get (entries s) n = Some e \<Longrightarrow> entries_of ns s = Inr (map (\<lambda>n. the (dict_get (entries s) n)) ns)"
  by (induction ns) (auto simp: get_def)

lemma play_idle:
  assumes "dict_get (entries s) n = Some e" "\<not> borrowed e" "call (entry_behavior e) = MakesIterator" "\<not> dict_has (running s) n"
  shows "\<exists>i s'. play_behavior call n prio s = (Inr i, s') \<and> dict_keys (running s') = dict_keys (running s) @ [n]
    \<and> (\<forall>m. m \<noteq> n \<longrightarrow> dict_get (entries s') m = dict_get (entries s) m)"
proof -
  have keys: "\<not> dict_has d n \<Longrightarrow> dict_keys (dict_set d n i) = dict_keys d @ [n]" for d :: "(string, nat) dict" and i
    by (induction d) (auto simp: dict_has_def)
  show ?thesis using assms
    by (simp add: play_behavior_def borrow_def get_def executor_add_def Let_def keys set_borrowed_get)
qed

lemma play_all_idle:
  assumes "distinct (map entry_name es)"
    and "\<forall>e \<in> set es. dict_get (entries s) (entry_name e) = Some e \<and> \<not> borrowed e \<and> call (entry_behavior e) = MakesIterator \<and> \<not> dict_has (running s) (entry_name e)"
  shows "\<exists>js s'. play_all call es prio s = (Inr js, s') \<and> length js = length es \<and> dict_keys (running s') = dict_keys (running s) @ map entry_name es"
  using assms
proof (induction es arbitrary: s)
  case (Cons e es)
  from Cons.prems(2) play_idle [of s "entry_name e" e call prio] obtain i t where t: "play_behavior call (entry_name e) prio s = (Inr i, t)"
    "dict_keys (running t) = dict_keys (running s) @ [entry_name e]" "\<forall>m. m \<noteq> entry_name e \<longrightarrow> dict_get (entries t) m = dict_get (entries s) m" by auto
  have "entry_name f \<noteq> entry_name e" if "f \<in> set es" for f using Cons.prems(1) that by (auto simp: rev_image_eqI)
  moreover have "dict_has (running t) m \<longleftrightarrow> dict_has (running s) m \<or> m = entry_name e" for m
    unfolding dict_has_iff t(2) by auto
  ultimately have "\<forall>f \<in> set es. dict_get (entries t) (entry_name f) = Some f \<and> \<not> borrowed f \<and> call (entry_behavior f) = MakesIterator \<and> \<not> dict_has (running t) (entry_name f)"
    using Cons.prems(2) t(3) by simp
  with Cons.IH [of t] Cons.prems(1) obtain js s' where "play_all call es prio t = (Inr js, s')" "length js = length es"
    "dict_keys (running s') = dict_keys (running t) @ map entry_name es" by auto
  then show ?case using t(1,2) by simp
qed simp

section \<open>Properties\<close>

text \<open>
  C31. What a plugin module declares can be played: loading a module whose behaviors have different names into a new engine
  succeeds, and playing a group then starts exactly the behaviors declared for that group, each once and in the
  order of their names, as long as each of them makes an iterator.
\<close>

theorem declared_group_can_be_played:
  assumes "distinct (map plugin_name (discover_behaviors m))"
    and "\<forall>p \<in> set (discover_behaviors m). g \<in> set (plugin_groups p) \<longrightarrow> call (plugin_behavior p) = MakesIterator"
  defines "names \<equiv> sorted_list_of_set {plugin_name p | p. p \<in> set (discover_behaviors m) \<and> g \<in> set (plugin_groups p)}"
  shows "\<exists>s js s'. load_behaviors_from_module m Engine_init = (Inr (map entry_of (discover_behaviors m)), s)
    \<and> play_behavior_group call g prio s = (Inr js, s') \<and> length js = length names \<and> running_behaviors s' = names"
proof -
  let ?ps = "discover_behaviors m"
  from load_plugins_entries [OF assms(1), of Engine_init] obtain s where s: "load_plugins ?ps Engine_init = (Inr (map entry_of ?ps), s)"
    "\<forall>p \<in> set ?ps. dict_get (entries s) (plugin_name p) = Some (entry_of p)"
    "group_names (group_table s) g = {plugin_name p | p. p \<in> set ?ps \<and> g \<in> set (plugin_groups p)}" "running s = []"
    by (auto simp: Engine_init_def dict_has_def group_names_def)
  let ?es = "map (\<lambda>n. the (dict_get (entries s) n)) names"
  have fin: "finite {plugin_name p | p. p \<in> set ?ps \<and> g \<in> set (plugin_groups p)}" by simp
  have known: "\<exists>p \<in> set ?ps. g \<in> set (plugin_groups p) \<and> n = plugin_name p \<and> dict_get (entries s) n = Some (entry_of p)" if "n \<in> set names" for n
    using that s(2) fin by (auto simp: names_def)
  then have grp: "by_group g s = Inr ?es"
    unfolding by_group_def s(3) names_def [symmetric] by (intro entries_of_known) blast
  have nm: "entry_name (the (dict_get (entries s) n)) = n" if "n \<in> set names" for n
    using known [OF that] by (auto simp: entry_of_def)
  then have map: "map entry_name ?es = names" by (simp add: map_idI)
  have "distinct names" by (simp add: names_def)
  moreover have "\<forall>e \<in> set ?es. dict_get (entries s) (entry_name e) = Some e \<and> \<not> borrowed e \<and> call (entry_behavior e) = MakesIterator \<and> \<not> dict_has (running s) (entry_name e)"
  proof
    fix e assume "e \<in> set ?es"
    then obtain n where n: "n \<in> set names" "e = the (dict_get (entries s) n)" by auto
    with known [OF n(1)] assms(2) show "dict_get (entries s) (entry_name e) = Some e \<and> \<not> borrowed e \<and> call (entry_behavior e) = MakesIterator
        \<and> \<not> dict_has (running s) (entry_name e)"
      by (auto simp: entry_of_def s(4) dict_has_def)
  qed
  ultimately obtain js s' where "play_all call ?es prio s = (Inr js, s')" "length js = length ?es" "dict_keys (running s') = names"
    using play_all_idle [of ?es s call prio] unfolding map s(4) by auto
  then show ?thesis using s(1) grp
    by (intro exI [of _ s] exI [of _ js] exI [of _ s']) (simp add: load_behaviors_from_module_def play_behavior_group_def running_behaviors_def)
qed

theorem declared_group_can_be_played_witness:
  "\<exists>s js s'. load_behaviors_from_module
      [(''wave'', Some (behavior ''wave'' (Some [''greet'', ''arms'']) () (OtherCallable (1 :: nat)))), (''x'', None),
       (''Nod'', Some (behavior ''nod'' (Some [''greet'']) () (BehaviorClass 2))), (''sleep'', Some (behavior ''sleep'' None () (OtherCallable 3)))]
      Engine_init = (Inr [entry_of (behavior ''wave'' (Some [''greet'', ''arms'']) () (OtherCallable 1)), entry_of (behavior ''nod'' (Some [''greet'']) () (BehaviorClass 2)),
        entry_of (behavior ''sleep'' None () (OtherCallable 3))], s)
    \<and> play_behavior_group (make_callable (\<lambda>_. MakesIterator) (\<lambda>f. if f = 1 then MakesIterator else MakesOther)) ''greet'' 0 s = (Inr js, s')
    \<and> length js = 2 \<and> set (running_behaviors s') = {''wave'', ''nod''}"
proof -
  let ?m = "[(''wave'', Some (behavior ''wave'' (Some [''greet'', ''arms'']) () (OtherCallable (1 :: nat)))), (''x'', None),
       (''Nod'', Some (behavior ''nod'' (Some [''greet'']) () (BehaviorClass 2))), (''sleep'', Some (behavior ''sleep'' None () (OtherCallable 3)))]"
  have ps: "discover_behaviors ?m = [behavior ''wave'' (Some [''greet'', ''arms'']) () (OtherCallable 1), behavior ''nod'' (Some [''greet'']) () (BehaviorClass 2),
      behavior ''sleep'' None () (OtherCallable 3)]"
    by (simp add: discover_behaviors_def map_filter_simps)
  have names: "{plugin_name p | p. p \<in> set (discover_behaviors ?m) \<and> ''greet'' \<in> set (plugin_groups p)} = {''wave'', ''nod''}"
  proof -
    have "{plugin_name p | p. p \<in> set (discover_behaviors ?m) \<and> ''greet'' \<in> set (plugin_groups p)} =
        plugin_name ` set (filter (\<lambda>p. ''greet'' \<in> set (plugin_groups p)) (discover_behaviors ?m))" by auto
    also have "\<dots> = {''wave'', ''nod''}" unfolding ps by (simp add: behavior_def)
    finally show ?thesis .
  qed
  have "distinct (map plugin_name (discover_behaviors ?m))" "\<forall>p \<in> set (discover_behaviors ?m). ''greet'' \<in> set (plugin_groups p) \<longrightarrow>
      make_callable (\<lambda>_. MakesIterator) (\<lambda>f. if f = 1 then MakesIterator else MakesOther) (plugin_behavior p) = MakesIterator"
    unfolding ps by (simp_all add: behavior_def make_callable_def)
  from declared_group_can_be_played [OF this, of 0] obtain s js s' where
    r: "load_behaviors_from_module ?m Engine_init = (Inr (map entry_of (discover_behaviors ?m)), s)"
    "play_behavior_group (make_callable (\<lambda>_. MakesIterator) (\<lambda>f. if f = 1 then MakesIterator else MakesOther)) ''greet'' 0 s = (Inr js, s')"
    "length js = length (sorted_list_of_set {''wave'', ''nod''})" "running_behaviors s' = sorted_list_of_set {''wave'', ''nod''}"
    unfolding names by blast
  have "finite {''wave'', ''nod''}" by simp
  then have "length js = 2" "set (running_behaviors s') = {''wave'', ''nod''}" unfolding r(3,4) by (simp_all add: insert_commute)
  with r(2) r(1) [unfolded ps list.map] show ?thesis by blast
qed

end
