(* ===== verification/StateMachine.thy ===== *)
theory StateMachine
  imports Alerts
begin

text \<open>
  The system state machine of the supervisor (\<open>orchestration/state_machine\<close>): the generic
  transition-checking FSM, the translation of alert changes into semantic events, and the
  \<open>SystemFSM\<close> with its table and its event handlers.
\<close>

section \<open>The generic FSM (fsm.py)\<close>

record 's StateChangeResult =
  prev_state :: 's
  new_state :: 's
  legal_transition :: bool

definition changed :: "'s StateChangeResult \<Rightarrow> bool" where
  "changed r \<longleftrightarrow> prev_state r \<noteq> new_state r"

datatype 's fsm_error =
    FSM_finalized               \<comment> \<open>RuntimeError: FSM has been finalized\<close>
  | Invalid_transition 's 's    \<comment> \<open>ValueError of change\_state\<close>

record 's FSM =
  fsm_state :: 's
  fsm_transitions :: "'s \<rightharpoonup> 's set"
  fsm_finalized :: bool

definition FSM_init :: "'s \<Rightarrow> 's FSM" where
  "FSM_init initial_state =
     \<lparr>fsm_state = initial_state, fsm_transitions = Map.empty, fsm_finalized = False\<rparr>"

definition ensure_mutable :: "'s FSM \<Rightarrow> 's fsm_error + unit" where
  "ensure_mutable m = (if fsm_finalized m then Inl FSM_finalized else Inr ())"

definition targets :: "'s FSM \<Rightarrow> 's \<Rightarrow> 's set" where
  "targets m s = (case fsm_transitions m s of None \<Rightarrow> {} | Some ds \<Rightarrow> ds)"

definition add_transition :: "'s \<Rightarrow> 's \<Rightarrow> 's FSM \<Rightarrow> 's fsm_error + 's FSM" where
  "add_transition source destination m =
     res_bind (ensure_mutable m) (\<lambda>_. Inr
       (m\<lparr>fsm_transitions := (fsm_transitions m)(source \<mapsto> insert destination (targets m source))\<rparr>))"

definition add_transitions :: "'s \<Rightarrow> 's set \<Rightarrow> 's FSM \<Rightarrow> 's fsm_error + 's FSM" where
  "add_transitions source destinations m =
     res_bind (ensure_mutable m) (\<lambda>_. Inr
       (m\<lparr>fsm_transitions := (fsm_transitions m)(source \<mapsto> targets m source \<union> destinations)\<rparr>))"

definition finalize_fsm :: "'s FSM \<Rightarrow> 's fsm_error + 's FSM" where
  "finalize_fsm m = res_bind (ensure_mutable m) (\<lambda>_. Inr (m\<lparr>fsm_finalized := True\<rparr>))"

definition change_state :: "'s \<Rightarrow> 's FSM \<Rightarrow> 's fsm_error + ('s StateChangeResult \<times> 's FSM)" where
  "change_state new m =
     (if new \<notin> targets m (fsm_state m) then Inl (Invalid_transition (fsm_state m) new)
      else Inr (\<lparr>prev_state = fsm_state m, new_state = new, legal_transition = True\<rparr>,
                m\<lparr>fsm_state := new\<rparr>))"

definition force_change_state :: "'s \<Rightarrow> 's FSM \<Rightarrow> 's StateChangeResult \<times> 's FSM" where
  "force_change_state new m =
     (case change_state new m of
        Inr r \<Rightarrow> r
      | Inl _ \<Rightarrow> (\<lparr>prev_state = fsm_state m, new_state = new, legal_transition = False\<rparr>,
                  m\<lparr>fsm_state := new\<rparr>))"

lemma change_state_Inr:
  "change_state new m = Inr (r, m') \<longleftrightarrow>
     new \<in> targets m (fsm_state m) \<and> m' = m\<lparr>fsm_state := new\<rparr> \<and>
     r = \<lparr>prev_state = fsm_state m, new_state = new, legal_transition = True\<rparr>"
  by (auto simp: change_state_def)

lemma force_change_state_eq:
  "force_change_state new m =
     (\<lparr>prev_state = fsm_state m, new_state = new,
       legal_transition = (new \<in> targets m (fsm_state m))\<rparr>, m\<lparr>fsm_state := new\<rparr>)"
  by (simp add: force_change_state_def change_state_def)

lemma targets_state [simp]: "targets (m\<lparr>fsm_state := s\<rparr>) = targets m"
  by (simp add: targets_def fun_eq_iff)

section \<open>Alert changes as semantic events (event\_mapper.py)\<close>

datatype SystemEvent =
    SESSION_CREATION_REQUESTED
  | SESSION_CREATED
  | SESSION_CREATION_FAILED
  | DISCONNECT_REQUESTED
  | DISCONNECTED
  | FATAL_FAULT

definition map_alert_to_system_event :: "AlertActionType \<Rightarrow> Alert \<Rightarrow> SystemEvent option" where
  "map_alert_to_system_event action alert =
     (if action = RAISE then
        (if alert_level alert = Level_FATAL then Some FATAL_FAULT
         else if alert_code alert = INF_SESSION_CREATION_REQUEST then Some SESSION_CREATION_REQUESTED
         else if alert_code alert = INF_SESSION_CREATION_OK then Some SESSION_CREATED
         else if alert_code alert = ERR_SESSION_CREATION_FAILED then Some SESSION_CREATION_FAILED
         else if alert_code alert = INF_SESSION_CLOSURE_REQUEST then Some DISCONNECT_REQUESTED
         else if alert_code alert = INF_SESSION_CLOSURE_OK then Some DISCONNECTED
         else None)
      else None)"

lemma fatal_event_iff:
  "map_alert_to_system_event act a = Some FATAL_FAULT \<longleftrightarrow> act = RAISE \<and> alert_level a = Level_FATAL"
  by (simp add: map_alert_to_system_event_def)

section \<open>The system FSM (system\_fsm.py)\<close>

datatype SystemState = BOOTING | STANDBY | CONNECTING | ACTIVE | DISCONNECTING | FAULT | SHUTDOWN

definition SystemFSM_build :: "SystemState fsm_error + SystemState FSM" where
  "SystemFSM_build =
     res_bind (add_transitions BOOTING {STANDBY, FAULT} (FSM_init BOOTING)) (\<lambda>m.
     res_bind (add_transitions STANDBY {CONNECTING, FAULT} m) (\<lambda>m.
     res_bind (add_transitions CONNECTING {STANDBY, ACTIVE, FAULT} m) (\<lambda>m.
     res_bind (add_transitions ACTIVE {DISCONNECTING, FAULT} m) (\<lambda>m.
     res_bind (add_transitions DISCONNECTING {STANDBY, FAULT} m) (\<lambda>m.
       add_transitions FAULT {SHUTDOWN} m)))))"

type_synonym sys_result = "SystemState fsm_error + (SystemState StateChangeResult \<times> SystemState FSM)"

definition noop :: "SystemState FSM \<Rightarrow> sys_result" where
  "noop m = Inr (\<lparr>prev_state = fsm_state m, new_state = fsm_state m, legal_transition = True\<rparr>, m)"

definition handle_booting :: "SystemEvent \<Rightarrow> SystemState FSM \<Rightarrow> sys_result" where
  "handle_booting event m = noop m"

definition handle_standby :: "SystemEvent \<Rightarrow> SystemState FSM \<Rightarrow> sys_result" where
  "handle_standby event m =
     (if event = SESSION_CREATION_REQUESTED then change_state CONNECTING m else noop m)"

definition handle_connecting :: "SystemEvent \<Rightarrow> SystemState FSM \<Rightarrow> sys_result" where
  "handle_connecting event m =
     (if event = SESSION_CREATED then change_state ACTIVE m
      else if event = SESSION_CREATION_FAILED then change_state STANDBY m
      else noop m)"

definition handle_active :: "SystemEvent \<Rightarrow> SystemState FSM \<Rightarrow> sys_result" where
  "handle_active event m =
     (if event = DISCONNECT_REQUESTED then change_state DISCONNECTING m
      else if event = DISCONNECTED then Inr (force_change_state STANDBY m)
      else noop m)"

definition handle_disconnecting :: "SystemEvent \<Rightarrow> SystemState FSM \<Rightarrow> sys_result" where
  "handle_disconnecting event m =
     (if event = DISCONNECTED then change_state STANDBY m else noop m)"

definition process_event :: "SystemEvent \<Rightarrow> SystemState FSM \<Rightarrow> sys_result" where
  "process_event event m =
     (if event = FATAL_FAULT then
        (if fsm_state m = FAULT then noop m else Inr (force_change_state FAULT m))
      else if fsm_state m = BOOTING then handle_booting event m
      else if fsm_state m = STANDBY then handle_standby event m
      else if fsm_state m = CONNECTING then handle_connecting event m
      else if fsm_state m = ACTIVE then handle_active event m
      else if fsm_state m = DISCONNECTING then handle_disconnecting event m
      else noop m)"

lemmas handler_defs =
  handle_booting_def handle_standby_def handle_connecting_def handle_active_def
  handle_disconnecting_def noop_def

text \<open>The table as a function: the edges of the state diagram.\<close>

fun sys_edges :: "SystemState \<Rightarrow> SystemState set" where
  "sys_edges BOOTING = {STANDBY, FAULT}"
| "sys_edges STANDBY = {CONNECTING, FAULT}"
| "sys_edges CONNECTING = {STANDBY, ACTIVE, FAULT}"
| "sys_edges ACTIVE = {DISCONNECTING, FAULT}"
| "sys_edges DISCONNECTING = {STANDBY, FAULT}"
| "sys_edges FAULT = {SHUTDOWN}"
| "sys_edges SHUTDOWN = {}"

definition is_system_fsm :: "SystemState FSM \<Rightarrow> bool" where
  "is_system_fsm m \<longleftrightarrow> targets m = sys_edges"

definition SystemFSM_new :: "SystemState FSM" where
  "SystemFSM_new = (case SystemFSM_build of Inr m \<Rightarrow> m | Inl _ \<Rightarrow> FSM_init BOOTING)"

lemma SystemFSM_build_ok: "SystemFSM_build = Inr SystemFSM_new"
  by (simp add: SystemFSM_new_def SystemFSM_build_def add_transitions_def ensure_mutable_def FSM_init_def)

lemma SystemFSM_new_table: "is_system_fsm SystemFSM_new"
  unfolding is_system_fsm_def
proof
  fix s show "targets SystemFSM_new s = sys_edges s"
    by (cases s) (simp_all add: SystemFSM_new_def SystemFSM_build_def add_transitions_def
        ensure_mutable_def FSM_init_def targets_def)
qed

lemma SystemFSM_new_state [simp]: "fsm_state SystemFSM_new = BOOTING"
  by (simp add: SystemFSM_new_def SystemFSM_build_def add_transitions_def ensure_mutable_def FSM_init_def)

lemma is_system_fsm_state [simp]: "is_system_fsm (m\<lparr>fsm_state := s\<rparr>) = is_system_fsm m"
  by (simp add: is_system_fsm_def)

section \<open>What an event does\<close>

text \<open>The next state, as the diagram reads.\<close>

fun sys_next :: "SystemState \<Rightarrow> SystemEvent \<Rightarrow> SystemState" where
  "sys_next s FATAL_FAULT = FAULT"
| "sys_next STANDBY SESSION_CREATION_REQUESTED = CONNECTING"
| "sys_next CONNECTING SESSION_CREATED = ACTIVE"
| "sys_next CONNECTING SESSION_CREATION_FAILED = STANDBY"
| "sys_next ACTIVE DISCONNECT_REQUESTED = DISCONNECTING"
| "sys_next ACTIVE DISCONNECTED = STANDBY"
| "sys_next DISCONNECTING DISCONNECTED = STANDBY"
| "sys_next s e = s"

definition sys_result_of :: "SystemState \<Rightarrow> SystemState \<Rightarrow> SystemState StateChangeResult" where
  "sys_result_of s s' = \<lparr>prev_state = s, new_state = s', legal_transition = (s' = s \<or> s' \<in> sys_edges s)\<rparr>"

lemma process_event_eq:
  assumes "is_system_fsm m"
  shows "process_event e m =
    Inr (sys_result_of (fsm_state m) (sys_next (fsm_state m) e),
         m\<lparr>fsm_state := sys_next (fsm_state m) e\<rparr>)"
proof -
  have t: "targets m = sys_edges" using assms by (simp add: is_system_fsm_def)
  show ?thesis
    by (cases "fsm_state m"; cases e)
      (simp_all add: process_event_def handler_defs change_state_def force_change_state_eq t
        sys_result_of_def)
qed

definition fsm_step :: "SystemState FSM \<Rightarrow> SystemEvent \<Rightarrow> SystemState FSM" where
  "fsm_step m e = (case process_event e m of Inr (_, m') \<Rightarrow> m' | Inl _ \<Rightarrow> m)"

interpretation sysfsm: refined_machine fsm_step is_system_fsm fsm_state sys_next
  by unfold_locales (simp_all add: fsm_step_def process_event_eq)

lemma sys_next_fault [simp]: "sys_next FAULT e = FAULT"
  by (cases e) simp_all

lemma sys_run_fault: "foldl sys_next FAULT es = FAULT"
  by (induction es) simp_all

lemma sys_next_shutdown: "sys_next SHUTDOWN e = (if e = FATAL_FAULT then FAULT else SHUTDOWN)"
  by (cases e) simp_all

text \<open>A state other than \<open>FAULT\<close> has not seen a fatal event; only the boot state is kept by all others.\<close>

lemma sys_run_no_fault: "FATAL_FAULT \<notin> set es \<Longrightarrow> s \<noteq> FAULT \<Longrightarrow> foldl sys_next s es \<noteq> FAULT"
proof (induction es arbitrary: s)
  case (Cons e es)
  have "sys_next s e \<noteq> FAULT" using Cons.prems by (cases s; cases e) auto
  with Cons show ?case by simp
qed simp

lemma sys_run_fatal: "FATAL_FAULT \<in> set es \<Longrightarrow> foldl sys_next s es = FAULT"
  by (induction es arbitrary: s) (auto simp: sys_run_fault)

section \<open>Properties\<close>

text \<open>
  In every system FSM (the built-in table, whatever its state) processing an event never raises:
  it moves to the state the diagram gives, reports the state it left and the one it entered, and
  flags the move as legal exactly when the state did not change or the move is an edge of the
  table.
\<close>

theorem process_event_follows_diagram:
  "SystemFSM_build = Inr SystemFSM_new
   \<and> process_event e ((foldl fsm_step SystemFSM_new es)\<lparr>fsm_state := s\<rparr>) =
     Inr (sys_result_of s (sys_next s e),
          (foldl fsm_step SystemFSM_new es)\<lparr>fsm_state := sys_next s e\<rparr>)"
  using sysfsm.run_inv [OF SystemFSM_new_table, of es]
  by (simp add: process_event_eq SystemFSM_build_ok)

text \<open>
  Fault is reached exactly by a fatal event and is never left by events: from a state other
  than fault, a run of events ends in fault if and only if it contains a fatal event.
\<close>

theorem fault_iff_fatal_event:
  assumes "is_system_fsm m" and "fsm_state m \<noteq> FAULT"
  shows "fsm_state (foldl fsm_step m es) = FAULT \<longleftrightarrow> FATAL_FAULT \<in> set es"
  using sys_run_no_fault [OF _ assms(2)] sys_run_fatal sysfsm.run_refines [OF assms(1), of es]
  by auto

theorem fault_iff_fatal_event_witness:
  "fsm_state (foldl fsm_step SystemFSM_new [SESSION_CREATED, FATAL_FAULT, DISCONNECTED]) = FAULT"
  using fault_iff_fatal_event [OF SystemFSM_new_table,
      of "[SESSION_CREATED, FATAL_FAULT, DISCONNECTED]"] by simp

text \<open>
  The only moves the machine makes that its own table does not allow are the end of a session
  reported straight from the active state and a fatal alert after shutdown; all other events
  give a legal result.
\<close>

theorem illegal_moves:
  assumes "is_system_fsm m" and "process_event e m = Inr (r, m')"
  shows "\<not> legal_transition r \<longleftrightarrow>
    (fsm_state m = ACTIVE \<and> e = DISCONNECTED) \<or> (fsm_state m = SHUTDOWN \<and> e = FATAL_FAULT)"
  using assms
  by (cases "fsm_state m"; cases e) (auto simp: process_event_eq sys_result_of_def)

theorem illegal_moves_witness:
  "let m = SystemFSM_new\<lparr>fsm_state := ACTIVE\<rparr>
   in \<exists>r m'. process_event DISCONNECTED m = Inr (r, m') \<and> \<not> legal_transition r"
  using illegal_moves [of "SystemFSM_new\<lparr>fsm_state := ACTIVE\<rparr>" DISCONNECTED]
  by (simp add: SystemFSM_new_table process_event_eq)

end
