(* ===== verification/Heartbeats.thy ===== *)
theory Heartbeats
  imports Prelude Complex_Main
begin

text \<open>
  Heartbeats (\<open>orchestration/heartbeats\<close>): the generator a node creates, and the listener the
  supervisor uses to notice a node that stopped sending. Times are real seconds; the reading of
  the clock is the argument \<open>now\<close>. \<open>check_heartbeats\<close> returns, beside the new table, the
  names for which it calls \<open>on_timeout\<close>, in the order of the calls.
\<close>

section \<open>Generator and listener\<close>

record Heartbeat =
  hb_name :: string
  next_within :: real

record HeartbeatGenerator =
  gen_name :: string
  hb_time_window :: real
  hb_sent :: "Heartbeat list"

datatype hb_error = AssertionError

definition HeartbeatGenerator_init ::
  "string \<Rightarrow> real \<Rightarrow> real \<Rightarrow> string \<Rightarrow> hb_error + HeartbeatGenerator" where
  "HeartbeatGenerator_init host_name period tolerance name =
     (if period > 0 \<and> tolerance > 0
      then Inr \<lparr>gen_name = (if name = '''' then host_name else name),
                hb_time_window = period + tolerance, hb_sent = []\<rparr>
      else Inl AssertionError)"

definition send_hb :: "HeartbeatGenerator \<Rightarrow> HeartbeatGenerator" where
  "send_hb g = g\<lparr>hb_sent := hb_sent g @ [\<lparr>hb_name = gen_name g, next_within = hb_time_window g\<rparr>]\<rparr>"

record HbEntry =
  deadline :: real
  reported :: bool

type_synonym hb_table = "(string, HbEntry) dict"

definition heartbeat_received :: "real \<Rightarrow> Heartbeat \<Rightarrow> hb_table \<Rightarrow> hb_table" where
  "heartbeat_received now hb tbl =
     dict_set tbl (hb_name hb) \<lparr>deadline = now + next_within hb, reported = False\<rparr>"

definition timed_out :: "real \<Rightarrow> HbEntry \<Rightarrow> bool" where
  "timed_out now e \<longleftrightarrow> \<not> reported e \<and> now > deadline e"

fun check_heartbeats :: "real \<Rightarrow> hb_table \<Rightarrow> hb_table \<times> string list" where
  "check_heartbeats now [] = ([], [])"
| "check_heartbeats now ((name, e) # tbl) =
     (let (tbl', names) = check_heartbeats now tbl
      in if timed_out now e then ((name, e\<lparr>reported := True\<rparr>) # tbl', name # names)
         else ((name, e) # tbl', names))"

section \<open>Runs of the listener\<close>

datatype hb_event = HbReceive real Heartbeat | HbCheck real

fun hb_step :: "hb_table \<times> string list \<Rightarrow> hb_event \<Rightarrow> hb_table \<times> string list" where
  "hb_step (tbl, out) (HbReceive now hb) = (heartbeat_received now hb tbl, out)"
| "hb_step (tbl, out) (HbCheck now) =
     (let (tbl', names) = check_heartbeats now tbl in (tbl', out @ names))"

definition hb_ok :: "hb_table \<times> string list \<Rightarrow> bool" where
  "hb_ok s \<longleftrightarrow> dict_ok (fst s)"

lemma check_keys [simp]: "dict_keys (fst (check_heartbeats now tbl)) = dict_keys tbl"
  by (induction now tbl rule: check_heartbeats.induct) (simp_all add: split_beta Let_def)

lemma check_get:
  "dict_get (fst (check_heartbeats now tbl)) n =
     map_option (\<lambda>e. if timed_out now e then e\<lparr>reported := True\<rparr> else e) (dict_get tbl n)"
  by (induction now tbl rule: check_heartbeats.induct) (simp_all add: split_beta Let_def)

lemma check_names_subset: "set (snd (check_heartbeats now tbl)) \<subseteq> set (dict_keys tbl)"
  by (induction now tbl rule: check_heartbeats.induct) (auto simp: split_beta Let_def)

lemma check_count:
  "dict_ok tbl \<Longrightarrow> count_list (snd (check_heartbeats now tbl)) n =
     (case dict_get tbl n of None \<Rightarrow> 0 | Some e \<Rightarrow> if timed_out now e then 1 else 0)"
proof (induction now tbl rule: check_heartbeats.induct)
  case (2 now name e tbl)
  then have "name \<notin> set (dict_keys tbl)" "dict_ok tbl" by (simp_all add: dict_ok_def)
  then have "count_list (snd (check_heartbeats now tbl)) name = 0"
    using check_names_subset [of now tbl] by (auto simp: count_list_0_iff)
  with 2 \<open>dict_ok tbl\<close> show ?case by (simp add: split_beta Let_def)
qed simp

lemma hb_step_ok: "hb_ok s \<Longrightarrow> hb_ok (hb_step s e)"
  by (cases "(s, e)" rule: hb_step.cases)
    (simp_all add: hb_ok_def heartbeat_received_def split_beta Let_def dict_ok_def distinct_update)

interpretation hb_listener: event_machine hb_step hb_ok
  by unfold_locales (rule hb_step_ok)

text \<open>Events that are no heartbeat of \<open>n\<close>, and the times at which a run checks.\<close>

definition no_beat :: "string \<Rightarrow> hb_event \<Rightarrow> bool" where
  "no_beat n ev \<longleftrightarrow> (case ev of HbReceive _ hb \<Rightarrow> hb_name hb \<noteq> n | HbCheck _ \<Rightarrow> True)"

definition checks_after :: "real \<Rightarrow> hb_event \<Rightarrow> bool" where
  "checks_after t ev \<longleftrightarrow> (case ev of HbReceive _ _ \<Rightarrow> False | HbCheck now \<Rightarrow> now > t)"

lemma hb_step_entry:
  assumes "hb_ok s" "no_beat n ev" "dict_get (fst s) n = Some e"
  shows "dict_get (fst (hb_step s ev)) n =
      Some (if checks_after (deadline e) ev then e\<lparr>reported := True\<rparr> else e)
    \<and> count_list (snd (hb_step s ev)) n =
      count_list (snd s) n + (if checks_after (deadline e) ev \<and> \<not> reported e then 1 else 0)"
  using assms
  by (cases "(s, ev)" rule: hb_step.cases)
    (auto simp: no_beat_def checks_after_def heartbeat_received_def dict_simps split_beta Let_def
      check_get check_count hb_ok_def timed_out_def)

lemma hb_run_entry:
  assumes "hb_ok s" "list_all (no_beat n) evs" "dict_get (fst s) n = Some e"
  shows "count_list (snd (foldl hb_step s evs)) n =
    count_list (snd s) n + (if list_ex (checks_after (deadline e)) evs \<and> \<not> reported e then 1 else 0)"
  using assms
proof (induction evs arbitrary: s e)
  case (Cons ev evs)
  let ?e = "if checks_after (deadline e) ev then e\<lparr>reported := True\<rparr> else e"
  from Cons.prems have n: "no_beat n ev" and ns: "list_all (no_beat n) evs" by simp_all
  note st = hb_step_entry [OF Cons.prems(1) n Cons.prems(3)]
  have "count_list (snd (foldl hb_step (hb_step s ev) evs)) n =
      count_list (snd (hb_step s ev)) n +
        (if list_ex (checks_after (deadline ?e)) evs \<and> \<not> reported ?e then 1 else 0)"
    using st by (intro Cons.IH hb_step_ok Cons.prems(1) ns) simp
  with st show ?case by (simp split: if_splits)
qed simp

section \<open>Properties\<close>

text \<open>
  After a heartbeat of a process, and until its next one, the listener reports that process
  exactly once if some check falls after the announced deadline, and never otherwise, whatever
  other heartbeats and checks happen.
\<close>

theorem timeout_reported_once:
  fixes start evs n t w
  defines "s \<equiv> hb_step (foldl hb_step ([], []) start) (HbReceive t \<lparr>hb_name = n, next_within = w\<rparr>)"
  assumes "list_all (no_beat n) evs"
  shows "count_list (snd (foldl hb_step s evs)) n =
    count_list (snd s) n + (if list_ex (checks_after (t + w)) evs then 1 else 0)"
proof -
  have "hb_ok (foldl hb_step ([], []) start)"
    by (rule hb_listener.run_inv) (simp add: hb_ok_def)
  then have "hb_ok s" unfolding s_def by (rule hb_step_ok)
  moreover have "dict_get (fst s) n = Some \<lparr>deadline = t + w, reported = False\<rparr>"
    by (cases "foldl hb_step ([], []) start") (simp add: s_def heartbeat_received_def dict_simps)
  ultimately show ?thesis using hb_run_entry [OF _ assms(2)] by simp
qed

theorem timeout_reported_once_witness:
  "snd (foldl hb_step ([], [])
     [HbReceive 1 \<lparr>hb_name = ''core:x'', next_within = 10\<rparr>, HbCheck 5, HbCheck 12, HbCheck 13])
   = [''core:x'']
   \<and> count_list (snd (foldl hb_step ([(''core:x'', \<lparr>deadline = 11, reported = False\<rparr>)], [])
       [HbCheck 5, HbCheck 12, HbCheck 13])) ''core:x'' = 1"
  using timeout_reported_once [of "''core:x''" "[HbCheck 5, HbCheck 12, HbCheck 13]" "[]" 1 10]
  by (simp add: heartbeat_received_def timed_out_def no_beat_def checks_after_def)

text \<open>
  A heartbeat announces a window of its period plus its tolerance: a process whose generator
  was built with that period and tolerance is not reported by any check made within that window
  after a heartbeat of its is received.
\<close>

theorem beat_silences_listener:
  assumes "HeartbeatGenerator_init host period tolerance name = Inr g"
    and "hb_sent (send_hb g) = [hb]"
    and "list_all (no_beat (hb_name hb)) evs"
    and "list_all (\<lambda>ev. \<not> checks_after (t + period + tolerance) ev) evs"
  shows "count_list (snd (foldl hb_step (hb_step ([], []) (HbReceive t hb)) evs)) (hb_name hb) = 0"
proof -
  have w: "next_within hb = period + tolerance"
    using assms(1,2) by (auto simp: HeartbeatGenerator_init_def send_hb_def split: if_splits)
  have "\<not> list_ex (checks_after (t + next_within hb)) evs"
    using assms(4) by (auto simp: w list_all_iff list_ex_iff add.assoc)
  then show ?thesis
    using hb_run_entry [of "hb_step ([], []) (HbReceive t hb)", OF _ assms(3),
        of "\<lparr>deadline = t + next_within hb, reported = False\<rparr>"]
    by (simp add: hb_ok_def heartbeat_received_def dict_ok_def)
qed

theorem beat_silences_listener_witness:
  "snd (foldl hb_step (hb_step ([], []) (HbReceive 0 \<lparr>hb_name = ''core:x'', next_within = 5 + 5\<rparr>)) [HbCheck 9])
     = []
   \<and> count_list (snd (foldl hb_step
       (hb_step ([], []) (HbReceive 0 \<lparr>hb_name = ''core:x'', next_within = 5 + 5\<rparr>)) [HbCheck 9])) ''core:x'' = 0"
  using beat_silences_listener [of "''node''" 5 5 "''core:x''"
      "\<lparr>gen_name = ''core:x'', hb_time_window = 5 + 5, hb_sent = []\<rparr>"
      "\<lparr>hb_name = ''core:x'', next_within = 5 + 5\<rparr>" "[HbCheck 9]" 0]
  by (simp add: HeartbeatGenerator_init_def send_hb_def no_beat_def checks_after_def
      heartbeat_received_def timed_out_def)

end
