(* ===== verification/LifecycleSup.thy ===== *)
theory LifecycleSup
  imports Prelude Complex_Main
begin

text \<open>
  Waiting on ROS futures (\<open>ros_async_utils.wait_future\<close>) and the supervisor's remote control of
  lifecycle nodes (\<open>lifecycle_sup_utility.py\<close>).

  What the two lifecycle services answer is the environment's choice: a record \<open>lc_link\<close> says
  whether each service is ready and, for a call, in which order the future's completion and the
  timeout timer fire. Lifecycle states and transitions are the symbolic constants of
  \<open>lifecycle_msgs\<close>. Every operation returns its result and the transitions it asked for; the
  result is \<open>None\<close> while nothing has fired, an error if the call raised, a value otherwise.
  The completion and the timeout are callbacks that run one after the other, in either order.
\<close>

section \<open>Waiting with a timeout (ros\_async\_utils.py)\<close>

datatype ros_error = Timeout_not_positive | Call_raised string

datatype 'r wf_event = WfDone 'r | WfException string | WfTimeout

type_synonym 'r wf_result = "(ros_error + 'r option) option"

text \<open>\<open>_complete\<close> and \<open>_timeout\<close>: each sets the result future unless it is already set.\<close>

fun wf_step :: "'r wf_result \<Rightarrow> 'r wf_event \<Rightarrow> 'r wf_result" where
  "wf_step (Some r) ev = Some r"
| "wf_step None (WfDone r) = Some (Inr (Some r))"
| "wf_step None (WfException e) = Some (Inl (Call_raised e))"
| "wf_step None WfTimeout = Some (Inr None)"

definition wait_future :: "real \<Rightarrow> 'r wf_event list \<Rightarrow> 'r wf_result" where
  "wait_future timeout evs =
     (if timeout \<le> 0 then Some (Inl Timeout_not_positive) else foldl wf_step None evs)"

lemma wf_settled: "foldl wf_step (Some r) evs = Some r"
  by (induction evs) simp_all

lemma wait_future_first:
  "timeout > 0 \<Longrightarrow> wait_future timeout (ev # evs) = wf_step None ev"
  by (cases ev) (simp_all add: wait_future_def wf_settled)

section \<open>Remote lifecycle nodes (lifecycle\_sup\_utility.py)\<close>

datatype lc_state = STATE_UNCONFIGURED | STATE_INACTIVE | STATE_ACTIVE | STATE_OTHER int

datatype lc_transition =
    TRANSITION_CONFIGURE
  | TRANSITION_CLEANUP
  | TRANSITION_ACTIVATE
  | TRANSITION_DEACTIVATE
  | TRANSITION_UNCONFIGURED_SHUTDOWN
  | TRANSITION_INACTIVE_SHUTDOWN
  | TRANSITION_ACTIVE_SHUTDOWN

record lc_link =
  get_ready :: bool
  change_ready :: bool
  get_answers :: "lc_state wf_event list"
  change_answers :: "lc_transition \<Rightarrow> bool wf_event list"
  get_sync :: "ros_error + lc_state option"
  change_sync :: "lc_transition \<Rightarrow> ros_error + bool option"

definition is_ready :: "lc_link \<Rightarrow> bool" where
  "is_ready l \<longleftrightarrow> change_ready l \<and> get_ready l"

definition make_failed_response :: bool where
  "make_failed_response = False"

type_synonym 'a lc_op = "(ros_error + 'a) option \<times> lc_transition list"

definition call_get_state_sync :: "lc_link \<Rightarrow> ros_error + lc_state option" where
  "call_get_state_sync l = (if \<not> get_ready l then Inr None else get_sync l)"

definition call_get_state_async :: "lc_link \<Rightarrow> real \<Rightarrow> (ros_error + lc_state option) option" where
  "call_get_state_async l timeout =
     (if \<not> get_ready l then Some (Inr None) else wait_future timeout (get_answers l))"

definition response_of :: "bool option \<Rightarrow> bool" where
  "response_of resp = (case resp of None \<Rightarrow> make_failed_response | Some ok \<Rightarrow> ok)"

definition call_change_state_sync :: "lc_link \<Rightarrow> lc_transition \<Rightarrow> (ros_error + bool) \<times> lc_transition list" where
  "call_change_state_sync l tr =
     (if \<not> change_ready l then (Inr make_failed_response, [])
      else (map_sum id response_of (change_sync l tr), [tr]))"

definition call_change_state_async :: "lc_link \<Rightarrow> lc_transition \<Rightarrow> real \<Rightarrow> bool lc_op" where
  "call_change_state_async l tr timeout =
     (if \<not> change_ready l then (Some (Inr make_failed_response), [])
      else (map_option (map_sum id response_of) (wait_future timeout (change_answers l tr)), [tr]))"

definition configure_async :: "lc_link \<Rightarrow> real \<Rightarrow> bool lc_op" where
  "configure_async l timeout = call_change_state_async l TRANSITION_CONFIGURE timeout"

definition activate_async :: "lc_link \<Rightarrow> real \<Rightarrow> bool lc_op" where
  "activate_async l timeout = call_change_state_async l TRANSITION_ACTIVATE timeout"

definition cleanup_async :: "lc_link \<Rightarrow> real \<Rightarrow> bool lc_op" where
  "cleanup_async l timeout = call_change_state_async l TRANSITION_CLEANUP timeout"

definition configure :: "lc_link \<Rightarrow> (ros_error + bool) \<times> lc_transition list" where
  "configure l = call_change_state_sync l TRANSITION_CONFIGURE"

definition activate :: "lc_link \<Rightarrow> (ros_error + bool) \<times> lc_transition list" where
  "activate l = call_change_state_sync l TRANSITION_ACTIVATE"

definition cleanup :: "lc_link \<Rightarrow> (ros_error + bool) \<times> lc_transition list" where
  "cleanup l = call_change_state_sync l TRANSITION_CLEANUP"

fun shutdown_transition :: "lc_state \<Rightarrow> lc_transition option" where
  "shutdown_transition STATE_UNCONFIGURED = Some TRANSITION_UNCONFIGURED_SHUTDOWN"
| "shutdown_transition STATE_INACTIVE = Some TRANSITION_INACTIVE_SHUTDOWN"
| "shutdown_transition STATE_ACTIVE = Some TRANSITION_ACTIVE_SHUTDOWN"
| "shutdown_transition (STATE_OTHER _) = None"

definition lc_shutdown :: "lc_link \<Rightarrow> (ros_error + bool) \<times> lc_transition list" where
  "lc_shutdown l =
     (case call_get_state_sync l of
        Inl e \<Rightarrow> (Inl e, [])
      | Inr None \<Rightarrow> (Inr False, [])
      | Inr (Some st) \<Rightarrow>
          (case shutdown_transition st of
             None \<Rightarrow> (Inr False, [])
           | Some tr \<Rightarrow> call_change_state_sync l tr))"

definition shutdown_async :: "lc_link \<Rightarrow> real \<Rightarrow> bool lc_op" where
  "shutdown_async l timeout_each =
     (case call_get_state_async l timeout_each of
        None \<Rightarrow> (None, [])
      | Some (Inl e) \<Rightarrow> (Some (Inl e), [])
      | Some (Inr None) \<Rightarrow> (Some (Inr False), [])
      | Some (Inr (Some st)) \<Rightarrow>
          (case shutdown_transition st of
             None \<Rightarrow> (Some (Inr False), [])
           | Some tr \<Rightarrow> call_change_state_async l tr timeout_each))"

section \<open>Helper lemmas\<close>

lemma wait_future_timer:
  assumes "WfTimeout \<in> set evs"
  shows "wait_future timeout evs \<noteq> None"
proof (cases evs)
  case Nil with assms show ?thesis by simp
next
  case (Cons ev evs')
  then show ?thesis
    by (cases ev) (simp_all add: wait_future_def wf_settled)
qed

definition timers_fire :: "lc_link \<Rightarrow> bool" where
  "timers_fire l \<longleftrightarrow> WfTimeout \<in> set (get_answers l) \<and> (\<forall>tr. WfTimeout \<in> set (change_answers l tr))"

lemma call_change_state_async_returns:
  "timers_fire l \<Longrightarrow> fst (call_change_state_async l tr timeout) \<noteq> None"
  by (auto simp: call_change_state_async_def timers_fire_def dest: wait_future_timer)

lemma call_get_state_async_returns:
  "timers_fire l \<Longrightarrow> call_get_state_async l timeout \<noteq> None"
  by (auto simp: call_get_state_async_def timers_fire_def dest: wait_future_timer)

lemma shutdown_async_returns: "timers_fire l \<Longrightarrow> fst (shutdown_async l timeout) \<noteq> None"
  using call_get_state_async_returns [of l timeout] call_change_state_async_returns [of l _ timeout]
  by (auto simp: shutdown_async_def split: option.split sum.split)

section \<open>Properties\<close>

text \<open>
  Shutting a lifecycle node down always returns when the timeout timers fire, asks for at most
  one transition, and that transition is the shutdown edge of the state the node reported; when
  the state is unknown, unavailable or not shut-downable nothing is requested and the answer is
  not success.
\<close>

theorem shutdown_async_requests_matching_edge:
  assumes "timers_fire l"
  shows "\<exists>r. fst (shutdown_async l timeout) = Some r
    \<and> (snd (shutdown_async l timeout) = [] \<longrightarrow> r \<noteq> Inr True)
    \<and> (\<forall>tr \<in> set (snd (shutdown_async l timeout)).
         snd (shutdown_async l timeout) = [tr] \<and> get_ready l \<and> change_ready l \<and>
         (\<exists>st. wait_future timeout (get_answers l) = Some (Inr (Some st)) \<and>
               shutdown_transition st = Some tr))"
proof (cases "call_get_state_async l timeout")
  case None
  with assms show ?thesis by (simp add: call_get_state_async_returns)
next
  case (Some r)
  show ?thesis
  proof (cases "\<exists>st tr. r = Inr (Some st) \<and> shutdown_transition st = Some tr")
    case False
    with Some show ?thesis
      by (auto simp: shutdown_async_def split: sum.split option.split)
  next
    case True
    then obtain st tr where st: "r = Inr (Some st)" and tr: "shutdown_transition st = Some tr"
      by blast
    from Some st have ready: "get_ready l" and got: "wait_future timeout (get_answers l) = Some (Inr (Some st))"
      by (auto simp: call_get_state_async_def split: if_splits)
    have eq: "shutdown_async l timeout = call_change_state_async l tr timeout"
      using Some st tr by (simp add: shutdown_async_def)
    obtain r' where "fst (call_change_state_async l tr timeout) = Some r'"
      using call_change_state_async_returns [OF assms] by blast
    with eq ready got tr show ?thesis
      by (auto simp: call_change_state_async_def make_failed_response_def split: if_splits)
  qed
qed

theorem shutdown_async_requests_matching_edge_witness:
  "let l = \<lparr>get_ready = True, change_ready = True, get_answers = [WfDone STATE_INACTIVE, WfTimeout],
            change_answers = (\<lambda>_. [WfDone True, WfTimeout]), get_sync = Inr None,
            change_sync = (\<lambda>_. Inr None)\<rparr>
   in shutdown_async l 2 = (Some (Inr True), [TRANSITION_INACTIVE_SHUTDOWN]) \<and>
      (\<exists>r. fst (shutdown_async l 2) = Some r)"
  using shutdown_async_requests_matching_edge
    [of "\<lparr>get_ready = True, change_ready = True, get_answers = [WfDone STATE_INACTIVE, WfTimeout],
          change_answers = (\<lambda>_. [WfDone True, WfTimeout]), get_sync = Inr None,
          change_sync = (\<lambda>_. Inr None)\<rparr>" 2]
  by (simp add: timers_fire_def shutdown_async_def call_get_state_async_def
      call_change_state_async_def wait_future_def response_of_def)

end
