(* ===== verification/Supervisor.thy ===== *)
theory Supervisor
  imports StateMachine Heartbeats LifecycleSup
begin

text \<open>
  The supervisor node (\<open>orchestration/supervisor_node.py\<close>): it hosts the alert server, the
  heartbeat listener and the system FSM, turns process events and heartbeat timeouts into
  alerts, alert changes into FSM events, and publishes every outcome on \<open>/system_status\<close>.

  One event is one callback, or the part of a coroutine between two awaits that touches the
  node's state; each reads the clock once (\<open>now\<close>). The node spins on a
  \<open>MultiThreadedExecutor\<close>, and requests of alerts, process events and heartbeat checks are in
  different callback groups, so two of these callbacks can overlap in time; a run of this theory
  is one in which they do not, each being an atomic step. The published statuses are a log, oldest
  first. \<open>sup_pending\<close> counts the one-shot shutdown timers that have been created and whose
  \<open>shutdown_system\<close> has not finished; \<open>sup_failed\<close> counts the shutdowns that raised.
  \<open>sup_crashed\<close> would record an exception out of the alert callback; \<open>sup_closing\<close> that some
  \<open>shutdown_system\<close> has reached its last sleep, after which it ends the process.
\<close>

section \<open>State\<close>

datatype SysEventType = EV_START | EV_EXIT | EV_CRASH

definition sys_event_type :: "int \<Rightarrow> alert_error + SysEventType" where
  "sys_event_type n =
     (if n = 0 then Inr EV_START else if n = 1 then Inr EV_EXIT
      else if n = 2 then Inr EV_CRASH else Inl (ValueError ''SysEventType''))"

record ProcessEvent =
  pe_proc_name :: string
  pe_event_type :: int
  pe_exit_code :: int

record SystemStatus =
  state_id :: string
  is_degraded :: bool
  legal :: bool
  timestamp :: int
  fault_ref :: MsgAlert

text \<open>Where the entrypoint coroutine is.\<close>

datatype boot_phase = Boot_sleeping | Boot_spinup | Boot_failing | Boot_done | Boot_raised

record Supervisor =
  sup_fsm :: "SystemState FSM"
  sup_alerts :: SysAlertsServer
  sup_hb :: hb_table
  sup_fault_ref :: "Alert option"
  sup_status :: "SystemStatus list"
  sup_pending :: nat
  sup_failed :: nat
  sup_boot :: boot_phase
  sup_crashed :: bool
  sup_closing :: bool
  sup_exited :: bool

definition Supervisor_init :: Supervisor where
  "Supervisor_init =
     \<lparr>sup_fsm = SystemFSM_new, sup_alerts = server_init, sup_hb = [], sup_fault_ref = None,
      sup_status = [], sup_pending = 0, sup_failed = 0, sup_boot = Boot_sleeping,
      sup_crashed = False, sup_closing = False, sup_exited = False\<rparr>"

fun state_name :: "SystemState \<Rightarrow> string" where
  "state_name BOOTING = ''BOOTING''"
| "state_name STANDBY = ''STANDBY''"
| "state_name CONNECTING = ''CONNECTING''"
| "state_name ACTIVE = ''ACTIVE''"
| "state_name DISCONNECTING = ''DISCONNECTING''"
| "state_name FAULT = ''FAULT''"
| "state_name SHUTDOWN = ''SHUTDOWN''"

section \<open>Status publication and the alert callback\<close>

definition is_system_degraded :: "Supervisor \<Rightarrow> bool" where
  "is_system_degraded s \<longleftrightarrow> length (get_active_alerts (sup_alerts s)) > 0"

definition system_status :: "real \<Rightarrow> bool \<Rightarrow> Supervisor \<Rightarrow> SystemStatus" where
  "system_status now ok s =
     \<lparr>state_id = state_name (fsm_state (sup_fsm s)),
      is_degraded = is_system_degraded s, legal = ok, timestamp = \<lfloor>now * 1000\<rfloor>,
      fault_ref = to_ros_alert (case sup_fault_ref s of Some a \<Rightarrow> a | None \<Rightarrow> empty_alert)\<rparr>"

definition publish_system_status :: "real \<Rightarrow> bool \<Rightarrow> Supervisor \<Rightarrow> Supervisor" where
  "publish_system_status now ok s = s\<lparr>sup_status := sup_status s @ [system_status now ok s]\<rparr>"

definition on_alert_change_cb :: "real \<Rightarrow> AlertActionType \<Rightarrow> Alert \<Rightarrow> Supervisor \<Rightarrow> Supervisor" where
  "on_alert_change_cb now action alert s =
     (case map_alert_to_system_event action alert of
        None \<Rightarrow> s
      | Some event \<Rightarrow>
          (let s = (if event = FATAL_FAULT then s\<lparr>sup_fault_ref := Some alert\<rparr> else s)
           in case process_event event (sup_fsm s) of
                Inl _ \<Rightarrow> s\<lparr>sup_crashed := True\<rparr>
              | Inr (result, fsm) \<Rightarrow>
                  (let s = publish_system_status now (legal_transition result) (s\<lparr>sup_fsm := fsm\<rparr>)
                   in if changed result \<and> fsm_state (sup_fsm s) = FAULT
                      then s\<lparr>sup_pending := Suc (sup_pending s)\<rparr> else s)))"

text \<open>
  The alert server's operations with this callback registered: a change runs the callback
  exactly when it was published.
\<close>

definition sup_run_change :: "real \<Rightarrow> AlertActionType \<Rightarrow> Alert \<Rightarrow> bool \<times> SysAlertsServer \<Rightarrow> Supervisor \<Rightarrow> Supervisor" where
  "sup_run_change now action alert r s =
     (if fst r then on_alert_change_cb now action alert (s\<lparr>sup_alerts := snd r\<rparr>)
      else s\<lparr>sup_alerts := snd r\<rparr>)"

definition sup_apply_change :: "real \<Rightarrow> AlertActionType \<Rightarrow> Alert \<Rightarrow> Supervisor \<Rightarrow> Supervisor" where
  "sup_apply_change now action alert s =
     sup_run_change now action alert (apply_change now action alert (sup_alerts s)) s"

definition sup_clear_code :: "real \<Rightarrow> int \<Rightarrow> Supervisor \<Rightarrow> Supervisor" where
  "sup_clear_code now code s =
     (case dict_get (srv_active (sup_alerts s)) code of
        None \<Rightarrow> s
      | Some alert \<Rightarrow> sup_apply_change now CLEAR alert s)"

definition sup_handle_request :: "real \<Rightarrow> AlertAction \<Rightarrow> Supervisor \<Rightarrow> Supervisor" where
  "sup_handle_request now message s =
     (case decode_action_message message of
        Inl _ \<Rightarrow> s
      | Inr (action, alert) \<Rightarrow> sup_apply_change now action alert s)"

definition sup_expire :: "real \<Rightarrow> Supervisor \<Rightarrow> Supervisor" where
  "sup_expire now s =
     foldl (\<lambda>s alert. sup_clear_code now (alert_code alert) s) s (expired_alerts now (sup_alerts s))"

section \<open>Process events and heartbeats\<close>

definition or_unknown :: "string \<Rightarrow> string" where
  "or_unknown name = (if name = '''' then ''unknown-process'' else name)"

definition crash_action :: "SysEventType \<Rightarrow> string" where
  "crash_action t = (if t = EV_CRASH then ''crashed'' else ''exited'')"

definition crash_text :: "string \<Rightarrow> ProcessEvent \<Rightarrow> string" where
  "crash_text kind ev =
     ''The '' @ kind @ '' process '' @ [CHR 0x22] @ pe_proc_name ev @ [CHR 0x22] @
     '' has crashed with code: '' @ show_int (pe_exit_code ev) @ ''.'' @ [CHR 0x0A] @
     ''Cause: '' @ get_cause (pe_exit_code ev)"

definition core_crash_alert :: "SysEventType \<Rightarrow> ProcessEvent \<Rightarrow> Alert" where
  "core_crash_alert t ev =
     (mk_Alert Level_FATAL (or_unknown (pe_proc_name ev)) FTL_CORE_PROC_CRASH)
       \<lparr>alert_subcode := pe_exit_code ev,
        alert_brief := ''Core process '' @ crash_action t,
        alert_description := crash_text ''core'' ev\<rparr>"

definition noncore_crash_alert :: "SysEventType \<Rightarrow> ProcessEvent \<Rightarrow> Alert" where
  "noncore_crash_alert t ev =
     (mk_Alert Level_ERR (or_unknown (pe_proc_name ev)) ERR_NONCRITICAL_PROC_CRASH)
       \<lparr>alert_subcode := pe_exit_code ev,
        alert_brief := ''Non-critical process '' @ crash_action t,
        alert_description := crash_text ''non-critical'' ev,
        alert_ttl := Secs 30\<rparr>"

definition on_process_event_cb :: "real \<Rightarrow> ProcessEvent \<Rightarrow> Supervisor \<Rightarrow> alert_error + Supervisor" where
  "on_process_event_cb now ev s =
     res_bind (sys_event_type (pe_event_type ev)) (\<lambda>t. Inr
       (if t = EV_EXIT \<or> t = EV_CRASH then
          (if is_core (pe_proc_name ev) then sup_apply_change now RAISE (core_crash_alert t ev) s
           else sup_apply_change now RAISE (noncore_crash_alert t ev) s)
        else s))"

definition heartbeat_text :: "string \<Rightarrow> string \<Rightarrow> string" where
  "heartbeat_text kind name =
     ''The '' @ kind @ '' process '' @ [CHR 0x22] @ name @ [CHR 0x22] @ '' heartbeat has timed out.''"

definition heartbeat_alert :: "string \<Rightarrow> Alert" where
  "heartbeat_alert name =
     (if is_core name
      then (mk_Alert Level_FATAL name HEARTBEAT_TIMEOUT)
             \<lparr>alert_brief := ''Heartbeat '' @ name @ '' has timed out'',
              alert_description := heartbeat_text ''core'' name\<rparr>
      else (mk_Alert Level_WARN name HEARTBEAT_TIMEOUT)
             \<lparr>alert_brief := ''Heartbeat '' @ name @ '' has timed out'',
              alert_description := heartbeat_text ''non critical'' name\<rparr>)"

definition on_heartbeat_timeout_cb :: "real \<Rightarrow> string \<Rightarrow> Supervisor \<Rightarrow> Supervisor" where
  "on_heartbeat_timeout_cb now name s = sup_apply_change now RAISE (heartbeat_alert name) s"

definition sup_check_heartbeats :: "real \<Rightarrow> Supervisor \<Rightarrow> Supervisor" where
  "sup_check_heartbeats now s =
     (let (tbl, names) = check_heartbeats now (sup_hb s)
      in foldl (\<lambda>s name. on_heartbeat_timeout_cb now name s) (s\<lparr>sup_hb := tbl\<rparr>) names)"

section \<open>Bringing the system up and down\<close>

text \<open>
  \<open>spinup_system\<close> with the lifecycle links of the two managed nodes: the answer, and the
  transitions requested of each node in order. The default timeout of each call is 1000 seconds.
\<close>

datatype managed = Hwmng | Ssmng

type_synonym spin_result = "(ros_error + bool) option \<times> (managed \<times> lc_transition) list"

definition and_then :: "managed \<Rightarrow> bool lc_op \<Rightarrow> spin_result \<Rightarrow> spin_result" where
  "and_then node r k =
     (case fst r of
        Some (Inr True) \<Rightarrow> (fst k, map (Pair node) (snd r) @ snd k)
      | a \<Rightarrow> (a, map (Pair node) (snd r)))"

definition spinup_system :: "lc_link \<Rightarrow> lc_link \<Rightarrow> spin_result" where
  "spinup_system hw ss =
     and_then Hwmng (configure_async hw 1000)
      (and_then Ssmng (configure_async ss 1000)
        (and_then Ssmng (activate_async ss 1000) (Some (Inr True), [])))"

definition shutdown_results :: "lc_link \<Rightarrow> lc_link \<Rightarrow> (ros_error + bool) option" where
  "shutdown_results hw ss =
     (case fst (shutdown_async hw 2) of
        None \<Rightarrow> None
      | Some (Inl e) \<Rightarrow> Some (Inl e)
      | Some (Inr a) \<Rightarrow>
          (case fst (shutdown_async ss 2) of
             None \<Rightarrow> None
           | Some (Inl e) \<Rightarrow> Some (Inl e)
           | Some (Inr b) \<Rightarrow> Some (Inr (a \<and> b))))"

text \<open>\<open>shutdown_system\<close>: \<open>None\<close> while a call is outstanding.\<close>

definition shutdown_system :: "real \<Rightarrow> lc_link \<Rightarrow> lc_link \<Rightarrow> Supervisor \<Rightarrow> (ros_error + Supervisor) option" where
  "shutdown_system now hw ss s =
     map_option (map_sum id (\<lambda>ok.
       (let (res, fsm) = force_change_state SHUTDOWN (sup_fsm s)
        in (publish_system_status now (legal_transition res) (s\<lparr>sup_fsm := fsm\<rparr>))
             \<lparr>sup_closing := True\<rparr>)))
       (shutdown_results hw ss)"

definition run_shutdown :: "real \<Rightarrow> lc_link \<Rightarrow> lc_link \<Rightarrow> Supervisor \<Rightarrow> Supervisor" where
  "run_shutdown now hw ss s =
     (case shutdown_system now hw ss s of
        None \<Rightarrow> s
      | Some (Inl _) \<Rightarrow> s\<lparr>sup_failed := Suc (sup_failed s), sup_pending := sup_pending s - 1\<rparr>
      | Some (Inr s') \<Rightarrow> s'\<lparr>sup_pending := sup_pending s' - 1\<rparr>)"

text \<open>\<open>entrypoint\<close>, cut at its awaits: after the first sleep, when the spin-up has its answer,
  and after the sleep that precedes the shutdown of a failed boot.\<close>

definition boot_start :: "real \<Rightarrow> Supervisor \<Rightarrow> Supervisor" where
  "boot_start now s =
     (if sup_boot s = Boot_sleeping
      then (publish_system_status now True s)\<lparr>sup_boot := Boot_spinup\<rparr> else s)"

definition boot_finish :: "real \<Rightarrow> (ros_error + bool) option \<Rightarrow> Supervisor \<Rightarrow> Supervisor" where
  "boot_finish now ok s =
     (if sup_boot s \<noteq> Boot_spinup then s
      else case ok of
        None \<Rightarrow> s
      | Some (Inl _) \<Rightarrow> s\<lparr>sup_boot := Boot_raised\<rparr>
      | Some (Inr False) \<Rightarrow>
          (case change_state FAULT (sup_fsm s) of
             Inl _ \<Rightarrow> s\<lparr>sup_boot := Boot_raised\<rparr>
           | Inr (res, fsm) \<Rightarrow>
               (publish_system_status now True (s\<lparr>sup_fsm := fsm\<rparr>))\<lparr>sup_boot := Boot_failing\<rparr>)
      | Some (Inr True) \<Rightarrow>
          (case change_state STANDBY (sup_fsm s) of
             Inl _ \<Rightarrow> s\<lparr>sup_boot := Boot_raised\<rparr>
           | Inr (res, fsm) \<Rightarrow>
               (publish_system_status now (legal_transition res) (s\<lparr>sup_fsm := fsm\<rparr>))\<lparr>sup_boot := Boot_done\<rparr>))"

definition boot_abort :: "real \<Rightarrow> lc_link \<Rightarrow> lc_link \<Rightarrow> Supervisor \<Rightarrow> Supervisor" where
  "boot_abort now hw ss s =
     (if sup_boot s \<noteq> Boot_failing then s
      else case shutdown_system now hw ss s of
        None \<Rightarrow> s
      | Some (Inl _) \<Rightarrow> s\<lparr>sup_failed := Suc (sup_failed s), sup_boot := Boot_raised\<rparr>
      | Some (Inr s') \<Rightarrow> s'\<lparr>sup_boot := Boot_done\<rparr>)"

section \<open>Runs\<close>

datatype sup_event =
    SupProcess real ProcessEvent
  | SupRequest real AlertAction
  | SupExpire real
  | SupHeartbeat real Heartbeat
  | SupCheckHb real
  | SupBootStart real
  | SupBootFinish real lc_link lc_link
  | SupBootAbort real lc_link lc_link
  | SupShutdown real lc_link lc_link
  | SupExit

fun sup_handle :: "Supervisor \<Rightarrow> sup_event \<Rightarrow> Supervisor" where
  "sup_handle s (SupProcess now ev) =
     (case on_process_event_cb now ev s of Inl _ \<Rightarrow> s | Inr s' \<Rightarrow> s')"
| "sup_handle s (SupRequest now m) = sup_handle_request now m s"
| "sup_handle s (SupExpire now) = sup_expire now s"
| "sup_handle s (SupHeartbeat now hb) = s\<lparr>sup_hb := heartbeat_received now hb (sup_hb s)\<rparr>"
| "sup_handle s (SupCheckHb now) = sup_check_heartbeats now s"
| "sup_handle s (SupBootStart now) = boot_start now s"
| "sup_handle s (SupBootFinish now hw ss) = boot_finish now (fst (spinup_system hw ss)) s"
| "sup_handle s (SupBootAbort now hw ss) = boot_abort now hw ss s"
| "sup_handle s (SupShutdown now hw ss) =
     (if sup_pending s = 0 then s else run_shutdown now hw ss s)"
| "sup_handle s SupExit =
     (if sup_closing s then s\<lparr>sup_exited := True\<rparr> else s)"

definition sup_step :: "Supervisor \<Rightarrow> sup_event \<Rightarrow> Supervisor" where
  "sup_step s ev = (if sup_exited s then s else sup_handle s ev)"

definition sup_run :: "sup_event list \<Rightarrow> Supervisor" where
  "sup_run evs = foldl sup_step Supervisor_init evs"

section \<open>The invariant\<close>

definition fatal_active :: "Supervisor \<Rightarrow> bool" where
  "fatal_active s \<longleftrightarrow> list_ex (\<lambda>a. alert_level a = Level_FATAL) (get_active_alerts (sup_alerts s))"

definition down :: "Supervisor \<Rightarrow> bool" where
  "down s \<longleftrightarrow> fsm_state (sup_fsm s) = FAULT \<or> fsm_state (sup_fsm s) = SHUTDOWN"

definition booting :: "Supervisor \<Rightarrow> bool" where
  "booting s \<longleftrightarrow> sup_boot s = Boot_sleeping \<or> sup_boot s = Boot_spinup"

text \<open>
  What a fault always comes with in the invariant: a shutdown pending or under way, or the record
  that some shutdown has raised. That the raised shutdown belongs to this fault is a fact about
  runs (\<open>fault_attended\<close> below).
\<close>

definition winding_down :: "Supervisor \<Rightarrow> bool" where
  "winding_down s \<longleftrightarrow> sup_pending s > 0 \<or> sup_boot s = Boot_failing \<or> sup_failed s > 0"

definition sup_inv :: "Supervisor \<Rightarrow> bool" where
  "sup_inv s \<longleftrightarrow>
     is_system_fsm (sup_fsm s) \<and> srv_inv (sup_alerts s) \<and> dict_ok (sup_hb s) \<and> \<not> sup_crashed s \<and>
     (fatal_active s \<longrightarrow> down s) \<and>
     (booting s \<longrightarrow> fsm_state (sup_fsm s) = BOOTING \<or> down s) \<and>
     (sup_boot s = Boot_failing \<longrightarrow> down s) \<and>
     (fsm_state (sup_fsm s) = FAULT \<longrightarrow> winding_down s)"

lemmas sup_simps = publish_system_status_def down_def booting_def winding_down_def

lemma sys_next_down: "s = FAULT \<or> s = SHUTDOWN \<Longrightarrow> sys_next s e = FAULT \<or> sys_next s e = SHUTDOWN"
  by (auto simp: sys_next_shutdown split: if_splits)

lemma sys_next_boot: "sys_next BOOTING e = BOOTING \<or> sys_next BOOTING e = FAULT"
  by (cases e) simp_all

lemma sys_next_faults: "sys_next s e = FAULT \<longleftrightarrow> s = FAULT \<or> e = FATAL_FAULT"
  by (cases s; cases e) simp_all

text \<open>The callback as the diagram gives it.\<close>

definition cb_next :: "AlertActionType \<Rightarrow> Alert \<Rightarrow> SystemState \<Rightarrow> SystemState" where
  "cb_next act a s = (case map_alert_to_system_event act a of None \<Rightarrow> s | Some e \<Rightarrow> sys_next s e)"

lemma cb_next_CLEAR [simp]: "cb_next CLEAR a s = s"
  by (simp add: cb_next_def map_alert_to_system_event_def)

lemma cb_next_fault: "cb_next act a s = FAULT \<longleftrightarrow> s = FAULT \<or> act = RAISE \<and> alert_level a = Level_FATAL"
  using fatal_event_iff [of act a] by (auto simp: cb_next_def sys_next_faults split: option.split)

lemma cb_next_fatal: "alert_level a = Level_FATAL \<Longrightarrow> cb_next RAISE a s = FAULT"
  by (simp add: cb_next_fault)

lemma cb_next_down: "s = FAULT \<or> s = SHUTDOWN \<Longrightarrow> cb_next act a s = FAULT \<or> cb_next act a s = SHUTDOWN"
  using sys_next_down by (auto simp: cb_next_def split: option.split)

lemma cb_next_boot: "cb_next act a BOOTING = BOOTING \<or> cb_next act a BOOTING = FAULT"
  using sys_next_boot by (auto simp: cb_next_def split: option.split)

lemma cb_fields:
  fixes now act a
  assumes "is_system_fsm (sup_fsm s)"
  defines "s' \<equiv> on_alert_change_cb now act a s"
  shows "sup_fsm s' = (sup_fsm s)\<lparr>fsm_state := cb_next act a (fsm_state (sup_fsm s))\<rparr>"
    and "sup_alerts s' = sup_alerts s" "sup_hb s' = sup_hb s" "sup_boot s' = sup_boot s"
    and "sup_crashed s' = sup_crashed s" "sup_failed s' = sup_failed s"
    and "sup_pending s' = sup_pending s +
      (if fsm_state (sup_fsm s) \<noteq> FAULT \<and> cb_next act a (fsm_state (sup_fsm s)) = FAULT then 1 else 0)"
  unfolding s'_def on_alert_change_cb_def cb_next_def
  by (auto simp: process_event_eq assms Let_def publish_system_status_def changed_def sys_result_of_def
      split: option.split)

lemma cb_published:
  assumes "is_system_fsm (sup_fsm s)" "map_alert_to_system_event act a = Some FATAL_FAULT"
  shows "sup_fault_ref (on_alert_change_cb now act a s) = Some a"
    and "sup_status (on_alert_change_cb now act a s) = sup_status s @
      [\<lparr>state_id = ''FAULT'', is_degraded = is_system_degraded s,
        legal = (fsm_state (sup_fsm s) \<noteq> SHUTDOWN), timestamp = \<lfloor>now * 1000\<rfloor>,
        fault_ref = to_ros_alert a\<rparr>]"
  using assms
  by (cases "fsm_state (sup_fsm s)";
      simp add: on_alert_change_cb_def process_event_eq Let_def publish_system_status_def
        system_status_def is_system_degraded_def sys_result_of_def changed_def)+

lemma mirror_active: "set (dict_values (apply_mirror ch d)) \<subseteq> insert (snd ch) (set (dict_values d))"
  using set_update_subset [of "alert_code (snd ch)" "snd ch" d]
  by (cases "(ch, d)" rule: apply_mirror.cases) (auto simp: dict_pop_filter)

lemma mirror_active_clear: "set (dict_values (apply_mirror (CLEAR, a) d)) \<subseteq> set (dict_values d)"
  by (auto simp: dict_pop_filter)

section \<open>Every step keeps the invariant\<close>

lemma change_fields:
  fixes now act a
  assumes "is_system_fsm (sup_fsm s)"
  defines "s' \<equiv> sup_apply_change now act a s" and "r \<equiv> apply_change now act a (sup_alerts s)"
  shows "sup_fsm s' = (if fst r then (sup_fsm s)\<lparr>fsm_state := cb_next act a (fsm_state (sup_fsm s))\<rparr> else sup_fsm s)"
    and "sup_alerts s' = snd r" "sup_hb s' = sup_hb s" "sup_boot s' = sup_boot s"
    and "sup_crashed s' = sup_crashed s" "sup_failed s' = sup_failed s"
    and "sup_pending s' = sup_pending s +
      (if fst r \<and> fsm_state (sup_fsm s) \<noteq> FAULT \<and> cb_next act a (fsm_state (sup_fsm s)) = FAULT then 1 else 0)"
  using cb_fields [of "s\<lparr>sup_alerts := snd r\<rparr>" now act a] assms(1)
  by (simp_all add: s'_def r_def sup_apply_change_def sup_run_change_def)

lemma change_fatal_down:
  assumes inv: "sup_inv s" and fatal: "fatal_active (sup_apply_change now act a s)"
  shows "down (sup_apply_change now act a s)"
proof -
  let ?s' = "sup_apply_change now act a s" and ?r = "apply_change now act a (sup_alerts s)"
  from inv have fsm: "is_system_fsm (sup_fsm s)" by (simp add: sup_inv_def)
  note f = change_fields [OF fsm, of now act a]
  have keep: "down s \<Longrightarrow> down ?s'"
    using cb_next_down [of "fsm_state (sup_fsm s)" act a] by (simp add: down_def f)
  show ?thesis
  proof (cases "fatal_active s")
    case True
    with inv keep show ?thesis by (simp add: sup_inv_def)
  next
    case False
    from fatal obtain b where b: "b \<in> set (dict_values (srv_active (snd ?r)))" "alert_level b = Level_FATAL"
      by (auto simp: fatal_active_def get_active_alerts_def f list_ex_iff)
    with False have new: "b \<notin> set (dict_values (srv_active (sup_alerts s)))"
      by (auto simp: fatal_active_def get_active_alerts_def list_ex_iff)
    have published: "fst ?r"
      using b new apply_change_silent [of now act a "sup_alerts s"] by auto
    have "act = RAISE \<and> b = a"
      using b(1) new mirror_active [of "(act, a)" "srv_active (sup_alerts s)"]
        mirror_active_clear [of a "srv_active (sup_alerts s)"]
      by (cases act) (auto simp: apply_change_active)
    with b(2) published have "fsm_state (sup_fsm ?s') = FAULT"
      using f(1) by (simp add: cb_next_fatal)
    then show ?thesis by (simp add: down_def)
  qed
qed

lemma change_inv [inv_intros]: "sup_inv s \<Longrightarrow> sup_inv (sup_apply_change now act a s)"
proof -
  assume inv: "sup_inv s"
  then have fsm: "is_system_fsm (sup_fsm s)" by (simp add: sup_inv_def)
  let ?s' = "sup_apply_change now act a s" and ?st = "fsm_state (sup_fsm s)"
  note f = change_fields [OF fsm, of now act a]
  have "booting ?s' \<longrightarrow> fsm_state (sup_fsm ?s') = BOOTING \<or> down ?s'"
    using inv cb_next_down [of ?st act a] cb_next_boot [of act a]
    by (auto simp: sup_inv_def booting_def down_def f)
  moreover have "sup_boot ?s' = Boot_failing \<longrightarrow> down ?s'"
    using inv cb_next_down [of ?st act a] by (auto simp: sup_inv_def down_def f)
  moreover have "fsm_state (sup_fsm ?s') = FAULT \<longrightarrow> winding_down ?s'"
    using inv by (auto simp: sup_inv_def winding_down_def f)
  moreover have "srv_inv (sup_alerts ?s')" using inv by (simp add: f sup_inv_def apply_change_inv)
  ultimately show ?thesis
    using inv change_fatal_down [OF inv, of now act a] by (simp add: sup_inv_def f)
qed

lemma clear_code_sup_inv [inv_intros]: "sup_inv s \<Longrightarrow> sup_inv (sup_clear_code now c s)"
  by (simp add: sup_clear_code_def change_inv split: option.split)

lemma fold_sup_inv: "(\<And>s x. sup_inv s \<Longrightarrow> sup_inv (f s x)) \<Longrightarrow> sup_inv s \<Longrightarrow> sup_inv (foldl f s xs)"
  by (induction xs arbitrary: s) simp_all

text \<open>What each field of the state contributes to the invariant.\<close>

lemma sup_inv_frame [simp]:
  "sup_inv (s\<lparr>sup_status := x\<rparr>) = sup_inv s"
  "sup_inv (s\<lparr>sup_closing := b\<rparr>) = sup_inv s"
  "sup_inv (s\<lparr>sup_exited := b\<rparr>) = sup_inv s"
  "sup_inv (publish_system_status now ok s) = sup_inv s"
  by (simp_all add: sup_inv_def sup_simps fatal_active_def)

lemma sup_inv_hb: "sup_inv s \<Longrightarrow> dict_ok tbl \<Longrightarrow> sup_inv (s\<lparr>sup_hb := tbl\<rparr>)"
  by (simp add: sup_inv_def down_def booting_def winding_down_def fatal_active_def)

lemma sup_inv_move:
  assumes "sup_inv s" and "st \<noteq> FAULT \<or> winding_down s"
    and "st = FAULT \<or> st = SHUTDOWN \<or> \<not> down s \<and> \<not> booting s"
  shows "sup_inv (s\<lparr>sup_fsm := (sup_fsm s)\<lparr>fsm_state := st\<rparr>\<rparr>)"
  using assms unfolding sup_inv_def down_def booting_def winding_down_def fatal_active_def
  by (elim disjE conjE) simp_all

lemma sup_inv_boot:
  assumes "sup_inv s" and "b = Boot_done \<or> b = Boot_raised \<or> booting s"
    and "b = Boot_failing \<Longrightarrow> down s"
    and "sup_boot s = Boot_failing \<Longrightarrow> fsm_state (sup_fsm s) \<noteq> FAULT \<or> sup_failed s > 0"
  shows "sup_inv (s\<lparr>sup_boot := b\<rparr>)"
  using assms unfolding sup_inv_def down_def booting_def winding_down_def fatal_active_def
  by (cases b; cases "sup_boot s") simp_all

lemma check_hb_inv: "sup_inv s \<Longrightarrow> sup_inv (sup_check_heartbeats now s)"
proof -
  assume inv: "sup_inv s"
  then have "dict_ok (fst (check_heartbeats now (sup_hb s)))"
    by (simp add: sup_inv_def dict_ok_def)
  with inv have "sup_inv (s\<lparr>sup_hb := fst (check_heartbeats now (sup_hb s))\<rparr>)"
    by (simp add: sup_inv_hb)
  then show ?thesis
    unfolding sup_check_heartbeats_def Let_def split_beta
    by (rule fold_sup_inv [rotated]) (simp add: on_heartbeat_timeout_cb_def change_inv)
qed

lemma sup_inv_cong:
  assumes "sup_inv s'" "sup_fsm s = sup_fsm s'" "sup_alerts s = sup_alerts s'" "sup_hb s = sup_hb s'"
    "sup_crashed s = sup_crashed s'" "sup_boot s = sup_boot s'" "sup_pending s = sup_pending s'"
    "sup_failed s = sup_failed s'"
  shows "sup_inv s"
  using assms(1) unfolding sup_inv_def down_def booting_def winding_down_def fatal_active_def
  by (simp add: assms(2-))

lemma sup_inv_boot_move:
  assumes "sup_inv s" and "fsm_state (sup_fsm s) = BOOTING"
    and "b = Boot_failing \<and> st = FAULT \<or> b = Boot_done \<and> st = STANDBY"
  shows "sup_inv (s\<lparr>sup_fsm := (sup_fsm s)\<lparr>fsm_state := st\<rparr>, sup_boot := b\<rparr>)"
  using assms unfolding sup_inv_def down_def booting_def winding_down_def fatal_active_def
  by (elim disjE conjE) simp_all

lemma boot_start_inv: "sup_inv s \<Longrightarrow> sup_inv (boot_start now s)"
proof (cases "sup_boot s = Boot_sleeping")
  case True
  assume "sup_inv s"
  then have "sup_inv (s\<lparr>sup_boot := Boot_spinup\<rparr>)"
    by (rule sup_inv_boot) (simp_all add: booting_def True)
  then show ?thesis
    by (rule sup_inv_cong) (simp_all add: boot_start_def True publish_system_status_def)
qed (simp add: boot_start_def)

lemma shutdown_system_Inr:
  "shutdown_system now hw ss s = Some (Inr s') \<Longrightarrow>
   s' = (publish_system_status now (SHUTDOWN \<in> targets (sup_fsm s) (fsm_state (sup_fsm s)))
          (s\<lparr>sup_fsm := (sup_fsm s)\<lparr>fsm_state := SHUTDOWN\<rparr>\<rparr>))\<lparr>sup_closing := True\<rparr>"
  by (cases "shutdown_results hw ss")
    (auto simp: shutdown_system_def force_change_state_eq map_sum_def split: sum.splits)


lemma boot_raised_inv: "sup_inv s \<Longrightarrow> booting s \<Longrightarrow> sup_inv (s\<lparr>sup_boot := Boot_raised\<rparr>)"
  by (rule sup_inv_boot) (auto simp: booting_def)

lemma boot_state_legal:
  assumes "sup_inv s" "booting s" and "st = FAULT \<or> st = STANDBY" "st \<in> targets (sup_fsm s) (fsm_state (sup_fsm s))"
  shows "fsm_state (sup_fsm s) = BOOTING"
  using assms by (auto simp: sup_inv_def down_def is_system_fsm_def)

lemma boot_finish_inv:
  assumes inv: "sup_inv s"
  shows "sup_inv (boot_finish now ok s)"
proof (cases "sup_boot s = Boot_spinup \<and> (\<exists>b st. ok = Some (Inr b) \<and> st = (if b then STANDBY else FAULT) \<and>
    st \<in> targets (sup_fsm s) (fsm_state (sup_fsm s)))")
  case False
  then show ?thesis using inv boot_raised_inv [OF inv]
    by (auto simp: boot_finish_def change_state_def booting_def
        split: option.split sum.split bool.split if_splits)
next
  case True
  then obtain b where b: "sup_boot s = Boot_spinup" "ok = Some (Inr b)"
    and legal: "(if b then STANDBY else FAULT) \<in> targets (sup_fsm s) (fsm_state (sup_fsm s))" by auto
  then have "fsm_state (sup_fsm s) = BOOTING"
    using boot_state_legal [OF inv] by (auto simp: booting_def split: if_splits)
  then have "sup_inv (s\<lparr>sup_fsm := (sup_fsm s)\<lparr>fsm_state := (if b then STANDBY else FAULT)\<rparr>,
      sup_boot := (if b then Boot_done else Boot_failing)\<rparr>)"
    by (intro sup_inv_boot_move inv) simp_all
  then show ?thesis
    by (rule sup_inv_cong)
      (use b legal in \<open>cases b; simp add: boot_finish_def change_state_def publish_system_status_def\<close>)+
qed

lemma shut_move_inv: "sup_inv s \<Longrightarrow> sup_inv (s\<lparr>sup_fsm := (sup_fsm s)\<lparr>fsm_state := SHUTDOWN\<rparr>\<rparr>)"
  by (rule sup_inv_move) simp_all

lemma failed_inv:
  assumes "sup_inv s" shows "sup_inv (s\<lparr>sup_failed := Suc n, sup_pending := m\<rparr>)"
    and "sup_boot s = Boot_failing \<Longrightarrow> sup_inv (s\<lparr>sup_failed := Suc n, sup_boot := Boot_raised\<rparr>)"
  using assms unfolding sup_inv_def down_def booting_def winding_down_def fatal_active_def
  by simp_all

lemma shut_pending_inv:
  assumes "sup_inv s" "fsm_state (sup_fsm s) \<noteq> FAULT" shows "sup_inv (s\<lparr>sup_pending := m\<rparr>)"
  using assms unfolding sup_inv_def down_def booting_def winding_down_def fatal_active_def by simp

lemma shutdown_system_inv:
  assumes "sup_inv s" "shutdown_system now hw ss s = Some (Inr s')"
  shows "sup_inv s'" "fsm_state (sup_fsm s') = SHUTDOWN" "sup_boot s' = sup_boot s"
proof -
  note eq = shutdown_system_Inr [OF assms(2)]
  show "sup_inv s'" by (rule sup_inv_cong [OF shut_move_inv [OF assms(1)]]) (simp_all add: eq publish_system_status_def)
qed (simp_all add: shutdown_system_Inr [OF assms(2)] publish_system_status_def)

lemma run_shutdown_inv: "sup_inv s \<Longrightarrow> sup_inv (run_shutdown now hw ss s)"
  by (auto simp: run_shutdown_def failed_inv shut_pending_inv shutdown_system_inv
      split: option.split sum.split)

lemma boot_abort_inv: "sup_inv s \<Longrightarrow> sup_inv (boot_abort now hw ss s)"
  by (auto simp: boot_abort_def failed_inv shutdown_system_inv intro!: sup_inv_boot
      split: option.split sum.split)

lemma process_event_cb_inv: "sup_inv s \<Longrightarrow> on_process_event_cb now ev s = Inr s' \<Longrightarrow> sup_inv s'"
  by (auto simp: on_process_event_cb_def res_bind_Inr change_inv split: if_splits)

lemma sup_handle_inv: "sup_inv s \<Longrightarrow> sup_inv (sup_handle s ev)"
proof (cases ev)
  case (SupProcess now pe)
  assume "sup_inv s"
  with SupProcess show ?thesis by (auto simp: process_event_cb_inv split: sum.split)
next
  case (SupRequest now m)
  assume "sup_inv s"
  with SupRequest show ?thesis
    by (auto simp: sup_handle_request_def change_inv split: sum.split)
next
  case (SupExpire now)
  assume "sup_inv s"
  with SupExpire show ?thesis
    by (simp add: sup_expire_def fold_sup_inv clear_code_sup_inv)
next
  case (SupHeartbeat now hb)
  assume inv: "sup_inv s"
  then have "dict_ok (heartbeat_received now hb (sup_hb s))"
    by (simp add: sup_inv_def heartbeat_received_def)
  with SupHeartbeat inv show ?thesis by (simp add: sup_inv_hb)
qed (simp_all add: check_hb_inv boot_start_inv boot_finish_inv boot_abort_inv run_shutdown_inv)

interpretation supervisor: event_machine sup_step sup_inv
  by unfold_locales (simp add: sup_step_def sup_handle_inv)

lemma sup_init_inv: "sup_inv Supervisor_init"
  by (simp add: Supervisor_init_def sup_inv_def SystemFSM_new_table sup_simps fatal_active_def
      get_active_alerts_def server_init_def srv_inv_def)

lemma sup_run_inv: "sup_inv (sup_run evs)"
  unfolding sup_run_def by (rule supervisor.run_inv [OF sup_init_inv])

section \<open>Consequences of the steps\<close>

lemma raise_fatal:
  assumes inv: "sup_inv s" and fatal: "alert_level a = Level_FATAL"
  shows "down (sup_apply_change now RAISE a s)"
proof -
  let ?s' = "sup_apply_change now RAISE a s"
  have fsm: "is_system_fsm (sup_fsm s)" using inv by (simp add: sup_inv_def)
  have "(alert_code a, a) \<in> set (srv_active (sup_alerts ?s'))"
    using inv by (auto simp: change_fields(2) [OF fsm] apply_change_active sup_inv_def srv_inv_def
        dict_mem_iff dict_get_set)
  then have "fatal_active ?s'"
    using fatal by (force simp: fatal_active_def get_active_alerts_def list_ex_iff)
  then show ?thesis by (rule change_fatal_down [OF inv])
qed

lemma down_change: "sup_inv s \<Longrightarrow> down s \<Longrightarrow> down (sup_apply_change now act a s)"
  using cb_next_down [of "fsm_state (sup_fsm s)" act a]
  by (auto simp: sup_inv_def down_def change_fields(1))

lemma raise_each_down:
  assumes "sup_inv s" and "down s \<or> (\<exists>a \<in> set as. alert_level a = Level_FATAL)"
  shows "down (foldl (\<lambda>s a. sup_apply_change now RAISE a s) s as)"
  using assms
proof (induction as arbitrary: s)
  case (Cons a as)
  let ?s' = "sup_apply_change now RAISE a s"
  have "down ?s' \<or> (\<exists>b \<in> set as. alert_level b = Level_FATAL)"
    using Cons.prems raise_fatal [OF Cons.prems(1), of a] down_change [OF Cons.prems(1)] by auto
  then show ?case using Cons.IH [OF change_inv [OF Cons.prems(1)]] by simp
qed simp

lemma core_heartbeat_level: "is_core n \<Longrightarrow> alert_level (heartbeat_alert n) = Level_FATAL"
  by (simp add: heartbeat_alert_def mk_Alert_def)

lemma check_hb_fold:
  "sup_check_heartbeats now s =
     foldl (\<lambda>s a. sup_apply_change now RAISE a s)
       (s\<lparr>sup_hb := fst (check_heartbeats now (sup_hb s))\<rparr>)
       (map heartbeat_alert (snd (check_heartbeats now (sup_hb s))))"
  by (simp add: sup_check_heartbeats_def split_beta Let_def foldl_map on_heartbeat_timeout_cb_def)

lemma timed_out_reported:
  "dict_ok tbl \<Longrightarrow> dict_get tbl n = Some e \<Longrightarrow> timed_out now e \<Longrightarrow> n \<in> set (snd (check_heartbeats now tbl))"
  using check_count [of tbl now n] count_list_0_iff [of "snd (check_heartbeats now tbl)" n] by simp

lemma shutdown_results_returns:
  "timers_fire hw \<Longrightarrow> timers_fire ss \<Longrightarrow> shutdown_results hw ss \<noteq> None"
  using shutdown_async_returns [of hw 2] shutdown_async_returns [of ss 2]
  by (auto simp: shutdown_results_def split: option.split sum.split)

text \<open>A link whose node answers every call with success before the timer fires.\<close>

definition responsive_link :: lc_link where
  "responsive_link =
     \<lparr>get_ready = True, change_ready = True, get_answers = [WfDone STATE_INACTIVE, WfTimeout],
      change_answers = (\<lambda>_. [WfDone True, WfTimeout]), get_sync = Inr None, change_sync = (\<lambda>_. Inr None)\<rparr>"

lemma responsive_timers [simp]: "timers_fire responsive_link"
  by (simp add: timers_fire_def responsive_link_def)

lemma responsive_shutdown [simp]: "shutdown_results responsive_link responsive_link = Some (Inr True)"
  by (simp add: shutdown_results_def shutdown_async_def call_get_state_async_def
      call_change_state_async_def wait_future_def response_of_def responsive_link_def)

lemma responsive_spinup [simp]: "fst (spinup_system responsive_link responsive_link) = Some (Inr True)"
  by (simp add: spinup_system_def and_then_def configure_async_def activate_async_def
      call_change_state_async_def wait_future_def response_of_def responsive_link_def)

section \<open>How a fault is entered, attended and left\<close>

text \<open>How a single alert change moves the system, whatever the alert.\<close>

lemma cb_next_shutdown: "cb_next act a s = SHUTDOWN \<Longrightarrow> s = SHUTDOWN"
  by (cases s) (auto simp: cb_next_def split: option.splits elim: sys_next.elims)

text \<open>
  What any number of alert changes does: the fields a fault depends on only grow, a fault stays,
  and a new fault has scheduled its shutdown.
\<close>

definition alert_moves :: "Supervisor \<Rightarrow> Supervisor \<Rightarrow> bool" where
  "alert_moves s s' \<longleftrightarrow>
     sup_boot s' = sup_boot s \<and> sup_failed s' = sup_failed s \<and> sup_pending s \<le> sup_pending s' \<and>
     (fsm_state (sup_fsm s) = FAULT \<longrightarrow> fsm_state (sup_fsm s') = FAULT) \<and>
     (fsm_state (sup_fsm s') = SHUTDOWN \<longrightarrow> fsm_state (sup_fsm s) = SHUTDOWN) \<and>
     (fsm_state (sup_fsm s') = FAULT \<longrightarrow> fsm_state (sup_fsm s) = FAULT \<or> sup_pending s' > 0)"

lemma alert_moves_refl [simp]: "alert_moves s s"
  by (simp add: alert_moves_def)

lemma alert_moves_trans: "alert_moves s t \<Longrightarrow> alert_moves t u \<Longrightarrow> alert_moves s u"
  unfolding alert_moves_def by (elim conjE) (intro conjI; fastforce)

lemma change_alert_moves:
  assumes "sup_inv s" shows "alert_moves s (sup_apply_change now act a s)"
proof -
  have fsm: "is_system_fsm (sup_fsm s)" using assms by (simp add: sup_inv_def)
  show ?thesis
    using cb_next_shutdown [of act a "fsm_state (sup_fsm s)"] cb_next_fault [of act a FAULT]
    by (auto simp: alert_moves_def change_fields [OF fsm])
qed

lemma fold_alert_moves:
  assumes "\<And>s x. sup_inv s \<Longrightarrow> sup_inv (f s x) \<and> alert_moves s (f s x)" and "sup_inv s"
  shows "alert_moves s (foldl f s xs)"
  using assms(2)
proof (induction xs arbitrary: s)
  case (Cons x xs)
  then show ?case using assms(1) [of s x] alert_moves_trans [of s "f s x"] by simp
qed simp

lemma clear_code_alert_moves: "sup_inv s \<Longrightarrow> alert_moves s (sup_clear_code now c s)"
  by (simp add: sup_clear_code_def change_alert_moves split: option.split)

lemma expire_alert_moves: "sup_inv s \<Longrightarrow> alert_moves s (sup_expire now s)"
  unfolding sup_expire_def by (rule fold_alert_moves) (simp_all add: clear_code_alert_moves clear_code_sup_inv)

lemma hb_table_inv: "sup_inv s \<Longrightarrow> sup_inv (s\<lparr>sup_hb := fst (check_heartbeats now (sup_hb s))\<rparr>)"
  by (rule sup_inv_hb) (simp_all add: sup_inv_def dict_ok_def)

lemma check_hb_alert_moves:
  assumes "sup_inv s" shows "alert_moves s (sup_check_heartbeats now s)"
proof -
  let ?s = "s\<lparr>sup_hb := fst (check_heartbeats now (sup_hb s))\<rparr>"
  have "alert_moves ?s (sup_check_heartbeats now s)"
    unfolding check_hb_fold
    by (rule fold_alert_moves [OF _ hb_table_inv [OF assms]]) (simp add: change_alert_moves change_inv)
  then show ?thesis by (simp add: alert_moves_def)
qed

text \<open>A shutdown timer is pending, or the failed boot is about to shut the system down.\<close>

definition attended :: "Supervisor \<Rightarrow> bool" where
  "attended s \<longleftrightarrow> sup_pending s > 0 \<or> sup_boot s = Boot_failing"

lemma alert_moves_attended:
  "alert_moves s s' \<Longrightarrow> fsm_state (sup_fsm s') = FAULT \<Longrightarrow> \<not> attended s' \<Longrightarrow>
   fsm_state (sup_fsm s) = FAULT \<and> \<not> attended s"
  by (auto simp: alert_moves_def attended_def)

lemma shutdown_state: "shutdown_system now hw ss s = Some (Inr s') \<Longrightarrow> fsm_state (sup_fsm s') = SHUTDOWN"
  by (drule shutdown_system_Inr) (simp add: publish_system_status_def)

lemma shutdown_attended:
  "fsm_state (sup_fsm (run_shutdown now hw ss s)) = FAULT \<Longrightarrow>
   sup_failed (run_shutdown now hw ss s) = Suc (sup_failed s) \<and> fsm_state (sup_fsm s) = FAULT
   \<or> run_shutdown now hw ss s = s"
  by (auto simp: run_shutdown_def shutdown_state split: option.splits sum.splits)

lemma boot_abort_attended:
  "fsm_state (sup_fsm (boot_abort now hw ss s)) = FAULT \<Longrightarrow>
   sup_failed (boot_abort now hw ss s) = Suc (sup_failed s) \<and> fsm_state (sup_fsm s) = FAULT
   \<or> boot_abort now hw ss s = s"
  by (auto simp: boot_abort_def shutdown_state split: option.splits sum.splits if_splits)

lemma boot_finish_cases:
  "boot_finish now ok s = s
   \<or> sup_boot s = Boot_spinup \<and> boot_finish now ok s = s\<lparr>sup_boot := Boot_raised\<rparr>
   \<or> sup_boot s = Boot_spinup \<and> ok = Some (Inr False) \<and> FAULT \<in> targets (sup_fsm s) (fsm_state (sup_fsm s))
     \<and> sup_boot (boot_finish now ok s) = Boot_failing \<and> fsm_state (sup_fsm (boot_finish now ok s)) = FAULT
   \<or> sup_boot s = Boot_spinup \<and> ok = Some (Inr True)
     \<and> fsm_state (sup_fsm (boot_finish now ok s)) = STANDBY"
  by (auto simp: boot_finish_def change_state_def publish_system_status_def
      split: option.splits sum.splits bool.splits)

lemma boot_finish_attended:
  assumes "fsm_state (sup_fsm (boot_finish now ok s)) = FAULT" "\<not> attended (boot_finish now ok s)"
  shows "fsm_state (sup_fsm s) = FAULT \<and> \<not> attended s"
  using boot_finish_cases [of now ok s] assms unfolding attended_def by fastforce

lemma process_alert_moves:
  "sup_inv s \<Longrightarrow> alert_moves s (sup_handle s (SupProcess now ev))"
  using change_alert_moves [of s] by (auto simp: on_process_event_cb_def res_bind_def split: sum.split)

lemma request_alert_moves:
  "sup_inv s \<Longrightarrow> alert_moves s (sup_handle s (SupRequest now m))"
  using change_alert_moves [of s] by (auto simp: sup_handle_request_def split: sum.split)

lemma handle_attended:
  assumes inv: "sup_inv s"
    and fault: "fsm_state (sup_fsm (sup_handle s e)) = FAULT" and left: "\<not> attended (sup_handle s e)"
  shows "fsm_state (sup_fsm s) = FAULT \<and> (\<not> attended s \<or> sup_failed (sup_handle s e) = Suc (sup_failed s))"
proof -
  note quiet = alert_moves_attended [OF _ fault left]
  show ?thesis
  proof (cases e)
    case (SupProcess now ev)
    then show ?thesis using quiet process_alert_moves [OF inv] by blast
  next
    case (SupRequest now m)
    then show ?thesis using quiet request_alert_moves [OF inv] by blast
  next
    case (SupExpire now)
    then show ?thesis using quiet expire_alert_moves [OF inv] by simp
  next
    case (SupCheckHb now)
    then show ?thesis using quiet check_hb_alert_moves [OF inv] by simp
  next
    case (SupShutdown now hw ss)
    then show ?thesis using fault left shutdown_attended [of now hw ss s] by (auto split: if_splits)
  next
    case (SupBootAbort now hw ss)
    then show ?thesis using fault left boot_abort_attended [of now hw ss s] by auto
  next
    case (SupBootFinish now hw ss)
    then show ?thesis using fault left boot_finish_attended [of now "fst (spinup_system hw ss)" s] by simp
  next
    case (SupBootStart now)
    then show ?thesis using fault left
      by (auto simp: boot_start_def attended_def publish_system_status_def split: if_splits)
  next
    case (SupHeartbeat now hb)
    then show ?thesis using fault left by (simp add: attended_def)
  next
    case SupExit
    then show ?thesis using fault left by (auto simp: attended_def split: if_splits)
  qed
qed

text \<open>
  During the present, uninterrupted stay in FAULT, a shutdown attempt has raised: at some
  position of the run the count of failed shutdowns goes up by one, and the system is in FAULT
  before that event and ever since.
\<close>

definition shutdown_raised_in_fault :: "sup_event list \<Rightarrow> bool" where
  "shutdown_raised_in_fault evs \<longleftrightarrow>
     list_ex (\<lambda>n. sup_failed (sup_run (take (Suc n) evs)) = Suc (sup_failed (sup_run (take n evs))) \<and>
        list_all (\<lambda>m. fsm_state (sup_fsm (sup_run (take m evs))) = FAULT) [n..<Suc (length evs)])
       [0..<length evs]"

lemma sup_run_snoc: "sup_run (evs @ [e]) = sup_step (sup_run evs) e"
  by (simp add: sup_run_def)

lemma raised_in_fault_snoc:
  assumes fault: "fsm_state (sup_fsm (sup_run (evs @ [e]))) = FAULT"
    and "shutdown_raised_in_fault evs \<or> fsm_state (sup_fsm (sup_run evs)) = FAULT \<and>
      sup_failed (sup_run (evs @ [e])) = Suc (sup_failed (sup_run evs))"
  shows "shutdown_raised_in_fault (evs @ [e])"
proof -
  let ?P = "\<lambda>evs n. sup_failed (sup_run (take (Suc n) evs)) = Suc (sup_failed (sup_run (take n evs))) \<and>
    (\<forall>m. n \<le> m \<and> m \<le> length evs \<longrightarrow> fsm_state (sup_fsm (sup_run (take m evs))) = FAULT)"
  have def: "shutdown_raised_in_fault xs \<longleftrightarrow> (\<exists>n < length xs. ?P xs n)" for xs
    by (simp add: shutdown_raised_in_fault_def list_ex_iff list_all_iff less_Suc_eq_le Bex_def Ball_def
        atLeastLessThan_iff del: upt_Suc)
  from assms(2) have "\<exists>n < Suc (length evs). ?P (evs @ [e]) n"
  proof
    assume "shutdown_raised_in_fault evs"
    then obtain n where n: "n < length evs" "?P evs n" unfolding def by blast
    then have "?P (evs @ [e]) n" using fault by (auto simp: le_Suc_eq)
    then show ?thesis using n(1) by (meson less_SucI)
  next
    assume "fsm_state (sup_fsm (sup_run evs)) = FAULT \<and>
      sup_failed (sup_run (evs @ [e])) = Suc (sup_failed (sup_run evs))"
    then have "?P (evs @ [e]) (length evs)" using fault by (auto simp: le_Suc_eq)
    then show ?thesis by blast
  qed
  then show ?thesis unfolding def by simp
qed

lemma fault_attended:
  "fsm_state (sup_fsm (sup_run evs)) = FAULT \<Longrightarrow> attended (sup_run evs) \<or> shutdown_raised_in_fault evs"
proof (induction evs rule: rev_induct)
  case Nil
  then show ?case by (simp add: sup_run_def Supervisor_init_def)
next
  case (snoc e evs)
  let ?s = "sup_run evs"
  show ?case
  proof (cases "attended (sup_run (evs @ [e]))")
    case False
    have "fsm_state (sup_fsm ?s) = FAULT \<and>
        (\<not> attended ?s \<or> sup_failed (sup_run (evs @ [e])) = Suc (sup_failed ?s))"
      using handle_attended [OF sup_run_inv, of evs e] snoc.prems False
      by (auto simp: sup_run_snoc sup_step_def split: if_splits)
    then show ?thesis using snoc.IH raised_in_fault_snoc [OF snoc.prems] by blast
  qed simp
qed

text \<open>The run that the examples start from: one FATAL alert requested of a new supervisor.\<close>

lemma run_nil: "sup_run [] = Supervisor_init"
    "\<not> sup_exited Supervisor_init" "fsm_state (sup_fsm Supervisor_init) = BOOTING" "sup_pending Supervisor_init = 0"
    "sup_alerts Supervisor_init = server_init" "sup_status Supervisor_init = []" "sup_failed Supervisor_init = 0"
  by (simp_all add: sup_run_def Supervisor_init_def)

lemma fatal_request_run:
  fixes a
  defines "a \<equiv> mk_Alert Level_FATAL ''hw'' 180"
  defines "s \<equiv> sup_run [SupRequest 2 (build_message RAISE (mk_Alert Level_FATAL ''hw'' 180))]"
  shows "fsm_state (sup_fsm s) = FAULT" "sup_pending s = 1" "sup_failed s = 0" "\<not> sup_exited s"
    "sup_boot s = Boot_sleeping" "sup_fault_ref s = Some a" "srv_active (sup_alerts s) = [(180, a)]"
    "length (sup_status s) = 1"
  by (simp_all add: s_def a_def sup_run_def sup_step_def Supervisor_init_def publish_system_status_def
      sup_handle_request_def sup_apply_change_def sup_run_change_def apply_change.simps server_init_def
      mk_Alert_def on_alert_change_cb_def map_alert_to_system_event_def process_event_eq
      SystemFSM_new_table Let_def notify_waiters_def publish_change_def sys_result_of_def changed_def)
















text \<open>The loss of a core process, from any state of the supervisor.\<close>

lemma core_loss_step:
  fixes now
  assumes "sup_inv s" "\<not> sup_exited s" "is_core (pe_proc_name ev)"
    and "sys_event_type (pe_event_type ev) = Inr t" "t \<noteq> EV_START"
    and "dict_get (srv_active (sup_alerts s)) FTL_CORE_PROC_CRASH \<noteq> Some (core_crash_alert t ev)"
  defines "s' \<equiv> sup_step s (SupProcess now ev)"
  shows "fsm_state (sup_fsm s') = FAULT \<and> sup_fault_ref s' = Some (core_crash_alert t ev)
    \<and> sup_pending s' = sup_pending s + (if fsm_state (sup_fsm s) = FAULT then 0 else 1)
    \<and> (\<exists>ok. sup_status s' = sup_status s @
        [\<lparr>state_id = ''FAULT'', is_degraded = True, legal = ok, timestamp = \<lfloor>now * 1000\<rfloor>,
          fault_ref = to_ros_alert (core_crash_alert t ev)\<rparr>])"
proof -
  let ?a = "core_crash_alert t ev" and ?r = "apply_change now RAISE (core_crash_alert t ev) (sup_alerts s)"
  have fsm: "is_system_fsm (sup_fsm s)" using assms(1) by (simp add: sup_inv_def)
  have a: "alert_level ?a = Level_FATAL" "alert_code ?a = FTL_CORE_PROC_CRASH"
    by (simp_all add: core_crash_alert_def mk_Alert_def)
  then have ev: "map_alert_to_system_event RAISE ?a = Some FATAL_FAULT" by (simp add: fatal_event_iff)
  have step: "s' = sup_apply_change now RAISE ?a s"
    using assms(2-5) by (cases t) (simp_all add: s'_def sup_step_def on_process_event_cb_def)
  have flag: "fst ?r" using assms(6) by (simp add: apply_change_flag a)
  then have cb: "s' = on_alert_change_cb now RAISE ?a (s\<lparr>sup_alerts := snd ?r\<rparr>)"
    by (simp add: step sup_apply_change_def sup_run_change_def)
  have "dict_set (srv_active (sup_alerts s)) (alert_code ?a) ?a \<noteq> []"
    by (metis dict_get_set map_of.simps(1) option.distinct(1))
  then have degraded: "is_system_degraded (s\<lparr>sup_alerts := snd ?r\<rparr>)"
    by (simp add: is_system_degraded_def get_active_alerts_def apply_change_active)
  show ?thesis
    using change_fields [OF fsm, of now RAISE ?a] flag degraded
      cb_published [of "s\<lparr>sup_alerts := snd ?r\<rparr>" RAISE ?a now] fsm ev
    by (simp add: step [symmetric] cb [symmetric] cb_next_fatal a(1))
qed

text \<open>While the system is not down, no FATAL alert is active, so every one that comes is new.\<close>

lemma not_down_new_fatal:
  assumes "sup_inv s" "\<not> down s" "alert_level a = Level_FATAL"
  shows "dict_get (srv_active (sup_alerts s)) c \<noteq> Some a"
proof
  assume "dict_get (srv_active (sup_alerts s)) c = Some a"
  then have "a \<in> set (get_active_alerts (sup_alerts s))"
    by (force simp: get_active_alerts_def dest: map_of_SomeD)
  then have "fatal_active s" using assms(3) by (auto simp: fatal_active_def list_ex_iff)
  with assms show False by (simp add: sup_inv_def)
qed

section \<open>Properties\<close>

text \<open>
  C1. In every run of the supervisor whose callbacks do not overlap: the FSM keeps its table and
  the alert and heartbeat tables stay consistent; the alert callback never raises; while a FATAL
  alert is active the system is in FAULT or SHUTDOWN; until the boot routine ends the system is
  BOOTING or down; and a system in FAULT has a shutdown timer pending or a failed boot about to
  shut it down, unless a shutdown attempt made during this very stay in FAULT has raised.
\<close>

theorem supervisor_safe:
  "is_system_fsm (sup_fsm (sup_run evs)) \<and> srv_inv (sup_alerts (sup_run evs))
   \<and> dict_ok (sup_hb (sup_run evs)) \<and> \<not> sup_crashed (sup_run evs)
   \<and> (fatal_active (sup_run evs) \<longrightarrow> down (sup_run evs))
   \<and> (booting (sup_run evs) \<longrightarrow> fsm_state (sup_fsm (sup_run evs)) = BOOTING \<or> down (sup_run evs))
   \<and> (fsm_state (sup_fsm (sup_run evs)) = FAULT \<longrightarrow>
        sup_pending (sup_run evs) > 0 \<or> sup_boot (sup_run evs) = Boot_failing
        \<or> shutdown_raised_in_fault evs)"
  using sup_run_inv [of evs] fault_attended [of evs] by (simp add: sup_inv_def attended_def)

theorem supervisor_safe_witness:
  "let evs = [SupRequest 2 (build_message RAISE (mk_Alert Level_FATAL ''hw'' 180))]
   in fsm_state (sup_fsm (sup_run evs)) = FAULT \<and> sup_pending (sup_run evs) > 0"
  using supervisor_safe [of "[SupRequest 2 (build_message RAISE (mk_Alert Level_FATAL ''hw'' 180))]"]
  by (simp add: fatal_request_run shutdown_raised_in_fault_def run_nil)

text \<open>
  C2. When a core process exits or crashes, and the very same alert is not already active, the
  supervisor raises its own FATAL alert, is in FAULT, and publishes exactly one status that says
  FAULT, degraded, and names that alert. If the system was not in FAULT before, this schedules
  exactly one shutdown. If it was, because a FATAL alert came first, no second shutdown is
  scheduled, but the reference to the alert that caused the fault is overwritten all the same;
  the documentation of the alerts says that in this case no other alert is raised and that the
  reference keeps naming the alert that triggered the fault.
\<close>

theorem core_process_loss_faults:
  fixes now :: real
  assumes "\<not> sup_exited (sup_run evs)" and "is_core (pe_proc_name ev)"
    and "sys_event_type (pe_event_type ev) = Inr t" "t \<noteq> EV_START"
    and "dict_get (srv_active (sup_alerts (sup_run evs))) FTL_CORE_PROC_CRASH \<noteq> Some (core_crash_alert t ev)"
  defines "s \<equiv> sup_run evs" and "s' \<equiv> sup_step (sup_run evs) (SupProcess now ev)"
  shows "fsm_state (sup_fsm s') = FAULT
    \<and> sup_fault_ref s' = Some (core_crash_alert t ev)
    \<and> (fsm_state (sup_fsm s) \<noteq> FAULT \<longrightarrow> sup_pending s' = Suc (sup_pending s))
    \<and> (fsm_state (sup_fsm s) = FAULT \<longrightarrow> sup_pending s' = sup_pending s)
    \<and> (\<exists>ok. sup_status s' = sup_status s @
        [\<lparr>state_id = ''FAULT'', is_degraded = True, legal = ok, timestamp = \<lfloor>now * 1000\<rfloor>,
          fault_ref = to_ros_alert (core_crash_alert t ev)\<rparr>])"
proof -
  have "fsm_state (sup_fsm s') = FAULT \<and> sup_fault_ref s' = Some (core_crash_alert t ev)
    \<and> sup_pending s' = sup_pending s + (if fsm_state (sup_fsm s) = FAULT then 0 else 1)"
    and "\<exists>ok. sup_status s' = sup_status s @
        [\<lparr>state_id = ''FAULT'', is_degraded = True, legal = ok, timestamp = \<lfloor>now * 1000\<rfloor>,
          fault_ref = to_ros_alert (core_crash_alert t ev)\<rparr>]"
    using core_loss_step [OF sup_run_inv assms(1-5), of now] unfolding s'_def s_def by blast+
  then show ?thesis by simp
qed

theorem core_process_loss_faults_witness:
  "let ev = \<lparr>pe_proc_name = HARDWARE_MANAGER, pe_event_type = 2, pe_exit_code = 40\<rparr>;
       first = sup_step (sup_run []) (SupProcess 7 ev);
       fatal = SupRequest 2 (build_message RAISE (mk_Alert Level_FATAL ''hw'' 180));
       second = sup_step (sup_run [fatal]) (SupProcess 7 ev)
   in fsm_state (sup_fsm first) = FAULT \<and> sup_fault_ref first = Some (core_crash_alert EV_CRASH ev)
      \<and> sup_pending first = 1 \<and> length (sup_status first) = 1
      \<and> sup_fault_ref (sup_run [fatal]) = Some (mk_Alert Level_FATAL ''hw'' 180)
      \<and> sup_fault_ref second = Some (core_crash_alert EV_CRASH ev) \<and> sup_pending second = 1"
  using core_process_loss_faults [of "[]" "\<lparr>pe_proc_name = HARDWARE_MANAGER, pe_event_type = 2, pe_exit_code = 40\<rparr>"
      EV_CRASH 7]
    core_process_loss_faults [of "[SupRequest 2 (build_message RAISE (mk_Alert Level_FATAL ''hw'' 180))]"
      "\<lparr>pe_proc_name = HARDWARE_MANAGER, pe_event_type = 2, pe_exit_code = 40\<rparr>" EV_CRASH 7]
  by (auto simp: Let_def core_processes sys_event_type_def server_init_def fatal_request_run
      alert_code_defs run_nil)



text \<open>
  When a heartbeat of a core process has passed its deadline unreported, the next check of
  the listener puts the system in FAULT or SHUTDOWN, whatever other processes time out with it.
\<close>

theorem core_heartbeat_loss_faults:
  assumes "\<not> sup_exited (sup_run evs)" and "is_core n"
    and "dict_get (sup_hb (sup_run evs)) n = Some e" "timed_out now e"
  shows "down (sup_step (sup_run evs) (SupCheckHb now))"
proof -
  let ?s = "sup_run evs"
  let ?c = "check_heartbeats now (sup_hb ?s)"
  have ok: "dict_ok (sup_hb ?s)" using sup_run_inv [of evs] by (simp add: sup_inv_def)
  then have inv: "sup_inv (?s\<lparr>sup_hb := fst ?c\<rparr>)"
    by (intro sup_inv_hb sup_run_inv) (simp add: dict_ok_def)
  have "heartbeat_alert n \<in> set (map heartbeat_alert (snd ?c))"
    using timed_out_reported [OF ok assms(3,4)] by simp
  then have "down (foldl (\<lambda>s a. sup_apply_change now RAISE a s) (?s\<lparr>sup_hb := fst ?c\<rparr>)
      (map heartbeat_alert (snd ?c)))"
    using core_heartbeat_level [OF assms(2)] by (intro raise_each_down inv) blast
  then show ?thesis using assms(1) by (simp add: sup_step_def check_hb_fold)
qed

theorem core_heartbeat_loss_faults_witness:
  "down (sup_step (sup_run [SupHeartbeat 1 \<lparr>hb_name = SESSION_MANAGER, next_within = 3\<rparr>]) (SupCheckHb 5))"
  using core_heartbeat_loss_faults [of "[SupHeartbeat 1 \<lparr>hb_name = SESSION_MANAGER, next_within = 3\<rparr>]"
      SESSION_MANAGER "\<lparr>deadline = 4, reported = False\<rparr>" 5]
  by (simp add: sup_run_def sup_step_def Supervisor_init_def heartbeat_received_def timed_out_def
      core_processes)

text \<open>
  The loss of a process outside the core domain never moves the system state, never schedules
  a shutdown and publishes no status; it registers an ERR alert that lives for 30 seconds from
  the event.
\<close>

theorem noncore_process_loss_is_temporary:
  fixes now :: real
  assumes "\<not> sup_exited (sup_run evs)" and "\<not> is_core (pe_proc_name ev)"
    and "sys_event_type (pe_event_type ev) = Inr t" "t \<noteq> EV_START"
  defines "s \<equiv> sup_run evs" and "s' \<equiv> sup_step (sup_run evs) (SupProcess now ev)"
  shows "sup_fsm s' = sup_fsm s \<and> sup_pending s' = sup_pending s \<and> sup_status s' = sup_status s
    \<and> abs_srv (sup_alerts s') ERR_NONCRITICAL_PROC_CRASH = Some (noncore_crash_alert t ev, now)
    \<and> alert_ttl (noncore_crash_alert t ev) = Secs 30"
proof -
  let ?a = "noncore_crash_alert t ev"
  have inv: "srv_inv (sup_alerts s)" using sup_run_inv [of evs] by (simp add: sup_inv_def s_def)
  have none: "map_alert_to_system_event RAISE ?a = None"
    by (simp add: map_alert_to_system_event_def noncore_crash_alert_def mk_Alert_def level_defs alert_code_defs)
  have step: "s' = sup_apply_change now RAISE ?a s"
    using assms(1-4) by (cases t) (simp_all add: s'_def s_def sup_step_def on_process_event_cb_def)
  have "s' = s\<lparr>sup_alerts := snd (apply_change now RAISE ?a (sup_alerts s))\<rparr>"
    by (simp add: step sup_apply_change_def sup_run_change_def on_alert_change_cb_def none)
  then show ?thesis
    by (simp add: abs_srv_change [OF inv] noncore_crash_alert_def mk_Alert_def)
qed

theorem noncore_process_loss_is_temporary_witness:
  "let ev = \<lparr>pe_proc_name = ''monitor:panel'', pe_event_type = 1, pe_exit_code = 0\<rparr>;
       s' = sup_step (sup_run []) (SupProcess 7 ev)
   in fsm_state (sup_fsm s') = BOOTING \<and> sup_pending s' = 0
      \<and> abs_srv (sup_alerts s') ERR_NONCRITICAL_PROC_CRASH = Some (noncore_crash_alert EV_EXIT ev, 7)"
  using noncore_process_loss_is_temporary [of "[]"
      "\<lparr>pe_proc_name = ''monitor:panel'', pe_event_type = 1, pe_exit_code = 0\<rparr>" EV_EXIT 7]
  by (simp add: Let_def sup_run_def Supervisor_init_def sys_event_type_def is_core_def
      get_domain_from_proc_name_def DOMAIN_CORE_def)

text \<open>
  A fatal alert that arrives while the spin-up is in progress makes the boot routine raise
  when the spin-up answers, whatever the answer: the system is then down, no status is published
  by the routine and it ends without its own shutdown.
\<close>

theorem fatal_during_spinup_breaks_boot:
  assumes "sup_boot (sup_run evs) = Boot_spinup" and "\<not> sup_exited (sup_run evs)"
    and "fatal_active (sup_run evs)" and "fst (spinup_system hw ss) \<noteq> None"
  shows "sup_step (sup_run evs) (SupBootFinish now hw ss) = (sup_run evs)\<lparr>sup_boot := Boot_raised\<rparr>
    \<and> down (sup_run evs)"
proof -
  have inv: "sup_inv (sup_run evs)" by (rule sup_run_inv)
  then have d: "down (sup_run evs)" using assms(3) by (simp add: sup_inv_def)
  then have "st = STANDBY \<or> st = FAULT \<Longrightarrow> st \<notin> targets (sup_fsm (sup_run evs)) (fsm_state (sup_fsm (sup_run evs)))" for st
    using inv by (auto simp: sup_inv_def is_system_fsm_def down_def)
  with assms d show ?thesis
    by (auto simp: sup_step_def boot_finish_def change_state_def split: option.split sum.split bool.split)
qed

theorem fatal_during_spinup_breaks_boot_witness:
  "sup_boot (sup_step (sup_run [SupBootStart 1, SupRequest 2 (build_message RAISE (mk_Alert Level_FATAL ''hw'' 180))])
     (SupBootFinish 3 responsive_link responsive_link)) = Boot_raised"
  using fatal_during_spinup_breaks_boot [of
      "[SupBootStart 1, SupRequest 2 (build_message RAISE (mk_Alert Level_FATAL ''hw'' 180))]"
      responsive_link responsive_link 3]
  by (simp add: sup_run_def sup_step_def Supervisor_init_def boot_start_def publish_system_status_def
      sup_handle_request_def sup_apply_change_def sup_run_change_def apply_change.simps server_init_def
      mk_Alert_def on_alert_change_cb_def map_alert_to_system_event_def process_event_eq
      SystemFSM_new_table Let_def fatal_active_def get_active_alerts_def notify_waiters_def
      publish_change_def sys_result_of_def changed_def)

text \<open>
  C34. A spin-up that succeeds has configured the hardware manager, then configured and activated
  the session manager, in this order, and nothing else; whatever the outcome, the requests made
  are a prefix of that sequence, and the spin-up always answers when the timeout timers fire.
\<close>

theorem spinup_order:
  assumes "timers_fire hw" "timers_fire ss"
  defines "plan \<equiv> [(Hwmng, TRANSITION_CONFIGURE), (Ssmng, TRANSITION_CONFIGURE), (Ssmng, TRANSITION_ACTIVATE)]"
  shows "fst (spinup_system hw ss) \<noteq> None
    \<and> (fst (spinup_system hw ss) = Some (Inr True) \<longrightarrow> snd (spinup_system hw ss) = plan)
    \<and> (\<exists>k. snd (spinup_system hw ss) = take k plan)"
proof -
  have r: "\<exists>r b. call_change_state_async l tr t = (Some r, if b then [tr] else []) \<and> (r = Inr True \<longrightarrow> b)"
    if "timers_fire l" for l tr t
    using call_change_state_async_returns [OF that, of tr t]
    by (auto simp: call_change_state_async_def make_failed_response_def split: if_splits)
  obtain r1 b1 where 1: "configure_async hw 1000 = (Some r1, if b1 then [TRANSITION_CONFIGURE] else [])" "r1 = Inr True \<longrightarrow> b1"
    using r [OF assms(1)] unfolding configure_async_def by blast
  obtain r2 b2 where 2: "configure_async ss 1000 = (Some r2, if b2 then [TRANSITION_CONFIGURE] else [])" "r2 = Inr True \<longrightarrow> b2"
    using r [OF assms(2)] unfolding configure_async_def by blast
  obtain r3 b3 where 3: "activate_async ss 1000 = (Some r3, if b3 then [TRANSITION_ACTIVATE] else [])" "r3 = Inr True \<longrightarrow> b3"
    using r [OF assms(2)] unfolding activate_async_def by blast
  have *: "take 0 plan = []" "take (Suc 0) plan = [(Hwmng, TRANSITION_CONFIGURE)]"
    "take 2 plan = [(Hwmng, TRANSITION_CONFIGURE), (Ssmng, TRANSITION_CONFIGURE)]" "take 3 plan = plan"
    by (simp_all add: plan_def numeral_2_eq_2 numeral_3_eq_3)
  consider "r1 \<noteq> Inr True" | "r1 = Inr True" "r2 \<noteq> Inr True" | "r1 = Inr True" "r2 = Inr True"
    by blast
  then show ?thesis
  proof cases
    case 1
    then have "spinup_system hw ss = (Some r1, if b1 then take (Suc 0) plan else take 0 plan)"
      by (cases r1) (auto simp: spinup_system_def and_then_def \<open>configure_async hw 1000 = _\<close> * split: bool.split)
    with 1 show ?thesis by (auto split: if_splits)
  next
    case 2
    then have "spinup_system hw ss = (Some r2, if b2 then take 2 plan else take (Suc 0) plan)"
      using \<open>r1 = Inr True \<longrightarrow> b1\<close>
      by (cases r2) (auto simp: spinup_system_def and_then_def \<open>configure_async hw 1000 = _\<close>
          \<open>configure_async ss 1000 = _\<close> * split: bool.split)
    with 2 show ?thesis by (auto split: if_splits)
  next
    case 3
    then have "spinup_system hw ss = (Some r3, if b3 then plan else take 2 plan)"
      using \<open>r1 = Inr True \<longrightarrow> b1\<close> \<open>r2 = Inr True \<longrightarrow> b2\<close>
      by (cases r3) (auto simp: spinup_system_def and_then_def \<open>configure_async hw 1000 = _\<close>
          \<open>configure_async ss 1000 = _\<close> \<open>activate_async ss 1000 = _\<close> * plan_def split: bool.split)
    with \<open>r3 = Inr True \<longrightarrow> b3\<close> show ?thesis using *(4) by (metis (full_types) fst_conv option.distinct(1) option.inject snd_conv)
  qed
qed

theorem spinup_order_witness:
  "snd (spinup_system responsive_link responsive_link) =
     [(Hwmng, TRANSITION_CONFIGURE), (Ssmng, TRANSITION_CONFIGURE), (Ssmng, TRANSITION_ACTIVATE)]"
  using spinup_order [of responsive_link responsive_link] by simp

text \<open>
  C35. A scheduled shutdown, run while the timeout timers fire, always ends: the system is in
  SHUTDOWN with that status published, or the shutdown raised and is counted as failed.
\<close>

theorem scheduled_shutdown_ends:
  fixes now :: real
  assumes "timers_fire hw" "timers_fire ss"
    and "\<not> sup_exited (sup_run evs)" "sup_pending (sup_run evs) > 0"
  defines "s' \<equiv> sup_step (sup_run evs) (SupShutdown now hw ss)"
  shows "fsm_state (sup_fsm s') = SHUTDOWN \<and> sup_closing s' \<and> state_id (last (sup_status s')) = ''SHUTDOWN''
    \<or> sup_failed s' = Suc (sup_failed (sup_run evs))"
proof -
  obtain r where r: "shutdown_results hw ss = Some r"
    using shutdown_results_returns [OF assms(1,2)] by blast
  show ?thesis
    using assms(3,4) r
    by (cases r) (simp_all add: s'_def sup_step_def run_shutdown_def shutdown_system_def
        force_change_state_eq publish_system_status_def system_status_def)
qed

theorem scheduled_shutdown_ends_witness:
  "let evs = [SupRequest 2 (build_message RAISE (mk_Alert Level_FATAL ''hw'' 180))];
       s' = sup_step (sup_run evs) (SupShutdown 3 responsive_link responsive_link)
   in sup_closing s' \<or> sup_failed s' = 1"
  using scheduled_shutdown_ends [of responsive_link responsive_link
      "[SupRequest 2 (build_message RAISE (mk_Alert Level_FATAL ''hw'' 180))]" 3]
  by (auto simp: sup_run_def sup_step_def Supervisor_init_def publish_system_status_def
      sup_handle_request_def sup_apply_change_def sup_run_change_def apply_change.simps server_init_def
      mk_Alert_def on_alert_change_cb_def map_alert_to_system_event_def process_event_eq
      SystemFSM_new_table Let_def notify_waiters_def
      publish_change_def sys_result_of_def changed_def)

end
