(* ===== verification/Launch.thy ===== *)
theory Launch
  imports Supervisor
begin

text \<open>
  The launch files (\<open>orchestration/launch/*.launch.py\<close>, \<open>session_mng/launch/session_manager.launch.py\<close>) and the
  event handlers they register (\<open>orchestration/launch_utils.py\<close>), which tell the supervisor about the
  processes that start and exit.

  A launch description is a list of entities. The launch service is the environment: when a
  process starts or exits, it carries out the actions of the handlers registered for it, in their order. An
  \<open>ExecuteProcess\<close> action runs the command \<open>ros2 topic pub\<close>; what message such a command line
  publishes is the parameter \<open>topic_pub\<close>.
\<close>

section \<open>Actions and event handlers (launch\_utils.py)\<close>

fun event_value :: "SysEventType \<Rightarrow> int" where
  "event_value EV_START = 0"
| "event_value EV_EXIT = 1"
| "event_value EV_CRASH = 2"

fun event_name_lower :: "SysEventType \<Rightarrow> string" where
  "event_name_lower EV_START = ''start''"
| "event_name_lower EV_EXIT = ''exit''"
| "event_name_lower EV_CRASH = ''crash''"

datatype launch_action =
    LogInfo string
  | ExecuteProcess "string list" string
  | ShutdownAfter real string

definition quoted :: "string \<Rightarrow> string" where
  "quoted s = CHR 0x22 # s @ [CHR 0x22]"

definition publish_process_event :: "string \<Rightarrow> SysEventType \<Rightarrow> int \<Rightarrow> launch_action" where
  "publish_process_event proc_name event_type exit_code =
     (let msg = quoted (''{proc_name: '' @ proc_name @ '', event_type: '' @ show_int (event_value event_type) @
                  '', exit_code: '' @ show_int exit_code @ ''}'')
      in ExecuteProcess [''ros2'', ''topic'', ''pub'', ''--once'', ''/process_events'', ''interfaces/msg/ProcessEvent'', msg]
           (''sysevt-'' @ event_name_lower event_type @ '' pub''))"

definition publish_status_action :: "int \<Rightarrow> string \<Rightarrow> launch_action" where
  "publish_status_action status_code note =
     (let msg = quoted (''{status_code: '' @ show_int status_code @ '', note: '' @ note @ ''}'')
      in ExecuteProcess [''ros2'', ''topic'', ''pub'', ''--once'', ''/system_status'', ''interfaces/msg/SystemStatus'', msg] ''sysstatus pub'')"

text \<open>A process to launch, and what the launch service says of one that started or exited.\<close>

record proc_node =
  package :: string
  executable :: string

record proc_report =
  action_name :: string
  proc_pid :: int

datatype handler =
    OnProcessStart proc_node "proc_report \<Rightarrow> launch_action list"
  | OnProcessExit proc_node "proc_report \<Rightarrow> int \<Rightarrow> launch_action list"

definition on_process_start :: "proc_node \<Rightarrow> string \<Rightarrow> handler" where
  "on_process_start target_action proc_name =
     OnProcessStart target_action (\<lambda>event.
       [LogInfo (''Launch-supervised process started: '' @ action_name event @ '' (PID: '' @ show_int (proc_pid event) @ '')''),
        publish_process_event proc_name EV_START 0])"

definition on_process_exit :: "proc_node \<Rightarrow> string \<Rightarrow> handler" where
  "on_process_exit target_action proc_name =
     OnProcessExit target_action (\<lambda>event returncode.
       [LogInfo (''Launch-supervised process '' @ [CHR 0x27] @ action_name event @ [CHR 0x27] @ '' exited with code: '' @ show_int returncode),
        publish_process_event proc_name EV_EXIT returncode])"

section \<open>The launch files\<close>

datatype launch_entity =
    Node proc_node
  | RegisterEventHandler handler
  | IncludeLaunchDescription "launch_entity list"

definition session_manager :: proc_node where
  "session_manager = \<lparr>package = ''session_mng'', executable = ''session_mng''\<rparr>"

definition connection_server :: proc_node where
  "connection_server = \<lparr>package = ''session_mng'', executable = ''connection_listener''\<rparr>"

definition session_manager_launch :: "launch_entity list" where
  "session_manager_launch =
     [Node session_manager,
      Node connection_server,
      RegisterEventHandler (on_process_start session_manager SESSION_MANAGER),
      RegisterEventHandler (on_process_exit session_manager SESSION_MANAGER),
      RegisterEventHandler (on_process_start connection_server SESSION_CONNECTION_SERVER),
      RegisterEventHandler (on_process_exit connection_server SESSION_CONNECTION_SERVER)]"

definition hardware_manager :: proc_node where
  "hardware_manager = \<lparr>package = ''hardware_mng'', executable = ''hardware_mng''\<rparr>"

definition core_launch :: "launch_entity list" where
  "core_launch =
     [Node hardware_manager,
      RegisterEventHandler (on_process_start hardware_manager HARDWARE_MANAGER),
      RegisterEventHandler (on_process_exit hardware_manager HARDWARE_MANAGER),
      IncludeLaunchDescription session_manager_launch]"

text \<open>The monitor description is empty, and so is the one of the diagnostics, which returns before its node.\<close>

definition monitor_launch :: "launch_entity list" where "monitor_launch = []"
definition diagnostics_launch :: "launch_entity list" where "diagnostics_launch = []"

definition supervisor_node :: proc_node where
  "supervisor_node = \<lparr>package = ''orchestration'', executable = ''supervisor_node''\<rparr>"

definition SHUTDOWN_GUARD_TIME :: real where "SHUTDOWN_GUARD_TIME = 3"

definition supervisor_die_handler :: handler where
  "supervisor_die_handler =
     OnProcessExit supervisor_node (\<lambda>event returncode.
       [LogInfo ''Supervisor process exited, issuing a global shutdown in 3.0 seconds'',
        ShutdownAfter SHUTDOWN_GUARD_TIME ''Supervisor exited''])"

definition main_launch :: "launch_entity list" where
  "main_launch =
     [Node supervisor_node,
      IncludeLaunchDescription diagnostics_launch,
      IncludeLaunchDescription core_launch,
      IncludeLaunchDescription monitor_launch,
      RegisterEventHandler supervisor_die_handler]"

section \<open>The launch service\<close>

fun entity_nodes :: "launch_entity \<Rightarrow> proc_node list" where
  "entity_nodes (Node p) = [p]"
| "entity_nodes (RegisterEventHandler h) = []"
| "entity_nodes (IncludeLaunchDescription es) = concat (map entity_nodes es)"

fun entity_handlers :: "launch_entity \<Rightarrow> handler list" where
  "entity_handlers (Node p) = []"
| "entity_handlers (RegisterEventHandler h) = [h]"
| "entity_handlers (IncludeLaunchDescription es) = concat (map entity_handlers es)"

fun start_actions :: "proc_node \<Rightarrow> proc_report \<Rightarrow> handler \<Rightarrow> launch_action list" where
  "start_actions p event (OnProcessStart target f) = (if target = p then f event else [])"
| "start_actions p event (OnProcessExit target f) = []"

fun exit_actions :: "proc_node \<Rightarrow> proc_report \<Rightarrow> int \<Rightarrow> handler \<Rightarrow> launch_action list" where
  "exit_actions p event returncode (OnProcessStart target f) = []"
| "exit_actions p event returncode (OnProcessExit target f) = (if target = p then f event returncode else [])"

text \<open>The messages that the actions publish on \<open>/process_events\<close>, and the supervisor that receives them.\<close>

fun published :: "(string list \<Rightarrow> ProcessEvent option) \<Rightarrow> launch_action list \<Rightarrow> ProcessEvent list" where
  "published topic_pub [] = []"
| "published topic_pub (ExecuteProcess cmd name # as) =
     (case topic_pub cmd of None \<Rightarrow> [] | Some ev \<Rightarrow> [ev]) @ published topic_pub as"
| "published topic_pub (_ # as) = published topic_pub as"

definition receive :: "real \<Rightarrow> ProcessEvent list \<Rightarrow> Supervisor \<Rightarrow> Supervisor" where
  "receive now evs s = foldl (\<lambda>s ev. sup_step s (SupProcess now ev)) s evs"

definition when_exits :: "launch_entity list \<Rightarrow> proc_node \<Rightarrow> proc_report \<Rightarrow> int \<Rightarrow> launch_action list" where
  "when_exits es p event returncode = concat (map (exit_actions p event returncode) (entity_handlers (IncludeLaunchDescription es)))"

definition when_starts :: "launch_entity list \<Rightarrow> proc_node \<Rightarrow> proc_report \<Rightarrow> launch_action list" where
  "when_starts es p event = concat (map (start_actions p event) (entity_handlers (IncludeLaunchDescription es)))"


section \<open>Every process is watched\<close>

lemmas launch_defs = main_launch_def core_launch_def session_manager_launch_def monitor_launch_def diagnostics_launch_def
lemmas node_defs = supervisor_node_def hardware_manager_def session_manager_def connection_server_def

definition launched :: "proc_node list" where
  "launched = entity_nodes (IncludeLaunchDescription main_launch)"

lemma launched_eq: "launched = [supervisor_node, hardware_manager, session_manager, connection_server]"
  by (simp add: launched_def launch_defs)

text \<open>The name under which the exit of a process is announced.\<close>

definition announced_as :: "proc_node \<Rightarrow> string" where
  "announced_as p = (if p = hardware_manager then HARDWARE_MANAGER else if p = session_manager then SESSION_MANAGER
     else SESSION_CONNECTION_SERVER)"

lemma announced_core: "is_core (announced_as p)"
  by (simp add: announced_as_def core_processes)

lemma announced_inj: "inj_on announced_as (set launched - {supervisor_node})"
  by (simp add: inj_on_def launched_eq announced_as_def node_defs HARDWARE_MANAGER_def SESSION_MANAGER_def SESSION_CONNECTION_SERVER_def DOMAIN_CORE_def)

lemma when_exits_eq:
  assumes "p \<in> set launched" "p \<noteq> supervisor_node"
  shows "\<exists>text. when_exits main_launch p event rc = [LogInfo text, publish_process_event (announced_as p) EV_EXIT rc]"
  using assms by (auto simp: launched_eq when_exits_def launch_defs on_process_start_def on_process_exit_def supervisor_die_handler_def announced_as_def node_defs)

lemma when_starts_eq:
  assumes "p \<in> set launched" "p \<noteq> supervisor_node"
  shows "\<exists>text. when_starts main_launch p event = [LogInfo text, publish_process_event (announced_as p) EV_START 0]"
  using assms by (auto simp: launched_eq when_starts_def launch_defs on_process_start_def on_process_exit_def supervisor_die_handler_def announced_as_def node_defs)

definition event_cmd :: "string \<Rightarrow> SysEventType \<Rightarrow> int \<Rightarrow> string list" where
  "event_cmd name t rc = (case publish_process_event name t rc of ExecuteProcess cmd _ \<Rightarrow> cmd | _ \<Rightarrow> [])"

lemma published_event:
  "published topic_pub [LogInfo text, publish_process_event name t rc] =
     (case topic_pub (event_cmd name t rc) of None \<Rightarrow> [] | Some ev \<Rightarrow> [ev])"
  by (simp add: publish_process_event_def event_cmd_def Let_def split: option.splits)

lemma receive_core_exit:
  fixes now :: real and rc
  assumes "\<not> sup_exited (sup_run evs)" "\<not> down (sup_run evs)" "is_core name"
  defines "ev \<equiv> \<lparr>pe_proc_name = name, pe_event_type = 1, pe_exit_code = rc\<rparr>"
  defines "s' \<equiv> receive now [ev] (sup_run evs)"
  shows "fsm_state (sup_fsm s') = FAULT \<and> sup_fault_ref s' = Some (core_crash_alert EV_EXIT ev)
    \<and> sup_pending s' = Suc (sup_pending (sup_run evs))
    \<and> dict_get (srv_active (sup_alerts s')) FTL_CORE_PROC_CRASH = Some (core_crash_alert EV_EXIT ev)"
proof -
  let ?a = "core_crash_alert EV_EXIT ev" and ?s = "sup_run evs"
  have t: "sys_event_type (pe_event_type ev) = Inr EV_EXIT" "is_core (pe_proc_name ev)"
    using assms(3) by (simp_all add: ev_def sys_event_type_def)
  have a: "alert_level ?a = Level_FATAL" "alert_code ?a = FTL_CORE_PROC_CRASH" by (simp_all add: core_crash_alert_def mk_Alert_def)
  have step: "s' = sup_step ?s (SupProcess now ev)" by (simp add: s'_def receive_def)
  note core_loss_step [OF sup_run_inv assms(1) t(2,1) _ not_down_new_fatal [OF sup_run_inv assms(2) a(1)], of now]
  moreover have "s' = sup_apply_change now RAISE ?a ?s"
    using assms(1) t by (simp add: step sup_step_def on_process_event_cb_def)
  then have "dict_get (srv_active (sup_alerts s')) FTL_CORE_PROC_CRASH = Some ?a"
    using change_fields(2) [of ?s now RAISE ?a] sup_run_inv [of evs]
    by (simp add: sup_inv_def apply_change_active a dict_get_set)
  ultimately show ?thesis using assms(2) by (simp add: step [symmetric] down_def)
qed


section \<open>Properties\<close>

text \<open>
  C6. No process of the system is lost unnoticed: whichever process of the launch tree other than the supervisor
  exits, with whatever exit code, the launch service announces it under a name of the core domain that no other
  process has. A running supervisor that is not already in FAULT or SHUTDOWN then goes to FAULT, schedules a
  shutdown, and both its fault reference and its table of active alerts hold a FATAL alert with that name and exit
  code. This rests on \<open>ros2 topic pub\<close> publishing the message that its command line spells out.
\<close>

theorem every_process_loss_faults:
  fixes now :: real and event :: proc_report
  assumes "p \<in> set launched" "p \<noteq> supervisor_node" "\<not> sup_exited (sup_run evs)" "\<not> down (sup_run evs)"
    and "\<forall>name \<in> {HARDWARE_MANAGER, SESSION_MANAGER, SESSION_CONNECTION_SERVER}.
      topic_pub (event_cmd name EV_EXIT rc) = Some \<lparr>pe_proc_name = name, pe_event_type = event_value EV_EXIT, pe_exit_code = rc\<rparr>"
  defines "s' \<equiv> receive now (published topic_pub (when_exits main_launch p event rc)) (sup_run evs)"
  shows "fsm_state (sup_fsm s') = FAULT \<and> sup_pending s' = Suc (sup_pending (sup_run evs))
    \<and> (\<exists>a. sup_fault_ref s' = Some a \<and> dict_get (srv_active (sup_alerts s')) FTL_CORE_PROC_CRASH = Some a
      \<and> alert_level a = Level_FATAL \<and> alert_src a = announced_as p \<and> alert_subcode a = rc)
    \<and> (\<forall>q \<in> set launched - {supervisor_node}. announced_as q = announced_as p \<longrightarrow> q = p)"
proof -
  let ?ev = "\<lparr>pe_proc_name = announced_as p, pe_event_type = 1, pe_exit_code = rc\<rparr>"
  have "topic_pub (event_cmd (announced_as p) EV_EXIT rc) = Some ?ev"
    using assms(5) by (auto simp: announced_as_def)
  then have s': "s' = receive now [?ev] (sup_run evs)"
    using when_exits_eq [OF assms(1,2), of event rc] published_event [of topic_pub _ "announced_as p" EV_EXIT rc] by (auto simp: s'_def)
  have "alert_src (core_crash_alert EV_EXIT ?ev) = announced_as p" "alert_subcode (core_crash_alert EV_EXIT ?ev) = rc"
    "alert_level (core_crash_alert EV_EXIT ?ev) = Level_FATAL"
    by (simp_all add: core_crash_alert_def mk_Alert_def or_unknown_def announced_as_def HARDWARE_MANAGER_def SESSION_MANAGER_def
        SESSION_CONNECTION_SERVER_def DOMAIN_CORE_def)
  moreover have "q = p" if "q \<in> set launched - {supervisor_node}" "announced_as q = announced_as p" for q
    using inj_onD [OF announced_inj that(2) that(1)] assms(1,2) by simp
  ultimately show ?thesis
    using receive_core_exit [OF assms(3,4) announced_core, of now p rc] unfolding s' by blast
qed

text \<open>A reader of the command lines for one exit code.\<close>

definition sample_pub :: "string list \<Rightarrow> ProcessEvent option" where
  "sample_pub cmd =
     (case cmd of
        [_, _, _, _, _, _, msg] \<Rightarrow>
          (let body = drop (length (''_{proc_name: '' :: string)) msg;
               tail = '', event_type: 1, exit_code: 40}'' @ [CHR 0x22]
           in Some \<lparr>pe_proc_name = take (length body - length tail) body, pe_event_type = 1, pe_exit_code = 40\<rparr>)
      | _ \<Rightarrow> None)"

lemma show_40: "show_int 40 = ''40''" "show_int 1 = ''1''"
  by (simp_all add: show_int_def show_nat.simps char_of_def bit_Suc_0_iff)

lemma sample_pub_reads:
  "sample_pub (event_cmd name EV_EXIT 40) = Some \<lparr>pe_proc_name = name, pe_event_type = 1, pe_exit_code = 40\<rparr>"
  by (simp add: sample_pub_def event_cmd_def publish_process_event_def quoted_def show_40 Let_def)

theorem every_process_loss_faults_witness:
  "fsm_state (sup_fsm (receive 7 (published sample_pub (when_exits main_launch connection_server \<lparr>action_name = ''connection_listener-3'', proc_pid = 12\<rparr> 40)) (sup_run []))) = FAULT"
  using every_process_loss_faults [of connection_server "[]" sample_pub 40 7 "\<lparr>action_name = ''connection_listener-3'', proc_pid = 12\<rparr>"] sample_pub_reads
  by (auto simp: launched_eq node_defs run_nil down_def)

text \<open>
  The launch tree ends exactly by the supervisor: the exit of a process makes the launch service shut down, after
  three seconds, if and only if that process is the supervisor.
\<close>

theorem only_supervisor_ends_launch:
  assumes "p \<in> set launched"
  shows "(\<exists>t reason. ShutdownAfter t reason \<in> set (when_exits main_launch p event rc)) \<longleftrightarrow> p = supervisor_node"
proof (cases "p = supervisor_node")
  case True
  then show ?thesis
    by (auto simp: when_exits_def launch_defs on_process_start_def on_process_exit_def supervisor_die_handler_def node_defs)
next
  case False
  with when_exits_eq [OF assms, of event rc] show ?thesis by (auto simp: publish_process_event_def Let_def)
qed

text \<open>The start of a process is announced too, and changes nothing at the supervisor.\<close>

lemma start_is_harmless:
  assumes "p \<in> set launched" "p \<noteq> supervisor_node"
    and "topic_pub (event_cmd (announced_as p) EV_START 0) = Some \<lparr>pe_proc_name = announced_as p, pe_event_type = 0, pe_exit_code = 0\<rparr>"
  shows "receive now (published topic_pub (when_starts main_launch p event)) s = s"
  using when_starts_eq [OF assms(1,2), of event] published_event [of topic_pub _ "announced_as p" EV_START 0] assms(3)
  by (auto simp: receive_def sup_step_def on_process_event_cb_def sys_event_type_def)

end
