(* ===== verification/PacketCodec.thy ===== *)
theory PacketCodec
  imports Prelude
begin

unbundle bit_operations_syntax

text \<open>
  Typed packets (\<open>shared_libs/packetcodec\<close>) and the packet types of
  \<open>commons/network/packet_schemas.py\<close>: a packet is the 4-byte big-endian id of its class followed
  by the payload its class encodes; the decoder looks the id up in its table of registered classes.

  Text is a list of code points, \<open>utf8_encode\<close> and \<open>utf8_decode\<close> are Python's strict
  \<open>str.encode()\<close> and \<open>bytes.decode()\<close>. The digest, \<open>pickle\<close> and \<open>json\<close> are the record \<open>codec_libs\<close>,
  an argument of the operations that call them. The module's cache \<open>pack_id_table\<close> is passed
  through every call that reads or fills it.
\<close>

type_synonym py_text = "nat list"

datatype codec_error =
    UnicodeEncodeError
  | UnicodeDecodeError
  | NotSerializable
  | NotPicklable
  | UnknownNotEncodable
  | IdOverflow
  | UnpicklingCrash string

section \<open>UTF-8\<close>

definition scalar :: "nat \<Rightarrow> bool" where
  "scalar n \<longleftrightarrow> n < 0x110000 \<and> \<not> (0xD800 \<le> n \<and> n < 0xE000)"

definition utf8_char :: "nat \<Rightarrow> nat list" where
  "utf8_char n =
     (if n < 0x80 then [n]
      else if n < 0x800 then [0xC0 + n div 64, 0x80 + n mod 64]
      else if n < 0x10000 then [0xE0 + n div 64 div 64, 0x80 + n div 64 mod 64, 0x80 + n mod 64]
      else [0xF0 + n div 64 div 64 div 64, 0x80 + n div 64 div 64 mod 64, 0x80 + n div 64 mod 64,
            0x80 + n mod 64])"

definition utf8_encode :: "py_text \<Rightarrow> codec_error + bytes" where
  "utf8_encode t =
     (if list_all scalar t then Inr (map word_of_nat (concat (map utf8_char t))) else Inl UnicodeEncodeError)"

definition cont :: "nat \<Rightarrow> bool" where
  "cont b \<longleftrightarrow> 0x80 \<le> b \<and> b < 0xC0"

text \<open>One character off the front: its code point and the rest, or nothing when the bytes there are not one.\<close>

definition utf8_next :: "nat list \<Rightarrow> (nat \<times> nat list) option" where
  "utf8_next bs =
     (case bs of
        [] \<Rightarrow> None
      | a # bs \<Rightarrow>
          if a < 0x80 then Some (a, bs)
          else if 0xC2 \<le> a \<and> a < 0xE0 then
            (case bs of
               b # bs \<Rightarrow> if cont b then Some ((a - 0xC0) * 64 + (b - 0x80), bs) else None
             | _ \<Rightarrow> None)
          else if 0xE0 \<le> a \<and> a < 0xF0 then
            (case bs of
               b # c # bs \<Rightarrow>
                 let n = ((a - 0xE0) * 64 + (b - 0x80)) * 64 + (c - 0x80)
                 in if cont b \<and> cont c \<and> 0x800 \<le> n \<and> scalar n then Some (n, bs) else None
             | _ \<Rightarrow> None)
          else if 0xF0 \<le> a \<and> a < 0xF5 then
            (case bs of
               b # c # d # bs \<Rightarrow>
                 let n = (((a - 0xF0) * 64 + (b - 0x80)) * 64 + (c - 0x80)) * 64 + (d - 0x80)
                 in if cont b \<and> cont c \<and> cont d \<and> 0x10000 \<le> n \<and> scalar n then Some (n, bs) else None
             | _ \<Rightarrow> None)
          else None)"

lemma utf8_next_shorter: "utf8_next bs = Some (n, rest) \<Longrightarrow> length rest < length bs"
  by (auto simp: utf8_next_def Let_def split: list.splits if_splits)

function utf8_dec :: "nat list \<Rightarrow> nat list option" where
  "utf8_dec bs =
     (if bs = [] then Some []
      else case utf8_next bs of
        None \<Rightarrow> None
      | Some (n, rest) \<Rightarrow> map_option ((#) n) (utf8_dec rest))"
  by pat_completeness auto

termination utf8_dec
  by (relation "measure length") (auto dest: utf8_next_shorter)

declare utf8_dec.simps [simp del]

definition utf8_decode :: "bytes \<Rightarrow> codec_error + py_text" where
  "utf8_decode bs = (case utf8_dec (map unat bs) of None \<Rightarrow> Inl UnicodeDecodeError | Some t \<Rightarrow> Inr t)"

lemma utf8_digits:
  "n div 64 * 64 + n mod 64 = (n::nat)"
  by simp

lemma four_bytes:
  assumes "a < 5" "b < 64" "c < 64" "d < 64"
    and "0x10000 \<le> ((a * 64 + b) * 64 + c) * 64 + d" and "scalar (((a * 64 + b) * 64 + c) * 64 + d)"
  shows "utf8_next ([0xF0 + a, 0x80 + b, 0x80 + c, 0x80 + d] @ bs) = Some (((a * 64 + b) * 64 + c) * 64 + d, bs)"
  using assms by (simp add: utf8_next_def cont_def Let_def)

lemma utf8_next_char: "scalar n \<Longrightarrow> utf8_next (utf8_char n @ bs) = Some (n, bs)"
proof -
  assume n: "scalar n"
  consider (1) "n < 0x80" | (2) "0x80 \<le> n" "n < 0x800" | (3) "0x800 \<le> n" "n < 0x10000"
    | (4) "0x10000 \<le> n" by linarith
  then show ?thesis
  proof cases
    case 1
    then show ?thesis by (simp add: utf8_char_def utf8_next_def)
  next
    case 2
    then have "2 \<le> n div 64" "n div 64 < 0x20" by (auto simp: less_mult_imp_div_less div_le_mono [of 128 n 64, simplified])
    with 2 show ?thesis by (simp add: utf8_char_def utf8_next_def cont_def)
  next
    case 3
    then have b: "n div 64 div 64 < 0x10" by (auto simp: less_mult_imp_div_less)
    have "(n div 64 div 64 * 64 + n div 64 mod 64) * 64 + n mod 64 = n" by (simp only: utf8_digits)
    with 3 n b show ?thesis by (simp add: utf8_char_def utf8_next_def cont_def Let_def del: div_mult2_eq)
  next
    case 4
    have a: "n div 64 div 64 div 64 < 5" using n by (auto simp: scalar_def less_mult_imp_div_less)
    have "((n div 64 div 64 div 64 * 64 + n div 64 div 64 mod 64) * 64 + n div 64 mod 64) * 64 + n mod 64 = n"
      by (simp only: utf8_digits)
    with four_bytes [OF a, of "n div 64 div 64 mod 64" "n div 64 mod 64" "n mod 64"] 4 n show ?thesis
      by (simp only: utf8_char_def) simp
  qed
qed

lemma utf8_char_bytes: "scalar n \<Longrightarrow> b \<in> set (utf8_char n) \<Longrightarrow> b < 256"
  by (auto simp: utf8_char_def scalar_def less_mult_imp_div_less split: if_splits)

lemma utf8_char_nonempty [simp]: "utf8_char n \<noteq> []"
  by (simp add: utf8_char_def)

lemma utf8_dec_char:
  "scalar n \<Longrightarrow> utf8_dec (utf8_char n @ bs) = map_option ((#) n) (utf8_dec bs)"
  by (subst utf8_dec.simps) (simp add: utf8_next_char)

lemma utf8_dec_chars: "list_all scalar t \<Longrightarrow> utf8_dec (concat (map utf8_char t)) = Some t"
  by (induction t) (simp_all add: utf8_dec_char utf8_dec.simps [of "[]"])

lemma utf8_roundtrip: "utf8_encode t = Inr b \<Longrightarrow> utf8_decode b = Inr t"
proof -
  assume e: "utf8_encode t = Inr b"
  then have t: "list_all scalar t" and b: "b = map word_of_nat (concat (map utf8_char t))"
    by (auto simp: utf8_encode_def split: if_splits)
  have "map unat b = concat (map utf8_char t)"
    using t by (auto simp: b comp_def list_all_iff unat_of_nat take_bit_eq_mod intro!: map_idI) (metis mod_less utf8_char_bytes)
  with t show ?thesis by (simp add: utf8_decode_def utf8_dec_chars)
qed

section \<open>Ids of packet classes (utils.py, constants.py)\<close>

datatype 'o load_result = Loaded 'o | PickleError string | OtherError string

record 'o codec_libs =
  md5 :: "string \<Rightarrow> nat"
  pickle_dumps :: "'o \<Rightarrow> bytes option"
  pickle_loads :: "bytes \<Rightarrow> 'o load_result"
  json_dumps :: "'o \<Rightarrow> py_text option"
  json_loads :: "py_text \<Rightarrow> 'o option"

datatype packet_class =
    TextPacketC | RawBytesPacketC | PicklePacketC | UnknownPacketC
  | HeartBeatPacketC | ConfigurationPacketC | SessionEndRequestPacketC

fun class_name :: "packet_class \<Rightarrow> string" where
  "class_name TextPacketC = ''TextPacket''"
| "class_name RawBytesPacketC = ''RawBytesPacket''"
| "class_name PicklePacketC = ''PicklePacket''"
| "class_name UnknownPacketC = ''UnknownPacket''"
| "class_name HeartBeatPacketC = ''HeartBeatPacket''"
| "class_name ConfigurationPacketC = ''ConfigurationPacket''"
| "class_name SessionEndRequestPacketC = ''SessionEndRequestPacket''"

type_synonym id_table = "(string, nat) dict"

definition PACKTYPEID_SIZE_BYTES :: nat where
  "PACKTYPEID_SIZE_BYTES = 4"

definition gen32bithash :: "'o codec_libs \<Rightarrow> string \<Rightarrow> nat" where
  "gen32bithash libs input = md5 libs input AND 0xFFFFFFFF"

definition get_packtype_id :: "'o codec_libs \<Rightarrow> packet_class \<Rightarrow> id_table \<Rightarrow> nat \<times> id_table" where
  "get_packtype_id libs packet_type tbl =
     (let input = class_name packet_type;
          tbl = (if dict_has tbl input then tbl else dict_set tbl input (gen32bithash libs input))
      in (the (dict_get tbl input), tbl))"

section \<open>Packet types (builtin\_packets.py, packet\_schemas.py)\<close>

datatype 'o packet =
    RawBytesPacket bytes
  | UnknownPacket nat
  | TextPacket py_text
  | PicklePacket "'o option" bool "string option"
  | HeartBeatPacket bytes
  | ConfigurationPacket py_text "'o option" bool
  | SessionEndRequestPacket

text \<open>The arguments of the \<open>encode\<close> methods, one constructor per class.\<close>

datatype 'o encode_call =
    EncRawBytes bytes
  | EncUnknown
  | EncText py_text
  | EncPickle 'o
  | EncHeartBeat bytes
  | EncConfiguration 'o
  | EncSessionEndRequest

fun class_of :: "'o encode_call \<Rightarrow> packet_class" where
  "class_of (EncRawBytes bb) = RawBytesPacketC"
| "class_of EncUnknown = UnknownPacketC"
| "class_of (EncText t) = TextPacketC"
| "class_of (EncPickle obj) = PicklePacketC"
| "class_of (EncHeartBeat nonce) = HeartBeatPacketC"
| "class_of (EncConfiguration j) = ConfigurationPacketC"
| "class_of EncSessionEndRequest = SessionEndRequestPacketC"

fun original_encode :: "'o codec_libs \<Rightarrow> 'o encode_call \<Rightarrow> codec_error + bytes" where
  "original_encode libs (EncRawBytes bb) = Inr bb"
| "original_encode libs EncUnknown = Inl UnknownNotEncodable"
| "original_encode libs (EncText t) = utf8_encode t"
| "original_encode libs (EncPickle obj) =
     (case pickle_dumps libs obj of None \<Rightarrow> Inl NotPicklable | Some b \<Rightarrow> Inr b)"
| "original_encode libs (EncHeartBeat nonce) = Inr nonce"
| "original_encode libs (EncConfiguration j) =
     (case json_dumps libs j of None \<Rightarrow> Inl NotSerializable | Some t \<Rightarrow> utf8_encode t)"
| "original_encode libs EncSessionEndRequest = Inr []"

definition encoder_wrapper ::
    "'o codec_libs \<Rightarrow> 'o encode_call \<Rightarrow> id_table \<Rightarrow> (codec_error + bytes) \<times> id_table" where
  "encoder_wrapper libs call tbl =
     (case original_encode libs call of
        Inl e \<Rightarrow> (Inl e, tbl)
      | Inr payload \<Rightarrow>
          (let (packid, tbl) = get_packtype_id libs (class_of call) tbl
           in (if packid < 256 ^ PACKTYPEID_SIZE_BYTES
               then Inr (bytes_be PACKTYPEID_SIZE_BYTES packid @ payload) else Inl IdOverflow, tbl)))"

definition PicklePacket_decode :: "'o codec_libs \<Rightarrow> bytes \<Rightarrow> codec_error + 'o packet" where
  "PicklePacket_decode libs bin =
     (case pickle_loads libs bin of
        Loaded obj \<Rightarrow> Inr (PicklePacket (Some obj) True None)
      | PickleError e \<Rightarrow> Inr (PicklePacket None False (Some e))
      | OtherError e \<Rightarrow> Inl (UnpicklingCrash e))"

definition ConfigurationPacket_decode :: "'o codec_libs \<Rightarrow> bytes \<Rightarrow> codec_error + 'o packet" where
  "ConfigurationPacket_decode libs bin =
     (case utf8_decode bin of
        Inl e \<Rightarrow> Inr (ConfigurationPacket [] None False)
      | Inr json_str \<Rightarrow>
          (case json_loads libs json_str of
             None \<Rightarrow> Inr (ConfigurationPacket [] None False)
           | Some json_obj \<Rightarrow> Inr (ConfigurationPacket json_str (Some json_obj) True)))"

definition UnknownPacket_decode :: "bytes \<Rightarrow> 'o packet" where
  "UnknownPacket_decode bin = UnknownPacket (nat_of_bytes_be (take PACKTYPEID_SIZE_BYTES bin))"

fun decode :: "'o codec_libs \<Rightarrow> packet_class \<Rightarrow> bytes \<Rightarrow> codec_error + 'o packet" where
  "decode libs RawBytesPacketC bin = Inr (RawBytesPacket bin)"
| "decode libs UnknownPacketC bin = Inr (UnknownPacket_decode bin)"
| "decode libs TextPacketC bin = res_bind (utf8_decode bin) (\<lambda>t. Inr (TextPacket t))"
| "decode libs PicklePacketC bin = PicklePacket_decode libs bin"
| "decode libs HeartBeatPacketC bin = Inr (HeartBeatPacket bin)"
| "decode libs ConfigurationPacketC bin = ConfigurationPacket_decode libs bin"
| "decode libs SessionEndRequestPacketC bin = Inr SessionEndRequestPacket"

section \<open>The decoder (packet\_decoder.py)\<close>

record PacketDecoder =
  PACKET_TABLE :: "(nat, packet_class) dict"

record 'o received_packet =
  packet :: "'o packet"
  raw_bytes :: bytes

definition register_packet ::
    "'o codec_libs \<Rightarrow> packet_class \<Rightarrow> PacketDecoder \<times> id_table \<Rightarrow> PacketDecoder \<times> id_table" where
  "register_packet libs packet_class s =
     (let (d, tbl) = s; (packet_typeid, tbl) = get_packtype_id libs packet_class tbl
      in (d\<lparr>PACKET_TABLE := dict_set (PACKET_TABLE d) packet_typeid packet_class\<rparr>, tbl))"

definition register_packets ::
    "'o codec_libs \<Rightarrow> packet_class list \<Rightarrow> PacketDecoder \<times> id_table \<Rightarrow> PacketDecoder \<times> id_table" where
  "register_packets libs packets s = foldl (\<lambda>s p. register_packet libs p s) s packets"

definition PacketDecoder_init :: "'o codec_libs \<Rightarrow> id_table \<Rightarrow> PacketDecoder \<times> id_table" where
  "PacketDecoder_init libs tbl =
     register_packet libs PicklePacketC
       (register_packet libs RawBytesPacketC
         (register_packet libs TextPacketC (\<lparr>PACKET_TABLE = []\<rparr>, tbl)))"

definition parse_bytes :: "'o codec_libs \<Rightarrow> PacketDecoder \<Rightarrow> bytes \<Rightarrow> codec_error + 'o received_packet" where
  "parse_bytes libs d data =
     (let pack_typeid = nat_of_bytes_be (take PACKTYPEID_SIZE_BYTES data);
          packet_class = (case dict_get (PACKET_TABLE d) pack_typeid of None \<Rightarrow> UnknownPacketC | Some c \<Rightarrow> c);
          payload_data = drop PACKTYPEID_SIZE_BYTES data
      in res_bind (decode libs packet_class payload_data) (\<lambda>p. Inr \<lparr>packet = p, raw_bytes = data\<rparr>))"

section \<open>The cache of ids\<close>

text \<open>The cache only ever holds what the hash gives, so a cached answer is the computed one.\<close>

definition id_table_ok :: "'o codec_libs \<Rightarrow> id_table \<Rightarrow> bool" where
  "id_table_ok libs tbl \<longleftrightarrow> list_all (\<lambda>(n, i). i = gen32bithash libs n) tbl"

definition packet_id :: "'o codec_libs \<Rightarrow> packet_class \<Rightarrow> nat" where
  "packet_id libs c = gen32bithash libs (class_name c)"

lemma id_table_get: "id_table_ok libs tbl \<Longrightarrow> dict_get tbl n = Some i \<Longrightarrow> i = gen32bithash libs n"
  by (auto simp: id_table_ok_def list_all_iff dest!: map_of_SomeD)

lemma id_table_set: "id_table_ok libs tbl \<Longrightarrow> id_table_ok libs (dict_set tbl n (gen32bithash libs n))"
  by (induction tbl) (auto simp: id_table_ok_def)

lemma get_packtype_id_cached:
  assumes "id_table_ok libs tbl"
  shows "fst (get_packtype_id libs c tbl) = packet_id libs c" and "id_table_ok libs (snd (get_packtype_id libs c tbl))"
  using assms
  by (auto simp: get_packtype_id_def Let_def dict_has_def packet_id_def dict_simps id_table_set dest: id_table_get)

lemma gen32bithash_mod: "gen32bithash libs n = md5 libs n mod 2 ^ 32"
proof -
  have m: "(0xFFFFFFFF :: nat) = mask 32" by (simp add: mask_eq_exp_minus_1)
  show ?thesis unfolding gen32bithash_def m take_bit_eq_mask [symmetric] take_bit_eq_mod ..
qed

lemma packet_id_bound: "packet_id libs c < 256 ^ PACKTYPEID_SIZE_BYTES"
  by (simp add: packet_id_def gen32bithash_mod PACKTYPEID_SIZE_BYTES_def)

section \<open>What a decoder has registered\<close>

definition builtin_classes :: "packet_class list" where
  "builtin_classes = [TextPacketC, RawBytesPacketC, PicklePacketC]"

definition decoder_for :: "'o codec_libs \<Rightarrow> packet_class list \<Rightarrow> id_table \<Rightarrow> PacketDecoder" where
  "decoder_for libs cs tbl = fst (register_packets libs cs (PacketDecoder_init libs tbl))"

lemma register_packet_eq:
  "id_table_ok libs tbl \<Longrightarrow>
   register_packet libs c (d, tbl) =
     (d\<lparr>PACKET_TABLE := dict_set (PACKET_TABLE d) (packet_id libs c) c\<rparr>, snd (get_packtype_id libs c tbl))"
  by (simp add: register_packet_def split_beta get_packtype_id_cached)

lemma register_packets_table:
  "id_table_ok libs tbl \<Longrightarrow>
   PACKET_TABLE (fst (register_packets libs cs (d, tbl))) =
     foldl (\<lambda>t c. dict_set t (packet_id libs c) c) (PACKET_TABLE d) cs"
  unfolding register_packets_def
  by (induction cs arbitrary: d tbl) (simp_all add: register_packet_eq get_packtype_id_cached)

lemma decoder_for_table:
  "id_table_ok libs tbl \<Longrightarrow>
   PACKET_TABLE (decoder_for libs cs tbl) =
     foldl (\<lambda>t c. dict_set t (packet_id libs c) c) [] (builtin_classes @ cs)"
  using register_packets_table [of libs tbl "builtin_classes @ cs" "\<lparr>PACKET_TABLE = []\<rparr>"]
  by (simp add: decoder_for_def PacketDecoder_init_def register_packets_def builtin_classes_def)

lemma table_miss:
  "i \<notin> packet_id libs ` set cs \<Longrightarrow>
   dict_get (foldl (\<lambda>t c. dict_set t (packet_id libs c) c) t cs) i = dict_get t i"
  by (induction cs arbitrary: t) (auto simp: dict_simps)

lemma table_hit:
  "inj_on (packet_id libs) (set cs) \<Longrightarrow> c \<in> set cs \<Longrightarrow>
   dict_get (foldl (\<lambda>t c. dict_set t (packet_id libs c) c) t cs) (packet_id libs c) = Some c"
proof (induction cs rule: rev_induct)
  case (snoc x cs)
  then show ?case by (auto simp: dict_simps inj_on_def)
qed simp

section \<open>Packets on the wire\<close>

text \<open>
  What the round trip of a call needs of the libraries: nothing for raw bytes, text, heartbeats and
  session end requests. A pickled object, or the object of a configuration, must be one that
  \<open>loads\<close> gives back unchanged from what \<open>dumps\<close> made of it. Python's \<open>json\<close> does this for
  dictionaries with string keys, lists, strings, numbers, booleans and \<open>None\<close>, and not for tuples or
  keys that are not strings.
\<close>

fun faithful :: "'o codec_libs \<Rightarrow> 'o encode_call \<Rightarrow> bool" where
  "faithful libs (EncPickle obj) \<longleftrightarrow>
     (case pickle_dumps libs obj of None \<Rightarrow> True | Some b \<Rightarrow> pickle_loads libs b = Loaded obj)"
| "faithful libs (EncConfiguration j) \<longleftrightarrow>
     (case json_dumps libs j of None \<Rightarrow> True | Some t \<Rightarrow> json_loads libs t = Some j)"
| "faithful libs _ \<longleftrightarrow> True"

text \<open>The packet that an \<open>encode\<close> call describes.\<close>

fun packet_of :: "'o codec_libs \<Rightarrow> 'o encode_call \<Rightarrow> 'o packet" where
  "packet_of libs (EncRawBytes bb) = RawBytesPacket bb"
| "packet_of libs EncUnknown = UnknownPacket 0"
| "packet_of libs (EncText t) = TextPacket t"
| "packet_of libs (EncPickle obj) = PicklePacket (Some obj) True None"
| "packet_of libs (EncHeartBeat nonce) = HeartBeatPacket nonce"
| "packet_of libs (EncConfiguration j) = ConfigurationPacket (the (json_dumps libs j)) (Some j) True"
| "packet_of libs EncSessionEndRequest = SessionEndRequestPacket"

lemma encoder_wrapper_Inr:
  assumes "id_table_ok libs tbl" and "encoder_wrapper libs call tbl = (Inr data, tbl')"
  obtains payload where "original_encode libs call = Inr payload"
    and "data = bytes_be PACKTYPEID_SIZE_BYTES (packet_id libs (class_of call)) @ payload"
  using assms
  by (auto simp: encoder_wrapper_def split_beta get_packtype_id_cached split: sum.splits if_splits)

lemma decode_original_encode:
  assumes "faithful libs call" and "original_encode libs call = Inr payload"
  shows "decode libs (class_of call) payload = Inr (packet_of libs call)"
  using assms
  by (cases call)
    (auto simp: PicklePacket_decode_def ConfigurationPacket_decode_def
      dest!: utf8_roundtrip split: option.splits)

lemma parse_header:
  "parse_bytes libs d (bytes_be PACKTYPEID_SIZE_BYTES (packet_id libs c) @ payload) =
     res_bind (decode libs (case dict_get (PACKET_TABLE d) (packet_id libs c) of None \<Rightarrow> UnknownPacketC | Some c \<Rightarrow> c) payload)
       (\<lambda>p. Inr \<lparr>packet = p, raw_bytes = bytes_be PACKTYPEID_SIZE_BYTES (packet_id libs c) @ payload\<rparr>)"
  by (simp add: parse_bytes_def nat_of_bytes_be_inverse packet_id_bound)

lemma parse_registered:
  assumes "id_table_ok libs tbl" and "inj_on (packet_id libs) (set (builtin_classes @ cs))"
    and "c \<in> set (builtin_classes @ cs)"
  shows "parse_bytes libs (decoder_for libs cs tbl) (bytes_be PACKTYPEID_SIZE_BYTES (packet_id libs c) @ payload) =
     res_bind (decode libs c payload)
       (\<lambda>p. Inr \<lparr>packet = p, raw_bytes = bytes_be PACKTYPEID_SIZE_BYTES (packet_id libs c) @ payload\<rparr>)"
  by (simp add: parse_header decoder_for_table [OF assms(1)] table_hit [OF assms(2,3)] del: foldl_append)

lemma roundtrip_registered:
  assumes "faithful libs call" and "id_table_ok libs sender_ids" and "id_table_ok libs receiver_ids"
    and "inj_on (packet_id libs) (set (builtin_classes @ cs))"
    and "class_of call \<in> set (builtin_classes @ cs)"
    and "encoder_wrapper libs call sender_ids = (Inr data, ids')"
  shows "parse_bytes libs (decoder_for libs cs receiver_ids) data = Inr \<lparr>packet = packet_of libs call, raw_bytes = data\<rparr>"
proof -
  obtain payload where "original_encode libs call = Inr payload"
    and data: "data = bytes_be PACKTYPEID_SIZE_BYTES (packet_id libs (class_of call)) @ payload"
    using encoder_wrapper_Inr [OF assms(2,6)] .
  then have "decode libs (class_of call) payload = Inr (packet_of libs call)"
    by (intro decode_original_encode assms(1))
  then show ?thesis unfolding data by (simp add: parse_registered [OF assms(3,4,5)])
qed

section \<open>Properties\<close>

text \<open>
  C21. Packets survive the wire: whatever a sender encodes (raw bytes, text, a pickled object, a
  heartbeat, a configuration, a session end request), a decoder that has the packet's class
  registered and whose classes have different ids gives back the packet with the same content and
  the received bytes, whatever either side's id cache held before. Of a pickled object and of a
  configuration it is assumed that \<open>pickle\<close> or \<open>json\<close> gives this very object back unchanged.
\<close>

theorem packet_roundtrip:
  assumes "faithful libs call" and "id_table_ok libs sender_ids" and "id_table_ok libs receiver_ids"
    and "inj_on (packet_id libs) (set (builtin_classes @ cs))"
    and "class_of call \<in> set (builtin_classes @ cs)"
    and "encoder_wrapper libs call sender_ids = (Inr data, ids')"
  shows "parse_bytes libs (decoder_for libs cs receiver_ids) data = Inr \<lparr>packet = packet_of libs call, raw_bytes = data\<rparr>"
  by (rule roundtrip_registered [OF assms])

text \<open>Stand-ins for the digest, \<open>pickle\<close> and \<open>json\<close> on objects that are byte strings.\<close>

definition plain_libs :: "bytes codec_libs" where
  "plain_libs =
     \<lparr>md5 = length, pickle_dumps = Some, pickle_loads = Loaded,
      json_dumps = (\<lambda>b. Some (map unat b)), json_loads = (\<lambda>t. Some (map word_of_nat t))\<rparr>"

lemma bytes_be_4:
  "bytes_be 4 n = [word_of_nat (n div 256 div 256 div 256 mod 256), word_of_nat (n div 256 div 256 mod 256),
     word_of_nat (n div 256 mod 256), word_of_nat (n mod 256)]"
proof -
  have "(4 :: nat) = Suc (Suc (Suc (Suc 0)))" by simp
  then show ?thesis unfolding bytes_be_def by (simp only: bytes_le.simps) simp
qed

lemma plain_libs_faithful [simp]: "faithful plain_libs call"
  by (cases call) (simp_all add: plain_libs_def comp_def)

lemma plain_libs_id [simp]: "packet_id plain_libs c = length (class_name c)"
  by (cases c) (simp_all add: packet_id_def gen32bithash_mod plain_libs_def)

lemma plain_libs_ids:
  "inj_on (packet_id plain_libs) (set (builtin_classes @ [HeartBeatPacketC, SessionEndRequestPacketC, ConfigurationPacketC]))"
  by (simp add: builtin_classes_def)

theorem packet_roundtrip_witness:
  "parse_bytes plain_libs (decoder_for plain_libs [HeartBeatPacketC, SessionEndRequestPacketC, ConfigurationPacketC] [])
     [0, 0, 0, 19, 0xC3, 0xA9]
   = Inr \<lparr>packet = ConfigurationPacket [0xE9] (Some [0xE9]) True, raw_bytes = [0, 0, 0, 19, 0xC3, 0xA9]\<rparr>"
proof -
  have "original_encode plain_libs (EncConfiguration [0xE9]) = Inr [0xC3, 0xA9]"
    by (simp add: plain_libs_def utf8_encode_def utf8_char_def scalar_def)
  moreover have "get_packtype_id plain_libs ConfigurationPacketC [] = (19, [(''ConfigurationPacket'', 19)])"
    by (simp add: get_packtype_id_def dict_has_def gen32bithash_mod plain_libs_def)
  ultimately have "encoder_wrapper plain_libs (EncConfiguration [0xE9]) [] =
      (Inr [0, 0, 0, 19, 0xC3, 0xA9], [(''ConfigurationPacket'', 19)])"
    by (simp add: encoder_wrapper_def PACKTYPEID_SIZE_BYTES_def bytes_be_4)
  from packet_roundtrip [OF plain_libs_faithful _ _ plain_libs_ids _ this, of "[]"]
  show ?thesis by (simp add: id_table_ok_def) (simp add: plain_libs_def)
qed

text \<open>
  The cache of packet ids is transparent: any sequence of \<open>get_packtype_id\<close> calls, from any
  consistent cache, answers what hashing the class names each time would answer, and an id always
  fits its 4-byte field.
\<close>

fun get_ids :: "'o codec_libs \<Rightarrow> packet_class list \<Rightarrow> id_table \<Rightarrow> nat list" where
  "get_ids libs [] tbl = []"
| "get_ids libs (c # cs) tbl =
     (let (i, tbl') = get_packtype_id libs c tbl in i # get_ids libs cs tbl')"

theorem id_cache_is_transparent:
  assumes "id_table_ok libs tbl"
  shows "get_ids libs cs tbl = map (\<lambda>c. gen32bithash libs (class_name c)) cs
    \<and> list_all (\<lambda>i. i < 256 ^ PACKTYPEID_SIZE_BYTES) (get_ids libs cs tbl)"
proof -
  have ids: "get_ids libs cs tbl = map (packet_id libs) cs"
    using assms by (induction cs arbitrary: tbl) (simp_all add: split_beta get_packtype_id_cached)
  show ?thesis unfolding ids using packet_id_bound [of libs] by (simp add: list_all_iff packet_id_def)
qed

theorem id_cache_is_transparent_witness:
  "get_ids plain_libs [TextPacketC, HeartBeatPacketC, TextPacketC] [] =
     [gen32bithash plain_libs ''TextPacket'', gen32bithash plain_libs ''HeartBeatPacket'', gen32bithash plain_libs ''TextPacket'']"
  using id_cache_is_transparent [of plain_libs "[]" "[TextPacketC, HeartBeatPacketC, TextPacketC]"]
  by (simp add: id_table_ok_def)

text \<open>
  A packet whose class the receiver has not registered is delivered as an unknown packet that
  keeps the received bytes, but its \<open>typeid\<close> is read from the first bytes of the payload, not from
  the packet's id field, so it names a class only by accident.
\<close>

theorem unknown_packet_typeid_is_payload:
  assumes "id_table_ok libs tbl"
    and "packet_id libs c \<notin> packet_id libs ` set (builtin_classes @ cs)"
  shows "parse_bytes libs (decoder_for libs cs tbl) (bytes_be PACKTYPEID_SIZE_BYTES (packet_id libs c) @ payload) =
    Inr \<lparr>packet = UnknownPacket (nat_of_bytes_be (take PACKTYPEID_SIZE_BYTES payload)),
         raw_bytes = bytes_be PACKTYPEID_SIZE_BYTES (packet_id libs c) @ payload\<rparr>"
  using table_miss [OF assms(2), of "[]"]
  by (simp add: parse_header decoder_for_table [OF assms(1)] UnknownPacket_decode_def del: foldl_append)

theorem unknown_packet_typeid_is_payload_witness:
  "parse_bytes plain_libs (decoder_for plain_libs [] []) [0, 0, 0, 15, 0, 0, 0, 7, 9] =
    Inr \<lparr>packet = UnknownPacket 7, raw_bytes = [0, 0, 0, 15, 0, 0, 0, 7, 9]\<rparr>"
  using unknown_packet_typeid_is_payload [of plain_libs "[]" HeartBeatPacketC "[]" "[0, 0, 0, 7, 9]"]
  by (simp add: id_table_ok_def PACKTYPEID_SIZE_BYTES_def nat_of_bytes_be_def bytes_be_4 builtin_classes_def)

end
