(* ===== verification/Motionframe.thy ===== *)
theory Motionframe
  imports PacketCodec
begin

text \<open>
  Motion frames on the wire (\<open>commons/network/udp_motionframe_schema.py\<close>): a datagram is a
  sequence of records packed with \<open>struct.Struct("Hf")\<close>. With native alignment, on the
  little-endian machines the system runs on, a record is the actuator id in 2 bytes, 2 bytes of
  padding and the value as an IEEE single in 4 bytes.

  Python floats are doubles; \<open>float_lib\<close> holds the conversions that \<open>struct\<close> and \<open>array('f')\<close>
  apply: \<open>to_f32\<close> rounds a double to the bits of a single and has none for a finite value out of
  range, \<open>cast_f32\<close> is the conversion on assignment to an \<open>array('f')\<close>, which has a result for
  every value, and \<open>of_f32\<close> widens the bits of a single.
\<close>

record 'f float_lib =
  to_f32 :: "'f \<Rightarrow> 32 word option"
  cast_f32 :: "'f \<Rightarrow> 32 word"
  of_f32 :: "32 word \<Rightarrow> 'f"

datatype struct_error = StructError | FloatTooLarge | BufferTooSmall

section \<open>The packer\<close>

definition packer_size :: nat where
  "packer_size = 8"

definition pack_record :: "'f float_lib \<Rightarrow> int \<Rightarrow> 'f \<Rightarrow> struct_error + bytes" where
  "pack_record fl aid value =
     (if aid < 0 \<or> 0xFFFF < aid then Inl StructError
      else case to_f32 fl value of
        None \<Rightarrow> Inl FloatTooLarge
      | Some w \<Rightarrow> Inr (bytes_le 2 (nat aid) @ [0, 0] @ bytes_le 4 (unat w)))"

definition pack_into :: "'f float_lib \<Rightarrow> bytes \<Rightarrow> nat \<Rightarrow> int \<Rightarrow> 'f \<Rightarrow> struct_error + bytes" where
  "pack_into fl buff offset aid value =
     (if length buff < offset + packer_size then Inl BufferTooSmall
      else res_bind (pack_record fl aid value)
        (\<lambda>r. Inr (take offset buff @ r @ drop (offset + packer_size) buff)))"

definition unpack_from :: "'f float_lib \<Rightarrow> bytes \<Rightarrow> nat \<Rightarrow> struct_error + (int \<times> 'f)" where
  "unpack_from fl data offset =
     (if length data < offset + packer_size then Inl BufferTooSmall
      else Inr (int (nat_of_bytes_le (take 2 (drop offset data))),
        of_f32 fl (word_of_nat (nat_of_bytes_le (take 4 (drop (offset + 4) data))))))"

section \<open>Encoding and decoding\<close>

fun pack_loop :: "'f float_lib \<Rightarrow> (int \<times> 'f) list \<Rightarrow> nat \<Rightarrow> bytes \<Rightarrow> struct_error + bytes" where
  "pack_loop fl [] offset buff = Inr buff"
| "pack_loop fl ((aid, value) # motionframe) offset buff =
     res_bind (pack_into fl buff offset aid value) (pack_loop fl motionframe (offset + packer_size))"

definition encode_motionframe_packet :: "'f float_lib \<Rightarrow> (int \<times> 'f) list \<Rightarrow> struct_error + bytes" where
  "encode_motionframe_packet fl motionframe =
     pack_loop fl motionframe 0 (replicate (length motionframe * packer_size) 0)"

text \<open>\<open>k\<close> iterations of the loop from index \<open>i\<close>; \<open>out\<close> is the preallocated list.\<close>

fun decode_loop ::
    "'f float_lib \<Rightarrow> bytes \<Rightarrow> nat \<Rightarrow> nat \<Rightarrow> nat \<Rightarrow> (int \<times> 'f) list \<Rightarrow> struct_error + (int \<times> 'f) list" where
  "decode_loop fl data 0 i offset out = Inr out"
| "decode_loop fl data (Suc k) i offset out =
     res_bind (unpack_from fl data offset)
       (\<lambda>r. decode_loop fl data k (Suc i) (offset + packer_size) (out[i := r]))"

definition decode_motionframe_packet :: "'f float_lib \<Rightarrow> 'f \<Rightarrow> bytes \<Rightarrow> struct_error + (int \<times> 'f) list" where
  "decode_motionframe_packet fl zero data =
     (let n = length data div packer_size
      in decode_loop fl data n 0 0 (replicate n (-1, zero)))"

text \<open>An \<open>array('H')\<close> holds 16-bit words, an \<open>array('f')\<close> the bits of singles.\<close>

fun decode_arrays_loop ::
    "'f float_lib \<Rightarrow> bytes \<Rightarrow> nat \<Rightarrow> nat \<Rightarrow> nat \<Rightarrow> 16 word list \<Rightarrow> 32 word list
     \<Rightarrow> struct_error + (16 word list \<times> 32 word list)" where
  "decode_arrays_loop fl data 0 i offset ids vals = Inr (ids, vals)"
| "decode_arrays_loop fl data (Suc k) i offset ids vals =
     res_bind (unpack_from fl data offset)
       (\<lambda>(id_val, float_val).
          decode_arrays_loop fl data k (Suc i) (offset + packer_size)
            (ids[i := word_of_int id_val]) (vals[i := cast_f32 fl float_val]))"

definition decode_motionframe_packet_into_arrays ::
    "'f float_lib \<Rightarrow> bytes \<Rightarrow> struct_error + (16 word list \<times> 32 word list)" where
  "decode_motionframe_packet_into_arrays fl data =
     (let n = length data div packer_size
      in decode_arrays_loop fl data n 0 0 (replicate n 0) (replicate n 0))"

section \<open>Records\<close>

text \<open>The record at an index, as the bytes determine it.\<close>

definition record_at :: "bytes \<Rightarrow> nat \<Rightarrow> nat \<times> nat" where
  "record_at data i =
     (nat_of_bytes_le (take 2 (drop (i * packer_size) data)), nat_of_bytes_le (take 4 (drop (i * packer_size + 4) data)))"

lemma unpack_from_ok:
  "Suc i * packer_size \<le> length data \<Longrightarrow>
   unpack_from fl data (i * packer_size) =
     Inr (int (fst (record_at data i)), of_f32 fl (word_of_nat (snd (record_at data i))))"
  by (simp add: unpack_from_def record_at_def add.commute)

lemma record_at_bounds: "fst (record_at data i) < 2 ^ 16" "snd (record_at data i) < 2 ^ 32"
proof -
  have "256 ^ length (take 2 (drop (i * packer_size) data)) \<le> (256 ^ 2 :: nat)" by (intro power_increasing) simp_all
  then show "fst (record_at data i) < 2 ^ 16"
    using nat_of_bytes_le_bound [of "take 2 (drop (i * packer_size) data)"] by (simp add: record_at_def)
  have "256 ^ length (take 4 (drop (i * packer_size + 4) data)) \<le> (256 ^ 4 :: nat)" by (intro power_increasing) simp_all
  then show "snd (record_at data i) < 2 ^ 32"
    using nat_of_bytes_le_bound [of "take 4 (drop (i * packer_size + 4) data)"] by (simp add: record_at_def)
qed

lemma fill_step: "i < length out \<Longrightarrow> take (Suc i) (out[i := r]) = take i out @ [r]"
  by (simp add: take_Suc_conv_app_nth)

lemma decode_loop_eq:
  "(i + k) * packer_size \<le> length data \<Longrightarrow> length out = i + k \<Longrightarrow>
   decode_loop fl data k i (i * packer_size) out =
     Inr (take i out @ map (\<lambda>j. (int (fst (record_at data j)), of_f32 fl (word_of_nat (snd (record_at data j))))) [i..<i + k])"
proof (induction k arbitrary: i out)
  case (Suc k)
  have "Suc i * packer_size \<le> length data" using Suc.prems by (intro order_trans [OF mult_le_mono1 Suc.prems(1)]) simp
  then have "unpack_from fl data (i * packer_size) =
      Inr (int (fst (record_at data i)), of_f32 fl (word_of_nat (snd (record_at data i))))"
    by (rule unpack_from_ok)
  then show ?case
    using Suc.IH [of "Suc i" "out[i := (int (fst (record_at data i)), of_f32 fl (word_of_nat (snd (record_at data i))))]"]
      Suc.prems by (simp add: upt_conv_Cons fill_step add.commute del: upt_Suc)
qed simp

lemma decode_arrays_loop_eq:
  "(i + k) * packer_size \<le> length data \<Longrightarrow> length ids = i + k \<Longrightarrow> length vals = i + k \<Longrightarrow>
   decode_arrays_loop fl data k i (i * packer_size) ids vals =
     Inr (take i ids @ map (\<lambda>j. word_of_nat (fst (record_at data j))) [i..<i + k],
          take i vals @ map (\<lambda>j. cast_f32 fl (of_f32 fl (word_of_nat (snd (record_at data j))))) [i..<i + k])"
proof (induction k arbitrary: i ids vals)
  case (Suc k)
  have "Suc i * packer_size \<le> length data" using Suc.prems by (intro order_trans [OF mult_le_mono1 Suc.prems(1)]) simp
  then have "unpack_from fl data (i * packer_size) =
      Inr (int (fst (record_at data i)), of_f32 fl (word_of_nat (snd (record_at data i))))"
    by (rule unpack_from_ok)
  then show ?case
    using Suc.IH [of "Suc i" "ids[i := word_of_nat (fst (record_at data i))]" "vals[i := cast_f32 fl (of_f32 fl (word_of_nat (snd (record_at data i))))]"]
      Suc.prems by (simp add: upt_conv_Cons fill_step add.commute del: upt_Suc)
qed simp

lemma decode_eq:
  "decode_motionframe_packet fl zero data =
     Inr (map (\<lambda>j. (int (fst (record_at data j)), of_f32 fl (word_of_nat (snd (record_at data j))))) [0..<length data div packer_size])"
  using decode_loop_eq [of 0 "length data div packer_size" data "replicate (length data div packer_size) (-1, zero)" fl]
  by (simp add: decode_motionframe_packet_def Let_def)

lemma decode_arrays_eq:
  "decode_motionframe_packet_into_arrays fl data =
     Inr (map (\<lambda>j. word_of_nat (fst (record_at data j))) [0..<length data div packer_size],
          map (\<lambda>j. cast_f32 fl (of_f32 fl (word_of_nat (snd (record_at data j))))) [0..<length data div packer_size])"
  using decode_arrays_loop_eq [of 0 "length data div packer_size" data "replicate (length data div packer_size) 0"
      "replicate (length data div packer_size) 0" fl]
  by (simp add: decode_motionframe_packet_into_arrays_def Let_def)

section \<open>Frames laid out\<close>

definition packable :: "'f float_lib \<Rightarrow> int \<times> 'f \<Rightarrow> bool" where
  "packable fl r \<longleftrightarrow> 0 \<le> fst r \<and> fst r \<le> 0xFFFF \<and> to_f32 fl (snd r) \<noteq> None"

definition record_bytes :: "'f float_lib \<Rightarrow> int \<times> 'f \<Rightarrow> bytes" where
  "record_bytes fl r = bytes_le 2 (nat (fst r)) @ [0, 0] @ bytes_le 4 (unat (the (to_f32 fl (snd r))))"

lemma length_record_bytes [simp]: "length (record_bytes fl r) = packer_size"
  by (simp add: record_bytes_def packer_size_def)

lemma pack_record_cases:
  "(if packable fl (i, v) then pack_record fl i v = Inr (record_bytes fl (i, v)) else \<exists>e. pack_record fl i v = Inl e)"
  by (auto simp: packable_def pack_record_def record_bytes_def)

lemma pack_loop_eq:
  "pack_loop fl mf (length pre) (pre @ replicate (length mf * packer_size) 0) = Inr b \<longleftrightarrow>
     list_all (packable fl) mf \<and> b = pre @ concat (map (record_bytes fl) mf)"
proof (induction mf arbitrary: pre)
  case (Cons r mf)
  obtain i v where r: "r = (i, v)" by (cases r)
  show ?case
  proof (cases "packable fl (i, v)")
    case True
    then have "pack_into fl (pre @ replicate (length (r # mf) * packer_size) 0) (length pre) i v =
        Inr ((pre @ record_bytes fl r) @ replicate (length mf * packer_size) 0)"
      using pack_record_cases [of fl i v] by (simp add: r pack_into_def)
    then show ?thesis using Cons.IH [of "pre @ record_bytes fl r"] True by (simp add: r del: replicate_add)
  next
    case False
    then show ?thesis using pack_record_cases [of fl i v] by (auto simp: r pack_into_def)
  qed
qed auto

lemma encode_eq:
  "encode_motionframe_packet fl mf = Inr b \<longleftrightarrow> list_all (packable fl) mf \<and> b = concat (map (record_bytes fl) mf)"
  using pack_loop_eq [of fl mf "[]" b] by (simp add: encode_motionframe_packet_def)

lemma drop_records:
  "j \<le> length mf \<Longrightarrow>
   drop (j * packer_size) (concat (map (record_bytes fl) mf) @ tail) = concat (map (record_bytes fl) (drop j mf)) @ tail"
proof (induction mf arbitrary: j)
  case (Cons r mf)
  then show ?case by (cases j) (simp_all add: packer_size_def)
qed simp

lemma record_at_concat:
  assumes "list_all (packable fl) mf" "j < length mf"
  shows "record_at (concat (map (record_bytes fl) mf) @ tail) j =
    (nat (fst (mf ! j)), unat (the (to_f32 fl (snd (mf ! j)))))"
proof -
  let ?data = "concat (map (record_bytes fl) mf) @ tail" and ?r = "mf ! j"
  have d: "drop (j * packer_size) ?data = record_bytes fl ?r @ concat (map (record_bytes fl) (drop (Suc j) mf)) @ tail"
    using assms(2) by (simp only: drop_records less_imp_le) (simp add: Cons_nth_drop_Suc [symmetric])
  have d4: "drop (j * packer_size + 4) ?data = drop 4 (drop (j * packer_size) ?data)" by (simp only: drop_drop add.commute)
  have "packable fl ?r" using assms by (simp add: list_all_length)
  then have i: "nat (fst ?r) < 256 ^ 2" by (auto simp: packable_def)
  have v: "unat (the (to_f32 fl (snd ?r))) < 256 ^ 4"
    using unsigned_less [of "the (to_f32 fl (snd ?r))"] by simp
  show ?thesis unfolding record_at_def d4 unfolding d
    using i v by (simp add: record_bytes_def nat_of_bytes_le_inverse)
qed

definition stable_single :: "'f float_lib \<Rightarrow> 32 word \<Rightarrow> bool" where
  "stable_single fl w \<longleftrightarrow> cast_f32 fl (of_f32 fl w) = w"

definition wire_values :: "bytes \<Rightarrow> 32 word list" where
  "wire_values data = map (\<lambda>j. word_of_nat (snd (record_at data j))) [0..<length data div packer_size]"

lemma roundtrip_records:
  assumes "encode_motionframe_packet fl motionframe = Inr data" and "length garbage < packer_size"
  shows "length data = 8 * length motionframe
    \<and> decode_motionframe_packet fl zero (data @ garbage) =
        Inr (map (\<lambda>(i, v). (i, of_f32 fl (the (to_f32 fl v)))) motionframe)"
proof -
  from assms(1) have ok: "list_all (packable fl) motionframe" and data: "data = concat (map (record_bytes fl) motionframe)"
    by (simp_all add: encode_eq)
  have len: "length data = length motionframe * packer_size"
    unfolding data by (induction motionframe) (simp_all add: packer_size_def)
  have n: "length (data @ garbage) div packer_size = length motionframe"
    using assms(2) by (simp add: len)
  have "map (\<lambda>j. (int (fst (record_at (data @ garbage) j)), of_f32 fl (word_of_nat (snd (record_at (data @ garbage) j)))))
      [0..<length motionframe] = map (\<lambda>(i, v). (i, of_f32 fl (the (to_f32 fl v)))) motionframe"
    using ok by (intro nth_equalityI) (auto simp: data record_at_concat list_all_length packable_def split_beta)
  then show ?thesis using len by (simp only: decode_eq n) (simp add: packer_size_def)
qed

lemma arrays_agree:
  assumes "list_all (stable_single fl) (wire_values data)"
  shows "case decode_motionframe_packet_into_arrays fl data of
      Inl e \<Rightarrow> False
    | Inr (ids, vals) \<Rightarrow> decode_motionframe_packet fl zero data = Inr (zip (map uint ids) (map (of_f32 fl) vals))"
proof -
  have c: "cast_f32 fl (of_f32 fl (word_of_nat (snd (record_at data j)))) = word_of_nat (snd (record_at data j))"
    if "j < length data div packer_size" for j
    using assms that by (simp add: wire_values_def stable_single_def list_all_iff)
  have u: "uint (word_of_nat (fst (record_at data j)) :: 16 word) = int (fst (record_at data j))" for j
    using record_at_bounds(1) [of data j] by (simp add: unsigned_of_nat take_bit_eq_mod)
  show ?thesis by (auto simp: decode_arrays_eq decode_eq c u intro!: nth_equalityI)
qed

section \<open>Properties\<close>

text \<open>
  C22. A motion frame survives the wire: when the sender can encode it, the datagram has eight bytes
  per record, and the receiver's list has the same actuator ids in the same order, with each value
  rounded to single precision, also when the datagram carries up to seven bytes of trailing garbage.
\<close>

theorem motionframe_roundtrip:
  assumes "encode_motionframe_packet fl motionframe = Inr data" and "length garbage < packer_size"
  shows "length data = 8 * length motionframe
    \<and> decode_motionframe_packet fl zero (data @ garbage) =
        Inr (map (\<lambda>(i, v). (i, of_f32 fl (the (to_f32 fl v)))) motionframe)"
  by (rule roundtrip_records [OF assms])

lemma bytes_le_2: "bytes_le 2 n = [word_of_nat (n mod 256), word_of_nat (n div 256 mod 256)]"
  by (simp add: numeral_2_eq_2)

lemma bytes_le_4: "bytes_le 4 n = bytes_le 2 n @ bytes_le 2 (n div 256 div 256)"
proof -
  have "(4 :: nat) = Suc (Suc 2)" by simp
  then show ?thesis by (simp only: bytes_le.simps) (simp add: bytes_le_2)
qed

text \<open>A float library whose doubles are the single patterns themselves.\<close>

definition bits_lib :: "(32 word) float_lib" where
  "bits_lib = \<lparr>to_f32 = Some, cast_f32 = (\<lambda>w. w), of_f32 = (\<lambda>w. w)\<rparr>"

theorem motionframe_roundtrip_witness:
  "encode_motionframe_packet bits_lib [(258, 5)] = Inr [2, 1, 0, 0, 5, 0, 0, 0]
   \<and> decode_motionframe_packet bits_lib 0 [2, 1, 0, 0, 5, 0, 0, 0, 77] = Inr [(258, 5)]"
proof -
  have "encode_motionframe_packet bits_lib [(258, 5)] = Inr [2, 1, 0, 0, 5, 0, 0, 0]"
    by (simp add: encode_eq packable_def record_bytes_def bits_lib_def bytes_le_2 bytes_le_4)
  from this motionframe_roundtrip [OF this, of "[77]" 0] show ?thesis by (simp add: packer_size_def bits_lib_def)
qed

text \<open>
  C23. The array decoder used on the streaming path agrees with the list decoder: both accept every
  datagram, the id array holds the list's ids, and the value array the list's values, whenever the
  values survive being widened and stored again as singles (all but signalling NaNs do).
\<close>

theorem array_decoder_agrees:
  assumes "list_all (stable_single fl) (wire_values data)"
  shows "case decode_motionframe_packet_into_arrays fl data of
      Inl e \<Rightarrow> False
    | Inr (ids, vals) \<Rightarrow> decode_motionframe_packet fl zero data = Inr (zip (map uint ids) (map (of_f32 fl) vals))"
  by (rule arrays_agree [OF assms])

theorem array_decoder_agrees_witness:
  "decode_motionframe_packet bits_lib 0 [2, 1, 0, 0, 5, 0, 0, 0, 77] = Inr [(258, 5)]
   \<and> decode_motionframe_packet_into_arrays bits_lib [2, 1, 0, 0, 5, 0, 0, 0, 77] = Inr ([258], [5])"
proof -
  have r: "record_at [2, 1, 0, 0, 5, 0, 0, 0, 77] 0 = (258, 5)" by (simp add: record_at_def)
  then have "decode_motionframe_packet_into_arrays bits_lib [2, 1, 0, 0, 5, 0, 0, 0, 77] = Inr ([258], [5])"
    by (simp add: decode_arrays_eq packer_size_def bits_lib_def)
  then show ?thesis
    using array_decoder_agrees [of bits_lib "[2, 1, 0, 0, 5, 0, 0, 0, 77]" 0]
    by (simp add: stable_single_def list_all_iff) (simp add: bits_lib_def)
qed

end
