(* ===== verification/McuDrivers.thy ===== *)
theory McuDrivers
  imports Prelude Complex_Main
begin

text \<open>
  The microcontroller drivers (\<open>libs/mcuDrivers\<close>): the numeric helpers (\<open>utils.py\<close>), the head driver
  (\<open>head_driver.py\<close>), the body driver (\<open>body_driver.py\<close>) and the mock driver (\<open>mock_driver.py\<close>).

  A Python float is a real, an infinity or NaN, and \<open>rnd\<close> is the rounding of the arithmetic, of which
  \<open>rounding rnd\<close> is what the proofs use. The serial device is a third-party package: what its calls
  gave are arguments, and what was sent over it is a log. Code under the lock is one step; the head
  driver's flush is cut before it takes the lock and where it releases it, and the last sections run
  these three parts interleaved with writes.
\<close>

section \<open>Python floats\<close>

datatype pyfloat = Fin real | PosInf | NegInf | NaN

definition rounding :: "(real \<Rightarrow> real) \<Rightarrow> bool" where
  "rounding rnd \<longleftrightarrow> mono rnd \<and> (\<forall>n :: int. \<bar>n\<bar> \<le> 4096 \<longrightarrow> rnd (of_int n) = of_int n)"

datatype mcu_error = ValueError | OverflowError | StructError | InvalidAxis | NotImplementedError | DeviceError

text \<open>Comparison; it is false as soon as one side is NaN.\<close>

definition flt :: "pyfloat \<Rightarrow> pyfloat \<Rightarrow> bool" where
  "flt x y =
     (case x of
        NaN \<Rightarrow> False
      | PosInf \<Rightarrow> False
      | NegInf \<Rightarrow> y \<noteq> NegInf \<and> y \<noteq> NaN
      | Fin a \<Rightarrow> (case y of Fin b \<Rightarrow> a < b | PosInf \<Rightarrow> True | NegInf \<Rightarrow> False | NaN \<Rightarrow> False))"

fun fneg :: "pyfloat \<Rightarrow> pyfloat" where
  "fneg (Fin a) = Fin (- a)"
| "fneg PosInf = NegInf"
| "fneg NegInf = PosInf"
| "fneg NaN = NaN"

definition fadd :: "(real \<Rightarrow> real) \<Rightarrow> pyfloat \<Rightarrow> pyfloat \<Rightarrow> pyfloat" where
  "fadd rnd x y =
     (case (x, y) of
        (Fin a, Fin b) \<Rightarrow> Fin (rnd (a + b))
      | (NaN, _) \<Rightarrow> NaN
      | (_, NaN) \<Rightarrow> NaN
      | (Fin a, _) \<Rightarrow> y
      | (_, Fin b) \<Rightarrow> x
      | _ \<Rightarrow> if x = y then x else NaN)"

definition fsub :: "(real \<Rightarrow> real) \<Rightarrow> pyfloat \<Rightarrow> pyfloat \<Rightarrow> pyfloat" where
  "fsub rnd x y = fadd rnd x (fneg y)"

definition fmul :: "(real \<Rightarrow> real) \<Rightarrow> pyfloat \<Rightarrow> pyfloat \<Rightarrow> pyfloat" where
  "fmul rnd x y =
     (case (x, y) of
        (Fin a, Fin b) \<Rightarrow> Fin (rnd (a * b))
      | (NaN, _) \<Rightarrow> NaN
      | (_, NaN) \<Rightarrow> NaN
      | (Fin a, _) \<Rightarrow> if a = 0 then NaN else if a > 0 then y else fneg y
      | (_, Fin b) \<Rightarrow> if b = 0 then NaN else if b > 0 then x else fneg x
      | _ \<Rightarrow> if x = y then PosInf else NegInf)"

text \<open>\<open>int(x)\<close> rounds towards zero and raises on what is not a number.\<close>

definition trunc :: "real \<Rightarrow> int" where
  "trunc a = (if 0 \<le> a then \<lfloor>a\<rfloor> else \<lceil>a\<rceil>)"

fun to_int :: "pyfloat \<Rightarrow> mcu_error + int" where
  "to_int (Fin a) = Inr (trunc a)"
| "to_int NaN = Inl ValueError"
| "to_int _ = Inl OverflowError"

text \<open>Python's \<open>max\<close> and \<open>min\<close> of two floats keep the first argument unless the second is beyond it.\<close>

definition py_max :: "pyfloat \<Rightarrow> pyfloat \<Rightarrow> pyfloat" where "py_max x y = (if flt x y then y else x)"
definition py_min :: "pyfloat \<Rightarrow> pyfloat \<Rightarrow> pyfloat" where "py_min x y = (if flt y x then y else x)"

section \<open>Helpers (utils.py)\<close>

definition tobyte :: "int \<Rightarrow> int" where
  "tobyte x = min (max x 0) 255"

definition remap :: "(real \<Rightarrow> real) \<Rightarrow> pyfloat \<Rightarrow> int \<Rightarrow> pyfloat" where
  "remap rnd x to_max = fmul rnd (py_min (py_max x (Fin 0)) (Fin 1)) (Fin (of_int to_max))"

definition clamp :: "pyfloat \<Rightarrow> real \<Rightarrow> real \<Rightarrow> pyfloat" where
  "clamp x lo hi = (if flt x (Fin lo) then Fin lo else if flt (Fin hi) x then Fin hi else x)"

definition topwm8 :: "pyfloat \<Rightarrow> mcu_error + int" where
  "topwm8 x = res_bind (to_int x) (\<lambda>n. Inr (min (max (n * 255) 0) 1))"

definition topwm12 :: "pyfloat \<Rightarrow> mcu_error + int" where
  "topwm12 x = res_bind (to_int x) (\<lambda>n. Inr (min (max (n * 4095) 0) 1))"

definition nrm :: "(real \<Rightarrow> real) \<Rightarrow> pyfloat \<Rightarrow> pyfloat" where
  "nrm rnd x = fmul rnd (fadd rnd x (Fin 1)) (Fin (1 / 2))"

definition to_uint8 :: "pyfloat \<Rightarrow> mcu_error + bytes" where
  "to_uint8 n = res_bind (to_int n) (\<lambda>i. if 0 \<le> i \<and> i < 256 then Inr (bytes_le 1 (nat i)) else Inl OverflowError)"

definition to_int8 :: "pyfloat \<Rightarrow> mcu_error + bytes" where
  "to_int8 n = res_bind (to_int n) (\<lambda>i. if - 128 \<le> i \<and> i < 128 then Inr (bytes_le 1 (nat (i mod 256))) else Inl OverflowError)"

definition to_int16 :: "pyfloat \<Rightarrow> mcu_error + bytes" where
  "to_int16 n =
     res_bind (to_int n) (\<lambda>i. if - 32768 \<le> i \<and> i < 32768 then Inr (bytes_le 2 (nat (i mod 65536))) else Inl OverflowError)"

definition to_uint16 :: "pyfloat \<Rightarrow> mcu_error + bytes" where
  "to_uint16 n = res_bind (to_int n) (\<lambda>i. if 0 \<le> i \<and> i < 65536 then Inr (bytes_le 2 (nat i)) else Inl OverflowError)"

section \<open>Packed structures\<close>

text \<open>The struct codes \<open>B\<close> and \<open>h\<close> in little-endian order.\<close>

datatype field = FB | Fh

fun field_size :: "field \<Rightarrow> nat" where
  "field_size FB = 1"
| "field_size Fh = 2"

fun in_field :: "field \<Rightarrow> int \<Rightarrow> bool" where
  "in_field FB n \<longleftrightarrow> 0 \<le> n \<and> n \<le> 255"
| "in_field Fh n \<longleftrightarrow> - 32768 \<le> n \<and> n \<le> 32767"

definition pack_field :: "field \<Rightarrow> int \<Rightarrow> bytes" where
  "pack_field f n = bytes_le (field_size f) (nat (n mod 256 ^ field_size f))"

fun unpack_field :: "field \<Rightarrow> bytes \<Rightarrow> int" where
  "unpack_field FB bs = int (nat_of_bytes_le bs)"
| "unpack_field Fh bs = (let n = int (nat_of_bytes_le bs) in if n < 32768 then n else n - 65536)"

fun pack_fields :: "(field \<times> int) list \<Rightarrow> mcu_error option \<times> bytes" where
  "pack_fields [] = (None, [])"
| "pack_fields ((f, n) # fs) =
     (if \<not> in_field f n then (Some StructError, [])
      else (let (err, bs) = pack_fields fs in (err, pack_field f n @ bs)))"

fun unpack_fields :: "field list \<Rightarrow> bytes \<Rightarrow> int list" where
  "unpack_fields [] bs = []"
| "unpack_fields (f # fs) bs = unpack_field f (take (field_size f) bs) # unpack_fields fs (drop (field_size f) bs)"

text \<open>\<open>pack_into\<close> clears the buffer and then writes field by field until one does not fit.\<close>

definition struct_pack_into :: "nat \<Rightarrow> (field \<times> int) list \<Rightarrow> mcu_error option \<times> bytes" where
  "struct_pack_into len fs = (let (err, bs) = pack_fields fs in (err, bs @ replicate (len - length bs) 0))"

section \<open>The head driver (head\_driver.py)\<close>

definition PACK_ID_MOTION :: nat where "PACK_ID_MOTION = 0x10"
definition PACK_ID_LEDS :: nat where "PACK_ID_LEDS = 0x09"
definition PACK_ID_CONTROL :: nat where "PACK_ID_CONTROL = 0x07"

definition PSP_INIT_HARDWARE :: bytes where "PSP_INIT_HARDWARE = [1]"
definition PSP_DEINIT :: bytes where "PSP_DEINIT = [2]"
definition PSP_BEGIN_ALL :: bytes where "PSP_BEGIN_ALL = [4]"

datatype Axis =
    LED_R | LED_G | LED_B | LED_L1 | LED_L2
  | MOUTH | EAR_L | EAR_R | NECK_PITCH | NECK_TILT
  | EYES_PITCH | EYE_L | EYE_R | LID_L | LID_R | EYES_OPEN

datatype WriteOutcome = WriteOK | WriteERROR | UNKNOWN_AXIS

definition LED_AXIS :: "Axis set" where
  "LED_AXIS = {LED_R, LED_G, LED_B, LED_L1, LED_L2}"

definition DEVICE_NAME :: string where "DEVICE_NAME = ''TEODORE:api-v0a:HEAD''"
definition SEMI_IPDmm :: real where "SEMI_IPDmm = 75"

record HeadMcuDriver =
  head_open :: bool
  head_sent :: "(nat \<times> bytes) list"
  motionpack_buffer :: bytes
  ledspack_buffer :: bytes
  mp_dirty :: bool
  leds_dirty :: bool
  head_initialized :: bool
  led_r :: int
  led_g :: int
  led_b :: int
  led_l1 :: int
  led_l2 :: int
  mouth :: pyfloat
  ear_left :: pyfloat
  ear_right :: pyfloat
  neck_tilt :: pyfloat
  neck_pitch :: pyfloat
  eye_left :: pyfloat
  eye_right :: pyfloat
  eyes_pitch :: pyfloat
  lid_left_wideness :: pyfloat
  lid_right_wideness :: pyfloat
  eyes_open :: pyfloat

definition HeadMcuDriver_init :: HeadMcuDriver where
  "HeadMcuDriver_init =
     \<lparr>head_open = False, head_sent = [], motionpack_buffer = replicate 15 0, ledspack_buffer = replicate 10 0,
      mp_dirty = False, leds_dirty = False, head_initialized = False,
      led_r = 0, led_g = 0, led_b = 0, led_l1 = 0, led_l2 = 0,
      mouth = Fin 1, ear_left = Fin 0, ear_right = Fin 0, neck_tilt = Fin 0, neck_pitch = Fin 0,
      eye_left = Fin 0, eye_right = Fin 0, eyes_pitch = Fin 0,
      lid_left_wideness = Fin 20, lid_right_wideness = Fin 20, eyes_open = Fin 1\<rparr>"

subsection \<open>Writing an axis\<close>

definition mark_dirty :: "Axis \<Rightarrow> HeadMcuDriver \<Rightarrow> HeadMcuDriver" where
  "mark_dirty axis d =
     (let was_led_updt = axis \<in> LED_AXIS
      in d\<lparr>leds_dirty := leds_dirty d \<or> was_led_updt, mp_dirty := mp_dirty d \<or> \<not> was_led_updt\<rparr>)"

definition py_bool :: "pyfloat \<Rightarrow> bool" where
  "py_bool x \<longleftrightarrow> x \<noteq> Fin 0"

fun set_axis :: "(real \<Rightarrow> real) \<Rightarrow> Axis \<Rightarrow> pyfloat \<Rightarrow> HeadMcuDriver \<Rightarrow> mcu_error + HeadMcuDriver" where
  "set_axis rnd LED_R v d = res_bind (topwm12 v) (\<lambda>n. Inr (d\<lparr>led_r := n\<rparr>))"
| "set_axis rnd LED_G v d = res_bind (topwm12 v) (\<lambda>n. Inr (d\<lparr>led_g := n\<rparr>))"
| "set_axis rnd LED_B v d = res_bind (topwm12 v) (\<lambda>n. Inr (d\<lparr>led_b := n\<rparr>))"
| "set_axis rnd LED_L1 v d = res_bind (topwm8 v) (\<lambda>n. Inr (d\<lparr>led_l1 := n\<rparr>))"
| "set_axis rnd LED_L2 v d = res_bind (topwm8 v) (\<lambda>n. Inr (d\<lparr>led_l2 := n\<rparr>))"
| "set_axis rnd MOUTH v d = Inr (d\<lparr>mouth := clamp v 0 1\<rparr>)"
| "set_axis rnd EAR_L v d = Inr (d\<lparr>ear_left := clamp v (-1) 1\<rparr>)"
| "set_axis rnd EAR_R v d = Inr (d\<lparr>ear_right := clamp v (-1) 1\<rparr>)"
| "set_axis rnd NECK_TILT v d = Inr (d\<lparr>neck_tilt := clamp v (-1) 1\<rparr>)"
| "set_axis rnd NECK_PITCH v d = Inr (d\<lparr>neck_pitch := clamp v (-1) 1\<rparr>)"
| "set_axis rnd EYE_L v d = Inr (d\<lparr>eye_left := clamp v (-60) 60\<rparr>)"
| "set_axis rnd EYE_R v d = Inr (d\<lparr>eye_right := clamp v (-60) 60\<rparr>)"
| "set_axis rnd EYES_PITCH v d = Inr (d\<lparr>eyes_pitch := clamp v (-30) 30\<rparr>)"
| "set_axis rnd LID_L v d = Inr (d\<lparr>lid_left_wideness := clamp (fmul rnd v (Fin (1 / 2))) 0 60\<rparr>)"
| "set_axis rnd LID_R v d = Inr (d\<lparr>lid_right_wideness := clamp (fmul rnd v (Fin (1 / 2))) 0 60\<rparr>)"
| "set_axis rnd EYES_OPEN v d = Inr (d\<lparr>eyes_open := Fin (of_bool (py_bool v))\<rparr>)"

text \<open>An argument that is not a member of \<open>Axis\<close> is \<open>None\<close> here.\<close>

definition write_axis :: "(real \<Rightarrow> real) \<Rightarrow> Axis option \<Rightarrow> pyfloat \<Rightarrow> HeadMcuDriver \<Rightarrow> mcu_error + HeadMcuDriver" where
  "write_axis rnd axis v d =
     (case axis of
        None \<Rightarrow> Inl InvalidAxis
      | Some a \<Rightarrow> res_bind (set_axis rnd a v d) (\<lambda>d. Inr (mark_dirty a d)))"

definition head_write :: "(real \<Rightarrow> real) \<Rightarrow> Axis option \<Rightarrow> pyfloat \<Rightarrow> HeadMcuDriver \<Rightarrow> WriteOutcome \<times> HeadMcuDriver" where
  "head_write rnd axis v d =
     (case write_axis rnd axis v d of
        Inr d' \<Rightarrow> (WriteOK, d')
      | Inl InvalidAxis \<Rightarrow> (UNKNOWN_AXIS, d)
      | Inl _ \<Rightarrow> (WriteERROR, d))"

text \<open>A sequence of writes whose outcomes are ignored, as in the semantic helpers.\<close>

definition writes :: "(real \<Rightarrow> real) \<Rightarrow> (Axis \<times> pyfloat) list \<Rightarrow> HeadMcuDriver \<Rightarrow> HeadMcuDriver" where
  "writes rnd ps d = foldl (\<lambda>d (a, v). snd (head_write rnd (Some a) v d)) d ps"

definition set_neck_rotation :: "(real \<Rightarrow> real) \<Rightarrow> pyfloat \<Rightarrow> pyfloat \<Rightarrow> HeadMcuDriver \<Rightarrow> HeadMcuDriver" where
  "set_neck_rotation rnd tilt pitch = writes rnd [(NECK_TILT, tilt), (NECK_PITCH, pitch)]"

definition set_eyes :: "(real \<Rightarrow> real) \<Rightarrow> pyfloat \<Rightarrow> pyfloat \<Rightarrow> pyfloat \<Rightarrow> HeadMcuDriver \<Rightarrow> HeadMcuDriver" where
  "set_eyes rnd pitch yaw_left yaw_right = writes rnd [(EYES_PITCH, pitch), (EYE_L, yaw_left), (EYE_R, yaw_right)]"

definition set_eyelids :: "(real \<Rightarrow> real) \<Rightarrow> pyfloat \<Rightarrow> pyfloat \<Rightarrow> HeadMcuDriver \<Rightarrow> HeadMcuDriver" where
  "set_eyelids rnd left right = writes rnd [(LID_L, left), (LID_R, right)]"

definition set_mouth :: "(real \<Rightarrow> real) \<Rightarrow> pyfloat \<Rightarrow> HeadMcuDriver \<Rightarrow> HeadMcuDriver" where
  "set_mouth rnd v = writes rnd [(MOUTH, v)]"

definition set_left_ear :: "(real \<Rightarrow> real) \<Rightarrow> pyfloat \<Rightarrow> HeadMcuDriver \<Rightarrow> HeadMcuDriver" where
  "set_left_ear rnd v = writes rnd [(EAR_L, v)]"

definition set_right_ear :: "(real \<Rightarrow> real) \<Rightarrow> pyfloat \<Rightarrow> HeadMcuDriver \<Rightarrow> HeadMcuDriver" where
  "set_right_ear rnd v = writes rnd [(EAR_R, v)]"

definition set_lid_left :: "(real \<Rightarrow> real) \<Rightarrow> pyfloat \<Rightarrow> HeadMcuDriver \<Rightarrow> HeadMcuDriver" where
  "set_lid_left rnd v = writes rnd [(LID_L, v)]"

definition set_lid_right :: "(real \<Rightarrow> real) \<Rightarrow> pyfloat \<Rightarrow> HeadMcuDriver \<Rightarrow> HeadMcuDriver" where
  "set_lid_right rnd v = writes rnd [(LID_R, v)]"

definition set_eyes_closed :: "(real \<Rightarrow> real) \<Rightarrow> bool \<Rightarrow> HeadMcuDriver \<Rightarrow> HeadMcuDriver" where
  "set_eyes_closed rnd shut = writes rnd [(EYES_OPEN, Fin (of_bool (\<not> shut)))]"

definition set_rgb :: "(real \<Rightarrow> real) \<Rightarrow> pyfloat \<Rightarrow> pyfloat \<Rightarrow> pyfloat \<Rightarrow> HeadMcuDriver \<Rightarrow> HeadMcuDriver" where
  "set_rgb rnd r g b = writes rnd [(LED_R, r), (LED_G, g), (LED_B, b)]"

definition set_iris_leds :: "(real \<Rightarrow> real) \<Rightarrow> pyfloat \<Rightarrow> pyfloat \<Rightarrow> HeadMcuDriver \<Rightarrow> HeadMcuDriver" where
  "set_iris_leds rnd l1 l2 = writes rnd [(LED_L1, l1), (LED_L2, l2)]"

definition set_eyes_h :: "pyfloat \<Rightarrow> pyfloat \<Rightarrow> HeadMcuDriver \<Rightarrow> mcu_error + HeadMcuDriver" where
  "set_eyes_h focus angle d = Inl NotImplementedError"

text \<open>The functions of the module \<open>math\<close> that \<open>lookat\<close> uses; sine and cosine raise on infinities.\<close>

record math =
  msin :: "pyfloat \<Rightarrow> mcu_error + pyfloat"
  mcos :: "pyfloat \<Rightarrow> mcu_error + pyfloat"
  matan2 :: "pyfloat \<Rightarrow> pyfloat \<Rightarrow> pyfloat"
  mdegrees :: "pyfloat \<Rightarrow> pyfloat"
  mradians :: "pyfloat \<Rightarrow> pyfloat"

definition lookat ::
    "(real \<Rightarrow> real) \<Rightarrow> math \<Rightarrow> pyfloat \<Rightarrow> pyfloat \<Rightarrow> pyfloat \<Rightarrow> pyfloat \<Rightarrow> HeadMcuDriver \<Rightarrow> mcu_error + HeadMcuDriver" where
  "lookat rnd m elevation_ang lateral_ang r semi d =
     (let semi = (if flt semi (Fin 0) \<or> semi = Fin 0 then Fin SEMI_IPDmm else semi);
          DEG = mradians m (Fin 1);
          R = fmul rnd (Fin 10) r
      in res_bind (msin m (fmul rnd lateral_ang DEG)) (\<lambda>s.
         res_bind (mcos m (fmul rnd lateral_ang DEG)) (\<lambda>c.
           (let yaw_left = mdegrees m (matan2 m (fsub rnd (fmul rnd R s) semi) (fmul rnd R c));
                yaw_right = mdegrees m (matan2 m (fadd rnd (fmul rnd R s) semi) (fmul rnd R c))
            in Inr (set_eyes rnd elevation_ang yaw_left yaw_right d)))))"

subsection \<open>Flushing\<close>

text \<open>A call of \<open>send_object\<close>: it returns true or false, or raises.\<close>

datatype send_result = Sent | NotSent | SendRaises

definition neck_left_mot :: "(real \<Rightarrow> real) \<Rightarrow> HeadMcuDriver \<Rightarrow> mcu_error + int" where
  "neck_left_mot rnd d =
     to_int (fadd rnd (fsub rnd (Fin 150) (fmul rnd (neck_tilt d) (Fin 35))) (fmul rnd (neck_pitch d) (Fin 50)))"

definition neck_right_mot :: "(real \<Rightarrow> real) \<Rightarrow> HeadMcuDriver \<Rightarrow> mcu_error + int" where
  "neck_right_mot rnd d =
     to_int (fadd rnd (fadd rnd (Fin 270) (fmul rnd (neck_tilt d) (Fin 35))) (fmul rnd (neck_pitch d) (Fin 50)))"

text \<open>The arguments of the motion packer, in order.\<close>

definition motion_args :: "(real \<Rightarrow> real) \<Rightarrow> int \<Rightarrow> int \<Rightarrow> HeadMcuDriver \<Rightarrow> mcu_error + int list" where
  "motion_args rnd nl nr d =
     res_bind (to_int (fmul rnd (mouth d) (Fin 255))) (\<lambda>m.
     res_bind (to_int (fmul rnd (ear_left d) (Fin 127))) (\<lambda>el.
     res_bind (to_int (fmul rnd (ear_right d) (Fin 127))) (\<lambda>er.
     res_bind (to_int (fmul rnd (lid_left_wideness d) (eyes_open d))) (\<lambda>ll.
     res_bind (to_int (fmul rnd (lid_right_wideness d) (eyes_open d))) (\<lambda>lr.
     res_bind (to_int (eye_left d)) (\<lambda>yl.
     res_bind (to_int (eye_right d)) (\<lambda>yr.
     res_bind (to_int (eyes_pitch d)) (\<lambda>p.
       Inr [m, el, er, ll, lr, yl, yr, p, nl, nr]))))))))"

definition mp_format :: "field list" where
  "mp_format = [FB, FB, FB, FB, FB, Fh, Fh, Fh, Fh, Fh]"

definition leds_format :: "field list" where
  "leds_format = [Fh, Fh, Fh, Fh, Fh]"

definition led_args :: "HeadMcuDriver \<Rightarrow> int list" where
  "led_args d = [led_r d, led_g d, led_b d, led_l1 d, led_l2 d]"

datatype flush_phase = NothingPending | PackRaised mcu_error | PackFailed | Packed

text \<open>Before the lock: nothing is pending, or the neck motors are computed.\<close>

definition flush_neck :: "(real \<Rightarrow> real) \<Rightarrow> HeadMcuDriver \<Rightarrow> (mcu_error + int \<times> int) option" where
  "flush_neck rnd d =
     (if \<not> mp_dirty d \<and> \<not> leds_dirty d then None
      else Some (res_bind (neck_left_mot rnd d) (\<lambda>nl. res_bind (neck_right_mot rnd d) (\<lambda>nr. Inr (nl, nr)))))"

text \<open>Under the lock: the packets are built. Only a \<open>struct.error\<close> is caught there.\<close>

definition flush_locked :: "(real \<Rightarrow> real) \<Rightarrow> int \<Rightarrow> int \<Rightarrow> HeadMcuDriver \<Rightarrow> flush_phase \<times> HeadMcuDriver" where
  "flush_locked rnd nl nr d =
     (let (phase, d) =
        (if \<not> mp_dirty d then (Packed, d)
         else case motion_args rnd nl nr d of
           Inl e \<Rightarrow> (PackRaised e, d)
         | Inr args \<Rightarrow>
             (case struct_pack_into 15 (zip mp_format args) of
                (None, buf) \<Rightarrow> (Packed, d\<lparr>motionpack_buffer := buf\<rparr>)
              | (Some e, buf) \<Rightarrow> (PackFailed, d\<lparr>motionpack_buffer := buf\<rparr>)))
      in if phase \<noteq> Packed \<or> \<not> leds_dirty d then (phase, d)
         else case struct_pack_into 10 (zip leds_format (led_args d)) of
           (None, buf) \<Rightarrow> (Packed, d\<lparr>ledspack_buffer := buf\<rparr>)
         | (Some e, buf) \<Rightarrow> (PackFailed, d\<lparr>ledspack_buffer := buf\<rparr>))"

text \<open>Both parts in a row, when nobody writes in between.\<close>

definition flush_pack :: "(real \<Rightarrow> real) \<Rightarrow> HeadMcuDriver \<Rightarrow> flush_phase \<times> HeadMcuDriver" where
  "flush_pack rnd d =
     (case flush_neck rnd d of
        None \<Rightarrow> (NothingPending, d)
      | Some (Inl e) \<Rightarrow> (PackRaised e, d)
      | Some (Inr (nl, nr)) \<Rightarrow> flush_locked rnd nl nr d)"

lemma flush_pack_eq:
  "flush_pack rnd d =
     (if \<not> mp_dirty d \<and> \<not> leds_dirty d then (NothingPending, d)
      else case res_bind (neck_left_mot rnd d) (\<lambda>nl. res_bind (neck_right_mot rnd d) (\<lambda>nr. Inr (nl, nr))) of
        Inl e \<Rightarrow> (PackRaised e, d)
      | Inr (nl, nr) \<Rightarrow>
          (let (phase, d) =
             (if \<not> mp_dirty d then (Packed, d)
              else case motion_args rnd nl nr d of
                Inl e \<Rightarrow> (PackRaised e, d)
              | Inr args \<Rightarrow>
                  (case struct_pack_into 15 (zip mp_format args) of
                     (None, buf) \<Rightarrow> (Packed, d\<lparr>motionpack_buffer := buf\<rparr>)
                   | (Some e, buf) \<Rightarrow> (PackFailed, d\<lparr>motionpack_buffer := buf\<rparr>)))
           in if phase \<noteq> Packed \<or> \<not> leds_dirty d then (phase, d)
              else case struct_pack_into 10 (zip leds_format (led_args d)) of
                (None, buf) \<Rightarrow> (Packed, d\<lparr>ledspack_buffer := buf\<rparr>)
              | (Some e, buf) \<Rightarrow> (PackFailed, d\<lparr>ledspack_buffer := buf\<rparr>)))"
  unfolding flush_pack_def flush_neck_def flush_locked_def by simp

text \<open>The two transmissions, given what each of them would give.\<close>

definition flush_io :: "send_result \<Rightarrow> send_result \<Rightarrow> HeadMcuDriver \<Rightarrow> bool \<times> HeadMcuDriver" where
  "flush_io motion leds d =
     (let d1 = (if mp_dirty d \<and> motion = Sent
                then d\<lparr>mp_dirty := False, head_sent := head_sent d @ [(PACK_ID_MOTION, motionpack_buffer d)]\<rparr> else d);
          success = (mp_dirty d \<longrightarrow> motion = Sent)
      in if mp_dirty d \<and> motion = SendRaises then (False, d)
         else if \<not> leds_dirty d1 then (success, d1)
         else if leds = Sent
           then (success, d1\<lparr>leds_dirty := False, head_sent := head_sent d1 @ [(PACK_ID_LEDS, ledspack_buffer d1)]\<rparr>)
         else (False, d1))"

definition head_flush :: "(real \<Rightarrow> real) \<Rightarrow> send_result \<Rightarrow> send_result \<Rightarrow> HeadMcuDriver \<Rightarrow> (mcu_error + bool) \<times> HeadMcuDriver" where
  "head_flush rnd motion leds d =
     (case flush_pack rnd d of
        (NothingPending, d) \<Rightarrow> (Inr False, d)
      | (PackRaised e, d) \<Rightarrow> (Inl e, d)
      | (PackFailed, d) \<Rightarrow> (Inr False, d)
      | (Packed, d) \<Rightarrow> (let (r, d) = flush_io motion leds d in (Inr r, d)))"

subsection \<open>Connecting\<close>

text \<open>What the calls of the device gave, in the order \<open>begin\<close> makes them.\<close>

record head_answers =
  ans_open :: bool
  ans_name :: string
  ans_init_sent :: send_result
  ans_ack :: bool
  ans_begin_sent :: send_result
  ans_motion_sent :: send_result
  ans_leds_sent :: send_result

definition head_log :: "nat \<Rightarrow> bytes \<Rightarrow> send_result \<Rightarrow> HeadMcuDriver \<Rightarrow> HeadMcuDriver" where
  "head_log pid data r d = (if r = Sent then d\<lparr>head_sent := head_sent d @ [(pid, data)]\<rparr> else d)"

definition head_begin :: "(real \<Rightarrow> real) \<Rightarrow> head_answers \<Rightarrow> HeadMcuDriver \<Rightarrow> (mcu_error + bool) \<times> HeadMcuDriver" where
  "head_begin rnd ans d =
     (if head_initialized d then (Inr True, d)
      else if \<not> ans_open ans then (Inr False, d)
      else
        (let d = d\<lparr>head_open := True\<rparr>
         in if ans_name ans \<noteq> DEVICE_NAME then (Inr False, d)
            else if ans_init_sent ans = SendRaises then (Inl DeviceError, d)
            else
              (let d = head_log PACK_ID_CONTROL PSP_INIT_HARDWARE (ans_init_sent ans) d
               in if \<not> ans_ack ans then (Inr False, d)
                  else if ans_begin_sent ans = SendRaises then (Inl DeviceError, d)
                  else case head_flush rnd (ans_motion_sent ans) (ans_leds_sent ans)
                              (head_log PACK_ID_CONTROL PSP_BEGIN_ALL (ans_begin_sent ans) d) of
                    (Inl e, d) \<Rightarrow> (Inl e, d)
                  | (Inr ok, d) \<Rightarrow> if ok then (Inr True, d\<lparr>head_initialized := True\<rparr>) else (Inr False, d))))"

definition head_deinit :: "send_result \<Rightarrow> HeadMcuDriver \<Rightarrow> (mcu_error + bool) \<times> HeadMcuDriver" where
  "head_deinit sent d =
     (if \<not> head_initialized d then (Inr True, d)
      else if sent = SendRaises then (Inl DeviceError, d)
      else (Inr True, (head_log PACK_ID_CONTROL PSP_DEINIT sent d)\<lparr>head_open := False, head_initialized := False\<rparr>))"

section \<open>The body driver (body\_driver.py)\<close>

definition PSP_PACKID_MOTION :: nat where "PSP_PACKID_MOTION = 1"
definition PSP_PACKID_CONTROL_FLAGS :: nat where "PSP_PACKID_CONTROL_FLAGS = 4"
definition PSP_PACKID_DIAGNOSTICS :: nat where "PSP_PACKID_DIAGNOSTICS = 5"
definition DGN_HARDWARE_INIT_OK :: bytes where "DGN_HARDWARE_INIT_OK = [1]"
definition DGN_BEGINALL_OK :: bytes where "DGN_BEGINALL_OK = [2]"
definition DGN_HARDWARE_DEINIT_ACK :: bytes where "DGN_HARDWARE_DEINIT_ACK = [3]"
definition INIT_HARDWARE :: bytes where "INIT_HARDWARE = [1]"
definition BEGIN_ALL :: bytes where "BEGIN_ALL = [2]"
definition DEINIT_HARDWARE :: bytes where "DEINIT_HARDWARE = [4]"
definition PEER_NAME :: string where "PEER_NAME = ''AC01:BODY''"

record BodyMcuDriver =
  body_open :: bool
  body_sent :: "(nat \<times> bytes) list"
  body_initialized :: bool
  payload_buffer :: bytes
  left_mot :: int
  right_mot :: int
  rotation_mot :: int

definition BodyMcuDriver_init :: BodyMcuDriver where
  "BodyMcuDriver_init = \<lparr>body_open = False, body_sent = [], body_initialized = False, payload_buffer = replicate 6 0,
     left_mot = 0, right_mot = 0, rotation_mot = 0\<rparr>"

text \<open>A packet the device answered with; \<open>None\<close> is a timeout.\<close>

type_synonym answer = "(nat \<times> bytes) option"

record body_answers =
  bans_open :: bool
  bans_name :: string
  bans_init_sent :: send_result
  bans_init_ack :: answer
  bans_begin_sent :: send_result
  bans_begin_ack :: answer

definition body_log :: "nat \<Rightarrow> bytes \<Rightarrow> send_result \<Rightarrow> BodyMcuDriver \<Rightarrow> BodyMcuDriver" where
  "body_log pid data r d = (if r = Sent then d\<lparr>body_sent := body_sent d @ [(pid, data)]\<rparr> else d)"

definition body_begin :: "body_answers \<Rightarrow> BodyMcuDriver \<Rightarrow> (mcu_error + bool) \<times> BodyMcuDriver" where
  "body_begin ans d =
     (if body_initialized d then (Inr True, d)
      else if \<not> bans_open ans then (Inr False, d)
      else
        (let d = d\<lparr>body_open := True\<rparr>
         in if bans_name ans \<noteq> PEER_NAME then (Inr False, d)
            else if bans_init_sent ans = SendRaises then (Inl DeviceError, d)
            else
              (let d = body_log PSP_PACKID_CONTROL_FLAGS INIT_HARDWARE (bans_init_sent ans) d
               in if bans_init_ack ans \<noteq> Some (PSP_PACKID_DIAGNOSTICS, DGN_HARDWARE_INIT_OK) then (Inr False, d)
                  else if bans_begin_sent ans = SendRaises then (Inl DeviceError, d)
                  else
                    (let d = body_log PSP_PACKID_CONTROL_FLAGS BEGIN_ALL (bans_begin_sent ans) d
                     in if bans_begin_ack ans \<noteq> Some (PSP_PACKID_DIAGNOSTICS, DGN_BEGINALL_OK) then (Inr False, d)
                        else (Inr True, d\<lparr>body_initialized := True\<rparr>)))))"

definition body_deinit :: "send_result \<Rightarrow> answer \<Rightarrow> BodyMcuDriver \<Rightarrow> (mcu_error + bool) \<times> BodyMcuDriver" where
  "body_deinit sent ack d =
     (if \<not> body_initialized d then (Inr True, d)
      else if sent = SendRaises then (Inl DeviceError, d)
      else if sent = NotSent then (Inr False, d)
      else
        (let d = body_log PSP_PACKID_CONTROL_FLAGS DEINIT_HARDWARE sent d
         in if ack \<noteq> Some (PSP_PACKID_DIAGNOSTICS, DGN_HARDWARE_DEINIT_ACK) then (Inr False, d)
            else (Inr True, d\<lparr>body_open := False, body_initialized := False\<rparr>)))"

definition body_flush :: "send_result \<Rightarrow> BodyMcuDriver \<Rightarrow> (mcu_error + bool) \<times> BodyMcuDriver" where
  "body_flush sent d =
     (case struct_pack_into 6 [(Fh, right_mot d), (Fh, left_mot d), (Fh, rotation_mot d)] of
        (Some e, buf) \<Rightarrow> (Inl e, d\<lparr>payload_buffer := buf\<rparr>)
      | (None, buf) \<Rightarrow>
          (let d = d\<lparr>payload_buffer := buf\<rparr>
           in if sent = SendRaises then (Inl DeviceError, d)
              else (Inr (sent = Sent), body_log PSP_PACKID_MOTION buf sent d)))"

section \<open>The mock driver (mock\_driver.py)\<close>

record MockDriver =
  axes_state :: "(string, pyfloat) dict"
  flush_count :: nat
  mock_dirty :: bool

definition MockDriver_init :: MockDriver where
  "MockDriver_init = \<lparr>axes_state = [], flush_count = 0, mock_dirty = False\<rparr>"

definition mock_write_axis :: "string \<Rightarrow> pyfloat \<Rightarrow> MockDriver \<Rightarrow> MockDriver" where
  "mock_write_axis name v m = m\<lparr>mock_dirty := True, axes_state := dict_set (axes_state m) name v\<rparr>"

definition mock_flush :: "MockDriver \<Rightarrow> bool \<times> MockDriver" where
  "mock_flush m = (True, m\<lparr>flush_count := (if mock_dirty m then Suc (flush_count m) else flush_count m), mock_dirty := False\<rparr>)"

section \<open>Packing and unpacking\<close>

lemma pack_field_length [simp]: "length (pack_field f n) = field_size f"
  by (simp add: pack_field_def)

lemma pack_field_inverse: "in_field f n \<Longrightarrow> unpack_field f (pack_field f n) = n"
proof (cases f)
  case FB
  assume "in_field f n"
  then have m: "n mod 256 = n" "nat n mod 256 = nat n" "int (nat n) = n" using FB by auto
  show ?thesis unfolding FB pack_field_def field_size.simps power_one_right unpack_field.simps nat_of_bytes_le_inverse m ..
next
  case Fh
  assume n: "in_field f n"
  have "int (nat_of_bytes_le (pack_field Fh n)) = n mod 65536"
    by (simp add: pack_field_def nat_of_bytes_le_inverse nat_mod_distrib)
  moreover have "n mod 65536 = (if 0 \<le> n then n else n + 65536)"
    using n Fh by (auto simp: mod_pos_pos_trivial intro: mod_pos_pos_trivial [of "n + 65536" 65536, simplified])
  ultimately show ?thesis using n Fh by (auto simp: Let_def)
qed

lemma pack_fields_inverse:
  "list_all2 in_field fs ns \<Longrightarrow>
   \<exists>bs. pack_fields (zip fs ns) = (None, bs) \<and> unpack_fields fs bs = ns \<and> length bs = sum_list (map field_size fs)"
  by (induction fs ns rule: list_all2_induct) (auto simp: pack_field_inverse)

lemma pack_fields_bad: "(f, n) \<in> set fs \<Longrightarrow> \<not> in_field f n \<Longrightarrow> fst (pack_fields fs) = Some StructError"
proof (induction fs)
  case (Cons p fs)
  obtain g m where p: "p = (g, m)" by (cases p)
  show ?case
  proof (cases "in_field g m")
    case True
    then have "(f, n) \<in> set fs" using Cons.prems p by auto
    then show ?thesis using Cons.IH Cons.prems(2) True by (simp add: p split_beta)
  qed (simp add: p)
qed simp

section \<open>Ranges\<close>

fun inrange :: "int \<Rightarrow> int \<Rightarrow> pyfloat \<Rightarrow> bool" where
  "inrange lo hi (Fin a) \<longleftrightarrow> of_int lo \<le> a \<and> a \<le> of_int hi"
| "inrange lo hi _ \<longleftrightarrow> False"

definition inrange_or_nan :: "int \<Rightarrow> int \<Rightarrow> pyfloat \<Rightarrow> bool" where
  "inrange_or_nan lo hi x \<longleftrightarrow> x = NaN \<or> inrange lo hi x"

lemma clamp_inrange: "lo \<le> hi \<Longrightarrow> x \<noteq> NaN \<Longrightarrow> inrange lo hi (clamp x (of_int lo) (of_int hi))"
  by (cases x) (auto simp: clamp_def flt_def)

lemma clamp_or_nan: "lo \<le> hi \<Longrightarrow> inrange_or_nan lo hi (clamp x (of_int lo) (of_int hi))"
  by (cases "x = NaN") (simp_all add: inrange_or_nan_def clamp_inrange, simp add: clamp_def flt_def)

lemma trunc_bounds: "of_int lo \<le> a \<Longrightarrow> a \<le> of_int hi \<Longrightarrow> lo \<le> trunc a \<and> trunc a \<le> hi"
  unfolding trunc_def by (auto simp: le_floor_iff ceiling_le_iff floor_le_iff le_ceiling_iff)

lemma rounding_upper: "rounding rnd \<Longrightarrow> a \<le> of_int n \<Longrightarrow> \<bar>n\<bar> \<le> 4096 \<Longrightarrow> rnd a \<le> of_int n"
  unfolding rounding_def mono_def by metis

lemma rounding_bounds:
  assumes "rounding rnd" "of_int lo \<le> a" "a \<le> of_int hi" "\<bar>lo\<bar> \<le> 4096" "\<bar>hi\<bar> \<le> 4096"
  shows "of_int lo \<le> rnd a \<and> rnd a \<le> of_int hi"
proof -
  have "rnd (of_int lo) \<le> rnd a" "rnd a \<le> rnd (of_int hi)" using assms(1-3) by (auto simp: rounding_def mono_def)
  then show ?thesis using assms by (simp add: rounding_def)
qed

lemma inrange_to_int: "inrange lo hi x \<Longrightarrow> \<exists>n. to_int x = Inr n \<and> lo \<le> n \<and> n \<le> hi"
  by (cases x) (auto dest: trunc_bounds)

lemma inrange_mul:
  assumes "rounding rnd" "inrange lo hi x" "0 \<le> c" "\<bar>lo * c\<bar> \<le> 4096" "\<bar>hi * c\<bar> \<le> 4096"
  shows "inrange (lo * c) (hi * c) (fmul rnd x (Fin (of_int c)))"
proof (cases x)
  case (Fin a)
  have "of_int (lo * c) \<le> a * of_int c" "a * of_int c \<le> of_int (hi * c)"
    using assms(2,3) Fin by (auto simp: mult_right_mono)
  from rounding_bounds [OF assms(1) this assms(4,5)] show ?thesis using Fin by (simp add: fmul_def)
qed (use assms(2) in simp_all)

lemma inrange_add:
  assumes "rounding rnd" "inrange l h x" "inrange l' h' y" "\<bar>l + l'\<bar> \<le> 4096" "\<bar>h + h'\<bar> \<le> 4096"
  shows "inrange (l + l') (h + h') (fadd rnd x y)"
proof (cases x; cases y)
  fix a b assume xy: "x = Fin a" "y = Fin b"
  have "of_int (l + l') \<le> a + b" "a + b \<le> of_int (h + h')" using assms(2,3) xy by auto
  from rounding_bounds [OF assms(1) this assms(4,5)] show ?thesis using xy by (simp add: fadd_def)
qed (use assms(2,3) in simp_all)

lemma inrange_neg: "inrange l h x \<Longrightarrow> inrange (- h) (- l) (fneg x)"
  by (cases x) auto

text \<open>The ranges the axes are kept in, for any reading of being in a range.\<close>

definition is_bit :: "int \<Rightarrow> bool" where "is_bit n \<longleftrightarrow> n = 0 \<or> n = 1"
definition is_flag :: "pyfloat \<Rightarrow> bool" where "is_flag x \<longleftrightarrow> x = Fin 0 \<or> x = Fin 1"

definition ranges :: "(int \<Rightarrow> int \<Rightarrow> pyfloat \<Rightarrow> bool) \<Rightarrow> HeadMcuDriver \<Rightarrow> bool" where
  "ranges P d \<longleftrightarrow>
     P 0 1 (mouth d) \<and> P (-1) 1 (ear_left d) \<and> P (-1) 1 (ear_right d) \<and> P (-1) 1 (neck_tilt d) \<and> P (-1) 1 (neck_pitch d)
     \<and> P (-60) 60 (eye_left d) \<and> P (-60) 60 (eye_right d) \<and> P (-30) 30 (eyes_pitch d)
     \<and> P 0 60 (lid_left_wideness d) \<and> P 0 60 (lid_right_wideness d) \<and> is_flag (eyes_open d)
     \<and> is_bit (led_r d) \<and> is_bit (led_g d) \<and> is_bit (led_b d) \<and> is_bit (led_l1 d) \<and> is_bit (led_l2 d)"

lemma topwm_bit: "topwm12 v = Inr n \<Longrightarrow> is_bit n" "topwm8 v = Inr n \<Longrightarrow> is_bit n"
  by (auto simp: topwm12_def topwm8_def res_bind_Inr is_bit_def)

lemma flag_of_bool [simp]: "is_flag (Fin (of_bool b))"
  by (simp add: is_flag_def)

lemma set_axis_ranges:
  assumes d: "ranges P d" and set: "set_axis rnd a v d = Inr d'"
    and P: "\<And>lo hi. lo \<le> hi \<Longrightarrow> P lo hi (clamp v (of_int lo) (of_int hi))"
      "\<And>lo hi. lo \<le> hi \<Longrightarrow> P lo hi (clamp (fmul rnd v (Fin (1 / 2))) (of_int lo) (of_int hi))"
  shows "ranges P d'"
proof -
  note c = P(1) [of 0 1] P(1) [of "-1" 1] P(1) [of "-60" 60] P(1) [of "-30" 30] P(2) [of 0 60]
  show ?thesis using d set c
    by (cases a) (auto simp: ranges_def res_bind_Inr dest: topwm_bit)
qed

section \<open>Use of the head driver\<close>

text \<open>Writes, uninterrupted flushes and connections, which is enough for the ranges of the axes: a flush does not
  change them. The flush interleaved with writes is \<open>op_step\<close> below.\<close>

datatype head_event =
    HeadWrite "Axis option" pyfloat
  | HeadFlush send_result send_result
  | HeadBegin head_answers
  | HeadDeinit send_result

fun head_step :: "(real \<Rightarrow> real) \<Rightarrow> HeadMcuDriver \<Rightarrow> head_event \<Rightarrow> HeadMcuDriver" where
  "head_step rnd d (HeadWrite axis v) = snd (head_write rnd axis v d)"
| "head_step rnd d (HeadFlush motion leds) = snd (head_flush rnd motion leds d)"
| "head_step rnd d (HeadBegin ans) = snd (head_begin rnd ans d)"
| "head_step rnd d (HeadDeinit sent) = snd (head_deinit sent d)"

fun numeric_event :: "head_event \<Rightarrow> bool" where
  "numeric_event (HeadWrite axis v) \<longleftrightarrow> v \<noteq> NaN"
| "numeric_event _ \<longleftrightarrow> True"

text \<open>What is not an axis: two drivers with the same axes.\<close>

definition axes :: "HeadMcuDriver \<Rightarrow> HeadMcuDriver" where
  "axes d = d\<lparr>head_open := False, head_sent := [], motionpack_buffer := [], ledspack_buffer := [],
     mp_dirty := False, leds_dirty := False, head_initialized := False\<rparr>"

lemma of_axes:
  "ranges P (axes d) = ranges P d" "neck_left_mot rnd (axes d) = neck_left_mot rnd d" "neck_right_mot rnd (axes d) = neck_right_mot rnd d"
  "motion_args rnd l r (axes d) = motion_args rnd l r d" "led_args (axes d) = led_args d"
  by (simp_all add: axes_def ranges_def neck_left_mot_def neck_right_mot_def motion_args_def led_args_def)

lemma axes_cong:
  assumes "axes d = axes d'"
  shows "ranges P d = ranges P d'" "neck_left_mot rnd d = neck_left_mot rnd d'" "neck_right_mot rnd d = neck_right_mot rnd d'"
    "motion_args rnd l r d = motion_args rnd l r d'" "led_args d = led_args d'"
  by (metis assms of_axes)+

lemma axes_updates [simp]:
  "axes (d\<lparr>head_open := b\<rparr>) = axes d" "axes (d\<lparr>head_sent := l\<rparr>) = axes d" "axes (d\<lparr>motionpack_buffer := x\<rparr>) = axes d"
  "axes (d\<lparr>ledspack_buffer := x\<rparr>) = axes d" "axes (d\<lparr>mp_dirty := b\<rparr>) = axes d" "axes (d\<lparr>leds_dirty := b\<rparr>) = axes d"
  "axes (d\<lparr>head_initialized := b\<rparr>) = axes d"
  by (simp_all add: axes_def)

lemma axes_mark [simp]: "axes (mark_dirty a d) = axes d"
  by (simp add: mark_dirty_def Let_def)

lemma axes_log [simp]: "axes (head_log p x r d) = axes d"
  by (simp add: head_log_def)

lemma axes_pack [simp]: "axes (snd (flush_pack rnd d)) = axes d"
  by (auto simp: flush_pack_eq Let_def split: sum.splits prod.splits option.splits)

lemma axes_io [simp]: "axes (snd (flush_io m l d)) = axes d"
  by (simp add: flush_io_def Let_def)

lemma axes_flush [simp]: "axes (snd (head_flush rnd m l d)) = axes d"
  by (cases "flush_pack rnd d"; use axes_pack [of rnd d] axes_io [of m l "snd (flush_pack rnd d)"]
      in \<open>simp add: head_flush_def split_beta split: flush_phase.splits\<close>)

lemma axes_begin [simp]: "axes (snd (head_begin rnd ans d)) = axes d"
proof -
  let ?d = "head_log PACK_ID_CONTROL PSP_BEGIN_ALL (ans_begin_sent ans)
      (head_log PACK_ID_CONTROL PSP_INIT_HARDWARE (ans_init_sent ans) (d\<lparr>head_open := True\<rparr>))"
  have "axes (snd (head_flush rnd (ans_motion_sent ans) (ans_leds_sent ans) ?d)) = axes d" by simp
  then show ?thesis
    by (cases "head_flush rnd (ans_motion_sent ans) (ans_leds_sent ans) ?d") (simp add: head_begin_def Let_def split: sum.splits)
qed

lemma axes_deinit [simp]: "axes (snd (head_deinit sent d)) = axes d"
  by (simp add: head_deinit_def)

lemma write_ranges:
  assumes "ranges P d"
    and "\<And>w lo hi. w = v \<or> w = fmul rnd v (Fin (1 / 2)) \<Longrightarrow> lo \<le> hi \<Longrightarrow> P lo hi (clamp w (of_int lo) (of_int hi))"
  shows "ranges P (snd (head_write rnd axis v d))"
proof (cases "write_axis rnd axis v d")
  case (Inl e)
  then show ?thesis using assms(1) by (cases e) (simp_all add: head_write_def)
next
  case (Inr d')
  then obtain a d1 where a: "axis = Some a" "set_axis rnd a v d = Inr d1" "d' = mark_dirty a d1"
    by (auto simp: write_axis_def res_bind_Inr split: option.splits)
  have "ranges P d1" by (rule set_axis_ranges [OF assms(1) a(2)]) (use assms(2) in auto)
  then show ?thesis using Inr a(3) axes_cong(1) [of "mark_dirty a d1" d1] by (simp add: head_write_def)
qed

lemma step_ranges:
  assumes "ranges P d"
    and "\<And>axis v w lo hi. e = HeadWrite axis v \<Longrightarrow> w = v \<or> w = fmul rnd v (Fin (1 / 2)) \<Longrightarrow> lo \<le> hi \<Longrightarrow>
      P lo hi (clamp w (of_int lo) (of_int hi))"
  shows "ranges P (head_step rnd d e)"
proof (cases e)
  case (HeadWrite axis v)
  then show ?thesis using write_ranges [OF assms(1), of v rnd axis] assms(2) by auto
qed (use assms(1) axes_cong(1) [of "head_step rnd d e" d P] in simp_all)

lemma init_ranges: "ranges inrange HeadMcuDriver_init"
  by (simp add: ranges_def HeadMcuDriver_init_def is_bit_def is_flag_def)

lemma run_inrange:
  "ranges inrange d \<Longrightarrow> list_all numeric_event es \<Longrightarrow> ranges inrange (foldl (head_step rnd) d es)"
proof (induction es arbitrary: d)
  case (Cons e es)
  have "ranges inrange (head_step rnd d e)"
    using Cons.prems by (intro step_ranges) (auto intro!: clamp_inrange simp: fmul_def split: pyfloat.splits)
  then show ?case using Cons by simp
qed simp

section \<open>Packets\<close>

text \<open>The motion and LED packets that show the axes as they are; \<open>None\<close> when they cannot be packed.\<close>

definition motion_packet :: "(real \<Rightarrow> real) \<Rightarrow> HeadMcuDriver \<Rightarrow> bytes option" where
  "motion_packet rnd d =
     (case res_bind (neck_left_mot rnd d) (\<lambda>nl. res_bind (neck_right_mot rnd d) (\<lambda>nr. motion_args rnd nl nr d)) of
        Inl e \<Rightarrow> None
      | Inr args \<Rightarrow> if fst (pack_fields (zip mp_format args)) = None then Some (snd (pack_fields (zip mp_format args))) else None)"

definition led_packet :: "HeadMcuDriver \<Rightarrow> bytes option" where
  "led_packet d = (if fst (pack_fields (zip leds_format (led_args d))) = None
     then Some (snd (pack_fields (zip leds_format (led_args d)))) else None)"

definition last_sent :: "nat \<Rightarrow> HeadMcuDriver \<Rightarrow> bytes option" where
  "last_sent pid d = map_of (rev (head_sent d)) pid"

lemma pack_fields_length:
  "pack_fields (zip fs ns) = (None, bs) \<Longrightarrow> length ns = length fs \<Longrightarrow> length bs = sum_list (map field_size fs)"
proof (induction fs arbitrary: ns bs)
  case (Cons f fs)
  then obtain n ms where ns: "ns = n # ms" by (cases ns) auto
  show ?case using Cons.prems Cons.IH [of ms "snd (pack_fields (zip fs ms))"]
    by (cases "pack_fields (zip fs ms)") (auto simp: ns split: if_splits)
qed simp

lemma motion_args_length: "motion_args rnd l r d = Inr args \<Longrightarrow> length args = length mp_format"
  by (auto simp: motion_args_def mp_format_def res_bind_Inr)

lemma packet_cong: "axes d = axes d' \<Longrightarrow> motion_packet rnd d = motion_packet rnd d'" "axes d = axes d' \<Longrightarrow> led_packet d = led_packet d'"
  by (simp_all add: motion_packet_def led_packet_def axes_cong [of d d'])

lemma struct_pack_ok:
  "pack_fields (zip fs ns) = (None, bs) \<Longrightarrow> length ns = length fs \<Longrightarrow> len = sum_list (map field_size fs) \<Longrightarrow>
   struct_pack_into len (zip fs ns) = (None, bs)"
  using pack_fields_length [of fs ns bs] by (simp add: struct_pack_into_def)

lemma struct_pack_fst: "fst (struct_pack_into len fs) = fst (pack_fields fs)"
  by (simp add: struct_pack_into_def split_beta)

lemma flush_pack_frame:
  "head_sent (snd (flush_pack rnd d)) = head_sent d" "mp_dirty (snd (flush_pack rnd d)) = mp_dirty d"
  "leds_dirty (snd (flush_pack rnd d)) = leds_dirty d"
  by (auto simp: flush_pack_eq Let_def split: sum.splits prod.splits option.splits)

lemma struct_pack_packet:
  assumes "struct_pack_into len (zip fs ns) = (None, buf)" "length ns = length fs" "len = sum_list (map field_size fs)"
  shows "pack_fields (zip fs ns) = (None, buf)"
  using assms struct_pack_fst [of len "zip fs ns"] struct_pack_ok [of fs ns "snd (pack_fields (zip fs ns))" len]
  by (cases "pack_fields (zip fs ns)") auto

lemma flush_pack_motion:
  assumes "flush_pack rnd d = (Packed, d')" "mp_dirty d"
  shows "motion_packet rnd d = Some (motionpack_buffer d')"
proof -
  obtain nl nr args buf where a: "neck_left_mot rnd d = Inr nl" "neck_right_mot rnd d = Inr nr" "motion_args rnd nl nr d = Inr args"
    "struct_pack_into 15 (zip mp_format args) = (None, buf)" "motionpack_buffer d' = buf"
    using assms by (auto simp: flush_pack_eq Let_def res_bind_Inr split: sum.splits prod.splits option.splits if_splits)
  have "pack_fields (zip mp_format args) = (None, buf)"
    by (rule struct_pack_packet [OF a(4) motion_args_length [OF a(3)]]) (simp add: mp_format_def)
  then show ?thesis using a by (simp add: motion_packet_def)
qed

lemma flush_pack_leds:
  assumes "flush_pack rnd d = (Packed, d')" "leds_dirty d"
  shows "led_packet d = Some (ledspack_buffer d')"
proof -
  obtain d1 where d1: "struct_pack_into 10 (zip leds_format (led_args d1)) = (None, ledspack_buffer d')" "axes d1 = axes d"
    using assms by (auto simp: flush_pack_eq Let_def res_bind_Inr split: sum.splits prod.splits option.splits if_splits)
  have "pack_fields (zip leds_format (led_args d1)) = (None, ledspack_buffer d')"
    by (rule struct_pack_packet [OF d1(1)]) (simp_all add: leds_format_def led_args_def)
  then show ?thesis using axes_cong(5) [OF d1(2)] by (simp add: led_packet_def)
qed

section \<open>The packets sent show the axes\<close>

text \<open>A packet kind is in step: it is pending, was never sent, or was last sent with the present axes.\<close>

definition in_step :: "bool \<Rightarrow> nat \<Rightarrow> bytes option \<Rightarrow> HeadMcuDriver \<Rightarrow> bool" where
  "in_step dirty pid packet d \<longleftrightarrow> dirty \<or> last_sent pid d = None \<or> last_sent pid d = packet"

definition synced :: "(real \<Rightarrow> real) \<Rightarrow> HeadMcuDriver \<Rightarrow> bool" where
  "synced rnd d \<longleftrightarrow> in_step (mp_dirty d) PACK_ID_MOTION (motion_packet rnd d) d \<and> in_step (leds_dirty d) PACK_ID_LEDS (led_packet d) d"

lemmas id_defs = PACK_ID_MOTION_def PACK_ID_LEDS_def PACK_ID_CONTROL_def

lemma set_axis_frame:
  assumes "set_axis rnd a v d = Inr d'"
  shows "head_sent d' = head_sent d" "mp_dirty d' = mp_dirty d" "leds_dirty d' = leds_dirty d"
    "a \<in> LED_AXIS \<Longrightarrow> motion_packet rnd d' = motion_packet rnd d" "a \<notin> LED_AXIS \<Longrightarrow> led_packet d' = led_packet d"
  using assms
  by (cases a; auto simp: res_bind_Inr LED_AXIS_def motion_packet_def motion_args_def neck_left_mot_def neck_right_mot_def
      led_packet_def led_args_def)+

lemma mark_dirty_simps [simp]:
  "mp_dirty (mark_dirty a d) = (mp_dirty d \<or> a \<notin> LED_AXIS)" "leds_dirty (mark_dirty a d) = (leds_dirty d \<or> a \<in> LED_AXIS)"
  "head_sent (mark_dirty a d) = head_sent d" "motionpack_buffer (mark_dirty a d) = motionpack_buffer d"
  by (simp_all add: mark_dirty_def Let_def)

lemma write_cases:
  obtains (kept) "snd (head_write rnd axis v d) = d" "fst (head_write rnd axis v d) \<noteq> WriteOK"
  | (written) a d1 where "axis = Some a" "set_axis rnd a v d = Inr d1" "snd (head_write rnd axis v d) = mark_dirty a d1"
      "fst (head_write rnd axis v d) = WriteOK"
proof (cases "write_axis rnd axis v d")
  case (Inl e)
  then show ?thesis by (intro kept) (cases e; simp add: head_write_def)+
next
  case (Inr d')
  then obtain a d1 where "axis = Some a" "set_axis rnd a v d = Inr d1" "d' = mark_dirty a d1"
    by (auto simp: write_axis_def res_bind_Inr split: option.splits)
  then show ?thesis using Inr by (intro written) (simp_all add: head_write_def)
qed

lemma write_synced: "synced rnd d \<Longrightarrow> synced rnd (snd (head_write rnd axis v d))"
proof (cases rule: write_cases [of rnd axis v d])
  case (written a d1)
  assume s: "synced rnd d"
  have p: "motion_packet rnd (mark_dirty a d1) = motion_packet rnd d1" "led_packet (mark_dirty a d1) = led_packet d1"
    by (rule packet_cong; simp)+
  show ?thesis using s set_axis_frame [OF written(2)] unfolding written(3) synced_def in_step_def last_sent_def p
    by (cases "a \<in> LED_AXIS") simp_all
qed simp

lemma synced_frame:
  "axes d' = axes d \<Longrightarrow> head_sent d' = head_sent d \<Longrightarrow> mp_dirty d' = mp_dirty d \<Longrightarrow> leds_dirty d' = leds_dirty d \<Longrightarrow>
   synced rnd d \<Longrightarrow> synced rnd d'"
  using packet_cong [of d' d] by (simp add: synced_def in_step_def last_sent_def)

lemma io_synced:
  assumes "synced rnd d" "mp_dirty d \<Longrightarrow> motion_packet rnd d = Some (motionpack_buffer d)"
    "leds_dirty d \<Longrightarrow> led_packet d = Some (ledspack_buffer d)"
  shows "synced rnd (snd (flush_io m l d))"
proof -
  have "motion_packet rnd (snd (flush_io m l d)) = motion_packet rnd d" "led_packet (snd (flush_io m l d)) = led_packet d"
    by (rule packet_cong; simp)+
  then show ?thesis using assms unfolding synced_def in_step_def last_sent_def
    by (auto simp: flush_io_def Let_def id_defs)
qed

lemma flush_synced: "synced rnd d \<Longrightarrow> synced rnd (snd (head_flush rnd m l d))"
proof -
  assume s: "synced rnd d"
  obtain ph d1 where p: "flush_pack rnd d = (ph, d1)" by (cases "flush_pack rnd d")
  have ax: "axes d1 = axes d" "head_sent d1 = head_sent d" "mp_dirty d1 = mp_dirty d" "leds_dirty d1 = leds_dirty d"
    using axes_pack [of rnd d] flush_pack_frame [of rnd d] p by simp_all
  have s1: "synced rnd d1" by (rule synced_frame [OF ax s])
  show ?thesis
  proof (cases "ph = Packed")
    case True
    then have "synced rnd (snd (flush_io m l d1))"
      using flush_pack_motion [of rnd d d1] flush_pack_leds [of rnd d d1] p ax packet_cong [OF ax(1)]
      by (intro io_synced [OF s1]) simp_all
    then show ?thesis using p True by (simp add: head_flush_def split_beta)
  qed (use s1 p in \<open>cases ph; simp add: head_flush_def\<close>)
qed

lemma log_synced: "pid = PACK_ID_CONTROL \<Longrightarrow> synced rnd d \<Longrightarrow> synced rnd (head_log pid x r d)"
  using packet_cong [of "head_log pid x r d" d]
  by (simp add: synced_def in_step_def last_sent_def) (simp add: head_log_def id_defs)

lemma open_synced: "synced rnd d \<Longrightarrow> synced rnd (d\<lparr>head_open := b\<rparr>)" "synced rnd d \<Longrightarrow> synced rnd (d\<lparr>head_initialized := b\<rparr>)"
  by (rule synced_frame [of _ d]; simp)+

lemma begin_synced: "synced rnd d \<Longrightarrow> synced rnd (snd (head_begin rnd ans d))"
proof -
  assume s: "synced rnd d"
  let ?d1 = "head_log PACK_ID_CONTROL PSP_INIT_HARDWARE (ans_init_sent ans) (d\<lparr>head_open := True\<rparr>)"
  let ?d2 = "head_log PACK_ID_CONTROL PSP_BEGIN_ALL (ans_begin_sent ans) ?d1"
  have s2: "synced rnd ?d1" "synced rnd (d\<lparr>head_open := True\<rparr>)"
    "synced rnd (snd (head_flush rnd (ans_motion_sent ans) (ans_leds_sent ans) ?d2))"
    using s by (simp_all add: log_synced open_synced flush_synced)
  then show ?thesis using s
    by (cases "head_flush rnd (ans_motion_sent ans) (ans_leds_sent ans) ?d2")
      (simp add: head_begin_def Let_def open_synced split: sum.splits)
qed

section \<open>A flush interleaved with writes\<close>

text \<open>
  The loop thread flushes, other threads write. A flush in progress is before its lock, with the
  neck motors computed, or past it, with the packets in their buffers. Writes can come at any of
  these points; \<open>begin\<close> and \<open>deinit\<close> are called when no flush is in progress and at any time.
\<close>

datatype flush_stage = Idle | NeckDone int int | PacketsReady

datatype head_op =
    OpWrite "Axis option" pyfloat
  | OpFlush
  | OpLocked
  | OpSend send_result send_result
  | OpBegin head_answers
  | OpDeinit send_result

fun op_step :: "(real \<Rightarrow> real) \<Rightarrow> flush_stage \<times> HeadMcuDriver \<Rightarrow> head_op \<Rightarrow> flush_stage \<times> HeadMcuDriver" where
  "op_step rnd (st, d) (OpWrite axis v) = (st, snd (head_write rnd axis v d))"
| "op_step rnd (st, d) OpFlush =
     (case st of
        Idle \<Rightarrow> (case flush_neck rnd d of Some (Inr (nl, nr)) \<Rightarrow> (NeckDone nl nr, d) | _ \<Rightarrow> (Idle, d))
      | _ \<Rightarrow> (st, d))"
| "op_step rnd (st, d) OpLocked =
     (case st of
        NeckDone nl nr \<Rightarrow>
          (let (phase, d) = flush_locked rnd nl nr d in (if phase = Packed then PacketsReady else Idle, d))
      | _ \<Rightarrow> (st, d))"
| "op_step rnd (st, d) (OpSend motion leds) =
     (if st = PacketsReady then (Idle, snd (flush_io motion leds d)) else (st, d))"
| "op_step rnd (st, d) (OpBegin ans) =
     (if st = Idle then (Idle, snd (head_begin rnd ans d)) else (st, d))"
| "op_step rnd (st, d) (OpDeinit sent) = (st, snd (head_deinit sent d))"

text \<open>
  The writes that a flush tolerates: any before it starts, any but one of the neck until it takes
  the lock, none from there to the end of the transmissions.
\<close>

fun tolerated :: "flush_stage \<Rightarrow> head_op \<Rightarrow> bool" where
  "tolerated (NeckDone nl nr) (OpWrite axis v) \<longleftrightarrow> axis \<noteq> Some NECK_TILT \<and> axis \<noteq> Some NECK_PITCH"
| "tolerated PacketsReady (OpWrite axis v) \<longleftrightarrow> False"
| "tolerated st op \<longleftrightarrow> True"

fun calm :: "(real \<Rightarrow> real) \<Rightarrow> flush_stage \<times> HeadMcuDriver \<Rightarrow> head_op list \<Rightarrow> bool" where
  "calm rnd s [] \<longleftrightarrow> True"
| "calm rnd s (op # ops) \<longleftrightarrow> tolerated (fst s) op \<and> calm rnd (op_step rnd s op) ops"

lemma flush_in_steps:
  "foldl (op_step rnd) (Idle, d) [OpFlush, OpLocked, OpSend motion leds] = (Idle, snd (head_flush rnd motion leds d))"
proof (cases "flush_neck rnd d")
  case None
  then show ?thesis by (simp add: head_flush_def flush_pack_def)
next
  case (Some r)
  show ?thesis
  proof (cases r)
    case (Inr n)
    obtain nl nr where n: "n = (nl, nr)" by (cases n)
    obtain ph d1 where "flush_locked rnd nl nr d = (ph, d1)" by (cases "flush_locked rnd nl nr d")
    then show ?thesis using Some Inr n by (cases ph) (simp_all add: head_flush_def flush_pack_def split_beta)
  qed (simp add: Some head_flush_def flush_pack_def)
qed

text \<open>What a flush in progress has to find when it goes on.\<close>

fun stage_ok :: "(real \<Rightarrow> real) \<Rightarrow> flush_stage \<times> HeadMcuDriver \<Rightarrow> bool" where
  "stage_ok rnd (Idle, d) \<longleftrightarrow> True"
| "stage_ok rnd (NeckDone nl nr, d) \<longleftrightarrow> neck_left_mot rnd d = Inr nl \<and> neck_right_mot rnd d = Inr nr"
| "stage_ok rnd (PacketsReady, d) \<longleftrightarrow>
     (mp_dirty d \<longrightarrow> motion_packet rnd d = Some (motionpack_buffer d)) \<and>
     (leds_dirty d \<longrightarrow> led_packet d = Some (ledspack_buffer d))"

lemma neck_write:
  assumes "axis \<noteq> Some NECK_TILT" "axis \<noteq> Some NECK_PITCH"
  shows "neck_left_mot rnd (snd (head_write rnd axis v d)) = neck_left_mot rnd d"
    "neck_right_mot rnd (snd (head_write rnd axis v d)) = neck_right_mot rnd d"
proof -
  have "neck_tilt (snd (head_write rnd axis v d)) = neck_tilt d \<and> neck_pitch (snd (head_write rnd axis v d)) = neck_pitch d"
  proof (cases rule: write_cases [of rnd axis v d])
    case (written a d1)
    then have "neck_tilt d1 = neck_tilt d \<and> neck_pitch d1 = neck_pitch d"
      using assms by (cases a) (auto simp: res_bind_Inr)
    then show ?thesis by (simp add: written(3) mark_dirty_def Let_def)
  qed simp
  then show "neck_left_mot rnd (snd (head_write rnd axis v d)) = neck_left_mot rnd d"
    "neck_right_mot rnd (snd (head_write rnd axis v d)) = neck_right_mot rnd d"
    by (simp_all add: neck_left_mot_def neck_right_mot_def)
qed

lemma locked_frame:
  "axes (snd (flush_locked rnd nl nr d)) = axes d" "head_sent (snd (flush_locked rnd nl nr d)) = head_sent d"
  "mp_dirty (snd (flush_locked rnd nl nr d)) = mp_dirty d" "leds_dirty (snd (flush_locked rnd nl nr d)) = leds_dirty d"
  by (auto simp: flush_locked_def Let_def split: sum.splits prod.splits option.splits)

text \<open>With the neck motors of the present axes, the locked part is the one of a flush in a row.\<close>

lemma locked_packets:
  assumes "flush_locked rnd nl nr d = (Packed, d')" "neck_left_mot rnd d = Inr nl" "neck_right_mot rnd d = Inr nr"
  shows "stage_ok rnd (PacketsReady, d')"
proof (cases "mp_dirty d \<or> leds_dirty d")
  case True
  then have p: "flush_pack rnd d = (Packed, d')" using assms by (auto simp: flush_pack_def flush_neck_def)
  have "axes d' = axes d" "mp_dirty d' = mp_dirty d" "leds_dirty d' = leds_dirty d"
    using locked_frame [of rnd nl nr d] assms(1) by simp_all
  then show ?thesis using flush_pack_motion [OF p] flush_pack_leds [OF p] packet_cong [of d' d] by simp
next
  case False
  then show ?thesis using locked_frame [of rnd nl nr d] assms(1) by simp
qed

lemma deinit_frame:
  "mp_dirty (snd (head_deinit sent d)) = mp_dirty d" "leds_dirty (snd (head_deinit sent d)) = leds_dirty d"
  "motionpack_buffer (snd (head_deinit sent d)) = motionpack_buffer d"
  "ledspack_buffer (snd (head_deinit sent d)) = ledspack_buffer d"
  by (simp_all add: head_deinit_def head_log_def)

lemma deinit_synced: "synced rnd d \<Longrightarrow> synced rnd (snd (head_deinit sent d))"
  by (simp add: head_deinit_def log_synced open_synced)

lemma op_step_ok:
  assumes "synced rnd d" "stage_ok rnd (st, d)" "tolerated st op"
  shows "synced rnd (snd (op_step rnd (st, d) op)) \<and> stage_ok rnd (op_step rnd (st, d) op)"
proof (cases op)
  case (OpWrite axis v)
  then show ?thesis using assms write_synced [OF assms(1)] neck_write [of axis rnd v d] by (cases st) simp_all
next
  case OpFlush
  then show ?thesis using assms
    by (auto simp: flush_neck_def res_bind_Inr split: flush_stage.split option.split sum.split if_splits)
next
  case OpLocked
  show ?thesis
  proof (cases st)
    case (NeckDone nl nr)
    obtain ph d1 where l: "flush_locked rnd nl nr d = (ph, d1)" by (cases "flush_locked rnd nl nr d")
    then have "synced rnd d1" using locked_frame [of rnd nl nr d] by (intro synced_frame [OF _ _ _ _ assms(1)]) simp_all
    then show ?thesis using l NeckDone OpLocked assms(2) locked_packets [of rnd nl nr d d1] by auto
  qed (use assms OpLocked in simp_all)
next
  case (OpSend motion leds)
  then show ?thesis using assms io_synced [OF assms(1)] by (cases st) simp_all
next
  case (OpBegin ans)
  then show ?thesis using assms begin_synced [OF assms(1)] by (cases st) simp_all
next
  case (OpDeinit sent)
  have ax: "axes (snd (head_deinit sent d)) = axes d" by simp
  show ?thesis using OpDeinit assms deinit_synced [OF assms(1)]
    by (cases st) (simp_all add: axes_cong(2,3) [OF ax] packet_cong [OF ax] deinit_frame)
qed

lemma calm_synced:
  "calm rnd s ops \<Longrightarrow> synced rnd (snd s) \<Longrightarrow> stage_ok rnd s \<Longrightarrow> synced rnd (snd (foldl (op_step rnd) s ops))"
proof (induction ops arbitrary: s)
  case (Cons op ops)
  then show ?case using op_step_ok [of rnd "snd s" "fst s" op] by simp
qed simp

lemma head_step_synced: "synced rnd d \<Longrightarrow> synced rnd (head_step rnd d e)"
  by (cases e) (simp_all add: write_synced flush_synced begin_synced deinit_synced)

interpretation head: event_machine "head_step rnd" "synced rnd" for rnd
  by unfold_locales (rule head_step_synced)

section \<open>Properties\<close>

lemma motion_args_bounds:
  assumes r: "rounding rnd" and d: "ranges inrange d"
    and ears: "inrange 0 1 (ear_left d)" "inrange 0 1 (ear_right d)"
  shows "\<exists>args. res_bind (neck_left_mot rnd d) (\<lambda>nl. res_bind (neck_right_mot rnd d) (\<lambda>nr. motion_args rnd nl nr d)) = Inr args
    \<and> list_all2 (\<lambda>(lo, hi) n. lo \<le> n \<and> n \<le> hi)
        [(0, 255), (0, 127), (0, 127), (0, 60), (0, 60), (-60, 60), (-60, 60), (-30, 30), (65, 235), (185, 355)] args"
proof -
  note i = d [unfolded ranges_def]
  have lid: "inrange 0 60 (fmul rnd x (eyes_open d))" if "inrange 0 60 x" for x
  proof -
    have "eyes_open d = Fin (of_int 0) \<or> eyes_open d = Fin (of_int 1)" using i by (simp add: is_flag_def)
    then show ?thesis
    proof
      assume "eyes_open d = Fin (of_int 0)"
      then show ?thesis using inrange_mul [OF r that, of 0] by (cases "fmul rnd x (Fin 0)") simp_all
    next
      assume "eyes_open d = Fin (of_int 1)"
      then show ?thesis using inrange_mul [OF r that, of 1] by simp
    qed
  qed
  have tilt: "inrange (-35) 35 (fmul rnd (neck_tilt d) (Fin 35))" and pitch: "inrange (-50) 50 (fmul rnd (neck_pitch d) (Fin 50))"
    using inrange_mul [OF r, of "-1" 1 "neck_tilt d" 35] inrange_mul [OF r, of "-1" 1 "neck_pitch d" 50] i by simp_all
  have "inrange 115 185 (fsub rnd (Fin 150) (fmul rnd (neck_tilt d) (Fin 35)))"
    using inrange_add [OF r, of 150 150 "Fin 150", OF _ inrange_neg [OF tilt]] by (simp add: fsub_def)
  from inrange_add [OF r this pitch] have nl: "\<exists>n. neck_left_mot rnd d = Inr n \<and> 65 \<le> n \<and> n \<le> 235"
    unfolding neck_left_mot_def by (intro inrange_to_int) simp
  have "inrange 235 305 (fadd rnd (Fin 270) (fmul rnd (neck_tilt d) (Fin 35)))"
    using inrange_add [OF r, of 270 270 "Fin 270", OF _ tilt] by simp
  from inrange_add [OF r this pitch] have nr: "\<exists>n. neck_right_mot rnd d = Inr n \<and> 185 \<le> n \<and> n \<le> 355"
    unfolding neck_right_mot_def by (intro inrange_to_int) simp
  have "inrange 0 255 (fmul rnd (mouth d) (Fin 255))" "inrange 0 127 (fmul rnd (ear_left d) (Fin 127))"
    "inrange 0 127 (fmul rnd (ear_right d) (Fin 127))"
    using inrange_mul [OF r, of 0 1 "mouth d" 255] inrange_mul [OF r ears(1), of 127] inrange_mul [OF r ears(2), of 127] i
    by simp_all
  note b = this [THEN inrange_to_int]
    lid [of "lid_left_wideness d", THEN inrange_to_int] lid [of "lid_right_wideness d", THEN inrange_to_int]
    inrange_to_int [of "-60" 60 "eye_left d"] inrange_to_int [of "-60" 60 "eye_right d"] inrange_to_int [of "-30" 30 "eyes_pitch d"]
  show ?thesis using nl nr b i by (auto simp: motion_args_def)
qed

lemma motion_packet_bounds:
  assumes "rounding rnd" "ranges inrange d" "inrange 0 1 (ear_left d)" "inrange 0 1 (ear_right d)"
  shows "\<exists>packet. motion_packet rnd d = Some packet \<and> length packet = 15
    \<and> list_all2 (\<lambda>(lo, hi) n. lo \<le> n \<and> n \<le> hi)
        [(0, 255), (0, 127), (0, 127), (0, 60), (0, 60), (-60, 60), (-60, 60), (-30, 30), (65, 235), (185, 355)]
        (unpack_fields mp_format packet)
    \<and> res_bind (neck_left_mot rnd d) (\<lambda>nl. res_bind (neck_right_mot rnd d) (\<lambda>nr. motion_args rnd nl nr d))
        = Inr (unpack_fields mp_format packet)"
proof -
  obtain args where args:
    "res_bind (neck_left_mot rnd d) (\<lambda>nl. res_bind (neck_right_mot rnd d) (\<lambda>nr. motion_args rnd nl nr d)) = Inr args"
    "list_all2 (\<lambda>(lo, hi) n. lo \<le> n \<and> n \<le> hi)
        [(0, 255), (0, 127), (0, 127), (0, 60), (0, 60), (-60, 60), (-60, 60), (-30, 30), (65, 235), (185, 355)] args"
    using motion_args_bounds [OF assms] by blast
  have "list_all2 in_field mp_format args"
    using args(2) by (auto simp: mp_format_def list_all2_Cons1)
  from pack_fields_inverse [OF this] obtain bs where
    "pack_fields (zip mp_format args) = (None, bs)" "unpack_fields mp_format bs = args" "length bs = 15"
    by (auto simp: mp_format_def)
  then show ?thesis using args by (simp add: motion_packet_def)
qed

text \<open>
  C24. When no motion update is pending, the last motion packet sent, if any, shows exactly the
  present axes, and the same holds of the LED packet. This is so after any interleaving of writes
  with the three parts of flushes, with failed packings and transmissions and with connecting and
  disconnecting, as long as no write falls between the locked part of a flush and the end of its
  transmissions, and no write of the neck between the start of a flush and its locked part. C40
  shows what the first of these writes does.
\<close>

theorem head_shows_latest_state:
  assumes "calm rnd (Idle, HeadMcuDriver_init) ops"
  shows "let d = snd (foldl (op_step rnd) (Idle, HeadMcuDriver_init) ops)
    in (mp_dirty d \<or> last_sent PACK_ID_MOTION d = None \<or> last_sent PACK_ID_MOTION d = motion_packet rnd d)
     \<and> (leds_dirty d \<or> last_sent PACK_ID_LEDS d = None \<or> last_sent PACK_ID_LEDS d = led_packet d)"
proof -
  have "synced rnd HeadMcuDriver_init" by (simp add: synced_def in_step_def last_sent_def HeadMcuDriver_init_def)
  then have "synced rnd (snd (foldl (op_step rnd) (Idle, HeadMcuDriver_init) ops))"
    using calm_synced [OF assms] by simp
  then show ?thesis by (simp add: Let_def synced_def in_step_def)
qed

theorem head_shows_latest_state_witness:
  "let d = snd (foldl (op_step (\<lambda>a. a)) (Idle, HeadMcuDriver_init)
       [OpWrite (Some MOUTH) PosInf, OpFlush, OpWrite (Some EYE_L) (Fin (- 90)), OpLocked, OpSend Sent Sent])
   in \<not> mp_dirty d \<and> last_sent PACK_ID_MOTION d = motion_packet (\<lambda>a. a) d"
proof -
  let ?ops = "[OpWrite (Some MOUTH) PosInf, OpFlush, OpWrite (Some EYE_L) (Fin (- 90)), OpLocked, OpSend Sent Sent]"
  let ?d = "snd (foldl (op_step (\<lambda>a. a)) (Idle, HeadMcuDriver_init) ?ops)"
  note eval = neck_left_mot_def neck_right_mot_def motion_args_def mp_format_def fmul_def fadd_def fsub_def trunc_def
    head_write_def write_axis_def mark_dirty_def clamp_def flt_def LED_AXIS_def HeadMcuDriver_init_def
    flush_neck_def flush_locked_def flush_io_def struct_pack_into_def last_sent_def
  have "calm (\<lambda>a. a) (Idle, HeadMcuDriver_init) ?ops" by (simp add: eval)
  from head_shows_latest_state [OF this]
  have "mp_dirty ?d \<or> last_sent PACK_ID_MOTION ?d = None \<or> last_sent PACK_ID_MOTION ?d = motion_packet (\<lambda>a. a) ?d"
    unfolding Let_def by blast
  moreover have "\<not> mp_dirty ?d" "last_sent PACK_ID_MOTION ?d \<noteq> None" by (simp_all add: eval)
  ultimately show ?thesis unfolding Let_def by blast
qed

text \<open>
  C25. Whatever numbers are written to the axes, in or out of range, as long as none is NaN and the ears are
  not turned back, the motion packet exists, has 15 bytes, and the values the board reads from it are the
  scaled and truncated axes, each in its mechanical range.
\<close>

theorem motion_packet_in_range:
  assumes "rounding rnd" "list_all numeric_event es" "d = foldl (head_step rnd) HeadMcuDriver_init es"
    and "inrange 0 1 (ear_left d)" "inrange 0 1 (ear_right d)"
  shows "\<exists>packet. motion_packet rnd d = Some packet \<and> length packet = 15
    \<and> list_all2 (\<lambda>(lo, hi) n. lo \<le> n \<and> n \<le> hi)
        [(0, 255), (0, 127), (0, 127), (0, 60), (0, 60), (-60, 60), (-60, 60), (-30, 30), (65, 235), (185, 355)]
        (unpack_fields mp_format packet)
    \<and> res_bind (neck_left_mot rnd d) (\<lambda>nl. res_bind (neck_right_mot rnd d) (\<lambda>nr. motion_args rnd nl nr d))
        = Inr (unpack_fields mp_format packet)"
  using run_inrange [OF init_ranges assms(2)] assms by (intro motion_packet_bounds) simp_all

text \<open>Exact arithmetic is a rounding.\<close>

lemma exact_rounding: "rounding (\<lambda>a. a)"
  by (simp add: rounding_def mono_def)

definition sample_head :: HeadMcuDriver where
  "sample_head = foldl (head_step (\<lambda>a. a)) HeadMcuDriver_init [HeadWrite (Some MOUTH) PosInf, HeadWrite (Some EYE_L) (Fin (- 90))]"

lemma sample_head_eq: "sample_head = HeadMcuDriver_init\<lparr>mp_dirty := True, eye_left := Fin (- 60)\<rparr>"
  by (simp add: sample_head_def head_write_def write_axis_def mark_dirty_def clamp_def flt_def LED_AXIS_def HeadMcuDriver_init_def)

theorem motion_packet_in_range_witness:
  "\<exists>packet. motion_packet (\<lambda>a. a) sample_head = Some packet \<and> length packet = 15
    \<and> unpack_fields mp_format packet = [255, 0, 0, 20, 20, -60, 0, 0, 150, 270]"
proof -
  have "res_bind (neck_left_mot (\<lambda>a. a) sample_head) (\<lambda>nl. res_bind (neck_right_mot (\<lambda>a. a) sample_head)
      (\<lambda>nr. motion_args (\<lambda>a. a) nl nr sample_head)) = Inr [255, 0, 0, 20, 20, -60, 0, 0, 150, 270]"
    by (simp add: neck_left_mot_def neck_right_mot_def motion_args_def sample_head_eq HeadMcuDriver_init_def fmul_def fadd_def
        fsub_def trunc_def)
  then show ?thesis using motion_packet_in_range [OF exact_rounding _ sample_head_def]
    by (auto simp: sample_head_eq HeadMcuDriver_init_def)
qed

text \<open>
  A new head driver can never be started: \<open>begin\<close> ends with a flush, which reports failure when nothing is
  pending, so whatever the device answers \<open>begin\<close> does not succeed. When the device was opened it stays open,
  and \<open>deinit\<close> does not close it. With one axis written before, \<open>begin\<close> succeeds if the device cooperates.
\<close>

theorem fresh_head_cannot_begin:
  "(let (r, d) = head_begin rnd ans HeadMcuDriver_init
    in r \<noteq> Inr True \<and> \<not> head_initialized d \<and> head_open d = ans_open ans \<and> head_deinit sent d = (Inr True, d)) \<and>
   fst (head_begin (\<lambda>a. a) \<lparr>ans_open = True, ans_name = DEVICE_NAME, ans_init_sent = Sent, ans_ack = True,
      ans_begin_sent = Sent, ans_motion_sent = Sent, ans_leds_sent = Sent\<rparr> sample_head) = Inr True"
proof
  show "let (r, d) = head_begin rnd ans HeadMcuDriver_init
    in r \<noteq> Inr True \<and> \<not> head_initialized d \<and> head_open d = ans_open ans \<and> head_deinit sent d = (Inr True, d)"
    by (simp add: head_begin_def head_flush_def flush_pack_eq head_log_def head_deinit_def HeadMcuDriver_init_def Let_def)
  show "fst (head_begin (\<lambda>a. a) \<lparr>ans_open = True, ans_name = DEVICE_NAME, ans_init_sent = Sent, ans_ack = True,
      ans_begin_sent = Sent, ans_motion_sent = Sent, ans_leds_sent = Sent\<rparr> sample_head) = Inr True"
    by (simp add: head_begin_def head_flush_def flush_pack_eq flush_io_def head_log_def Let_def sample_head_eq HeadMcuDriver_init_def
        neck_left_mot_def neck_right_mot_def motion_args_def mp_format_def fmul_def fadd_def fsub_def trunc_def struct_pack_into_def)
qed

text \<open>
  An ear turned back, which the driver accepts down to \<open>-1\<close>, is scaled to a negative number that the
  unsigned byte of the packet cannot hold: from then on a flush sends nothing at all, neither motion nor
  LEDs, and does not report success, until the ear is written again.
\<close>

theorem ear_back_blocks_flush:
  assumes "rounding rnd" "mp_dirty d" "ear_left d = Fin a \<or> ear_right d = Fin a" "a * 127 \<le> -1"
  shows "fst (head_flush rnd motion leds d) \<noteq> Inr True \<and> head_sent (snd (head_flush rnd motion leds d)) = head_sent d
    \<and> mp_dirty (snd (head_flush rnd motion leds d)) \<and> leds_dirty (snd (head_flush rnd motion leds d)) = leds_dirty d"
proof -
  have "rnd (a * 127) \<le> -1" using rounding_upper [OF assms(1), of "a * 127" "-1"] assms(4) by simp
  then have neg: "trunc (rnd (a * 127)) < 0" unfolding trunc_def by simp
  obtain ph d1 where p: "flush_pack rnd d = (ph, d1)" by (cases "flush_pack rnd d")
  have "ph \<noteq> Packed"
  proof
    assume "ph = Packed"
    then obtain nl nr args where "motion_args rnd nl nr d = Inr args" "fst (pack_fields (zip mp_format args)) = None"
      using flush_pack_motion [of rnd d d1] p assms(2)
      by (auto simp: motion_packet_def res_bind_Inr split: sum.splits if_splits)
    moreover from this have "(FB, trunc (rnd (a * 127))) \<in> set (zip mp_format args)"
      using assms(3) by (auto simp: motion_args_def res_bind_Inr mp_format_def fmul_def)
    ultimately show False using pack_fields_bad [of FB "trunc (rnd (a * 127))"] neg by fastforce
  qed
  moreover have "ph \<noteq> NothingPending" using p assms(2) by (auto simp: flush_pack_eq Let_def split: sum.splits prod.splits option.splits if_splits)
  ultimately show ?thesis using p flush_pack_frame [of rnd d] assms(2) by (cases ph) (simp_all add: head_flush_def)
qed

theorem ear_back_blocks_flush_witness:
  "let d = snd (head_write (\<lambda>a. a) (Some EAR_L) (Fin (- 1)) HeadMcuDriver_init)
   in fst (head_flush (\<lambda>a. a) Sent Sent d) \<noteq> Inr True \<and> head_sent (snd (head_flush (\<lambda>a. a) Sent Sent d)) = []"
  using ear_back_blocks_flush [OF exact_rounding, of "snd (head_write (\<lambda>a. a) (Some EAR_L) (Fin (- 1)) HeadMcuDriver_init)" "-1" Sent Sent]
  by (simp add: head_write_def write_axis_def mark_dirty_def clamp_def flt_def LED_AXIS_def HeadMcuDriver_init_def)

text \<open>
  C40. The driver is not safe against a write from another thread during a flush: a motion axis written after
  the packets were built and before they were sent is marked as flushed although the packet sent shows the
  old axes, and later flushes do not send it either, until some motion axis is written again.
\<close>

theorem write_during_flush_is_lost:
  assumes "flush_pack rnd d = (Packed, d1)" "mp_dirty d" "a \<notin> LED_AXIS"
    and "head_write rnd (Some a) v d1 = (WriteOK, d2)" "flush_io Sent leds d2 = (r, d3)"
  shows "\<not> mp_dirty d3 \<and> motion_packet rnd d3 = motion_packet rnd d2
    \<and> last_sent PACK_ID_MOTION d3 = motion_packet rnd d
    \<and> last_sent PACK_ID_MOTION (snd (head_flush rnd motion' leds' d3)) = motion_packet rnd d"
proof -
  have ax: "axes d3 = axes d2" using axes_io [of Sent leds d2] assms(5) by simp
  obtain d' where w: "set_axis rnd a v d1 = Inr d'" "d2 = mark_dirty a d'"
    using assms(4) by (cases rule: write_cases [of rnd "Some a" v d1]) simp_all
  have buf: "motionpack_buffer d2 = motionpack_buffer d1" "head_sent d2 = head_sent d1" "mp_dirty d2"
    using w assms(3) set_axis_frame(1) [OF w(1)] by (cases a; auto simp: res_bind_Inr)+
  have mp: "motion_packet rnd d = Some (motionpack_buffer d1)" by (rule flush_pack_motion [OF assms(1,2)])
  have d3: "\<not> mp_dirty d3" "last_sent PACK_ID_MOTION d3 = motion_packet rnd d"
    using assms(5) buf mp by (auto simp: flush_io_def Let_def last_sent_def id_defs split: if_splits)
  have "last_sent PACK_ID_MOTION (snd (head_flush rnd motion' leds' d3)) = last_sent PACK_ID_MOTION d3"
    using d3(1) flush_pack_frame [of rnd d3]
    by (cases "flush_pack rnd d3"; cases "fst (flush_pack rnd d3)")
      (auto simp: head_flush_def flush_io_def Let_def last_sent_def id_defs)
  then show ?thesis using d3 packet_cong(1) [OF ax] by simp
qed

theorem write_during_flush_is_lost_witness:
  "let d1 = snd (flush_pack (\<lambda>a. a) sample_head);
       d2 = snd (head_write (\<lambda>a. a) (Some MOUTH) (Fin 0) d1);
       d3 = snd (flush_io Sent Sent d2)
   in \<not> mp_dirty d3 \<and> last_sent PACK_ID_MOTION d3 \<noteq> motion_packet (\<lambda>a. a) d3"
proof -
  let ?rnd = "\<lambda>a :: real. a"
  let ?d1 = "snd (flush_pack ?rnd sample_head)"
  let ?d2 = "snd (head_write ?rnd (Some MOUTH) (Fin 0) ?d1)"
  note eval = sample_head_eq HeadMcuDriver_init_def neck_left_mot_def neck_right_mot_def motion_args_def mp_format_def
    fmul_def fadd_def fsub_def trunc_def
  have p: "flush_pack ?rnd sample_head = (Packed, ?d1)"
    by (simp add: flush_pack_eq struct_pack_into_def eval)
  have w: "head_write ?rnd (Some MOUTH) (Fin 0) ?d1 = (WriteOK, ?d2)"
    by (simp add: head_write_def write_axis_def)
  have io: "flush_io Sent Sent ?d2 = (fst (flush_io Sent Sent ?d2), snd (flush_io Sent Sent ?d2))" by simp
  have "motion_packet ?rnd ?d2 = motion_packet ?rnd (sample_head\<lparr>mouth := Fin 0\<rparr>)"
    by (rule packet_cong) (simp add: flush_pack_eq struct_pack_into_def eval head_write_def write_axis_def mark_dirty_def axes_def
        clamp_def flt_def LED_AXIS_def)
  moreover have "motion_packet ?rnd (sample_head\<lparr>mouth := Fin 0\<rparr>) \<noteq> motion_packet ?rnd sample_head"
    by (simp add: motion_packet_def eval pack_field_def)
  ultimately show ?thesis
    using write_during_flush_is_lost [OF p _ _ w io, of Sent Sent] by (simp add: Let_def sample_head_eq LED_AXIS_def)
qed

end
