(* ===== verification/Plugins.thy ===== *)
theory Plugins
  imports Motionframe HwController McuDrivers
begin

text \<open>
  The hardware controllers that ship with the hardware manager (\<open>hardware_mng/builtin_plugins\<close>): the
  head controller of the default character (\<open>teodore_plugins.py\<close>), which puts the base class of
  \<open>HwController\<close> on top of the head driver of \<open>McuDrivers\<close>, and the bridge to the simulator
  (\<open>sim_teodore.py\<close>). The stub controllers are in \<open>BuiltinPlugins\<close>.

  What the serial device and the datagram socket gave are arguments, as in the theories below. The
  text of an exception is left to the interpreter: \<open>exc_note\<close> names its class.
\<close>

section \<open>The head controller (teodore\_plugins.py)\<close>

record HeadController =
  head_base :: HwController
  head_driver :: HeadMcuDriver

definition COMMAND_MAP :: "(int, Axis) dict" where
  "COMMAND_MAP = [(1, EYE_L)]"

definition HeadController_init :: "ctrl_error + HeadController" where
  "HeadController_init =
     res_bind (BaseHardwareController_init ''head'' 30 {}) (\<lambda>c.
       Inr \<lparr>head_base = subscribe_to_command_group (dict_keys COMMAND_MAP) c, head_driver = HeadMcuDriver_init\<rparr>)"

fun exc_note :: "mcu_error \<Rightarrow> string" where
  "exc_note ValueError = ''ValueError''"
| "exc_note mcu_error.OverflowError = ''OverflowError''"
| "exc_note mcu_error.StructError = ''struct.error''"
| "exc_note InvalidAxis = ''AttributeError''"
| "exc_note NotImplementedError = ''NotImplementedError''"
| "exc_note DeviceError = ''Exception''"

definition hw_result_of :: "mcu_error + bool \<Rightarrow> hw_result" where
  "hw_result_of r = (case r of Inl e \<Rightarrow> HwRaises (OtherException (exc_note e)) | Inr ok \<Rightarrow> HwReturns ok)"

definition head_initialize_hw :: "(real \<Rightarrow> real) \<Rightarrow> head_answers \<Rightarrow> HeadController \<Rightarrow> hw_result \<times> HeadController" where
  "head_initialize_hw rnd ans h =
     (let (r, d) = head_begin rnd ans (head_driver h) in (hw_result_of r, h\<lparr>head_driver := d\<rparr>))"

definition head_deinitialize_hw :: "send_result \<Rightarrow> HeadController \<Rightarrow> hw_result \<times> HeadController" where
  "head_deinitialize_hw sent h =
     (let (r, d) = head_deinit sent (head_driver h) in (hw_result_of r, h\<lparr>head_driver := d\<rparr>))"

definition run_command :: "(real \<Rightarrow> real) \<Rightarrow> HeadMcuDriver \<Rightarrow> MotionCommand \<Rightarrow> HeadMcuDriver" where
  "run_command rnd d command =
     (case dict_get COMMAND_MAP (mc_id command) of
        None \<Rightarrow> d
      | Some axis \<Rightarrow> snd (head_write rnd (Some axis) (Fin (mc_value command)) d))"

definition head_control ::
    "(real \<Rightarrow> real) \<Rightarrow> send_result \<Rightarrow> send_result \<Rightarrow> MotionCommand list \<Rightarrow> HeadMcuDriver \<Rightarrow> outcome \<times> HeadMcuDriver" where
  "head_control rnd motion leds commands d =
     (case head_flush rnd motion leds (foldl (run_command rnd) d commands) of
        (Inl e, d) \<Rightarrow> (Some (OtherException (exc_note e)), d)
      | (Inr _, d) \<Rightarrow> (None, d))"

text \<open>The wrapped \<open>initialize_hw\<close> and \<open>deinitialize_hw\<close> and the job of the controller's loop.\<close>

definition head_init :: "(real \<Rightarrow> real) \<Rightarrow> head_answers \<Rightarrow> HeadController \<Rightarrow> (controller_exception + bool) \<times> HeadController" where
  "head_init rnd ans h =
     (let (r, h) = head_initialize_hw rnd ans h; (out, c) = init_wrapper r (head_base h) in (out, h\<lparr>head_base := c\<rparr>))"

definition head_deinit_wrapped :: "send_result \<Rightarrow> HeadController \<Rightarrow> (controller_exception + bool) \<times> HeadController" where
  "head_deinit_wrapped sent h =
     (let (r, h) = head_deinitialize_hw sent h; (out, c) = deinit_wrapper r (head_base h) in (out, h\<lparr>head_base := c\<rparr>))"

definition head_job :: "(real \<Rightarrow> real) \<Rightarrow> send_result \<Rightarrow> send_result \<Rightarrow> MotionCommand list \<Rightarrow> HeadController \<Rightarrow> flush_result \<times> HeadController" where
  "head_job rnd motion leds incoming h =
     (let r = flush None (\<lambda>cmds. fst (head_control rnd motion leds cmds (head_driver h))) incoming (head_base h)
      in (r, h\<lparr>head_base := fl_controller r,
               head_driver := (case fl_controlled r of
                  None \<Rightarrow> head_driver h
                | Some cmds \<Rightarrow> snd (head_control rnd motion leds cmds (head_driver h)))\<rparr>))"

datatype head_event =
    TryInit head_answers
  | TryDeinit send_result
  | RunJob send_result send_result "MotionCommand list"
  | QueueConfig json

fun head_plugin_step :: "(real \<Rightarrow> real) \<Rightarrow> HeadController \<Rightarrow> head_event \<Rightarrow> HeadController" where
  "head_plugin_step rnd h (TryInit ans) = snd (head_init rnd ans h)"
| "head_plugin_step rnd h (TryDeinit sent) = snd (head_deinit_wrapped sent h)"
| "head_plugin_step rnd h (RunJob motion leds incoming) = snd (head_job rnd motion leds incoming h)"
| "head_plugin_step rnd h (QueueConfig cfg) = h\<lparr>head_base := queue_config_update cfg (head_base h)\<rparr>"

section \<open>The simulator bridge (sim\_teodore.py)\<close>

definition PACKID_MOTION :: bytes where "PACKID_MOTION = [0]"
definition PACKID_PING :: bytes where "PACKID_PING = [1]"

record SimController =
  sim_base :: HwController
  sim_sent :: "bytes list"

definition sim_handler :: config_handler where
  "sim_handler = \<lparr>handler_id = 0, handler_adapter = None\<rparr>"

definition SimController_init :: "string \<Rightarrow> ctrl_error + SimController" where
  "SimController_init name =
     res_bind (BaseHardwareController_init name 30 {}) (\<lambda>c.
     res_bind (subscribe_to_config_path ''hello/there/test'' sim_handler (subscribe_to_command_group (map int [0..<100]) c)) (\<lambda>c.
     res_bind (subscribe_to_config_path ''hello/'' sim_handler c) (\<lambda>c.
     res_bind (subscribe_to_config_path ''/simple/'' sim_handler c) (\<lambda>c.
       Inr \<lparr>sim_base = c, sim_sent = []\<rparr>))))"

text \<open>\<open>struct.pack("!Bf", axisid, value)\<close>: no padding, most significant byte first.\<close>

definition encode_motion :: "real float_lib \<Rightarrow> MotionCommand \<Rightarrow> struct_error + bytes" where
  "encode_motion fl cmd =
     (if mc_id cmd < 0 \<or> 255 < mc_id cmd then Inl struct_error.StructError
      else case to_f32 fl (mc_value cmd) of
        None \<Rightarrow> Inl FloatTooLarge
      | Some w \<Rightarrow> Inr (PACKID_MOTION @ bytes_be 1 (nat (mc_id cmd)) @ bytes_be 4 (unat w)))"

text \<open>\<open>sendto\<close> takes the datagram or raises.\<close>

fun sim_control :: "real float_lib \<Rightarrow> (bytes \<Rightarrow> bool) \<Rightarrow> MotionCommand list \<Rightarrow> bytes list \<Rightarrow> outcome \<times> bytes list" where
  "sim_control fl sendto [] sent = (None, sent)"
| "sim_control fl sendto (cmd # cmds) sent =
     (case encode_motion fl cmd of
        Inl e \<Rightarrow> (Some (OtherException ''struct.error''), sent)
      | Inr encoded \<Rightarrow>
          if sendto encoded then sim_control fl sendto cmds (sent @ [encoded])
          else (Some (OtherException ''OSError''), sent))"

text \<open>\<open>PeerUDP.recv\<close>: \<open>None\<close> if \<open>select\<close> reported nothing, else what \<open>recvfrom\<close> gave, where \<open>None\<close> is
  \<open>BlockingIOError\<close>. A datagram of another sender is dropped.\<close>

definition SIMULATOR_ADDRESS :: "string \<times> nat" where
  "SIMULATOR_ADDRESS = (''172.26.32.1'', 500)"

definition PeerUDP_recv :: "string \<times> nat \<Rightarrow> (bytes \<times> string \<times> nat) option option \<Rightarrow> bytes option" where
  "PeerUDP_recv peer_addr ready =
     (case ready of
        None \<Rightarrow> None
      | Some None \<Rightarrow> None
      | Some (Some (datagram, addr)) \<Rightarrow> if addr = peer_addr then Some datagram else None)"

definition sim_ping :: "(bytes \<Rightarrow> bool) \<Rightarrow> (bytes \<times> string \<times> nat) option option \<Rightarrow> SimController \<Rightarrow> hw_result \<times> SimController" where
  "sim_ping sendto ready s =
     (if \<not> sendto PACKID_PING then (HwRaises (OtherException ''OSError''), s)
      else (HwReturns (PeerUDP_recv SIMULATOR_ADDRESS ready = Some PACKID_PING), s\<lparr>sim_sent := sim_sent s @ [PACKID_PING]\<rparr>))"

definition sim_init ::
    "(bytes \<Rightarrow> bool) \<Rightarrow> (bytes \<times> string \<times> nat) option option \<Rightarrow> SimController \<Rightarrow> (controller_exception + bool) \<times> SimController" where
  "sim_init sendto ready s =
     (let (r, s) = sim_ping sendto ready s; (out, c) = init_wrapper r (sim_base s) in (out, s\<lparr>sim_base := c\<rparr>))"

definition sim_deinit :: "SimController \<Rightarrow> (controller_exception + bool) \<times> SimController" where
  "sim_deinit s = (let (out, c) = deinit_wrapper (HwReturns True) (sim_base s) in (out, s\<lparr>sim_base := c\<rparr>))"

definition sim_job :: "real float_lib \<Rightarrow> (bytes \<Rightarrow> bool) \<Rightarrow> MotionCommand list \<Rightarrow> SimController \<Rightarrow> flush_result \<times> SimController" where
  "sim_job fl sendto incoming s =
     (let r = flush None (\<lambda>cmds. fst (sim_control fl sendto cmds (sim_sent s))) incoming (sim_base s)
      in (r, s\<lparr>sim_base := fl_controller r,
               sim_sent := (case fl_controlled r of
                  None \<Rightarrow> sim_sent s
                | Some cmds \<Rightarrow> snd (sim_control fl sendto cmds (sim_sent s)))\<rparr>))"

text \<open>What the simulator reads from a motion packet.\<close>

definition decode_motion :: "real float_lib \<Rightarrow> bytes \<Rightarrow> int \<times> real" where
  "decode_motion fl b =
     (int (nat_of_bytes_be (take 1 (drop 1 b))), of_f32 fl (word_of_nat (nat_of_bytes_be (take 4 (drop 2 b)))))"

section \<open>The head never comes up\<close>

text \<open>The state of a head controller before its hardware is initialized: nothing was written.\<close>

definition untouched :: "HeadController \<Rightarrow> bool" where
  "untouched h \<longleftrightarrow> \<not> ctrl_initialized (head_base h) \<and> \<not> mp_dirty (head_driver h) \<and> \<not> leds_dirty (head_driver h)
     \<and> \<not> head_initialized (head_driver h) \<and> list_all (\<lambda>(pid, data). pid = PACK_ID_CONTROL) (head_sent (head_driver h))"

lemma log_untouched [simp]:
  "mp_dirty (head_log p x r d) = mp_dirty d" "leds_dirty (head_log p x r d) = leds_dirty d"
  "head_initialized (head_log p x r d) = head_initialized d"
  by (simp_all add: head_log_def)

lemma clean_begin:
  assumes "\<not> mp_dirty d" "\<not> leds_dirty d" "\<not> head_initialized d" "list_all (\<lambda>(pid, data). pid = PACK_ID_CONTROL) (head_sent d)"
  shows "fst (head_begin rnd ans d) \<noteq> Inr True \<and> \<not> mp_dirty (snd (head_begin rnd ans d)) \<and> \<not> leds_dirty (snd (head_begin rnd ans d))
    \<and> \<not> head_initialized (snd (head_begin rnd ans d))
    \<and> list_all (\<lambda>(pid, data). pid = PACK_ID_CONTROL) (head_sent (snd (head_begin rnd ans d)))"
  using assms by (simp add: head_begin_def head_flush_def flush_pack_eq Let_def) (simp add: head_log_def)

lemma untouched_init:
  assumes "untouched h"
  shows "untouched (snd (head_init rnd ans h)) \<and> fst (head_init rnd ans h) \<noteq> Inr True"
  using assms clean_begin [of "head_driver h" rnd ans]
  by (auto simp: untouched_def head_init_def head_initialize_hw_def hw_result_of_def Let_def split: prod.splits sum.splits)

lemma untouched_step: "untouched h \<Longrightarrow> untouched (head_plugin_step rnd h e)"
proof (cases e)
  case (TryInit ans)
  then show "untouched h \<Longrightarrow> ?thesis" using untouched_init by simp
qed (auto simp: untouched_def head_deinit_wrapped_def head_deinitialize_hw_def head_deinit_def hw_result_of_def head_job_def flush_def
      queue_config_update_def)

interpretation head_plugin: event_machine "head_plugin_step rnd" untouched for rnd
  by unfold_locales (rule untouched_step)

text \<open>
  C39. The head of the default character can never be put into operation: whatever the device answers, however
  often initialization is retried, and whatever commands arrive, \<open>initialize_hw\<close> never returns \<open>True\<close>, the
  controller never counts as initialized, and no motion ever reaches the device. The driver's \<open>begin\<close> ends with a
  flush that reports failure when nothing is pending, and nothing can be pending as long as \<open>control\<close> is not called.
\<close>

theorem head_never_comes_up:
  "\<exists>h. HeadController_init = Inr h
    \<and> (\<forall>rnd es ans. \<not> ctrl_initialized (head_base (foldl (head_plugin_step rnd) h es))
        \<and> fst (head_init rnd ans (foldl (head_plugin_step rnd) h es)) \<noteq> Inr True
        \<and> list_all (\<lambda>(pid, data). pid = PACK_ID_CONTROL) (head_sent (head_driver (foldl (head_plugin_step rnd) h es))))"
proof -
  obtain h where h: "HeadController_init = Inr h" "untouched h"
    by (simp add: HeadController_init_def BaseHardwareController_init_def untouched_def subscribe_to_command_group_def HeadMcuDriver_init_def)
  have "untouched (foldl (head_plugin_step rnd) h es)" for rnd es by (rule head_plugin.run_inv) (rule h(2))
  then show ?thesis using h(1) untouched_init by (intro exI [of _ h]) (auto simp: untouched_def)
qed

section \<open>The simulator gets every command\<close>

definition sim_packable :: "real float_lib \<Rightarrow> MotionCommand \<Rightarrow> bool" where
  "sim_packable fl cmd \<longleftrightarrow> 0 \<le> mc_id cmd \<and> mc_id cmd \<le> 255 \<and> to_f32 fl (mc_value cmd) \<noteq> None"

lemma encode_motion_ok:
  assumes "sim_packable fl cmd"
  shows "\<exists>b. encode_motion fl cmd = Inr b \<and> length b = 6
    \<and> decode_motion fl b = (mc_id cmd, of_f32 fl (the (to_f32 fl (mc_value cmd))))"
proof -
  obtain w where w: "to_f32 fl (mc_value cmd) = Some w" using assms by (auto simp: sim_packable_def)
  have "nat_of_bytes_be (bytes_be 1 (nat (mc_id cmd))) = nat (mc_id cmd)"
    using assms by (intro nat_of_bytes_be_inverse) (simp add: sim_packable_def nat_less_iff)
  moreover have "unat w < 256 ^ 4" using unsigned_less [of w, where ?'a = nat] by simp
  then have "nat_of_bytes_be (bytes_be 4 (unat w)) = unat w" by (rule nat_of_bytes_be_inverse)
  ultimately show ?thesis using assms w
    by (simp add: encode_motion_def decode_motion_def sim_packable_def PACKID_MOTION_def)
qed

lemma sim_control_ok:
  assumes "list_all (sim_packable fl) cmds" "\<And>b. length b = 6 \<Longrightarrow> sendto b"
  shows "\<exists>bs. sim_control fl sendto cmds sent = (None, sent @ bs) \<and> list_all (\<lambda>b. length b = 6) bs
    \<and> map (decode_motion fl) bs = map (\<lambda>c. (mc_id c, of_f32 fl (the (to_f32 fl (mc_value c))))) cmds"
  using assms(1)
proof (induction cmds arbitrary: sent)
  case (Cons c cmds)
  obtain b where b: "encode_motion fl c = Inr b" "length b = 6" "decode_motion fl b = (mc_id c, of_f32 fl (the (to_f32 fl (mc_value c))))"
    using encode_motion_ok Cons.prems by fastforce
  obtain bs where "sim_control fl sendto cmds (sent @ [b]) = (None, (sent @ [b]) @ bs)" "list_all (\<lambda>b. length b = 6) bs"
    "map (decode_motion fl) bs = map (\<lambda>c. (mc_id c, of_f32 fl (the (to_f32 fl (mc_value c))))) cmds"
    using Cons.IH [of "sent @ [b]"] Cons.prems by auto
  then show ?case using b assms(2) by (intro exI [of _ "b # bs"]) simp
qed simp

lemma subscribe_keeps_group:
  "subscribe_to_config_path path h c = Inr c' \<Longrightarrow> command_group c' = command_group c \<and> flush_freq c' = flush_freq c"
  by (auto simp: subscribe_to_config_path_def split: sum.splits)

lemma sim_command_group:
  assumes "SimController_init name = Inr s"
  shows "command_group (sim_base s) = int ` {0..<100}" "flush_freq (sim_base s) = 30"
proof -
  obtain c c1 c2 where "BaseHardwareController_init name 30 {} = Inr c"
    "subscribe_to_config_path ''hello/there/test'' sim_handler (subscribe_to_command_group (map int [0..<100]) c) = Inr c1"
    "subscribe_to_config_path ''hello/'' sim_handler c1 = Inr c2" "subscribe_to_config_path ''/simple/'' sim_handler c2 = Inr (sim_base s)"
    using assms unfolding SimController_init_def res_bind_Inr by fastforce
  then show "command_group (sim_base s) = int ` {0..<100}" "flush_freq (sim_base s) = 30"
    by (auto dest!: subscribe_keeps_group simp: subscribe_to_command_group_def BaseHardwareController_init_def simp del: upt_rec_numeral)
qed

lemma sim_gets_every_command_lemma:
  assumes "SimController_init name = Inr s0" "command_group (sim_base s) = command_group (sim_base s0)" "ctrl_initialized (sim_base s)"
    and "\<forall>c \<in> set cmds. mc_id c \<in> command_group (sim_base s) \<and> to_f32 fl (mc_value c) \<noteq> None"
    and "\<forall>b. length b = 6 \<longrightarrow> sendto b"
  shows "\<exists>bs. sim_sent (snd (sim_job fl sendto cmds s)) = sim_sent s @ bs \<and> list_all (\<lambda>b. length b = 6) bs
    \<and> map (decode_motion fl) bs = map (\<lambda>c. (mc_id c, of_f32 fl (the (to_f32 fl (mc_value c))))) cmds
    \<and> fl_request (fst (sim_job fl sendto cmds s)) = None \<and> ctrl_initialized (sim_base (snd (sim_job fl sendto cmds s)))"
proof -
  have "command_group (sim_base s) = int ` {0..<100}" using sim_command_group(1) [OF assms(1)] assms(2) by simp
  then have "list_all (sim_packable fl) cmds" using assms(4) by (auto simp: list_all_iff sim_packable_def)
  then obtain bs where bs: "sim_control fl sendto cmds (sim_sent s) = (None, sim_sent s @ bs)" "list_all (\<lambda>b. length b = 6) bs"
    "map (decode_motion fl) bs = map (\<lambda>c. (mc_id c, of_f32 fl (the (to_f32 fl (mc_value c))))) cmds"
    using sim_control_ok [of fl cmds sendto "sim_sent s"] assms(5) by blast
  then show ?thesis using assms(3) by (simp add: sim_job_def flush_def execute_queued_config_updates_def Let_def)
qed

text \<open>
  The simulator gets what the bridge is given: one job of an initialized bridge with queued commands that the
  bridge subscribed to and whose values have single-precision representations sends one packet of six bytes per command, in
  order, from which the simulator reads the id and the rounded value; it raises nothing, so the loop goes on.
\<close>

theorem sim_gets_every_command:
  assumes "SimController_init name = Inr s0" "command_group (sim_base s) = command_group (sim_base s0)" "ctrl_initialized (sim_base s)"
    and "\<forall>c \<in> set cmds. mc_id c \<in> command_group (sim_base s) \<and> to_f32 fl (mc_value c) \<noteq> None"
    and "\<forall>b. length b = 6 \<longrightarrow> sendto b"
  shows "\<exists>bs. sim_sent (snd (sim_job fl sendto cmds s)) = sim_sent s @ bs \<and> list_all (\<lambda>b. length b = 6) bs
    \<and> map (decode_motion fl) bs = map (\<lambda>c. (mc_id c, of_f32 fl (the (to_f32 fl (mc_value c))))) cmds
    \<and> fl_request (fst (sim_job fl sendto cmds s)) = None \<and> ctrl_initialized (sim_base (snd (sim_job fl sendto cmds s)))"
  by (rule sim_gets_every_command_lemma [OF assms])

definition floor_lib :: "real float_lib" where
  "floor_lib = \<lparr>to_f32 = (\<lambda>x. if 0 \<le> x \<and> x < 2 ^ 32 then Some (word_of_int \<lfloor>x\<rfloor>) else None),
     cast_f32 = (\<lambda>x. word_of_int \<lfloor>x\<rfloor>), of_f32 = (\<lambda>w. real_of_int (uint w))\<rparr>"

lemma sim_init_ok: "\<exists>s. SimController_init name = Inr s"
  by (simp add: SimController_init_def BaseHardwareController_init_def subscribe_to_config_path_def cleanup_path_def SPECIAL_PATH_CHARS_def
      del: upt_rec_numeral)

theorem sim_gets_every_command_witness:
  "\<exists>s0 bs. SimController_init ''sim'' = Inr s0
    \<and> sim_sent (snd (sim_job floor_lib (\<lambda>b. length b < 100) [\<lparr>mc_id = 7, mc_value = 3\<rparr>, \<lparr>mc_id = 99, mc_value = 0\<rparr>]
        (s0\<lparr>sim_base := (sim_base s0)\<lparr>ctrl_initialized := True\<rparr>\<rparr>))) = sim_sent s0 @ bs
    \<and> map (decode_motion floor_lib) bs = [(7, 3), (99, 0)]"
proof -
  obtain s0 where s0: "SimController_init ''sim'' = Inr s0" using sim_init_ok by blast
  let ?s = "s0\<lparr>sim_base := (sim_base s0)\<lparr>ctrl_initialized := True\<rparr>\<rparr>"
  let ?cmds = "[\<lparr>mc_id = 7, mc_value = 3\<rparr>, \<lparr>mc_id = 99, mc_value = 0\<rparr>]"
  have "\<exists>bs. sim_sent (snd (sim_job floor_lib (\<lambda>b. length b < 100) ?cmds ?s)) = sim_sent ?s @ bs \<and> list_all (\<lambda>b. length b = 6) bs
    \<and> map (decode_motion floor_lib) bs = map (\<lambda>c. (mc_id c, of_f32 floor_lib (the (to_f32 floor_lib (mc_value c))))) ?cmds
    \<and> fl_request (fst (sim_job floor_lib (\<lambda>b. length b < 100) ?cmds ?s)) = None
    \<and> ctrl_initialized (sim_base (snd (sim_job floor_lib (\<lambda>b. length b < 100) ?cmds ?s)))"
    by (rule sim_gets_every_command [OF s0]) (simp_all add: sim_command_group [OF s0] floor_lib_def image_iff Bex_def)
  then obtain bs where "sim_sent (snd (sim_job floor_lib (\<lambda>b. length b < 100) ?cmds ?s)) = sim_sent s0 @ bs"
    "map (decode_motion floor_lib) bs = [(7, 3), (99, 0)]" by (auto simp: floor_lib_def)
  with s0 show ?thesis by (intro exI [of _ s0] exI [of _ bs]) simp
qed


section \<open>When the bridge comes up\<close>

text \<open>The bridge is initialized exactly by an answer of the simulator itself to its ping, and a bridge that was
  switched off hands no command on until it is answered again.\<close>

lemma sim_comes_up_iff:
  assumes "\<not> ctrl_initialized (sim_base s)"
  shows "ctrl_initialized (sim_base (snd (sim_init sendto ready s))) \<longleftrightarrow>
    sendto PACKID_PING \<and> ready = Some (Some (PACKID_PING, SIMULATOR_ADDRESS))"
  using assms by (auto simp: sim_init_def sim_ping_def PeerUDP_recv_def Let_def split: option.splits prod.splits)

lemma sim_off_is_silent:
  "sim_sent (snd (sim_job fl sendto incoming (snd (sim_deinit s)))) = sim_sent s"
  by (simp add: sim_deinit_def sim_job_def flush_def Let_def split: prod.splits)

end
