(* ===== verification/Entrypoint.thy ===== *)
theory Entrypoint
  imports HwManager
begin

text \<open>
  The start of the hardware manager process (\<open>hardware_mng/entrypoint.py\<close>) from its environment variables to
  the wired node, with the plugin loader (\<open>plugins_loader.py\<close>) and the databus that the controllers
  share while they are built.

  What \<open>yaml.safe_load\<close> made of a file is an argument, and so are the modules that Python can import: a module is
  its attributes, and a controller class is its constructor, which works on the class-level databus. Opening a
  file that exists but cannot be read is an uncaught exception, which ends the process with 1.
\<close>

section \<open>Plugin loader (plugins\_loader.py)\<close>

datatype yaml_result = FileNotFound | YAMLError | UnreadableFile | YamlData json

datatype load_error = RuntimeError | Uncaught

definition load_yaml_file :: "(string \<Rightarrow> yaml_result) \<Rightarrow> string \<Rightarrow> load_error + json" where
  "load_yaml_file yaml path =
     (case yaml path of
        FileNotFound \<Rightarrow> Inl RuntimeError
      | YAMLError \<Rightarrow> Inl RuntimeError
      | UnreadableFile \<Rightarrow> Inl Uncaught
      | YamlData d \<Rightarrow> Inr (if d = JNull then JObj [] else d))"

text \<open>A constructor returns what it built, \<open>None\<close> if that is no controller; the databus keeps what was
  registered before an exception.\<close>

type_synonym ('v, 't) ctor = "('v, 't) Databus option \<Rightarrow> (ctrl_error + HwController option) \<times> ('v, 't) Databus option"

datatype ('v, 't) attr = ControllerClass "('v, 't) ctor" | OtherObject

type_synonym ('v, 't) module = "(string, ('v, 't) attr) dict"

definition import_module :: "(string \<Rightarrow> ('v, 't) module option) \<Rightarrow> string \<Rightarrow> load_error + ('v, 't) module" where
  "import_module modules path = (case modules path of None \<Rightarrow> Inl RuntimeError | Some m \<Rightarrow> Inr m)"

definition import_class :: "(string \<Rightarrow> ('v, 't) module option) \<Rightarrow> string \<Rightarrow> load_error + ('v, 't) attr" where
  "import_class modules path =
     (case split_on CHR '':'' path of
        [modulename, classname] \<Rightarrow>
          res_bind (import_module modules modulename) (\<lambda>m.
            (case dict_get m classname of None \<Rightarrow> Inl RuntimeError | Some a \<Rightarrow> Inr a))
      | _ \<Rightarrow> Inl RuntimeError)"

section \<open>The entrypoint (entrypoint.py)\<close>

definition to_lower_char :: "char \<Rightarrow> char" where
  "to_lower_char c = (let n = of_char c :: nat in if 65 \<le> n \<and> n \<le> 90 then char_of (n + 32) else c)"

record env_inputs =
  PLUGIN_DIRS :: "string list"
  CONFIG_FILES :: "string list"
  INPUT_CONFIG :: string
  STRICT_MODE :: bool

definition getenv :: "(string, string) dict \<Rightarrow> string \<Rightarrow> string \<Rightarrow> string" where
  "getenv environ k d = (case dict_get environ k of None \<Rightarrow> d | Some v \<Rightarrow> v)"

definition read_env :: "(string, string) dict \<Rightarrow> env_inputs" where
  "read_env environ =
     \<lparr>PLUGIN_DIRS = split_on CHR '':'' (getenv environ ''CONTROLLERS_PLUGIN_DIRS'' ''''),
      CONFIG_FILES = split_on CHR '':'' (getenv environ ''CONTROLLERS_CONFIG_FILES'' ''''),
      INPUT_CONFIG = getenv environ ''INPUT_CONFIG'' '''',
      STRICT_MODE = (map to_lower_char (getenv environ ''STRICT_MODE'' ''true'') = ''true'')\<rparr>"

text \<open>The configuration file read once: a file that is no mapping has no \<open>get\<close>.\<close>

definition load_dict :: "(string \<Rightarrow> yaml_result) \<Rightarrow> string \<Rightarrow> int + (string, json) dict" where
  "load_dict yaml path =
     (case load_yaml_file yaml path of
        Inl RuntimeError \<Rightarrow> Inl HWMNG_CONFIG_LOAD_FAILED
      | Inl Uncaught \<Rightarrow> Inl 1
      | Inr (JObj d) \<Rightarrow> Inr d
      | Inr _ \<Rightarrow> Inl 1)"

definition read_config :: "(string \<Rightarrow> bool) \<Rightarrow> (string \<Rightarrow> yaml_result) \<Rightarrow> env_inputs \<Rightarrow> int + (string \<times> string list)" where
  "read_config exists yaml inp =
     (let file = last_existing_path exists (CONFIG_FILES inp)
      in if file = '''' then Inl HWMNG_NO_CONFIG_FILES_SPECIFIED
         else res_bind (load_dict yaml file) (\<lambda>d. choose_config exists (\<lambda>_. Some d) (CONFIG_FILES inp) (INPUT_CONFIG inp)))"

text \<open>One round of the building loop.\<close>

definition build_controller ::
    "(string \<Rightarrow> ('v, 't) module option) \<Rightarrow> string \<Rightarrow> ('v, 't) Databus option \<Rightarrow> HwController option \<times> ('v, 't) Databus option" where
  "build_controller modules path bus =
     (case import_class modules path of
        Inl _ \<Rightarrow> (None, bus)
      | Inr OtherObject \<Rightarrow> (None, bus)
      | Inr (ControllerClass ctor) \<Rightarrow>
          (case ctor bus of
             (Inl _, bus) \<Rightarrow> (None, bus)
           | (Inr c, bus) \<Rightarrow> (c, bus)))"

fun build_controllers ::
    "(string \<Rightarrow> ('v, 't) module option) \<Rightarrow> string list \<Rightarrow> ('v, 't) Databus option \<Rightarrow> HwController list \<times> ('v, 't) Databus option" where
  "build_controllers modules [] bus = ([], bus)"
| "build_controllers modules (p # ps) bus =
     (let (c, bus) = build_controller modules p bus; (cs, bus) = build_controllers modules ps bus
      in ((case c of None \<Rightarrow> [] | Some c \<Rightarrow> [c]) @ cs, bus))"

text \<open>\<open>main\<close> up to the construction of the node: an exit code, or the wiring and the finalized databus.\<close>

definition hw_main ::
    "(string, string) dict \<Rightarrow> (string \<Rightarrow> bool) \<Rightarrow> (string \<Rightarrow> yaml_result) \<Rightarrow> (string \<Rightarrow> ('v, 't) module option)
      \<Rightarrow> int + (wiring \<times> ('v, 't) Databus)" where
  "hw_main environ exists yaml modules =
     (let inp = read_env environ
      in res_bind (read_config exists yaml inp) (\<lambda>(_, paths).
           (let (controllers, bus) = build_controllers modules paths (Some Databus_init)
            in case finalize (the bus) of
                 Inl _ \<Rightarrow> Inl HWMNG_DATABUS_FIN_ERROR
               | Inr bus \<Rightarrow>
                   res_bind (check_loaded (length controllers) (length paths) (STRICT_MODE inp)) (\<lambda>_.
                     map_sum (\<lambda>_. 1) (\<lambda>w. (w, bus)) (wire_all controllers wiring_init)))))"


section \<open>Properties\<close>

lemma map_sum_Inr: "map_sum f g r = Inr b \<longleftrightarrow> (\<exists>a. r = Inr a \<and> b = g a)"
  by (cases r) auto

lemma wire_all_pairs: "wire_all cs w = Inr w' \<Longrightarrow> map snd (w_pairs w') = map snd (w_pairs w) @ cs"
proof (induction cs arbitrary: w)
  case (Cons c cs)
  then obtain w1 where "wire_controller c w = Inr w1" "wire_all cs w1 = Inr w'" by (auto simp: res_bind_Inr)
  with Cons.IH [of w1] show ?case by (auto simp: wire_controller_def res_bind_Inr)
qed simp

lemma wire_all_total: "\<forall>c \<in> set cs. 0 < flush_freq c \<Longrightarrow> \<exists>w'. wire_all cs w = Inr w'"
proof (induction cs arbitrary: w)
  case (Cons c cs)
  then obtain w1 where "wire_controller c w = Inr w1"
    by (auto simp: wire_controller_def add_loop_def get_new_id_def Let_def)
  with Cons show ?case by simp
qed simp

lemma hw_main_started:
  assumes "read_config exists yaml (read_env environ) = Inr (name, paths)"
    and "build_controllers modules paths (Some Databus_init) = (cs, Some b)" "finalize b = Inr bus"
    and "check_loaded (length cs) (length paths) (STRICT_MODE (read_env environ)) = Inr ()" "\<forall>c \<in> set cs. 0 < flush_freq c"
  shows "\<exists>w. hw_main environ exists yaml modules = Inr (w, bus) \<and> map snd (w_pairs w) = cs"
proof -
  obtain w where "wire_all cs wiring_init = Inr w" using wire_all_total [OF assms(5)] by blast
  moreover from wire_all_pairs [OF this] have "map snd (w_pairs w) = cs" by (simp add: wiring_init_def)
  ultimately show ?thesis using assms(1-4) by (simp add: hw_main_def Let_def)
qed

lemma build_controllers_length: "length (fst (build_controllers modules ps bus)) \<le> length ps"
proof (induction ps arbitrary: bus)
  case (Cons p ps)
  obtain c b where "build_controller modules p bus = (c, b)" by fastforce
  with Cons.IH [of b] show ?case by (cases "build_controllers modules ps b") (auto split: option.splits)
qed simp

text \<open>Path by path, what the loop builds when nothing is skipped.\<close>

fun built :: "(string \<Rightarrow> ('v, 't) module option) \<Rightarrow> string list \<Rightarrow> HwController list \<Rightarrow> ('v, 't) Databus option \<Rightarrow> bool" where
  "built modules [] cs bus \<longleftrightarrow> cs = []"
| "built modules (p # ps) cs bus \<longleftrightarrow>
     (case cs of [] \<Rightarrow> False
      | c # cs \<Rightarrow> fst (build_controller modules p bus) = Some c \<and> built modules ps cs (snd (build_controller modules p bus)))"

lemma build_controllers_all:
  "length (fst (build_controllers modules ps bus)) = length ps \<Longrightarrow> built modules ps (fst (build_controllers modules ps bus)) bus"
proof (induction ps arbitrary: bus)
  case (Cons p ps)
  obtain c b where b: "build_controller modules p bus = (c, b)" by fastforce
  obtain cs b' where bs: "build_controllers modules ps b = (cs, b')" by fastforce
  have "length cs \<le> length ps" using build_controllers_length [of modules ps b] by (simp add: bs)
  with Cons.prems b bs obtain c' where "c = Some c'" "length cs = length ps" by (cases c) auto
  with Cons.IH [of b] b bs show ?case by simp
qed simp

lemma all_strings_Some: "all_strings vs = Some ss \<Longrightarrow> vs = map JStr ss"
  by (induction vs arbitrary: ss rule: all_strings.induct) auto

lemma default_name: "(case r of Some (JStr s) \<Rightarrow> Inr s | _ \<Rightarrow> Inl e) = (Inr name :: int + string) \<longleftrightarrow> r = Some (JStr name)"
proof (cases r)
  case (Some v)
  then show ?thesis by (cases v) simp_all
qed simp

lemma string_list_Some: "string_list v = Some ss \<Longrightarrow> v = JList (map JStr ss)"
  by (cases v) (simp_all add: string_list_def all_strings_Some)

lemma listed_paths:
  assumes "(case r of None \<Rightarrow> Inl e | Some JNull \<Rightarrow> Inl e'
     | Some v \<Rightarrow> (case string_list v of None \<Rightarrow> Inl e'' | Some paths \<Rightarrow> Inr (n, paths))) = (Inr (name, paths) :: int + (string \<times> string list))"
  shows "r = Some (JList (map JStr paths)) \<and> n = name"
proof (cases r)
  case (Some v)
  have "v \<noteq> JNull" using assms Some by auto
  then have "(case string_list v of None \<Rightarrow> Inl e'' | Some paths \<Rightarrow> Inr (n, paths)) = (Inr (name, paths) :: int + (string \<times> string list))"
    using assms Some by (cases v) simp_all
  then show ?thesis using Some string_list_Some [of v] by (simp split: option.splits)
qed (use assms in simp)

lemma choose_config_fixed:
  assumes "choose_config exists (\<lambda>_. Some d) files input = Inr (name, paths)"
  shows "dict_get d name = Some (JList (map JStr paths)) \<and>
    (if input = '''' then dict_get d ''default_config'' = Some (JStr name) else name = input)"
proof -
  let ?name = "if input = '''' then (case dict_get d ''default_config'' of Some (JStr s) \<Rightarrow> Inr s | _ \<Rightarrow> Inl HWMNG_NO_CONFIG_SPECIFIED)
    else Inr input"
  let ?rest = "\<lambda>n. case dict_get d n of None \<Rightarrow> Inl HWMNG_UNKNOWN_CONFIG_SPECIFIED
      | Some JNull \<Rightarrow> Inl HWMNG_UNKNOWN_CONFIG_SPECIFIED
      | Some v \<Rightarrow> (case string_list v of None \<Rightarrow> Inl HWMNG_INVALID_CONFIG_FORMAT | Some paths \<Rightarrow> Inr (n, paths))"
  have "last_existing_path exists files \<noteq> ''''" using assms by (auto simp: choose_config_def)
  then have "res_bind ?name ?rest = Inr (name, paths)"
    using assms by (simp only: choose_config_def Let_def option.case if_False)
  then obtain n where n: "?name = Inr n" and rest: "?rest n = Inr (name, paths)" unfolding res_bind_Inr by blast
  from listed_paths [OF rest] have "dict_get d name = Some (JList (map JStr paths))" "n = name" by auto
  with n show ?thesis by (cases "input = ''''") (simp_all only: if_True if_False default_name simp_thms sum.inject)
qed

text \<open>
  C7. A hardware manager that starts is complete: when \<open>main\<close> reaches the node, the configuration that was asked for
  (or the default one) is a list of paths in the file read, the databus is closed with a writer for every topic, and the
  loops belong to the controllers built, in the order of the paths; in strict mode every path of the
  configuration was imported and built, and otherwise at least one of them.
\<close>

theorem startup_is_complete:
  assumes "hw_main environ exists yaml modules = Inr (w, bus)"
  shows "\<exists>d name paths cs.
    load_dict yaml (last_existing_path exists (CONFIG_FILES (read_env environ))) = Inr d
    \<and> dict_get d name = Some (JList (map JStr paths))
    \<and> (if INPUT_CONFIG (read_env environ) = '''' then dict_get d ''default_config'' = Some (JStr name)
       else name = INPUT_CONFIG (read_env environ))
    \<and> bus_finalized bus \<and> set (dict_keys (topics bus)) \<subseteq> set (writer_topics bus)
    \<and> map snd (w_pairs w) = cs \<and> cs = fst (build_controllers modules paths (Some Databus_init))
    \<and> (if STRICT_MODE (read_env environ) then built modules paths cs (Some Databus_init) else cs \<noteq> [] \<or> paths = [])"
proof -
  let ?inp = "read_env environ"
  from assms obtain name paths where conf: "read_config exists yaml ?inp = Inr (name, paths)"
    by (auto simp: hw_main_def Let_def res_bind_Inr)
  then obtain d where d: "load_dict yaml (last_existing_path exists (CONFIG_FILES ?inp)) = Inr d"
      "choose_config exists (\<lambda>_. Some d) (CONFIG_FILES ?inp) (INPUT_CONFIG ?inp) = Inr (name, paths)"
    by (auto simp: read_config_def Let_def res_bind_Inr split: if_splits)
  obtain cs b where cs: "build_controllers modules paths (Some Databus_init) = (cs, b)" by fastforce
  from assms conf cs have fin: "finalize (the b) = Inr bus" "check_loaded (length cs) (length paths) (STRICT_MODE ?inp) = Inr ()"
    "wire_all cs wiring_init = Inr w"
    by (auto simp: hw_main_def Let_def res_bind_Inr map_sum_Inr split: sum.splits)
  have all: "built modules paths cs (Some Databus_init)" if "length cs = length paths"
    using build_controllers_all [of modules paths "Some Databus_init"] cs that by simp
  have "if STRICT_MODE ?inp then built modules paths cs (Some Databus_init) else cs \<noteq> [] \<or> paths = []"
    using fin(2) all by (auto simp: check_loaded_def split: if_splits)
  moreover have "bus_finalized bus \<and> set (dict_keys (topics bus)) \<subseteq> set (writer_topics bus)"
    using fin(1) by (auto simp: finalize_Inr simp del: set_map)
  moreover have "map snd (w_pairs w) = cs" using wire_all_pairs [OF fin(3)] by (simp add: wiring_init_def)
  ultimately show ?thesis using d(1) conjunct1 [OF choose_config_fixed [OF d(2)]] conjunct2 [OF choose_config_fixed [OF d(2)]] cs
    by (intro exI [of _ d] exI [of _ name] exI [of _ paths] exI [of _ cs]) auto
qed


definition sample_modules :: "string \<Rightarrow> (nat, nat) module option" where
  "sample_modules name = (if name = ''m'' then Some [(''K'', ControllerClass (\<lambda>b. (Inr (Some head_controller), b)))] else None)"

definition sample_environ :: "(string, string) dict" where
  "sample_environ = [(''CONTROLLERS_CONFIG_FILES'', ''a:b''), (''INPUT_CONFIG'', '''')]"

definition sample_yaml :: "string \<Rightarrow> yaml_result" where
  "sample_yaml p = YamlData (JObj [(''default_config'', JStr ''one''), (''one'', JList [JStr ''m:K''])])"

theorem startup_is_complete_witness:
  "\<exists>w bus. hw_main sample_environ (\<lambda>p. p = ''a'') sample_yaml sample_modules = Inr (w, bus)
     \<and> map snd (w_pairs w) = [head_controller] \<and> bus_finalized bus"
proof -
  have strict: "STRICT_MODE (read_env sample_environ) = True" "INPUT_CONFIG (read_env sample_environ) = ''''"
    by (simp_all add: read_env_def sample_environ_def getenv_def to_lower_char_def Let_def)
  have conf: "read_config (\<lambda>p. p = ''a'') sample_yaml (read_env sample_environ) = Inr (''one'', [''m:K''])"
    by (simp add: read_config_def read_env_def sample_environ_def sample_yaml_def getenv_def load_dict_def load_yaml_file_def
        choose_config_def string_list_def last_existing_path_def)
  have built: "build_controllers sample_modules [''m:K''] (Some Databus_init) = ([head_controller], Some Databus_init)"
    by (simp add: build_controller_def import_class_def import_module_def sample_modules_def)
  have fin: "finalize (Databus_init :: (nat, nat) Databus) = Inr (Databus_init\<lparr>bus_finalized := True\<rparr>)"
    by (simp add: finalize_def assert_topics_have_writers_def Databus_init_def)
  have "\<exists>w. hw_main sample_environ (\<lambda>p. p = ''a'') sample_yaml sample_modules = Inr (w, Databus_init\<lparr>bus_finalized := True\<rparr>)"
    using hw_main_started [OF conf built fin] by (auto simp: check_loaded_def head_controller_def)
  then obtain w where w: "hw_main sample_environ (\<lambda>p. p = ''a'') sample_yaml sample_modules = Inr (w, Databus_init\<lparr>bus_finalized := True\<rparr>)" ..
  from startup_is_complete [OF w] show ?thesis
    using w built strict
    by (auto simp: load_dict_def load_yaml_file_def sample_yaml_def)
qed

end
