(* ===== verification/BuiltinPlugins.thy ===== *)
theory BuiltinPlugins
  imports Plugins Entrypoint
begin

text \<open>
  The other controllers shipped with the hardware manager (\<open>hardware_mng/builtin_plugins\<close>): the stubs of
  \<open>teodore_plugins.py\<close>, the failing controllers of \<open>testing_plugins.py\<close>, the controllers of
  \<open>testing_databus.py\<close> that exchange data over the bus; and the modules as the
  entrypoint imports them, with the configurations of \<open>hw_configs.yaml\<close>.

  A call of \<open>random()\<close> or \<open>choice()\<close> is an argument. What a \<open>read\<close> prints is what its definition returns.
\<close>

section \<open>Stub controllers (teodore\_plugins.py)\<close>

definition BodyController_init :: "ctrl_error + HwController" where
  "BodyController_init = BaseHardwareController_init ''body'' 30 {}"

definition LeftArmController_init :: "ctrl_error + HwController" where
  "LeftArmController_init = BaseHardwareController_init ''l-arm'' 30 {}"

definition RightArmController_init :: "ctrl_error + HwController" where
  "RightArmController_init = BaseHardwareController_init ''r-arm'' 30 {}"

definition stub_initialize_hw :: hw_result where "stub_initialize_hw = HwReturns True"
definition stub_deinitialize_hw :: hw_result where "stub_deinitialize_hw = HwReturns True"
definition stub_control :: "MotionCommand list \<Rightarrow> outcome" where "stub_control commands = None"

section \<open>Controllers that fail (testing\_plugins.py)\<close>

definition faultytrue :: "real \<Rightarrow> real \<Rightarrow> bool" where
  "faultytrue random fault_chance \<longleftrightarrow> random > fault_chance"

record FaultyController =
  faulty_base :: HwController
  faulty_cnt :: nat

definition faulty_init :: "string \<Rightarrow> int list \<Rightarrow> ctrl_error + FaultyController" where
  "faulty_init name ids =
     res_bind (BaseHardwareController_init name 1 {}) (\<lambda>c.
       Inr \<lparr>faulty_base = subscribe_to_command_group ids c, faulty_cnt = 0\<rparr>)"

definition A_faulty_init :: "ctrl_error + FaultyController" where "A_faulty_init = faulty_init ''A'' [1, 2, 3]"
definition B_faulty_init :: "ctrl_error + FaultyController" where "B_faulty_init = faulty_init ''B'' [4, 5, 6]"
definition C_faulty_init :: "ctrl_error + FaultyController" where "C_faulty_init = faulty_init ''C'' [7, 8, 9]"

text \<open>The right operand of \<open>and\<close>, with its draw, is only evaluated from the sixth attempt on.\<close>

definition A_initialize_hw :: "real \<Rightarrow> FaultyController \<Rightarrow> hw_result \<times> FaultyController" where
  "A_initialize_hw random s =
     (let s = s\<lparr>faulty_cnt := Suc (faulty_cnt s)\<rparr> in (HwReturns (faulty_cnt s > 5 \<and> faultytrue random 0.5), s))"

definition A_deinitialize_hw :: "real \<Rightarrow> hw_result" where "A_deinitialize_hw random = HwReturns (faultytrue random 0.5)"
definition B_initialize_hw :: "real \<Rightarrow> hw_result" where "B_initialize_hw random = HwReturns (faultytrue random 0.6)"
definition B_deinitialize_hw :: "real \<Rightarrow> hw_result" where "B_deinitialize_hw random = HwReturns (faultytrue random 0.7)"
definition C_initialize_hw :: "real \<Rightarrow> hw_result" where "C_initialize_hw random = HwReturns (faultytrue random 0.5)"
definition C_deinitialize_hw :: "real \<Rightarrow> hw_result" where "C_deinitialize_hw random = HwReturns (faultytrue random 0.2)"

section \<open>Controllers on the databus (testing\_databus.py)\<close>

datatype bus_value = VStr string | VFloat real
datatype bus_type = TStr | TFloat

fun bus_isinstance :: "bus_value \<Rightarrow> bus_type \<Rightarrow> bool" where
  "bus_isinstance (VStr s) t \<longleftrightarrow> t = TStr"
| "bus_isinstance (VFloat x) t \<longleftrightarrow> t = TFloat"

type_synonym bus = "(bus_value, bus_type) Databus option"

text \<open>Sequencing of constructor steps that work on the bus; what was registered before an exception stays.\<close>

definition bus_bind :: "(ctrl_error + 'a) \<times> bus \<Rightarrow> ('a \<Rightarrow> bus \<Rightarrow> (ctrl_error + 'b) \<times> bus) \<Rightarrow> (ctrl_error + 'b) \<times> bus" where
  "bus_bind r f = (case r of (Inl e, b) \<Rightarrow> (Inl e, b) | (Inr a, b) \<Rightarrow> f a b)"

definition messages :: "string list" where
  "messages = [''hellothere'', ''this is a test'', ''yes definetly a test'', ''hi'', ''noway!'']"

record A_Controller =
  A_base :: HwController
  A_writer :: DataWriter
  A_writer_state :: DataWriter

definition A_init :: "bus \<Rightarrow> (ctrl_error + A_Controller) \<times> bus" where
  "A_init b =
     bus_bind (BaseHardwareController_init ''A'' 1 {}, b) (\<lambda>c b.
     bus_bind (create_databus_writer bus_isinstance ''topic/A'' TStr (VStr ''none'') b) (\<lambda>w b.
     bus_bind (create_databus_writer bus_isinstance ''A/state/x'' TFloat (VFloat 0) b) (\<lambda>ws b.
       (Inr \<lparr>A_base = subscribe_to_command_group [1, 2, 3] c, A_writer = w, A_writer_state = ws\<rparr>, b))))"

record B_Controller =
  B_base :: HwController
  B_writer :: DataWriter
  B_reader :: DataReader

text \<open>The adapter of the handler's annotation is pydantic's.\<close>

definition B_init :: "(json \<Rightarrow> json option) \<Rightarrow> bus \<Rightarrow> (ctrl_error + B_Controller) \<times> bus" where
  "B_init validate b =
     bus_bind (BaseHardwareController_init ''B'' 1 {}, b) (\<lambda>c b.
     bus_bind (subscribe_to_config_path ''hello/there'' \<lparr>handler_id = 0, handler_adapter = Some validate\<rparr>
                 (subscribe_to_command_group [4, 5, 6] c), b) (\<lambda>c b.
     bus_bind (create_databus_writer bus_isinstance ''topic/B'' TFloat (VFloat 0) b) (\<lambda>w b.
     bus_bind (create_databus_reader ''topic/A'' TStr b) (\<lambda>r b.
       (Inr \<lparr>B_base = c, B_writer = w, B_reader = r\<rparr>, b)))))"

record C_Controller =
  C_base :: HwController
  C_reader :: DataReader
  C_reader2 :: DataReader

definition C_init :: "bus \<Rightarrow> (ctrl_error + C_Controller) \<times> bus" where
  "C_init b =
     bus_bind (BaseHardwareController_init ''C'' 1 {}, b) (\<lambda>c b.
     bus_bind (create_databus_reader ''topic/A'' TStr b) (\<lambda>r b.
     bus_bind (create_databus_reader ''A/state/x'' TFloat b) (\<lambda>r2 b.
       (Inr \<lparr>C_base = subscribe_to_command_group [7, 8, 9] c, C_reader = r, C_reader2 = r2\<rparr>, b))))"

text \<open>The methods that the loops call; \<open>choice\<close> is the drawn message.\<close>

definition A_control :: "string \<Rightarrow> A_Controller \<Rightarrow> (bus_value, bus_type) Databus \<Rightarrow> (bus_value, bus_type) Databus" where
  "A_control choice a bus = data_write (A_writer a) (VStr choice) bus"

definition A_read :: "A_Controller \<Rightarrow> (bus_value, bus_type) Databus \<Rightarrow> (bus_value, bus_type) Databus" where
  "A_read a bus = data_write (A_writer_state a) (VFloat 2.2) bus"

definition B_read :: "(bus_value, bus_type) Databus \<Rightarrow> B_Controller \<Rightarrow> bus_value option \<times> B_Controller" where
  "B_read bus b = (let (msg, r) = data_read bus (B_reader b) in (msg, b\<lparr>B_reader := r\<rparr>))"

definition C_read :: "(bus_value, bus_type) Databus \<Rightarrow> C_Controller \<Rightarrow> bus_value option \<times> C_Controller" where
  "C_read bus c = (let (msg, r) = data_read bus (C_reader2 c) in (msg, c\<lparr>C_reader2 := r\<rparr>))"


section \<open>The modules and the shipped configurations\<close>

definition plain_ctor :: "ctrl_error + HwController \<Rightarrow> (bus_value, bus_type) ctor" where
  "plain_ctor r b = (map_sum id Some r, b)"

definition bus_ctor :: "('c \<Rightarrow> HwController) \<Rightarrow> (bus \<Rightarrow> (ctrl_error + 'c) \<times> bus) \<Rightarrow> (bus_value, bus_type) ctor" where
  "bus_ctor base init b = (let (r, b) = init b in (map_sum id (\<lambda>c. Some (base c)) r, b))"

text \<open>\<open>testing_plugins\<close> imports a name that the base class module does not have, so importing it raises.\<close>

definition plugin_modules :: "(json \<Rightarrow> json option) \<Rightarrow> string \<Rightarrow> (bus_value, bus_type) module option" where
  "plugin_modules validate name =
     (if name = ''teodore_plugins'' then Some
        [(''HeadController'', ControllerClass (plain_ctor (map_sum id head_base HeadController_init))),
         (''BodyController'', ControllerClass (plain_ctor BodyController_init)),
         (''LeftArmController'', ControllerClass (plain_ctor LeftArmController_init)),
         (''RightArmController'', ControllerClass (plain_ctor RightArmController_init))]
      else if name = ''sim_teodore'' then Some
        [(''BaseControllerSim'', ControllerClass (plain_ctor (map_sum id sim_base (SimController_init ''sim-bridge-controller'')))),
         (''PeerUDP'', OtherObject)]
      else if name = ''testing_databus'' then Some
        [(''A_Controller'', ControllerClass (bus_ctor A_base A_init)),
         (''B_Controller'', ControllerClass (bus_ctor B_base (B_init validate))),
         (''C_Controller'', ControllerClass (bus_ctor C_base C_init)),
         (''ConfigType'', OtherObject)]
      else None)"

definition hw_configs :: "(string, json) dict" where
  "hw_configs =
     [(''default_config'', JStr ''testing2''),
      (''teodore'', JList [JStr ''teodore_plugins:HeadController'', JStr ''teodore_plugins:BodyController'',
         JStr ''teodore_plugins:LeftArmController'', JStr ''teodore_plugins:RightArmController'']),
      (''testing'', JList [JStr ''testing_plugins:A_Controller'', JStr ''testing_plugins:B_Controller'', JStr ''testing_plugins:C_Controller'']),
      (''simulator'', JList [JStr ''sim_teodore:BaseControllerSim'']),
      (''testing2'', JList [JStr ''testing_databus:A_Controller'', JStr ''testing_databus:B_Controller'', JStr ''testing_databus:C_Controller''])]"

definition start_with :: "(json \<Rightarrow> json option) \<Rightarrow> (string, json) dict \<Rightarrow> string \<Rightarrow> string \<Rightarrow> int + (wiring \<times> (bus_value, bus_type) Databus)" where
  "start_with validate configs input strict =
     hw_main [(''CONTROLLERS_CONFIG_FILES'', ''hw_configs.yaml''), (''INPUT_CONFIG'', input), (''STRICT_MODE'', strict)]
       (\<lambda>p. p = ''hw_configs.yaml'') (\<lambda>p. YamlData (JObj configs)) (plugin_modules validate)"

definition controller_names :: "wiring \<times> 'b \<Rightarrow> string list" where
  "controller_names r = map (\<lambda>(_, c). ctrl_name c) (w_pairs (fst r))"


section \<open>What the shipped configurations start\<close>

lemma lower_true: "map to_lower_char ''true'' = ''true''"
  by (simp add: to_lower_char_def Let_def)

lemma read_shipped:
  assumes "name \<noteq> ''''" "dict_get configs name = Some (JList (map JStr paths))" "map to_lower_char strict = ''true'' \<longleftrightarrow> s"
  shows "read_config (\<lambda>p. p = ''hw_configs.yaml'') (\<lambda>p. YamlData (JObj configs))
      (read_env [(''CONTROLLERS_CONFIG_FILES'', ''hw_configs.yaml''), (''INPUT_CONFIG'', name), (''STRICT_MODE'', strict)]) = Inr (name, paths)
    \<and> STRICT_MODE (read_env [(''CONTROLLERS_CONFIG_FILES'', ''hw_configs.yaml''), (''INPUT_CONFIG'', name), (''STRICT_MODE'', strict)]) = s"
proof -
  have "all_strings (map JStr ss) = Some ss" for ss by (induction ss) simp_all
  then show ?thesis using assms
    by (simp add: read_config_def read_env_def getenv_def load_dict_def load_yaml_file_def choose_config_def string_list_def
        last_existing_path_def)
qed

lemma started_names:
  assumes "name \<noteq> ''''" "dict_get configs name = Some (JList (map JStr paths))"
    and "build_controllers (plugin_modules validate) paths (Some Databus_init) = (cs, Some b)" "finalize b = Inr bus"
    and "length cs = length paths" "\<forall>c \<in> set cs. 0 < flush_freq c"
  shows "map_sum id controller_names (start_with validate configs name strict) = Inr (map ctrl_name cs)"
proof -
  note r = read_shipped [OF assms(1,2) refl, of strict]
  have "check_loaded (length cs) (length paths) s = Inr ()" for s by (simp add: check_loaded_def assms(5))
  from hw_main_started [OF conjunct1 [OF r] assms(3,4) this assms(6)]
  obtain w where "start_with validate configs name strict = Inr (w, bus)" "map snd (w_pairs w) = cs" by (auto simp: start_with_def)
  then show ?thesis by (auto simp: controller_names_def comp_def split_beta)
qed

lemmas bus_ctor_eval = bus_ctor_def bus_bind_def create_databus_writer_def create_databus_reader_def BaseHardwareController_init_def
  subscribe_to_config_path_def subscribe_to_command_group_def cleanup_path_def SPECIAL_PATH_CHARS_def Let_def

lemma A_built:
  "\<exists>a b. A_init (Some Databus_init) = (Inr a, Some b) \<and> ctrl_name (A_base a) = ''A'' \<and> flush_freq (A_base a) = 1
    \<and> A_writer a = \<lparr>target_topic = ''topic/A''\<rparr> \<and> A_writer_state a = \<lparr>target_topic = ''A/state/x''\<rparr>
    \<and> topics b = [(''topic/A'', \<lparr>topic_name = ''topic/A'', topic_state = (Some (VStr ''none''), 1), topic_msg_type = TStr\<rparr>),
        (''A/state/x'', \<lparr>topic_name = ''A/state/x'', topic_state = (Some (VFloat 0), 1), topic_msg_type = TFloat\<rparr>)]
    \<and> writer_topics b = [''A/state/x'', ''topic/A''] \<and> \<not> bus_finalized b"
  by (simp add: A_init_def bus_ctor_eval create_writer_def require_unfinalized_def require_topic_def topic_of_def dict_has_def
      data_write_def write_topic_def set_val_def register_writer_def Databus_init_def)


text \<open>The bus that the three controllers of \<open>testing_databus\<close> leave, and what they hold.\<close>

definition shared_topics :: "(string, (bus_value, bus_type) DatabusTopic) dict" where
  "shared_topics =
     [(''topic/A'', \<lparr>topic_name = ''topic/A'', topic_state = (Some (VStr ''none''), 1), topic_msg_type = TStr\<rparr>),
      (''A/state/x'', \<lparr>topic_name = ''A/state/x'', topic_state = (Some (VFloat 0), 1), topic_msg_type = TFloat\<rparr>)]"

lemma B_built:
  assumes "topics b = shared_topics" "writer_topics b = [''A/state/x'', ''topic/A'']" "\<not> bus_finalized b"
  shows "\<exists>c b'. B_init validate (Some b) = (Inr c, Some b') \<and> ctrl_name (B_base c) = ''B'' \<and> flush_freq (B_base c) = 1
    \<and> B_reader c = \<lparr>source_topic = ''topic/A'', last_seq = 0\<rparr>
    \<and> topics b' = shared_topics @ [(''topic/B'', \<lparr>topic_name = ''topic/B'', topic_state = (Some (VFloat 0), 1), topic_msg_type = TFloat\<rparr>)]
    \<and> writer_topics b' = [''topic/B'', ''A/state/x'', ''topic/A''] \<and> \<not> bus_finalized b'"
  using assms
  by (simp add: B_init_def bus_ctor_eval create_writer_def create_reader_def require_unfinalized_def require_topic_def topic_of_def dict_has_def
      data_write_def write_topic_def set_val_def register_writer_def shared_topics_def)

lemma C_built:
  assumes "topics b = shared_topics @ ts" "\<not> bus_finalized b"
  shows "\<exists>c. C_init (Some b) = (Inr c, Some b) \<and> ctrl_name (C_base c) = ''C'' \<and> flush_freq (C_base c) = 1
    \<and> C_reader2 c = \<lparr>source_topic = ''A/state/x'', last_seq = 0\<rparr>"
  using assms
  by (simp add: C_init_def bus_ctor_eval create_reader_def require_unfinalized_def require_topic_def topic_of_def dict_has_def shared_topics_def)

text \<open>
  What the shipped configurations start, in strict mode or not: the character's controllers, the simulator bridge, and
  the three controllers that talk over the databus, in the order listed; the configuration \<open>testing\<close> never
  starts, because its module imports an exception class that does not exist, and ends with the exit
  code for controllers that failed to load.
\<close>

theorem shipped_configurations:
  "map_sum id controller_names (start_with validate hw_configs ''teodore'' strict) = Inr [''head'', ''body'', ''l-arm'', ''r-arm'']
   \<and> map_sum id controller_names (start_with validate hw_configs ''simulator'' strict) = Inr [''sim-bridge-controller'']
   \<and> map_sum id controller_names (start_with validate hw_configs ''testing2'' strict) = Inr [''A'', ''B'', ''C'']
   \<and> map_sum id controller_names (start_with validate hw_configs ''testing'' strict) = Inl HWMNG_FAILED_TO_LOAD_CONTROLLERS"
proof (intro conjI)
  have conf: "dict_get hw_configs ''teodore'' = Some (JList (map JStr [''teodore_plugins:HeadController'', ''teodore_plugins:BodyController'',
      ''teodore_plugins:LeftArmController'', ''teodore_plugins:RightArmController'']))"
    "dict_get hw_configs ''simulator'' = Some (JList (map JStr [''sim_teodore:BaseControllerSim'']))"
    "dict_get hw_configs ''testing2'' = Some (JList (map JStr [''testing_databus:A_Controller'', ''testing_databus:B_Controller'', ''testing_databus:C_Controller'']))"
    "dict_get hw_configs ''testing'' = Some (JList (map JStr [''testing_plugins:A_Controller'', ''testing_plugins:B_Controller'', ''testing_plugins:C_Controller'']))"
    by (simp_all add: hw_configs_def)
  have empty: "finalize (Databus_init :: (bus_value, bus_type) Databus) = Inr (Databus_init\<lparr>bus_finalized := True\<rparr>)"
    by (simp add: finalize_def assert_topics_have_writers_def Databus_init_def)
  show "map_sum id controller_names (start_with validate hw_configs ''teodore'' strict) = Inr [''head'', ''body'', ''l-arm'', ''r-arm'']"
    using started_names [OF _ conf(1) _ empty, of validate _ strict]
    by (simp add: build_controller_def import_class_def import_module_def plugin_modules_def plain_ctor_def HeadController_init_def
        BaseHardwareController_init_def BodyController_init_def LeftArmController_init_def RightArmController_init_def subscribe_to_command_group_def)
  obtain s where s: "SimController_init ''sim-bridge-controller'' = Inr s" using sim_init_ok by blast
  have "ctrl_name (sim_base s) = ''sim-bridge-controller''" using s
    by (auto simp: SimController_init_def BaseHardwareController_init_def subscribe_to_command_group_def subscribe_to_config_path_def
        res_bind_Inr split: sum.splits)
  then show "map_sum id controller_names (start_with validate hw_configs ''simulator'' strict) = Inr [''sim-bridge-controller'']"
    using started_names [OF _ conf(2) _ empty, of validate _ strict] s sim_command_group(2) [OF s]
    by (simp add: build_controller_def import_class_def import_module_def plugin_modules_def plain_ctor_def)
  obtain a b where a: "A_init (Some Databus_init) = (Inr a, Some b)" "ctrl_name (A_base a) = ''A''" "flush_freq (A_base a) = 1"
    "topics b = shared_topics" "writer_topics b = [''A/state/x'', ''topic/A'']" "\<not> bus_finalized b"
    using A_built unfolding shared_topics_def by blast
  from B_built [OF a(4-6), of validate] obtain c b' where b: "B_init validate (Some b) = (Inr c, Some b')" "ctrl_name (B_base c) = ''B''"
    "flush_freq (B_base c) = 1" "writer_topics b' = [''topic/B'', ''A/state/x'', ''topic/A'']" "\<not> bus_finalized b'"
    "topics b' = shared_topics @ [(''topic/B'', \<lparr>topic_name = ''topic/B'', topic_state = (Some (VFloat 0), 1), topic_msg_type = TFloat\<rparr>)]"
    by blast
  from C_built [OF b(6,5)] obtain d where c: "C_init (Some b') = (Inr d, Some b')" "ctrl_name (C_base d) = ''C''" "flush_freq (C_base d) = 1" by blast
  have "finalize b' = Inr (b'\<lparr>bus_finalized := True\<rparr>)" using b(4,6) by (simp add: finalize_Inr shared_topics_def)
  from started_names [OF _ conf(3) _ this, of validate _ strict]
  show "map_sum id controller_names (start_with validate hw_configs ''testing2'' strict) = Inr [''A'', ''B'', ''C'']"
    using a(1-3) b(1-3) c by (simp add: build_controller_def import_class_def import_module_def plugin_modules_def bus_ctor_def Let_def)
  show "map_sum id controller_names (start_with validate hw_configs ''testing'' strict) = Inl HWMNG_FAILED_TO_LOAD_CONTROLLERS"
    using read_shipped [OF _ conf(4) refl, of strict] empty
    by (simp add: start_with_def hw_main_def Let_def build_controller_def import_class_def import_module_def plugin_modules_def check_loaded_def)
qed


text \<open>
  A controller that fails to load takes the whole configuration with it when others read its topics: without the writer
  \<open>A\<close> the databus cannot be finalized and the process ends with the databus error, although the two
  readers were built and the strict mode, which alone is meant to forbid partial configurations, may be off.
\<close>

theorem lost_writer_stops_startup:
  "map_sum id controller_names (start_with validate
     [(''readers'', JList [JStr ''testing_databus:Missing'', JStr ''testing_databus:B_Controller'', JStr ''testing_databus:C_Controller''])]
     ''readers'' strict) = Inl HWMNG_DATABUS_FIN_ERROR"
proof -
  let ?b0 = "Databus_init :: (bus_value, bus_type) Databus"
  have "\<exists>c b. B_init validate (Some ?b0) = (Inr c, Some b) \<and> writer_topics b = [''topic/B''] \<and> \<not> bus_finalized b
    \<and> topics b = [(''topic/B'', \<lparr>topic_name = ''topic/B'', topic_state = (Some (VFloat 0), 1), topic_msg_type = TFloat\<rparr>),
      (''topic/A'', \<lparr>topic_name = ''topic/A'', topic_state = (None, 0), topic_msg_type = TStr\<rparr>)]"
    by (simp add: B_init_def bus_ctor_eval create_writer_def create_reader_def require_unfinalized_def require_topic_def topic_of_def dict_has_def
        data_write_def write_topic_def set_val_def register_writer_def Databus_init_def)
  then obtain c b where b: "B_init validate (Some ?b0) = (Inr c, Some b)" "writer_topics b = [''topic/B'']" "\<not> bus_finalized b"
    "topics b = [(''topic/B'', \<lparr>topic_name = ''topic/B'', topic_state = (Some (VFloat 0), 1), topic_msg_type = TFloat\<rparr>),
      (''topic/A'', \<lparr>topic_name = ''topic/A'', topic_state = (None, 0), topic_msg_type = TStr\<rparr>)]" by blast
  have "\<exists>d b'. C_init (Some b) = (Inr d, Some b') \<and> writer_topics b' = [''topic/B''] \<and> dict_has (topics b') ''topic/A''"
    using b(2-4) by (simp add: C_init_def bus_ctor_eval create_reader_def require_unfinalized_def require_topic_def topic_of_def dict_has_def)
  then obtain d b' where d: "C_init (Some b) = (Inr d, Some b')" "writer_topics b' = [''topic/B'']" "dict_has (topics b') ''topic/A''" by blast
  have "''topic/A'' \<in> set (dict_keys (topics b'))" using d(3) by (auto simp: dict_has_def dest!: map_of_SomeD intro: rev_image_eqI)
  then have "finalize b' \<noteq> Inr x" for x using d(2) by (auto simp: finalize_Inr simp del: set_map)
  then obtain e where "finalize b' = Inl e" by (cases "finalize b'") auto
  then show ?thesis
    using read_shipped [of "''readers''" _ "[''testing_databus:Missing'', ''testing_databus:B_Controller'', ''testing_databus:C_Controller'']", OF _ _ refl, of _ strict] b(1) d(1)
    by (simp add: start_with_def hw_main_def Let_def build_controller_def import_class_def import_module_def plugin_modules_def bus_ctor_def)
qed

section \<open>Data over the bus\<close>

record exchange =
  ex_bus :: "(bus_value, bus_type) Databus"
  ex_A :: A_Controller
  ex_B :: B_Controller
  ex_C :: C_Controller
  B_log :: "bus_value option list"
  C_log :: "bus_value option list"

definition exchange_init :: "(json \<Rightarrow> json option) \<Rightarrow> (ctrl_error + exchange) \<times> bus" where
  "exchange_init validate =
     bus_bind (A_init (Some Databus_init)) (\<lambda>a b.
     bus_bind (B_init validate b) (\<lambda>c b.
     bus_bind (C_init b) (\<lambda>d b.
       (case finalize (the b) of
          Inl e \<Rightarrow> (Inl (Bus_error e), b)
        | Inr bus \<Rightarrow> (Inr \<lparr>ex_bus = bus, ex_A = a, ex_B = c, ex_C = d, B_log = [], C_log = []\<rparr>, Some bus)))))"

text \<open>One method call in some loop, in any order: \<open>control\<close> or \<open>read\<close> of A, \<open>read\<close> of B, \<open>read\<close> of C.\<close>

datatype exchange_event = A_controls string | A_reads | B_reads | C_reads

fun exchange_step :: "exchange \<Rightarrow> exchange_event \<Rightarrow> exchange" where
  "exchange_step s (A_controls choice) = s\<lparr>ex_bus := A_control choice (ex_A s) (ex_bus s)\<rparr>"
| "exchange_step s A_reads = s\<lparr>ex_bus := A_read (ex_A s) (ex_bus s)\<rparr>"
| "exchange_step s B_reads = (let (msg, b) = B_read (ex_bus s) (ex_B s) in s\<lparr>ex_B := b, B_log := B_log s @ [msg]\<rparr>)"
| "exchange_step s C_reads = (let (msg, c) = C_read (ex_bus s) (ex_C s) in s\<lparr>ex_C := c, C_log := C_log s @ [msg]\<rparr>)"

text \<open>Two shared variables, and what is read from them.\<close>

fun shared_step :: "string \<times> real \<times> string list \<times> real list \<Rightarrow> exchange_event \<Rightarrow> string \<times> real \<times> string list \<times> real list" where
  "shared_step (m, x, ms, xs) (A_controls choice) = (choice, x, ms, xs)"
| "shared_step (m, x, ms, xs) A_reads = (m, 2.2, ms, xs)"
| "shared_step (m, x, ms, xs) B_reads = (m, x, ms @ [m], xs)"
| "shared_step (m, x, ms, xs) C_reads = (m, x, ms, xs @ [x])"

definition shares :: "exchange \<Rightarrow> string \<times> real \<times> string list \<times> real list \<Rightarrow> bool" where
  "shares s v \<longleftrightarrow> (case v of (m, x, ms, xs) \<Rightarrow>
     A_writer (ex_A s) = \<lparr>target_topic = ''topic/A''\<rparr> \<and> A_writer_state (ex_A s) = \<lparr>target_topic = ''A/state/x''\<rparr>
     \<and> source_topic (B_reader (ex_B s)) = ''topic/A'' \<and> source_topic (C_reader2 (ex_C s)) = ''A/state/x''
     \<and> (\<exists>t. topic_of (ex_bus s) ''topic/A'' = Some t \<and> fst (topic_state t) = Some (VStr m))
     \<and> (\<exists>t. topic_of (ex_bus s) ''A/state/x'' = Some t \<and> fst (topic_state t) = Some (VFloat x))
     \<and> B_log s = map (\<lambda>m. Some (VStr m)) ms \<and> C_log s = map (\<lambda>x. Some (VFloat x)) xs)"

lemma shares_step: "shares s v \<Longrightarrow> shares (exchange_step s e) (shared_step v e)"
proof (cases v)
  case (fields m x ms xs)
  assume "shares s v"
  then show ?thesis
    by (cases e) (auto simp: fields shares_def A_control_def A_read_def B_read_def C_read_def data_write_def data_read_def topic_of_write_topic
        set_val_def Let_def)
qed

lemma shares_run: "shares s v \<Longrightarrow> shares (foldl exchange_step s es) (foldl shared_step v es)"
  by (induction es arbitrary: s v) (simp_all add: shares_step)

text \<open>
  C30. The databus is two shared variables: whatever the loops of the three controllers do in whatever order, \<open>B\<close> reads
  exactly the last message that \<open>A\<close> wrote, or its initial one, and \<open>C\<close> the last state that \<open>A\<close> wrote.
\<close>

theorem databus_exchange:
  "\<exists>s. fst (exchange_init validate) = Inr s \<and>
    (\<forall>es. case foldl shared_step (''none'', 0, [], []) es of (m, x, ms, xs) \<Rightarrow>
      B_log (foldl exchange_step s es) = map (\<lambda>m. Some (VStr m)) ms \<and> C_log (foldl exchange_step s es) = map (\<lambda>x. Some (VFloat x)) xs)"
proof -
  obtain a b where a: "A_init (Some Databus_init) = (Inr a, Some b)" "A_writer a = \<lparr>target_topic = ''topic/A''\<rparr>"
    "A_writer_state a = \<lparr>target_topic = ''A/state/x''\<rparr>" "topics b = shared_topics" "writer_topics b = [''A/state/x'', ''topic/A'']" "\<not> bus_finalized b"
    using A_built unfolding shared_topics_def by blast
  from B_built [OF a(4-6), of validate] obtain c b' where b: "B_init validate (Some b) = (Inr c, Some b')" "B_reader c = \<lparr>source_topic = ''topic/A'', last_seq = 0\<rparr>"
    "writer_topics b' = [''topic/B'', ''A/state/x'', ''topic/A'']" "\<not> bus_finalized b'"
    "topics b' = shared_topics @ [(''topic/B'', \<lparr>topic_name = ''topic/B'', topic_state = (Some (VFloat 0), 1), topic_msg_type = TFloat\<rparr>)]"
    by blast
  from C_built [OF b(5,4)] obtain d where c: "C_init (Some b') = (Inr d, Some b')" "C_reader2 d = \<lparr>source_topic = ''A/state/x'', last_seq = 0\<rparr>" by blast
  have "finalize b' = Inr (b'\<lparr>bus_finalized := True\<rparr>)" using b(3,5) by (simp add: finalize_Inr shared_topics_def)
  then obtain s where s: "fst (exchange_init validate) = Inr s" "s = \<lparr>ex_bus = b'\<lparr>bus_finalized := True\<rparr>, ex_A = a, ex_B = c, ex_C = d, B_log = [], C_log = []\<rparr>"
    using a(1) b(1) c(1) by (simp add: exchange_init_def bus_bind_def)
  then have start: "shares s (''none'', 0, [], [])"
    using a(2,3) b(2,5) c(2) by (simp add: shares_def topic_of_def shared_topics_def)
  show ?thesis
  proof (intro exI [of _ s] conjI allI)
    fix es
    show "case foldl shared_step (''none'', 0, [], []) es of (m, x, ms, xs) \<Rightarrow>
      B_log (foldl exchange_step s es) = map (\<lambda>m. Some (VStr m)) ms \<and> C_log (foldl exchange_step s es) = map (\<lambda>x. Some (VFloat x)) xs"
      using shares_run [OF start, of es] by (auto simp: shares_def)
  qed (rule s(1))
qed

text \<open>A testing controller that fails never comes up in its first five attempts, whatever is drawn.\<close>

lemma attempts_counted: "faulty_cnt (foldl (\<lambda>s r. snd (A_initialize_hw r s)) s draws) = faulty_cnt s + length draws"
  by (induction draws arbitrary: s) (simp_all add: A_initialize_hw_def Let_def)

lemma first_attempts_fail:
  "length draws < 5 \<Longrightarrow> faulty_cnt s = 0 \<Longrightarrow> fst (A_initialize_hw r (foldl (\<lambda>s r. snd (A_initialize_hw r s)) s draws)) = HwReturns False"
  using attempts_counted [of s draws] by (simp add: A_initialize_hw_def Let_def)

end
