(* ===== verification/AuthMsg.thy ===== *)
theory AuthMsg
  imports Prelude Complex_Main
begin

text \<open>
  Authenticated messages (\<open>shared_libs/authmsg\<close>): the signed frame, the wire protocol with its
  sequence numbers, and the peer that sends and receives frames over some transport.

  The keyed hash \<open>hmac.new(psk, data, sha256).digest()\<close> is the argument \<open>mac\<close>; what the code
  relies on is that a digest has 32 bytes (\<open>digest32 mac\<close>). Transports are represented by what a
  call gave: whether a packet was sent, which packet came in, which error was raised; the
  concrete peers are in the theory \<open>Peers\<close>.
\<close>

type_synonym mac = "bytes \<Rightarrow> bytes \<Rightarrow> bytes"

definition digest32 :: "mac \<Rightarrow> bool" where
  "digest32 mac \<longleftrightarrow> (\<forall>psk d. length (mac psk d) = 32)"

section \<open>Frames (crypto.py, protocol.py)\<close>

datatype auth_error = FramingError | AuthenticationError | SequenceError | OverflowError | PayloadTooLarge

definition SEQUENCE_SIZE :: nat where "SEQUENCE_SIZE = 8"
definition HMAC_SIZE :: nat where "HMAC_SIZE = 32"
definition MIN_PACKET_SIZE :: nat where "MIN_PACKET_SIZE = SEQUENCE_SIZE + HMAC_SIZE"
definition MAX_UDP_PAYLOAD :: nat where "MAX_UDP_PAYLOAD = 65507"

lemmas size_defs = SEQUENCE_SIZE_def HMAC_SIZE_def MIN_PACKET_SIZE_def

text \<open>\<open>int.to_bytes(n, "big")\<close> raises when the number does not fit.\<close>

definition to_bytes :: "nat \<Rightarrow> nat \<Rightarrow> auth_error + bytes" where
  "to_bytes n k = (if n < 256 ^ k then Inr (bytes_be k n) else Inl OverflowError)"

definition make_signature :: "mac \<Rightarrow> bytes \<Rightarrow> nat \<Rightarrow> bytes \<Rightarrow> auth_error + bytes" where
  "make_signature mac psk sequence payload =
     res_bind (to_bytes sequence 8) (\<lambda>sb. Inr (mac psk (sb @ payload)))"

definition validate_signature :: "mac \<Rightarrow> bytes \<Rightarrow> nat \<Rightarrow> bytes \<Rightarrow> bytes \<Rightarrow> auth_error + bool" where
  "validate_signature mac psk sequence payload tag =
     res_bind (make_signature mac psk sequence payload) (\<lambda>expected. Inr (expected = tag))"

definition encode_packet :: "mac \<Rightarrow> nat \<Rightarrow> bytes \<Rightarrow> bytes \<Rightarrow> auth_error + bytes" where
  "encode_packet mac sequence payload psk =
     res_bind (make_signature mac psk sequence payload) (\<lambda>signature.
     res_bind (to_bytes sequence SEQUENCE_SIZE) (\<lambda>sb. Inr (sb @ payload @ signature)))"

definition decode_packet :: "mac \<Rightarrow> bytes \<Rightarrow> bytes \<Rightarrow> nat option \<Rightarrow> auth_error + (nat \<times> bytes)" where
  "decode_packet mac data psk last_sequence =
     (if length data < MIN_PACKET_SIZE then Inl FramingError
      else
        (let sequence = nat_of_bytes_be (take SEQUENCE_SIZE data);
             tag = drop (length data - HMAC_SIZE) data;
             payload = drop SEQUENCE_SIZE (take (length data - HMAC_SIZE) data)
         in res_bind (validate_signature mac psk sequence payload tag) (\<lambda>ok.
              if \<not> ok then Inl AuthenticationError
              else case last_sequence of
                None \<Rightarrow> Inr (sequence, payload)
              | Some l \<Rightarrow> if sequence \<le> l then Inl SequenceError else Inr (sequence, payload))))"

definition ensure_valid_packet_size :: "bytes \<Rightarrow> auth_error + unit" where
  "ensure_valid_packet_size payload =
     (if length payload > MAX_UDP_PAYLOAD - MIN_PACKET_SIZE then Inl PayloadTooLarge else Inr ())"

section \<open>The wire protocol (wire\_protocol.py)\<close>

record SecureWireProtocol =
  psk :: bytes
  send_sequence :: nat
  last_received_sequence :: nat

definition SecureWireProtocol_init :: "bytes \<Rightarrow> SecureWireProtocol" where
  "SecureWireProtocol_init k = \<lparr>psk = k, send_sequence = 0, last_received_sequence = 0\<rparr>"

definition set_psk :: "bytes \<Rightarrow> SecureWireProtocol \<Rightarrow> SecureWireProtocol" where
  "set_psk k p = p\<lparr>psk := k\<rparr>"

definition pack :: "mac \<Rightarrow> bytes \<Rightarrow> SecureWireProtocol \<Rightarrow> (auth_error + bytes) \<times> SecureWireProtocol" where
  "pack mac msg p =
     (let p = p\<lparr>send_sequence := send_sequence p + 1\<rparr>
      in (encode_packet mac (send_sequence p) msg (psk p), p))"

definition unpack_raise :: "mac \<Rightarrow> bytes \<Rightarrow> SecureWireProtocol \<Rightarrow> (auth_error + bytes) \<times> SecureWireProtocol" where
  "unpack_raise mac data p =
     (case decode_packet mac data (psk p) (Some (last_received_sequence p)) of
        Inl e \<Rightarrow> (Inl e, p)
      | Inr (sequence, msg) \<Rightarrow> (Inr msg, p\<lparr>last_received_sequence := sequence\<rparr>))"

definition unpack :: "mac \<Rightarrow> bytes \<Rightarrow> SecureWireProtocol \<Rightarrow> bytes option \<times> SecureWireProtocol" where
  "unpack mac data p =
     (case unpack_raise mac data p of (Inl e, p) \<Rightarrow> (None, p) | (Inr msg, p) \<Rightarrow> (Some msg, p))"

section \<open>The peer (peer.py)\<close>

datatype peer_error =
    IsNotInitialized
  | IsAlreadyInitialized
  | Packing auth_error
  | NegativeTimeout
  | PeerNotConfigured
  | TransportError string

record Peer =
  proto :: SecureWireProtocol
  peer_init :: bool
  drops :: nat

definition Peer_new :: "bytes \<Rightarrow> Peer" where
  "Peer_new k = \<lparr>proto = SecureWireProtocol_init k, peer_init = False, drops = 0\<rparr>"

definition require_initialized :: "'a Peer_scheme \<Rightarrow> peer_error + unit" where
  "require_initialized p = (if peer_init p then Inr () else Inl IsNotInitialized)"

definition require_not_initialized :: "'a Peer_scheme \<Rightarrow> peer_error + unit" where
  "require_not_initialized p = (if peer_init p then Inl IsAlreadyInitialized else Inr ())"

definition peer_set_psk :: "bytes \<Rightarrow> 'a Peer_scheme \<Rightarrow> 'a Peer_scheme" where
  "peer_set_psk k p = p\<lparr>proto := set_psk k (proto p)\<rparr>"

text \<open>\<open>drop_conn\<close> is the derived class's \<open>_drop_connection\<close>.\<close>

definition finish_recv ::
    "mac \<Rightarrow> ('a Peer_scheme \<Rightarrow> 'a Peer_scheme) \<Rightarrow> bytes option \<Rightarrow> 'a Peer_scheme \<Rightarrow> bytes \<times> 'a Peer_scheme" where
  "finish_recv mac drop_conn packet p =
     (case packet of
        None \<Rightarrow> ([], p)
      | Some data \<Rightarrow>
          (case unpack mac data (proto p) of
             (None, q) \<Rightarrow> ([], drop_conn (p\<lparr>proto := q\<rparr>))
           | (Some msg, q) \<Rightarrow> (msg, p\<lparr>proto := q\<rparr>)))"

text \<open>\<open>send packet\<close> is what the transport's send did with the packet: whether it took it, or the
  error it raised; the frame is part of the result.\<close>

definition peer_send ::
    "mac \<Rightarrow> (bytes \<Rightarrow> peer_error + bool) \<Rightarrow> bytes \<Rightarrow> 'a Peer_scheme \<Rightarrow> (peer_error + (bool \<times> bytes)) \<times> 'a Peer_scheme" where
  "peer_send mac send msg p =
     (case require_initialized p of
        Inl e \<Rightarrow> (Inl e, p)
      | Inr _ \<Rightarrow>
          (case pack mac msg (proto p) of
             (Inl e, q) \<Rightarrow> (Inl (Packing e), p\<lparr>proto := q\<rparr>)
           | (Inr packet, q) \<Rightarrow> (res_bind (send packet) (\<lambda>ok. Inr (ok, packet)), p\<lparr>proto := q\<rparr>)))"

text \<open>\<open>received\<close> is what the transport's receive gave: a packet, nothing, or an error it raised.\<close>

definition peer_recv ::
    "mac \<Rightarrow> ('a Peer_scheme \<Rightarrow> 'a Peer_scheme) \<Rightarrow> peer_error + bytes option \<Rightarrow> 'a Peer_scheme
     \<Rightarrow> (peer_error + bytes) \<times> 'a Peer_scheme" where
  "peer_recv mac drop_conn received p =
     (case require_initialized p of
        Inl e \<Rightarrow> (Inl e, p)
      | Inr _ \<Rightarrow>
          (case received of
             Inl e \<Rightarrow> (Inl e, p)
           | Inr packet \<Rightarrow> (let (msg, q) = finish_recv mac drop_conn packet p in (Inr msg, q))))"

section \<open>Decoding\<close>

lemma bytes_be_8: "length data \<ge> 8 \<Longrightarrow> nat_of_bytes_be (take 8 data) < 256 ^ 8"
  using nat_of_bytes_be_bound [of "take 8 data"] by simp

lemma make_signature_ok:
  "n < 256 ^ 8 \<Longrightarrow> make_signature mac k n m = Inr (mac k (bytes_be 8 n @ m))"
  by (simp add: make_signature_def to_bytes_def)

text \<open>A frame, cut as the decoder cuts it, is accepted exactly when its tag is the digest and its
  number is fresh.\<close>

lemma decode_packet_iff:
  "decode_packet mac data k (Some l) = Inr (n, m) \<longleftrightarrow>
     n < 256 ^ 8 \<and> l < n \<and> data = bytes_be 8 n @ m @ mac k (bytes_be 8 n @ m) \<and>
     length (mac k (bytes_be 8 n @ m)) = 32"
  (is "?acc \<longleftrightarrow> ?frame")
proof
  assume acc: ?acc
  let ?n = "nat_of_bytes_be (take 8 data)" and ?tag = "drop (length data - 32) data"
  let ?m = "drop 8 (take (length data - 32) data)"
  from acc have len: "length data \<ge> 40" by (auto simp: decode_packet_def size_defs split: if_splits)
  then have b: "?n < 256 ^ 8" by (intro bytes_be_8) simp
  have head: "bytes_be 8 ?n = take 8 data" using bytes_be_inverse [of "take 8 data"] len by simp
  from acc len b have nm: "n = ?n" "m = ?m" "l < n" "mac k (bytes_be 8 ?n @ ?m) = ?tag"
    by (auto simp: decode_packet_def size_defs validate_signature_def make_signature_ok Let_def split: if_splits)
  have "take 8 data @ ?m = take (length data - 32) data"
    using append_take_drop_id [of 8 "take (length data - 32) data"] len by (simp add: min.absorb1)
  then have "data = take 8 data @ ?m @ ?tag" using append_take_drop_id [of "length data - 32" data]
    by (metis append.assoc)
  moreover have "length ?tag = 32" using len by simp
  ultimately show ?frame using nm b head by metis
next
  assume f: ?frame
  let ?tag = "mac k (bytes_be 8 n @ m)"
  from f have data: "data = (bytes_be 8 n @ m) @ ?tag" by simp
  have len: "length data = 40 + length m" using f by simp
  have cut: "length data - 32 = length (bytes_be 8 n @ m)" using len by simp
  have tag: "drop (length data - 32) data = ?tag" unfolding cut by (simp add: data)
  have pay: "take (length data - 32) data = bytes_be 8 n @ m" unfolding cut by (simp add: data)
  have seq: "nat_of_bytes_be (take 8 data) = n" using f by (simp add: nat_of_bytes_be_inverse)
  have m: "drop 8 (take (length data - 32) data) = m" unfolding pay by simp
  have inv: "nat_of_bytes_be (bytes_be 8 n) = n" using f by (simp add: nat_of_bytes_be_inverse)
  show ?acc
    using f len by (simp add: decode_packet_def size_defs Let_def seq m tag validate_signature_def make_signature_ok inv)
qed

lemma encode_packet_ok:
  "n < 256 ^ 8 \<Longrightarrow> encode_packet mac n m k = Inr (bytes_be 8 n @ m @ mac k (bytes_be 8 n @ m))"
  by (simp add: encode_packet_def make_signature_ok to_bytes_def SEQUENCE_SIZE_def)

section \<open>Receiving a stream of frames\<close>

text \<open>What a receiver accepts from arbitrary incoming data: the sequence number and the message.\<close>

fun receive :: "mac \<Rightarrow> bytes list \<Rightarrow> SecureWireProtocol \<Rightarrow> (nat \<times> bytes) list \<times> SecureWireProtocol" where
  "receive mac [] p = ([], p)"
| "receive mac (d # ds) p =
     (case unpack mac d p of
        (None, q) \<Rightarrow> receive mac ds q
      | (Some msg, q) \<Rightarrow>
          (let (acc, r) = receive mac ds q in ((last_received_sequence q, msg) # acc, r)))"

text \<open>What a sender emits for a list of messages.\<close>

fun emit :: "mac \<Rightarrow> bytes list \<Rightarrow> SecureWireProtocol \<Rightarrow> bytes list \<times> SecureWireProtocol" where
  "emit mac [] p = ([], p)"
| "emit mac (m # ms) p =
     (case pack mac m p of
        (Inl e, q) \<Rightarrow> emit mac ms q
      | (Inr frame, q) \<Rightarrow> (let (fs, r) = emit mac ms q in (frame # fs, r)))"

lemma unpack_cases:
  obtains (refused) "unpack mac d p = (None, p)"
  | (accepted) n m where "unpack mac d p = (Some m, p\<lparr>last_received_sequence := n\<rparr>)"
      "decode_packet mac d (psk p) (Some (last_received_sequence p)) = Inr (n, m)"
proof (cases "decode_packet mac d (psk p) (Some (last_received_sequence p))")
  case (Inl e)
  then show ?thesis by (intro refused) (simp add: unpack_def unpack_raise_def)
next
  case (Inr r)
  obtain n m where "r = (n, m)" by (cases r)
  with Inr show ?thesis by (intro accepted) (simp_all add: unpack_def unpack_raise_def)
qed

lemma receive_ok:
  assumes "receive mac ds p = (acc, q)"
  shows "sorted_wrt (<) (last_received_sequence p # map fst acc)
    \<and> (\<forall>(n, m) \<in> set acc. bytes_be 8 n @ m @ mac (psk p) (bytes_be 8 n @ m) \<in> set ds)"
  using assms
proof (induction ds arbitrary: p acc q)
  case (Cons d ds)
  show ?case
  proof (cases rule: unpack_cases [of mac d p])
    case refused
    with Cons show ?thesis by fastforce
  next
    case (accepted n m)
    let ?q = "p\<lparr>last_received_sequence := n\<rparr>"
    obtain acc' r where rec: "receive mac ds ?q = (acc', r)" by (cases "receive mac ds ?q")
    with Cons.prems accepted have acc: "acc = (n, m) # acc'" by simp
    have fr: "last_received_sequence p < n" "d = bytes_be 8 n @ m @ mac (psk p) (bytes_be 8 n @ m)"
      using accepted(2) decode_packet_iff by blast+
    from Cons.IH [OF rec] have "sorted_wrt (<) (n # map fst acc')"
      and "\<forall>(n, m) \<in> set acc'. bytes_be 8 n @ m @ mac (psk p) (bytes_be 8 n @ m) \<in> set ds" by simp_all
    then show ?thesis using fr by (auto simp: acc)
  qed
qed simp

lemma emit_frames:
  "send_sequence p + length ms < 256 ^ 8 \<Longrightarrow> i < length ms \<Longrightarrow>
   fst (emit mac ms p) ! i =
     bytes_be 8 (send_sequence p + Suc i) @ ms ! i @ mac (psk p) (bytes_be 8 (send_sequence p + Suc i) @ ms ! i)"
proof (induction ms arbitrary: p i)
  case (Cons m ms)
  let ?q = "p\<lparr>send_sequence := send_sequence p + 1\<rparr>"
  have pk: "pack mac m p = (Inr (bytes_be 8 (send_sequence p + 1) @ m @ mac (psk p) (bytes_be 8 (send_sequence p + 1) @ m)), ?q)"
    using Cons.prems by (simp add: pack_def Let_def encode_packet_ok)
  show ?case
  proof (cases i)
    case 0
    then show ?thesis by (simp add: pk split_beta)
  next
    case (Suc j)
    then show ?thesis using Cons.IH [of ?q j] Cons.prems by (simp add: pk split_beta)
  qed
qed simp

lemma unpack_fresh_frame:
  assumes "n < 256 ^ 8" "last_received_sequence q < n" "digest32 mac"
  shows "unpack mac (bytes_be 8 n @ m @ mac (psk q) (bytes_be 8 n @ m)) q = (Some m, q\<lparr>last_received_sequence := n\<rparr>)"
proof -
  have "decode_packet mac (bytes_be 8 n @ m @ mac (psk q) (bytes_be 8 n @ m)) (psk q) (Some (last_received_sequence q)) = Inr (n, m)"
    using assms by (simp add: decode_packet_iff digest32_def)
  then show ?thesis by (simp add: unpack_def unpack_raise_def)
qed

text \<open>A stream of messages through a channel that loses frames but keeps their order.\<close>

lemma receive_lossy:
  assumes "digest32 mac" and "sorted_wrt (<) (last_received_sequence q # map fst sent)"
    and "\<forall>(n, m) \<in> set sent. n < 256 ^ 8"
  shows "fst (receive mac (map (\<lambda>(n, m). bytes_be 8 n @ m @ mac (psk q) (bytes_be 8 n @ m)) sent) q) = sent"
  using assms(2,3)
proof (induction sent arbitrary: q)
  case (Cons s sent)
  obtain n m where s: "s = (n, m)" by (cases s)
  have up: "unpack mac (bytes_be 8 n @ m @ mac (psk q) (bytes_be 8 n @ m)) q = (Some m, q\<lparr>last_received_sequence := n\<rparr>)"
    using Cons.prems by (intro unpack_fresh_frame assms(1)) (auto simp: s)
  show ?case using Cons.IH [of "q\<lparr>last_received_sequence := n\<rparr>"] Cons.prems
    by (auto simp: s up split_beta)
qed simp

section \<open>Properties\<close>

text \<open>
  C14. Whatever bytes an adversary delivers, in whatever order and however often, the messages a
  receiver accepts carry strictly increasing sequence numbers above the last one it had accepted
  (so no frame is ever accepted twice), and each is the content of a delivered frame whose tag is
  the digest of its number and payload under the shared key.
\<close>

theorem no_replay_no_forgery:
  "let (acc, q) = receive mac delivered p
   in sorted_wrt (<) (last_received_sequence p # map fst acc)
    \<and> list_all (\<lambda>(n, m). bytes_be 8 n @ m @ mac (psk p) (bytes_be 8 n @ m) \<in> set delivered) acc"
proof (cases "receive mac delivered p")
  case (Pair acc q)
  with receive_ok [OF Pair] show ?thesis by (auto simp: list_all_iff)
qed

text \<open>
  Two peers with the same key understand each other over a lossy channel: of the frames a
  sender emits for its messages, any subsequence that arrives in order is accepted completely,
  each message unchanged and under its own sequence number.
\<close>

theorem lossy_channel_roundtrip:
  assumes "digest32 mac" and "psk q = psk p" and "last_received_sequence q \<le> send_sequence p"
    and "send_sequence p + length ms < 256 ^ 8" and "sorted_wrt (<) is" and "list_all (\<lambda>i. i < length ms) is"
  shows "fst (receive mac (map (\<lambda>i. fst (emit mac ms p) ! i) is) q) =
    map (\<lambda>i. (send_sequence p + Suc i, ms ! i)) is"
proof -
  let ?sent = "map (\<lambda>i. (send_sequence p + Suc i, ms ! i)) is"
  have "map (\<lambda>i. fst (emit mac ms p) ! i) is =
      map (\<lambda>(n, m). bytes_be 8 n @ m @ mac (psk q) (bytes_be 8 n @ m)) ?sent"
    using assms(2,6) by (auto simp: emit_frames [OF assms(4)] list_all_iff)
  moreover have "sorted_wrt (<) (last_received_sequence q # map fst ?sent)"
    using assms(3,5) by (auto simp: sorted_wrt_map comp_def)
  moreover have "\<forall>(n, m) \<in> set ?sent. n < 256 ^ 8" using assms(4,6) by (auto simp: list_all_iff)
  ultimately show ?thesis using receive_lossy [OF assms(1), of q ?sent] by (simp only:)
qed

text \<open>A stand-in digest of the right length, for the concrete instance.\<close>

definition sum_mac :: mac where
  "sum_mac k d = bytes_be 32 (nat_of_bytes_le (k @ d) mod 256 ^ 32)"

theorem lossy_channel_roundtrip_witness:
  "fst (receive sum_mac (map (\<lambda>i. fst (emit sum_mac [[7], [8], [9]] (SecureWireProtocol_init [1])) ! i) [0, 2])
      (SecureWireProtocol_init [1])) = [(1, [7]), (3, [9])]"
  using lossy_channel_roundtrip [of sum_mac "SecureWireProtocol_init [1]" "SecureWireProtocol_init [1]" "[[7], [8], [9]]" "[0, 2]"]
  by (simp add: SecureWireProtocol_init_def digest32_def sum_mac_def)

end
