(* ===== verification/Peers.thy ===== *)
theory Peers
  imports AuthMsg
begin

text \<open>
  The two peers built on \<open>PeerBase\<close>: \<open>PeerTCP\<close> over an nng pair socket (\<open>core/tcp_peer.py\<close>) and
  \<open>PeerUDP\<close> over a datagram socket (\<open>core/udp_peer.py\<close>, \<open>udp_endpoint.py\<close>). Both extend the
  record \<open>Peer\<close>. What a socket call did is an argument: \<open>nng_result\<close> and \<open>udp_result\<close> list the
  outcomes the code distinguishes. The synchronous and the asynchronous calls distinguish the same
  outcomes, so each pair is one definition.
\<close>

section \<open>TCP (tcp\_peer.py)\<close>

text \<open>\<open>Timeout\<close> and \<open>TryAgain\<close> are caught; any other exception of the socket is not.\<close>

datatype 'a nng_result = NngDone 'a | NngTimeout | NngRaises string

record PeerTCP = Peer +
  recv_timeout :: int
  send_timeout :: int
  block_on_recv :: bool
  block_on_send :: bool
  sock_closed :: bool

text \<open>\<open>int(timeout * 1000)\<close> truncates towards zero.\<close>

definition py_int :: "real \<Rightarrow> int" where
  "py_int x = (if x < 0 then - \<lfloor>- x\<rfloor> else \<lfloor>x\<rfloor>)"

definition validate_timeout :: "real \<Rightarrow> peer_error + int" where
  "validate_timeout timeout =
     (let t = py_int (timeout * 1000) in if t < 0 then Inl NegativeTimeout else Inr t)"

definition set_blocking :: "bool \<Rightarrow> bool \<Rightarrow> PeerTCP \<Rightarrow> PeerTCP" where
  "set_blocking on_recv on_send p = p\<lparr>block_on_recv := on_recv, block_on_send := on_send\<rparr>"

definition PeerTCP_init :: "bytes option \<Rightarrow> real \<Rightarrow> real \<Rightarrow> peer_error + PeerTCP" where
  "PeerTCP_init k recv send =
     res_bind (validate_timeout recv) (\<lambda>r.
     res_bind (validate_timeout send) (\<lambda>s.
       Inr (set_blocking True True
         \<lparr>proto = SecureWireProtocol_init (case k of None \<Rightarrow> [] | Some k \<Rightarrow> k), peer_init = False, drops = 0,
          recv_timeout = r, send_timeout = s, block_on_recv = False, block_on_send = False, sock_closed = False\<rparr>)))"

text \<open>\<open>dial\<close> and \<open>listen\<close>: the socket call may raise, then the peer stays uninitialized.\<close>

definition tcp_dial :: "unit nng_result \<Rightarrow> PeerTCP \<Rightarrow> (peer_error + unit) \<times> PeerTCP" where
  "tcp_dial sock p =
     (case require_not_initialized p of
        Inl e \<Rightarrow> (Inl e, p)
      | Inr _ \<Rightarrow>
          (case sock of
             NngDone _ \<Rightarrow> (Inr (), p\<lparr>peer_init := True\<rparr>)
           | NngTimeout \<Rightarrow> (Inl (TransportError ''Timeout''), p)
           | NngRaises e \<Rightarrow> (Inl (TransportError e), p)))"

definition tcp_listen :: "unit nng_result \<Rightarrow> PeerTCP \<Rightarrow> (peer_error + unit) \<times> PeerTCP" where
  "tcp_listen sock p = tcp_dial sock p"

text \<open>The send timeout is set before the receive timeout is validated.\<close>

definition tcp_set_timeout :: "real option \<Rightarrow> real option \<Rightarrow> PeerTCP \<Rightarrow> (peer_error + unit) \<times> PeerTCP" where
  "tcp_set_timeout recv send p =
     (let set_recv = (\<lambda>p. case recv of
            None \<Rightarrow> (Inr (), p)
          | Some t \<Rightarrow> (case validate_timeout t of Inl e \<Rightarrow> (Inl e, p) | Inr r \<Rightarrow> (Inr (), p\<lparr>recv_timeout := r\<rparr>)))
      in case send of
           None \<Rightarrow> set_recv p
         | Some t \<Rightarrow> (case validate_timeout t of Inl e \<Rightarrow> (Inl e, p) | Inr s \<Rightarrow> set_recv (p\<lparr>send_timeout := s\<rparr>)))"

definition tcp_drop_connection :: "PeerTCP \<Rightarrow> PeerTCP" where
  "tcp_drop_connection p = p\<lparr>drops := Suc (drops p)\<rparr>"

definition tcp_is_initialized :: "PeerTCP \<Rightarrow> bool" where
  "tcp_is_initialized p = peer_init p"

definition tcp_close :: "PeerTCP \<Rightarrow> (peer_error + unit) \<times> PeerTCP" where
  "tcp_close p =
     (case require_initialized p of Inl e \<Rightarrow> (Inl e, p) | Inr _ \<Rightarrow> (Inr (), p\<lparr>sock_closed := True\<rparr>))"

definition tcp_transport_send :: "(bytes \<Rightarrow> unit nng_result) \<Rightarrow> bytes \<Rightarrow> peer_error + bool" where
  "tcp_transport_send sock packet =
     (case sock packet of
        NngDone _ \<Rightarrow> Inr True | NngTimeout \<Rightarrow> Inr False | NngRaises e \<Rightarrow> Inl (TransportError e))"

definition tcp_transport_recv :: "bytes nng_result \<Rightarrow> peer_error + bytes option" where
  "tcp_transport_recv sock =
     (case sock of
        NngDone packet \<Rightarrow> Inr (Some packet) | NngTimeout \<Rightarrow> Inr None | NngRaises e \<Rightarrow> Inl (TransportError e))"

definition tcp_send ::
    "mac \<Rightarrow> (bytes \<Rightarrow> unit nng_result) \<Rightarrow> bytes \<Rightarrow> PeerTCP \<Rightarrow> (peer_error + (bool \<times> bytes)) \<times> PeerTCP" where
  "tcp_send mac sock msg p = peer_send mac (tcp_transport_send sock) msg p"

definition tcp_recv :: "mac \<Rightarrow> bytes nng_result \<Rightarrow> PeerTCP \<Rightarrow> (peer_error + bytes) \<times> PeerTCP" where
  "tcp_recv mac sock p = peer_recv mac tcp_drop_connection (tcp_transport_recv sock) p"

section \<open>UDP (udp\_endpoint.py, udp\_peer.py)\<close>

text \<open>\<open>UdpNotReady\<close> is an elapsed timeout; an \<open>OSError\<close> is caught, any other exception is not.\<close>

datatype 'a udp_result = UdpDone 'a | UdpNotReady | UdpOSError | UdpRaises string

record UDPEndpoint =
  endpoint_timeout :: real
  peer_addr :: "(string \<times> int) option"
  endpoint_closed :: bool

definition UDPEndpoint_init :: "real \<Rightarrow> UDPEndpoint" where
  "UDPEndpoint_init timeout = \<lparr>endpoint_timeout = timeout, peer_addr = None, endpoint_closed = False\<rparr>"

definition endpoint_set_timeout :: "real \<Rightarrow> UDPEndpoint \<Rightarrow> peer_error + UDPEndpoint" where
  "endpoint_set_timeout val u = (if val < 0 then Inl NegativeTimeout else Inr (u\<lparr>endpoint_timeout := val\<rparr>))"

definition endpoint_close :: "UDPEndpoint \<Rightarrow> UDPEndpoint" where
  "endpoint_close u = u\<lparr>endpoint_closed := True\<rparr>"

text \<open>The address is stored before the socket call, which may raise.\<close>

definition endpoint_connect :: "string \<Rightarrow> int \<Rightarrow> string option \<Rightarrow> UDPEndpoint \<Rightarrow> (peer_error + unit) \<times> UDPEndpoint" where
  "endpoint_connect host port raised u =
     (case raised of None \<Rightarrow> Inr () | Some e \<Rightarrow> Inl (TransportError e), u\<lparr>peer_addr := Some (host, port)\<rparr>)"

definition require_peer :: "UDPEndpoint \<Rightarrow> peer_error + (string \<times> int)" where
  "require_peer u = (case peer_addr u of None \<Rightarrow> Inl PeerNotConfigured | Some a \<Rightarrow> Inr a)"

definition endpoint_send :: "UDPEndpoint \<Rightarrow> unit udp_result \<Rightarrow> peer_error + bool" where
  "endpoint_send u sock =
     res_bind (require_peer u) (\<lambda>_.
       case sock of
         UdpDone _ \<Rightarrow> Inr True | UdpNotReady \<Rightarrow> Inr False | UdpOSError \<Rightarrow> Inr False
       | UdpRaises e \<Rightarrow> Inl (TransportError e))"

definition endpoint_recv :: "UDPEndpoint \<Rightarrow> bytes udp_result \<Rightarrow> peer_error + bytes option" where
  "endpoint_recv u sock =
     res_bind (require_peer u) (\<lambda>_.
       case sock of
         UdpDone packet \<Rightarrow> Inr (Some packet) | UdpNotReady \<Rightarrow> Inr None | UdpOSError \<Rightarrow> Inr None
       | UdpRaises e \<Rightarrow> Inl (TransportError e))"

record PeerUDP = Peer +
  udp :: UDPEndpoint

definition udp_set_timeout :: "real \<Rightarrow> PeerUDP \<Rightarrow> peer_error + PeerUDP" where
  "udp_set_timeout timeout p = res_bind (endpoint_set_timeout timeout (udp p)) (\<lambda>u. Inr (p\<lparr>udp := u\<rparr>))"

definition PeerUDP_init :: "bytes option \<Rightarrow> real \<Rightarrow> peer_error + PeerUDP" where
  "PeerUDP_init k timeout =
     udp_set_timeout timeout
       \<lparr>proto = SecureWireProtocol_init (case k of None \<Rightarrow> [] | Some k \<Rightarrow> k), peer_init = False, drops = 0,
        udp = UDPEndpoint_init 5\<rparr>"

definition udp_dial :: "string \<Rightarrow> int \<Rightarrow> string option \<Rightarrow> PeerUDP \<Rightarrow> (peer_error + unit) \<times> PeerUDP" where
  "udp_dial host port raised p =
     (case require_not_initialized p of
        Inl e \<Rightarrow> (Inl e, p)
      | Inr _ \<Rightarrow>
          (case endpoint_connect host port raised (udp p) of
             (Inl e, u) \<Rightarrow> (Inl e, p\<lparr>udp := u\<rparr>)
           | (Inr _, u) \<Rightarrow> (Inr (), p\<lparr>udp := u, peer_init := True\<rparr>)))"

definition udp_drop_connection :: "PeerUDP \<Rightarrow> PeerUDP" where
  "udp_drop_connection p = p"

definition udp_is_initialized :: "PeerUDP \<Rightarrow> bool" where
  "udp_is_initialized p = peer_init p"

definition udp_close :: "PeerUDP \<Rightarrow> (peer_error + unit) \<times> PeerUDP" where
  "udp_close p =
     (case require_initialized p of
        Inl e \<Rightarrow> (Inl e, p)
      | Inr _ \<Rightarrow> (Inr (), p\<lparr>udp := endpoint_close (udp p), peer_init := False\<rparr>))"

definition udp_send ::
    "mac \<Rightarrow> unit udp_result \<Rightarrow> bytes \<Rightarrow> PeerUDP \<Rightarrow> (peer_error + (bool \<times> bytes)) \<times> PeerUDP" where
  "udp_send mac sock msg p = peer_send mac (\<lambda>packet. endpoint_send (udp p) sock) msg p"

definition udp_recv :: "mac \<Rightarrow> bytes udp_result \<Rightarrow> PeerUDP \<Rightarrow> (peer_error + bytes) \<times> PeerUDP" where
  "udp_recv mac sock p = peer_recv mac udp_drop_connection (endpoint_recv (udp p) sock) p"

section \<open>What a peer delivers\<close>

text \<open>A frame that carries a message under a key and a sequence number.\<close>

definition auth_frame :: "mac \<Rightarrow> bytes \<Rightarrow> nat \<Rightarrow> bytes \<Rightarrow> bytes" where
  "auth_frame mac k n m = bytes_be 8 n @ m @ mac k (bytes_be 8 n @ m)"

lemma unpack_Some:
  assumes "unpack mac d p = (Some m, q)"
  shows "\<exists>n > last_received_sequence p. d = auth_frame mac (psk p) n m \<and> q = p\<lparr>last_received_sequence := n\<rparr>"
  using assms by (cases rule: unpack_cases [of mac d p]) (auto simp: decode_packet_iff auth_frame_def)

lemma unpack_None: "unpack mac d p = (None, q) \<Longrightarrow> q = p"
  by (cases rule: unpack_cases [of mac d p]) auto

lemma unpack_keeps_psk: "psk (snd (unpack mac d p)) = psk p"
  by (cases rule: unpack_cases [of mac d p]) auto

text \<open>The contract of \<open>PeerBase\<close> on its derived classes: dropping the connection touches neither
  the protocol state nor the initialization flag.\<close>

locale peer_transport =
  fixes drop_conn :: "'a Peer_scheme \<Rightarrow> 'a Peer_scheme"
  assumes drop_proto: "proto (drop_conn p) = proto p"
    and drop_init: "peer_init (drop_conn p) = peer_init p"
begin

lemma recv_message:
  assumes "peer_recv mac drop_conn received p = (Inr m, q)" and "m \<noteq> []"
  shows "\<exists>n d. received = Inr (Some d) \<and> d = auth_frame mac (psk (proto p)) n m
    \<and> last_received_sequence (proto p) < n \<and> last_received_sequence (proto q) = n"
  using assms
  by (auto simp: peer_recv_def finish_recv_def require_initialized_def
      split: if_splits sum.splits option.splits prod.splits dest!: unpack_Some)

lemma recv_keeps:
  "psk (proto (snd (peer_recv mac drop_conn received p))) = psk (proto p)
   \<and> peer_init (snd (peer_recv mac drop_conn received p)) = peer_init p
   \<and> last_received_sequence (proto p) \<le> last_received_sequence (proto (snd (peer_recv mac drop_conn received p)))"
  by (auto simp: peer_recv_def finish_recv_def require_initialized_def drop_proto drop_init
      split: sum.splits option.splits prod.splits dest!: unpack_Some unpack_None)

lemma recv_initialized:
  "peer_init p \<Longrightarrow> received = Inr packet \<Longrightarrow> \<exists>m. fst (peer_recv mac drop_conn received p) = Inr m"
  by (simp add: peer_recv_def require_initialized_def split_beta)

end

interpretation tcp: peer_transport tcp_drop_connection
  by unfold_locales (simp_all add: tcp_drop_connection_def)

interpretation udp: peer_transport udp_drop_connection
  by unfold_locales (simp_all add: udp_drop_connection_def)

lemmas tcp_message = tcp.recv_message [of mac "tcp_transport_recv r" for mac r, folded tcp_recv_def]
lemmas tcp_keeps = tcp.recv_keeps [of mac "tcp_transport_recv r" for mac r, folded tcp_recv_def]
lemmas udp_keeps = udp.recv_keeps [of mac "endpoint_recv (udp p) r" p for mac p r, folded udp_recv_def]
lemmas udp_message = udp.recv_message [of mac "endpoint_recv (udp p) r" p for mac p r, folded udp_recv_def]

end
