(* ===== verification/SessionRun.thy ===== *)
theory SessionRun
  imports Peers Motionframe
begin

text \<open>
  One running session (\<open>session_mng/session_implementations.py\<close>, \<open>ACSessionRunner\<close>): three asyncio
  tasks that share a stop event. \<open>_motionframe_forwarder\<close> republishes motion frames from the UDP
  peer, \<open>_main_packet_handler\<close> serves the client's packets from the TCP peer, and
  \<open>_brackground_session_controller\<close> watches the heartbeat deadline.

  Each task is suspended at its one \<open>await\<close> or has finished; an event wakes one of them with what
  the awaited call gave and the clock readings the code takes, and the task runs on to its next
  \<open>await\<close> or to its end. Events for a finished task are ignored. An exception out of a task makes
  \<open>gather\<close> raise, which ends the run.
\<close>

section \<open>State\<close>

record MetricsTracker =
  m_rec_tcp :: nat
  m_rec_udp :: nat
  m_motion_cmds :: nat

definition metrics_reset :: "MetricsTracker \<Rightarrow> MetricsTracker" where
  "metrics_reset m = m\<lparr>m_rec_tcp := 0, m_rec_udp := 0, m_motion_cmds := 0\<rparr>"

datatype task = Waiting | Finished

datatype run_error = PeerRaised peer_error | ParseRaised codec_error | DecodeRaised struct_error | ZeroDivision

datatype run_state = Running | Returned | Crashed run_error

record SessionRun =
  tcp_sock :: PeerTCP
  stream_sock :: PeerUDP
  codec :: PacketDecoder
  heartbeat_deadline :: real
  metrics :: MetricsTracker
  all_stop :: bool
  forwarder :: task
  handler :: task
  controller :: task
  last_time :: real
  config_topic :: "py_text list"
  motionframe_topic :: "(16 word list \<times> 32 word list) list"
  run_state :: run_state

definition HEARTBEAT_TIMEOUT_SEC :: real where
  "HEARTBEAT_TIMEOUT_SEC = 10"

text \<open>The libraries the session relies on: the digest, the serializers and the float conversions.\<close>

record ('o, 'f) sess_env =
  env_mac :: mac
  env_libs :: "'o codec_libs"
  env_float :: "'f float_lib"

datatype sess_event =
    TcpWake "bytes nng_result" real
  | UdpWake "bytes udp_result"
  | Tick real real real

section \<open>Start\<close>

text \<open>\<open>_run_main\<close> up to the first suspension of its tasks; \<open>now\<close> and \<open>now'\<close> are the two clock
  readings taken on the way.\<close>

definition run_main :: "real \<Rightarrow> real \<Rightarrow> PeerTCP \<Rightarrow> PeerUDP \<Rightarrow> PacketDecoder \<Rightarrow> MetricsTracker \<Rightarrow> run_error + SessionRun" where
  "run_main now now' t u c m =
     res_bind (map_sum PeerRaised id (udp_set_timeout 2 u)) (\<lambda>u.
     case tcp_set_timeout (Some 5) (Some 1) t of
       (Inl e, _) \<Rightarrow> Inl (PeerRaised e)
     | (Inr _, t) \<Rightarrow>
         Inr \<lparr>tcp_sock = t, stream_sock = u, codec = c, heartbeat_deadline = now + HEARTBEAT_TIMEOUT_SEC,
              metrics = m, all_stop = False, forwarder = Waiting, handler = Waiting, controller = Waiting,
              last_time = now', config_topic = [], motionframe_topic = [], run_state = Running\<rparr>)"

section \<open>The tasks\<close>

text \<open>\<open>while not stop_event.is_set()\<close>: the task's state after its loop test.\<close>

definition loop_test :: "SessionRun \<Rightarrow> task" where
  "loop_test s = (if all_stop s then Finished else Waiting)"

definition handle_packet :: "real \<Rightarrow> 'o received_packet \<Rightarrow> SessionRun \<Rightarrow> SessionRun" where
  "handle_packet now p s =
     (case packet p of
        ConfigurationPacket json_str json_obj valid \<Rightarrow>
          (if \<not> valid then s else s\<lparr>config_topic := config_topic s @ [json_str]\<rparr>)
      | SessionEndRequestPacket \<Rightarrow> s\<lparr>all_stop := True\<rparr>
      | HeartBeatPacket nonce \<Rightarrow> s\<lparr>heartbeat_deadline := now + HEARTBEAT_TIMEOUT_SEC\<rparr>
      | _ \<Rightarrow> s)"

definition main_packet_handler ::
    "('o, 'f) sess_env \<Rightarrow> bytes nng_result \<Rightarrow> real \<Rightarrow> SessionRun \<Rightarrow> SessionRun" where
  "main_packet_handler env received now s =
     (case tcp_recv (env_mac env) received (tcp_sock s) of
        (Inl e, t) \<Rightarrow> s\<lparr>tcp_sock := t, run_state := Crashed (PeerRaised e)\<rparr>
      | (Inr msg, t) \<Rightarrow>
          (let s = s\<lparr>tcp_sock := t\<rparr>
           in if msg = [] then s\<lparr>handler := loop_test s\<rparr>
              else
                (let s = s\<lparr>metrics := (metrics s)\<lparr>m_rec_tcp := m_rec_tcp (metrics s) + 1\<rparr>\<rparr>
                 in case parse_bytes (env_libs env) (codec s) msg of
                      Inl e \<Rightarrow> s\<lparr>run_state := Crashed (ParseRaised e)\<rparr>
                    | Inr p \<Rightarrow> (let s = handle_packet now p s in s\<lparr>handler := loop_test s\<rparr>))))"

definition motionframe_forwarder :: "('o, 'f) sess_env \<Rightarrow> bytes udp_result \<Rightarrow> SessionRun \<Rightarrow> SessionRun" where
  "motionframe_forwarder env received s =
     (case udp_recv (env_mac env) received (stream_sock s) of
        (Inl e, u) \<Rightarrow> s\<lparr>stream_sock := u, forwarder := loop_test s\<rparr>
      | (Inr motionframe_raw, u) \<Rightarrow>
          (let s = s\<lparr>stream_sock := u\<rparr>
           in if motionframe_raw = [] then s\<lparr>forwarder := loop_test s\<rparr>
              else case decode_motionframe_packet_into_arrays (env_float env) motionframe_raw of
                Inl e \<Rightarrow> s\<lparr>run_state := Crashed (DecodeRaised e)\<rparr>
              | Inr (arr_ids, arr_values) \<Rightarrow>
                  s\<lparr>motionframe_topic := motionframe_topic s @ [(arr_ids, arr_values)],
                    metrics := (metrics s)\<lparr>m_rec_udp := m_rec_udp (metrics s) + 1,
                                           m_motion_cmds := m_motion_cmds (metrics s) + length arr_ids\<rparr>,
                    forwarder := loop_test s\<rparr>))"

text \<open>The three clock readings: for the time elapsed, for the heartbeat check, for the next round.\<close>

definition background_session_controller :: "real \<Rightarrow> real \<Rightarrow> real \<Rightarrow> SessionRun \<Rightarrow> SessionRun" where
  "background_session_controller t1 t2 t3 s =
     (if t1 - last_time s = 0 then s\<lparr>run_state := Crashed ZeroDivision\<rparr>
      else
        (let s = s\<lparr>metrics := metrics_reset (metrics s)\<rparr>;
             s = (if t2 > heartbeat_deadline s then s\<lparr>all_stop := True\<rparr> else s)
         in s\<lparr>controller := loop_test s, last_time := (if all_stop s then last_time s else t3)\<rparr>))"

text \<open>\<open>gather\<close> returns once all three tasks have.\<close>

definition gather :: "SessionRun \<Rightarrow> SessionRun" where
  "gather s =
     (if run_state s = Running \<and> forwarder s = Finished \<and> handler s = Finished \<and> controller s = Finished
      then s\<lparr>run_state := Returned\<rparr> else s)"

fun sess_step :: "('o, 'f) sess_env \<Rightarrow> SessionRun \<Rightarrow> sess_event \<Rightarrow> SessionRun" where
  "sess_step env s (TcpWake received now) =
     (if run_state s = Running \<and> handler s = Waiting then gather (main_packet_handler env received now s) else s)"
| "sess_step env s (UdpWake received) =
     (if run_state s = Running \<and> forwarder s = Waiting then gather (motionframe_forwarder env received s) else s)"
| "sess_step env s (Tick t1 t2 t3) =
     (if run_state s = Running \<and> controller s = Waiting then gather (background_session_controller t1 t2 t3 s) else s)"

abbreviation sess_run :: "('o, 'f) sess_env \<Rightarrow> SessionRun \<Rightarrow> sess_event list \<Rightarrow> SessionRun" where
  "sess_run env s es \<equiv> foldl (sess_step env) s es"

section \<open>Invariant\<close>

text \<open>While a session runs, a task has finished only because the stop event is set, and at least
  one is still waiting.\<close>

definition sess_ok :: "SessionRun \<Rightarrow> bool" where
  "sess_ok s \<longleftrightarrow>
     run_state s = Running \<longrightarrow>
       (\<not> all_stop s \<longrightarrow> forwarder s = Waiting \<and> handler s = Waiting \<and> controller s = Waiting)
       \<and> (forwarder s = Waiting \<or> handler s = Waiting \<or> controller s = Waiting)"

lemma gather_simps [simp]:
  "tcp_sock (gather s) = tcp_sock s" "stream_sock (gather s) = stream_sock s" "codec (gather s) = codec s"
  "heartbeat_deadline (gather s) = heartbeat_deadline s" "all_stop (gather s) = all_stop s"
  "forwarder (gather s) = forwarder s" "handler (gather s) = handler s" "controller (gather s) = controller s"
  "last_time (gather s) = last_time s" "config_topic (gather s) = config_topic s"
  "motionframe_topic (gather s) = motionframe_topic s"
  by (simp_all add: gather_def)

lemma gather_Running:
  "run_state (gather s) = Running \<longleftrightarrow>
     run_state s = Running \<and> (forwarder s = Waiting \<or> handler s = Waiting \<or> controller s = Waiting)"
  by (cases "forwarder s"; cases "handler s"; cases "controller s") (auto simp: gather_def)

lemma handle_packet_simps [simp]:
  "tcp_sock (handle_packet now p s) = tcp_sock s" "stream_sock (handle_packet now p s) = stream_sock s"
  "codec (handle_packet now p s) = codec s" "forwarder (handle_packet now p s) = forwarder s"
  "handler (handle_packet now p s) = handler s" "controller (handle_packet now p s) = controller s"
  "last_time (handle_packet now p s) = last_time s" "motionframe_topic (handle_packet now p s) = motionframe_topic s"
  "run_state (handle_packet now p s) = run_state s"
  "all_stop s \<Longrightarrow> all_stop (handle_packet now p s)"
  by (auto simp: handle_packet_def split: packet.splits)

lemma handler_frame:
  "forwarder (main_packet_handler env r now s) = forwarder s" "controller (main_packet_handler env r now s) = controller s"
  "stream_sock (main_packet_handler env r now s) = stream_sock s"
  "motionframe_topic (main_packet_handler env r now s) = motionframe_topic s"
  "all_stop s \<Longrightarrow> all_stop (main_packet_handler env r now s)"
  "codec (main_packet_handler env r now s) = codec s" "last_time (main_packet_handler env r now s) = last_time s"
  by (auto simp: main_packet_handler_def Let_def split: prod.splits sum.splits)

lemma handler_test:
  "run_state (main_packet_handler env r now s) = Running \<Longrightarrow>
   handler (main_packet_handler env r now s) = loop_test (main_packet_handler env r now s)"
  by (auto simp: main_packet_handler_def loop_test_def Let_def split: prod.splits sum.splits if_splits)

lemma forwarder_frame:
  "handler (motionframe_forwarder env r s) = handler s" "controller (motionframe_forwarder env r s) = controller s"
  "tcp_sock (motionframe_forwarder env r s) = tcp_sock s" "config_topic (motionframe_forwarder env r s) = config_topic s"
  "all_stop (motionframe_forwarder env r s) = all_stop s" "codec (motionframe_forwarder env r s) = codec s"
  "heartbeat_deadline (motionframe_forwarder env r s) = heartbeat_deadline s"
  "run_state s = Running \<Longrightarrow> run_state (motionframe_forwarder env r s) = Running"
  "last_time (motionframe_forwarder env r s) = last_time s"
  by (auto simp: motionframe_forwarder_def Let_def decode_arrays_eq split: prod.splits sum.splits)

lemma forwarder_test: "forwarder (motionframe_forwarder env r s) = loop_test s"
  by (auto simp: motionframe_forwarder_def loop_test_def Let_def decode_arrays_eq split: prod.splits sum.splits)

lemma controller_frame:
  "handler (background_session_controller t1 t2 t3 s) = handler s"
  "forwarder (background_session_controller t1 t2 t3 s) = forwarder s"
  "tcp_sock (background_session_controller t1 t2 t3 s) = tcp_sock s"
  "stream_sock (background_session_controller t1 t2 t3 s) = stream_sock s"
  "config_topic (background_session_controller t1 t2 t3 s) = config_topic s"
  "motionframe_topic (background_session_controller t1 t2 t3 s) = motionframe_topic s"
  "codec (background_session_controller t1 t2 t3 s) = codec s"
  "heartbeat_deadline (background_session_controller t1 t2 t3 s) = heartbeat_deadline s"
  "all_stop s \<Longrightarrow> all_stop (background_session_controller t1 t2 t3 s)"
  by (simp_all add: background_session_controller_def Let_def)

lemma controller_test:
  "run_state (background_session_controller t1 t2 t3 s) = Running \<Longrightarrow>
   controller (background_session_controller t1 t2 t3 s) = loop_test (background_session_controller t1 t2 t3 s)"
  by (auto simp: background_session_controller_def loop_test_def Let_def split: if_splits)

lemmas task_frames = handler_frame forwarder_frame controller_frame

lemma sess_step_ok: "sess_ok s \<Longrightarrow> sess_ok (sess_step env s e)"
proof (cases e)
  case (TcpWake r now)
  assume "sess_ok s"
  then show ?thesis using handler_frame(5) [of s env r now] handler_test [of env r now s]
    by (auto simp: TcpWake sess_ok_def gather_Running handler_frame loop_test_def)
next
  case (UdpWake r)
  assume "sess_ok s"
  then show ?thesis by (auto simp: UdpWake sess_ok_def gather_Running forwarder_frame forwarder_test loop_test_def)
next
  case (Tick t1 t2 t3)
  assume "sess_ok s"
  then show ?thesis using controller_frame(9) [of s t1 t2 t3] controller_test [of t1 t2 t3 s]
    by (auto simp: Tick sess_ok_def gather_Running controller_frame loop_test_def)
qed

interpretation sess: event_machine "sess_step env" sess_ok for env
  by unfold_locales (rule sess_step_ok)

section \<open>Ending\<close>

text \<open>A task that is woken after the stop event is set does not wait again.\<close>

definition over :: "SessionRun \<Rightarrow> bool" where
  "over s \<longleftrightarrow> run_state s \<noteq> Running"

lemma step_over: "over s \<Longrightarrow> sess_step env s e = s"
  by (cases e) (simp_all add: over_def)

lemma run_over: "over s \<Longrightarrow> sess_run env s es = s"
  by (induction es) (simp_all add: step_over)

lemma step_stop: "all_stop s \<Longrightarrow> all_stop (sess_step env s e)"
  by (cases e) (simp_all add: task_frames)

fun is_tcp :: "sess_event \<Rightarrow> bool" where
  "is_tcp (TcpWake r now) = True" | "is_tcp e = False"

fun is_udp :: "sess_event \<Rightarrow> bool" where
  "is_udp (UdpWake r) = True" | "is_udp e = False"

fun is_tick :: "sess_event \<Rightarrow> bool" where
  "is_tick (Tick t1 t2 t3) = True" | "is_tick e = False"

lemma step_finished:
  assumes "all_stop s"
  shows "is_tcp e \<Longrightarrow> over (sess_step env s e) \<or> handler (sess_step env s e) = Finished"
    and "is_udp e \<Longrightarrow> over (sess_step env s e) \<or> forwarder (sess_step env s e) = Finished"
    and "is_tick e \<Longrightarrow> over (sess_step env s e) \<or> controller (sess_step env s e) = Finished"
proof -
  assume "is_tcp e"
  then obtain r now where e: "e = TcpWake r now" by (auto elim: is_tcp.elims)
  show "over (sess_step env s e) \<or> handler (sess_step env s e) = Finished"
    using assms handler_test [of env r now s] handler_frame(5) [of s env r now]
    by (auto simp: e over_def gather_Running loop_test_def) (metis task.exhaust)+
next
  assume "is_udp e"
  then obtain r where e: "e = UdpWake r" by (auto elim: is_udp.elims)
  show "over (sess_step env s e) \<or> forwarder (sess_step env s e) = Finished"
    using assms forwarder_test [of env r s]
    by (auto simp: e over_def gather_Running loop_test_def) (metis task.exhaust)+
next
  assume "is_tick e"
  then obtain t1 t2 t3 where e: "e = Tick t1 t2 t3" by (auto elim: is_tick.elims)
  show "over (sess_step env s e) \<or> controller (sess_step env s e) = Finished"
    using assms controller_test [of t1 t2 t3 s] controller_frame(9) [of s t1 t2 t3]
    by (auto simp: e over_def gather_Running loop_test_def) (metis task.exhaust)+
qed

lemma step_keeps_finished:
  "handler s = Finished \<Longrightarrow> handler (sess_step env s e) = Finished"
  "forwarder s = Finished \<Longrightarrow> forwarder (sess_step env s e) = Finished"
  "controller s = Finished \<Longrightarrow> controller (sess_step env s e) = Finished"
  by (cases e; simp add: task_frames)+

text \<open>A task that finishes when woken after the stop, and stays finished, is finished once it was woken.\<close>

lemma run_finishes:
  assumes "\<And>s e. all_stop s \<Longrightarrow> woken e \<Longrightarrow> over (sess_step env s e) \<or> finished (sess_step env s e)"
    and "\<And>s e. finished s \<Longrightarrow> finished (sess_step env s e)"
  shows "all_stop s \<Longrightarrow> finished s \<or> list_ex woken es \<Longrightarrow> over (sess_run env s es) \<or> finished (sess_run env s es)"
proof (induction es arbitrary: s)
  case (Cons e es)
  have "all_stop (sess_step env s e)" by (rule step_stop [OF Cons.prems(1)])
  moreover have "over (sess_step env s e) \<or> finished (sess_step env s e) \<or> list_ex woken es"
    using Cons.prems assms by fastforce
  ultimately show ?case using Cons.IH by (auto simp: run_over)
qed simp

lemma run_ends:
  assumes "sess_ok s" "all_stop s"
    and "handler s = Finished \<or> list_ex is_tcp es" "forwarder s = Finished \<or> list_ex is_udp es"
    and "controller s = Finished \<or> list_ex is_tick es"
  shows "over (sess_run env s es)"
proof -
  have "over (sess_run env s es) \<or> handler (sess_run env s es) = Finished"
    by (rule run_finishes [OF step_finished(1) step_keeps_finished(1) assms(2,3)])
  moreover have "over (sess_run env s es) \<or> forwarder (sess_run env s es) = Finished"
    by (rule run_finishes [OF step_finished(2) step_keeps_finished(2) assms(2,4)])
  moreover have "over (sess_run env s es) \<or> controller (sess_run env s es) = Finished"
    by (rule run_finishes [OF step_finished(3) step_keeps_finished(3) assms(2,5)])
  ultimately show ?thesis using sess.run_inv [OF assms(1), of env es] by (auto simp: over_def sess_ok_def)
qed

section \<open>Authenticity\<close>

text \<open>What has been delivered to a session so far by its two sockets.\<close>

definition tcp_frames :: "sess_event list \<Rightarrow> bytes list" where
  "tcp_frames es = concat (map (\<lambda>e. case e of TcpWake (NngDone d) now \<Rightarrow> [d] | _ \<Rightarrow> []) es)"

definition udp_frames :: "sess_event list \<Rightarrow> bytes list" where
  "udp_frames es = concat (map (\<lambda>e. case e of UdpWake (UdpDone d) \<Rightarrow> [d] | _ \<Rightarrow> []) es)"

definition config_authentic :: "('o, 'f) sess_env \<Rightarrow> PacketDecoder \<Rightarrow> bytes \<Rightarrow> bytes list \<Rightarrow> py_text \<Rightarrow> bool" where
  "config_authentic env c k frames cfg \<longleftrightarrow>
     (\<exists>n msg obj raw. auth_frame (env_mac env) k n msg \<in> set frames
        \<and> parse_bytes (env_libs env) c msg = Inr \<lparr>packet = ConfigurationPacket cfg obj True, raw_bytes = raw\<rparr>)"

definition frame_authentic ::
    "('o, 'f) sess_env \<Rightarrow> bytes \<Rightarrow> bytes list \<Rightarrow> 16 word list \<times> 32 word list \<Rightarrow> bool" where
  "frame_authentic env k frames mf \<longleftrightarrow>
     (\<exists>n msg. auth_frame (env_mac env) k n msg \<in> set frames
        \<and> decode_motionframe_packet_into_arrays (env_float env) msg = Inr mf)"

lemma tcp_recv_frame:
  assumes "tcp_recv mac r t = (Inr m, t')" "m \<noteq> []"
  shows "\<exists>n. r = NngDone (auth_frame mac (psk (proto t)) n m)"
  using tcp_message [OF assms] by (auto simp: tcp_transport_recv_def split: nng_result.splits)

lemma udp_recv_frame:
  assumes "udp_recv mac r u = (Inr m, u')" "m \<noteq> []"
  shows "\<exists>n. r = UdpDone (auth_frame mac (psk (proto u)) n m)"
  using udp_message [OF assms] by (auto simp: endpoint_recv_def res_bind_Inr split: udp_result.splits)

lemma step_keys:
  "psk (proto (tcp_sock (sess_step env s e))) = psk (proto (tcp_sock s))
   \<and> psk (proto (stream_sock (sess_step env s e))) = psk (proto (stream_sock s))
   \<and> codec (sess_step env s e) = codec s"
proof (cases e)
  case (TcpWake r now)
  then show ?thesis using tcp_keeps [of "env_mac env" r "tcp_sock s"]
    by (auto simp: handler_frame main_packet_handler_def Let_def split: prod.splits sum.splits)
next
  case (UdpWake r)
  then show ?thesis using udp_keeps [of "env_mac env" r "stream_sock s"]
    by (auto simp: forwarder_frame motionframe_forwarder_def Let_def split: prod.splits sum.splits)
next
  case (Tick t1 t2 t3)
  then show ?thesis by (simp add: controller_frame)
qed

lemma step_config:
  assumes "cfg \<in> set (config_topic (sess_step env s e))"
  shows "cfg \<in> set (config_topic s) \<or> config_authentic env (codec s) (psk (proto (tcp_sock s))) (tcp_frames [e]) cfg"
proof (cases e)
  case (TcpWake r now)
  show ?thesis
  proof (rule disjCI)
    assume "\<not> config_authentic env (codec s) (psk (proto (tcp_sock s))) (tcp_frames [e]) cfg"
    then show "cfg \<in> set (config_topic s)" using assms
      by (fastforce simp: TcpWake main_packet_handler_def handle_packet_def Let_def config_authentic_def tcp_frames_def
          dest: tcp_recv_frame split: prod.splits sum.splits if_splits packet.splits
          intro: received_packet.equality)
  qed
next
  case (UdpWake r)
  then show ?thesis using assms by (auto simp: forwarder_frame split: if_splits)
next
  case (Tick t1 t2 t3)
  then show ?thesis using assms by (auto simp: controller_frame split: if_splits)
qed

lemma step_motionframe:
  assumes "mf \<in> set (motionframe_topic (sess_step env s e))"
  shows "mf \<in> set (motionframe_topic s) \<or> frame_authentic env (psk (proto (stream_sock s))) (udp_frames [e]) mf"
proof (cases e)
  case (UdpWake r)
  show ?thesis
  proof (rule disjCI)
    assume "\<not> frame_authentic env (psk (proto (stream_sock s))) (udp_frames [e]) mf"
    then show "mf \<in> set (motionframe_topic s)" using assms
      by (fastforce simp: UdpWake motionframe_forwarder_def Let_def frame_authentic_def udp_frames_def
          dest: udp_recv_frame split: prod.splits sum.splits if_splits)
  qed
next
  case (TcpWake r now)
  then show ?thesis using assms by (auto simp: handler_frame split: if_splits)
next
  case (Tick t1 t2 t3)
  then show ?thesis using assms by (auto simp: controller_frame split: if_splits)
qed

lemma run_keys:
  "psk (proto (tcp_sock (sess_run env s es))) = psk (proto (tcp_sock s))
   \<and> psk (proto (stream_sock (sess_run env s es))) = psk (proto (stream_sock s))
   \<and> codec (sess_run env s es) = codec s"
  by (induction es rule: rev_induct) (simp_all add: step_keys)

lemma frames_snoc:
  "tcp_frames (es @ [e]) = tcp_frames es @ tcp_frames [e]" "udp_frames (es @ [e]) = udp_frames es @ udp_frames [e]"
  by (simp_all add: tcp_frames_def udp_frames_def)

lemma authentic_append:
  "config_authentic env c k (fs @ gs) cfg \<longleftrightarrow> config_authentic env c k fs cfg \<or> config_authentic env c k gs cfg"
  "frame_authentic env k (fs @ gs) mf \<longleftrightarrow> frame_authentic env k fs mf \<or> frame_authentic env k gs mf"
  unfolding config_authentic_def frame_authentic_def set_append by blast+

lemma run_config:
  "cfg \<in> set (config_topic (sess_run env s es)) \<Longrightarrow>
   cfg \<in> set (config_topic s) \<or> config_authentic env (codec s) (psk (proto (tcp_sock s))) (tcp_frames es) cfg"
proof (induction es rule: rev_induct)
  case (snoc e es)
  show ?case using step_config [of cfg env "sess_run env s es" e] snoc run_keys [of env s es]
    by (auto simp: frames_snoc(1) [of es] authentic_append)
qed simp

lemma run_motionframe:
  "mf \<in> set (motionframe_topic (sess_run env s es)) \<Longrightarrow>
   mf \<in> set (motionframe_topic s) \<or> frame_authentic env (psk (proto (stream_sock s))) (udp_frames es) mf"
proof (induction es rule: rev_induct)
  case (snoc e es)
  show ?case using step_motionframe [of mf env "sess_run env s es" e] snoc run_keys [of env s es]
    by (auto simp: frames_snoc(2) [of es] authentic_append)
qed simp

section \<open>Client commands\<close>

text \<open>Events under which a session goes on until \<open>limit\<close>: the clock moves between two rounds of the
  controller, the heartbeat is checked before \<open>limit\<close>, and a heartbeat extends the deadline past it.\<close>

fun calm :: "real \<Rightarrow> real \<Rightarrow> sess_event list \<Rightarrow> bool" where
  "calm limit lt [] = True"
| "calm limit lt (Tick t1 t2 t3 # es) = (t1 \<noteq> lt \<and> t2 \<le> limit \<and> calm limit t3 es)"
| "calm limit lt (TcpWake r now # es) = ((case r of NngRaises x \<Rightarrow> False | _ \<Rightarrow> True) \<and> limit \<le> now + HEARTBEAT_TIMEOUT_SEC \<and> calm limit lt es)"
| "calm limit lt (UdpWake r # es) = calm limit lt es"

definition live :: "real \<Rightarrow> SessionRun \<Rightarrow> bool" where
  "live limit s \<longleftrightarrow> run_state s = Running \<and> \<not> all_stop s \<and> sess_ok s \<and> peer_init (tcp_sock s) \<and> limit \<le> heartbeat_deadline s"

text \<open>The messages a client encodes for its calls, and the texts of its configurations.\<close>

fun encode_calls :: "'o codec_libs \<Rightarrow> 'o encode_call list \<Rightarrow> id_table \<Rightarrow> codec_error + bytes list" where
  "encode_calls libs [] ids = Inr []"
| "encode_calls libs (c # cs) ids =
     (case encoder_wrapper libs c ids of
        (Inl e, ids) \<Rightarrow> Inl e
      | (Inr m, ids) \<Rightarrow> res_bind (encode_calls libs cs ids) (\<lambda>ms. Inr (m # ms)))"

definition config_texts :: "'o codec_libs \<Rightarrow> 'o encode_call list \<Rightarrow> py_text list" where
  "config_texts libs cs = concat (map (\<lambda>c. case c of EncConfiguration j \<Rightarrow> [the (json_dumps libs j)] | _ \<Rightarrow> []) cs)"

definition session_classes :: "packet_class list" where
  "session_classes = [HeartBeatPacketC, SessionEndRequestPacketC, ConfigurationPacketC]"

lemma live_waiting: "live limit s \<Longrightarrow> forwarder s = Waiting \<and> handler s = Waiting \<and> controller s = Waiting"
  by (simp add: live_def sess_ok_def)

lemma live_udp:
  "live limit s \<Longrightarrow> live limit (sess_step env s (UdpWake r))
   \<and> tcp_sock (sess_step env s (UdpWake r)) = tcp_sock s \<and> config_topic (sess_step env s (UdpWake r)) = config_topic s
   \<and> last_time (sess_step env s (UdpWake r)) = last_time s"
  using sess_step_ok [of s env "UdpWake r"]
  by (auto simp: live_waiting) (auto simp: live_def gather_Running forwarder_frame sess_ok_def)

lemma live_tick:
  "live limit s \<Longrightarrow> t1 \<noteq> last_time s \<Longrightarrow> t2 \<le> limit \<Longrightarrow> live limit (sess_step env s (Tick t1 t2 t3))
   \<and> tcp_sock (sess_step env s (Tick t1 t2 t3)) = tcp_sock s \<and> config_topic (sess_step env s (Tick t1 t2 t3)) = config_topic s
   \<and> last_time (sess_step env s (Tick t1 t2 t3)) = t3"
  using sess_step_ok [of s env "Tick t1 t2 t3"] live_waiting [of limit s]
  by (simp add: controller_frame) (auto simp: live_def gather_Running background_session_controller_def Let_def sess_ok_def)

lemma tcp_recv_fresh:
  assumes "peer_init t" "digest32 mac" "n < 256 ^ 8" "last_received_sequence (proto t) < n"
  shows "tcp_recv mac (NngDone (auth_frame mac (psk (proto t)) n m)) t =
    (Inr m, t\<lparr>proto := (proto t)\<lparr>last_received_sequence := n\<rparr>\<rparr>)"
  using assms unpack_fresh_frame [of n "proto t" mac m]
  by (simp add: tcp_recv_def peer_recv_def require_initialized_def tcp_transport_recv_def finish_recv_def auth_frame_def)

lemma live_timeout:
  assumes "live limit s"
  shows "live limit (sess_step env s (TcpWake NngTimeout now)) \<and> tcp_sock (sess_step env s (TcpWake NngTimeout now)) = tcp_sock s
    \<and> config_topic (sess_step env s (TcpWake NngTimeout now)) = config_topic s
    \<and> last_time (sess_step env s (TcpWake NngTimeout now)) = last_time s"
proof -
  have "main_packet_handler env NngTimeout now s = s\<lparr>handler := Waiting\<rparr>"
    using assms by (simp add: live_def main_packet_handler_def tcp_recv_def peer_recv_def require_initialized_def
        tcp_transport_recv_def finish_recv_def loop_test_def)
  then show ?thesis using assms live_waiting [OF assms] by (simp add: live_def gather_def sess_ok_def)
qed

definition plain_command :: "'o encode_call \<Rightarrow> bool" where
  "plain_command c \<longleftrightarrow> class_of c \<in> {HeartBeatPacketC, ConfigurationPacketC}"

lemma live_command:
  assumes "live limit s" "digest32 (env_mac env)" "n < 256 ^ 8" "last_received_sequence (proto (tcp_sock s)) < n"
    and "m \<noteq> []" "parse_bytes (env_libs env) (codec s) m = Inr \<lparr>packet = packet_of (env_libs env) c, raw_bytes = m\<rparr>"
    and "plain_command c" "limit \<le> now + HEARTBEAT_TIMEOUT_SEC"
  defines "s' \<equiv> sess_step env s (TcpWake (NngDone (auth_frame (env_mac env) (psk (proto (tcp_sock s))) n m)) now)"
  shows "live limit s' \<and> proto (tcp_sock s') = (proto (tcp_sock s))\<lparr>last_received_sequence := n\<rparr>
    \<and> config_topic s' = config_topic s @ config_texts (env_libs env) [c] \<and> last_time s' = last_time s"
proof -
  have recv: "tcp_recv (env_mac env) (NngDone (auth_frame (env_mac env) (psk (proto (tcp_sock s))) n m)) (tcp_sock s) =
      (Inr m, (tcp_sock s)\<lparr>proto := (proto (tcp_sock s))\<lparr>last_received_sequence := n\<rparr>\<rparr>)"
    using assms(1-4) by (intro tcp_recv_fresh) (simp_all add: live_def)
  have "sess_ok s'" unfolding s'_def using assms(1) by (intro sess_step_ok) (simp add: live_def)
  with assms(1,5-8) show ?thesis unfolding s'_def using live_waiting [OF assms(1)]
    by (cases c) (auto simp: live_def main_packet_handler_def recv Let_def handle_packet_def plain_command_def
        config_texts_def loop_test_def gather_def)
qed

lemma encode_calls_Cons:
  assumes "encode_calls libs (c # cs) ids = Inr ms" and "id_table_ok libs ids"
  obtains m ids' ms' where "ms = m # ms'" "encoder_wrapper libs c ids = (Inr m, ids')" "encode_calls libs cs ids' = Inr ms'"
    "id_table_ok libs ids'" "m \<noteq> []"
proof -
  obtain r ids' where w: "encoder_wrapper libs c ids = (r, ids')" by (cases "encoder_wrapper libs c ids")
  have "id_table_ok libs ids'"
    using w assms(2) get_packtype_id_cached(2) [OF assms(2), of "class_of c"]
    by (auto simp: encoder_wrapper_def split_beta split: sum.splits)
  moreover from w assms(1) obtain m where m: "r = Inr m" by (cases r) simp_all
  moreover have "m \<noteq> []"
  proof -
    obtain payload where "m = bytes_be PACKTYPEID_SIZE_BYTES (packet_id libs (class_of c)) @ payload"
      using encoder_wrapper_Inr [OF assms(2) w [unfolded m]] .
    then have "length m = 4 + length payload" by (simp add: PACKTYPEID_SIZE_BYTES_def)
    then show ?thesis by auto
  qed
  ultimately show ?thesis using assms(1) w by (auto simp: res_bind_Inr intro: that)
qed

lemma emit_Cons:
  assumes "send_sequence p + length (m # ms) < 256 ^ 8"
  shows "fst (emit mac (m # ms) p) =
    auth_frame mac (psk p) (send_sequence p + 1) m # fst (emit mac ms (p\<lparr>send_sequence := send_sequence p + 1\<rparr>))"
  using assms by (simp add: pack_def Let_def encode_packet_ok auth_frame_def split_beta)

lemma config_texts_Cons: "config_texts libs (c # cs) = config_texts libs [c] @ config_texts libs cs"
  by (simp add: config_texts_def)

lemma commands_run:
  assumes "digest32 (env_mac env)"
    and "inj_on (packet_id (env_libs env)) (set (builtin_classes @ session_classes))"
    and "id_table_ok (env_libs env) server_ids"
  shows "live limit s \<Longrightarrow> codec s = decoder_for (env_libs env) session_classes server_ids \<Longrightarrow>
    id_table_ok (env_libs env) client_ids \<Longrightarrow> list_all plain_command calls \<Longrightarrow>
    encode_calls (env_libs env) calls client_ids = Inr ms \<Longrightarrow>
    psk p = psk (proto (tcp_sock s)) \<Longrightarrow> last_received_sequence (proto (tcp_sock s)) \<le> send_sequence p \<Longrightarrow>
    send_sequence p + length ms < 256 ^ 8 \<Longrightarrow> tcp_frames es = fst (emit (env_mac env) ms p) \<Longrightarrow>
    calm limit (last_time s) es \<Longrightarrow> list_all (faithful (env_libs env)) calls \<Longrightarrow>
    config_topic (sess_run env s es) = config_topic s @ config_texts (env_libs env) calls \<and> live limit (sess_run env s es)"
proof (induction es arbitrary: s calls ms p client_ids)
  case Nil
  then have "ms = []" using emit_Cons [of p _ _ "env_mac env"] by (cases ms) (auto simp: tcp_frames_def)
  with Nil(3,5) have "calls = []" by (cases calls) (blast elim: encode_calls_Cons)+
  with Nil show ?case by (simp add: config_texts_def)
next
  case (Cons e es)
  show ?case
  proof (cases e)
    case (UdpWake r)
    then show ?thesis
      using live_udp [OF Cons.prems(1), of env r] Cons.prems step_keys [of env s e]
        Cons.IH [of "sess_step env s e" client_ids calls ms p] by (simp add: tcp_frames_def)
  next
    case (Tick t1 t2 t3)
    then show ?thesis
      using live_tick [OF Cons.prems(1), of t1 t2 env t3] Cons.prems step_keys [of env s e]
        Cons.IH [of "sess_step env s e" client_ids calls ms p] by (simp add: tcp_frames_def)
  next
    case (TcpWake r now)
    show ?thesis
    proof (cases r)
      case NngTimeout
      then show ?thesis
        using live_timeout [OF Cons.prems(1), of env now] Cons.prems step_keys [of env s e]
          Cons.IH [of "sess_step env s e" client_ids calls ms p] by (simp add: tcp_frames_def TcpWake)
    next
      case (NngRaises x)
      then show ?thesis using Cons.prems(10) by (simp add: TcpWake)
    next
      case (NngDone d)
      have fr: "d # tcp_frames es = fst (emit (env_mac env) ms p)"
        using Cons.prems(9) by (simp add: tcp_frames_def TcpWake NngDone)
      then have "ms \<noteq> []" by auto
      then obtain c cs where calls: "calls = c # cs" using Cons.prems(5) by (cases calls) simp_all
      obtain m ids' ms' where ms: "ms = m # ms'" and enc: "encoder_wrapper (env_libs env) c client_ids = (Inr m, ids')"
        and more: "encode_calls (env_libs env) cs ids' = Inr ms'" "id_table_ok (env_libs env) ids'" and "m \<noteq> []"
        using encode_calls_Cons Cons.prems(3,5) unfolding calls by blast
      let ?n = "send_sequence p + 1" and ?p = "p\<lparr>send_sequence := send_sequence p + 1\<rparr>"
      have d: "d = auth_frame (env_mac env) (psk (proto (tcp_sock s))) ?n m"
        and rest: "tcp_frames es = fst (emit (env_mac env) ms' ?p)"
        using fr emit_Cons [OF Cons.prems(8) [unfolded ms], of "env_mac env"] Cons.prems(6)
        unfolding ms by (simp_all del: emit.simps)
      have c: "plain_command c" "list_all plain_command cs" "faithful (env_libs env) c" "list_all (faithful (env_libs env)) cs"
        using Cons.prems(4,11) by (simp_all add: calls)
      then have "parse_bytes (env_libs env) (codec s) m = Inr \<lparr>packet = packet_of (env_libs env) c, raw_bytes = m\<rparr>"
        unfolding Cons.prems(2)
        by (intro roundtrip_registered [OF c(3) Cons.prems(3) assms(3,2) _ enc])
          (auto simp: plain_command_def session_classes_def)
      with c(1) \<open>m \<noteq> []\<close> have st: "live limit (sess_step env s e)
          \<and> proto (tcp_sock (sess_step env s e)) = (proto (tcp_sock s))\<lparr>last_received_sequence := ?n\<rparr>
          \<and> config_topic (sess_step env s e) = config_topic s @ config_texts (env_libs env) [c]
          \<and> last_time (sess_step env s e) = last_time s"
        unfolding TcpWake NngDone d using Cons.prems ms
        by (intro live_command assms(1)) (simp_all add: TcpWake NngDone)
      then show ?thesis
        using Cons.IH [of "sess_step env s e" ids' cs ms' ?p] more c(2,4) Cons.prems rest step_keys [of env s e]
        by (simp add: ms calls config_texts_Cons [of _ c cs] TcpWake NngDone)
    qed
  qed
qed

lemma run_main_Inr:
  assumes "run_main now now' t u c m = Inr s"
  shows "proto (tcp_sock s) = proto t" "peer_init (tcp_sock s) = peer_init t" "proto (stream_sock s) = proto u"
    "codec s = c" "heartbeat_deadline s = now + HEARTBEAT_TIMEOUT_SEC" "last_time s = now'" "config_topic s = []"
    "motionframe_topic s = []" "run_state s = Running" "\<not> all_stop s" "sess_ok s"
  using assms
  by (auto simp: run_main_def res_bind_Inr udp_set_timeout_def endpoint_set_timeout_def tcp_set_timeout_def validate_timeout_def
      py_int_def sess_ok_def)

lemma run_main_ok: "\<exists>s. run_main now now' t u c m = Inr s"
  by (simp add: run_main_def udp_set_timeout_def endpoint_set_timeout_def tcp_set_timeout_def validate_timeout_def py_int_def)

section \<open>A concrete session\<close>

definition sample_env :: "(bytes, 32 word) sess_env" where
  "sample_env = \<lparr>env_mac = sum_mac, env_libs = plain_libs, env_float = bits_lib\<rparr>"

definition sample_tcp :: PeerTCP where
  "sample_tcp = \<lparr>proto = SecureWireProtocol_init [1], peer_init = True, drops = 0, recv_timeout = 5000, send_timeout = 1000,
     block_on_recv = True, block_on_send = True, sock_closed = False\<rparr>"

definition sample_udp :: PeerUDP where
  "sample_udp = \<lparr>proto = SecureWireProtocol_init [1], peer_init = True, drops = 0,
     udp = \<lparr>endpoint_timeout = 2, peer_addr = Some (''h'', 1), endpoint_closed = False\<rparr>\<rparr>"

definition sample_session :: SessionRun where
  "sample_session =
     \<lparr>tcp_sock = sample_tcp, stream_sock = sample_udp, codec = decoder_for plain_libs session_classes [],
      heartbeat_deadline = 10, metrics = \<lparr>m_rec_tcp = 0, m_rec_udp = 0, m_motion_cmds = 0\<rparr>, all_stop = False,
      forwarder = Waiting, handler = Waiting, controller = Waiting, last_time = 0, config_topic = [],
      motionframe_topic = [], run_state = Running\<rparr>"

lemma sample_run_main:
  "run_main 0 0 sample_tcp sample_udp (decoder_for plain_libs session_classes []) \<lparr>m_rec_tcp = 0, m_rec_udp = 0, m_motion_cmds = 0\<rparr>
   = Inr sample_session"
  by (simp add: run_main_def sample_session_def sample_tcp_def sample_udp_def udp_set_timeout_def endpoint_set_timeout_def
      tcp_set_timeout_def validate_timeout_def py_int_def HEARTBEAT_TIMEOUT_SEC_def)

lemma sample_env_sel [simp]:
  "env_mac sample_env = sum_mac" "env_libs sample_env = plain_libs" "env_float sample_env = bits_lib"
  by (simp_all add: sample_env_def)

lemma sum_mac_32 [simp]: "digest32 sum_mac"
  by (simp add: digest32_def sum_mac_def)

lemma sample_ids: "inj_on (packet_id plain_libs) (set (builtin_classes @ session_classes))"
  using plain_libs_ids by (simp add: session_classes_def)

lemma sent_frames: "tcp_frames (map (\<lambda>d. TcpWake (NngDone d) now) ds @ [Tick t1 t2 t3]) = ds"
  by (induction ds) (simp_all add: tcp_frames_def)

lemma sent_calm:
  "limit \<le> now + HEARTBEAT_TIMEOUT_SEC \<Longrightarrow> t1 \<noteq> lt \<Longrightarrow> t2 \<le> limit \<Longrightarrow>
   calm limit lt (map (\<lambda>d. TcpWake (NngDone d) now) ds @ [Tick t1 t2 t3])"
  by (induction ds) simp_all

section \<open>Properties\<close>

text \<open>
  C17. A session only acts on authenticated data: whatever an adversary delivers to its two sockets,
  in any order and at any time, every configuration it publishes is the content of a configuration
  packet inside a delivered TCP frame tagged under the session's key, and every motion frame it
  publishes is the decoding of a delivered UDP frame tagged under it.
\<close>

theorem only_authenticated_commands:
  assumes "run_main now now' t u c m = Inr s"
  shows "list_all (config_authentic env c (psk (proto t)) (tcp_frames es)) (config_topic (sess_run env s es))
    \<and> list_all (frame_authentic env (psk (proto u)) (udp_frames es)) (motionframe_topic (sess_run env s es))"
  using run_config [of _ env s es] run_motionframe [of _ env s es] run_main_Inr [OF assms] by (auto simp: list_all_iff)

theorem only_authenticated_commands_witness:
  "list_all (config_authentic sample_env (decoder_for plain_libs session_classes []) [1]
      (tcp_frames [TcpWake (NngDone (auth_frame sum_mac [1] 1 [0, 0, 0, 19, 0xC3, 0xA9])) 1]))
    (config_topic (sess_run sample_env sample_session
      [TcpWake (NngDone (auth_frame sum_mac [1] 1 [0, 0, 0, 19, 0xC3, 0xA9])) 1]))"
  using only_authenticated_commands [OF sample_run_main, of sample_env
      "[TcpWake (NngDone (auth_frame sum_mac [1] 1 [0, 0, 0, 19, 0xC3, 0xA9])) 1]"]
  by (simp add: sample_tcp_def SecureWireProtocol_init_def)

text \<open>
  A client's commands are carried out end to end: the configurations (of objects that \<open>json\<close> gives
  back unchanged) and heartbeats a client encodes, signs and sends reach the session's topic as exactly the texts of its configurations, in
  order, however motion frames, receive timeouts and controller rounds interleave with them, and
  the session is still running afterwards, as long as no round finds the heartbeat overdue.
\<close>

theorem client_commands_are_executed:
  assumes "run_main now now' t u (decoder_for (env_libs env) session_classes server_ids) m = Inr s"
    and "peer_init t" and "list_all (faithful (env_libs env)) calls" and "digest32 (env_mac env)"
    and "inj_on (packet_id (env_libs env)) (set (builtin_classes @ session_classes))"
    and "id_table_ok (env_libs env) server_ids" and "id_table_ok (env_libs env) client_ids"
    and "list_all plain_command calls" and "encode_calls (env_libs env) calls client_ids = Inr ms"
    and "psk p = psk (proto t)" and "last_received_sequence (proto t) \<le> send_sequence p"
    and "send_sequence p + length ms < 256 ^ 8" and "tcp_frames es = fst (emit (env_mac env) ms p)"
    and "calm (now + HEARTBEAT_TIMEOUT_SEC) now' es"
  shows "config_topic (sess_run env s es) = config_texts (env_libs env) calls
    \<and> run_state (sess_run env s es) = Running \<and> \<not> all_stop (sess_run env s es)"
proof -
  have "live (now + HEARTBEAT_TIMEOUT_SEC) s" using assms(2) run_main_Inr [OF assms(1)] by (simp add: live_def)
  from commands_run [OF assms(4-6) this _ assms(7-9) _ _ assms(12,13) _ assms(3)] assms(10,11,14) run_main_Inr [OF assms(1)]
  show ?thesis by (simp add: live_def)
qed

theorem client_commands_are_executed_witness:
  "config_topic (sess_run sample_env sample_session
     (map (\<lambda>d. TcpWake (NngDone d) 1)
        (fst (emit sum_mac [[0, 0, 0, 19, 0xC3, 0xA9], [0, 0, 0, 15, 7]] (SecureWireProtocol_init [1]))) @ [Tick 1 2 3])) = [[0xE9]]"
proof -
  have ids: "get_packtype_id plain_libs ConfigurationPacketC [] = (19, [(''ConfigurationPacket'', 19)])"
    "get_packtype_id plain_libs HeartBeatPacketC [(''ConfigurationPacket'', 19)] =
      (15, [(''ConfigurationPacket'', 19), (''HeartBeatPacket'', 15)])"
    by (simp_all add: get_packtype_id_def dict_has_def gen32bithash_mod plain_libs_def)
  have "original_encode plain_libs (EncConfiguration [0xE9]) = Inr [0xC3, 0xA9]"
    by (simp add: plain_libs_def utf8_encode_def utf8_char_def scalar_def)
  then have "encode_calls plain_libs [EncConfiguration [0xE9], EncHeartBeat [7]] [] = Inr [[0, 0, 0, 19, 0xC3, 0xA9], [0, 0, 0, 15, 7]]"
    by (simp add: encoder_wrapper_def ids PACKTYPEID_SIZE_BYTES_def bytes_be_4)
  moreover have "config_texts plain_libs [EncConfiguration [0xE9], EncHeartBeat [7]] = [[0xE9]]"
    by (simp add: config_texts_def plain_libs_def)
  moreover have "calm 10 0 (map (\<lambda>d. TcpWake (NngDone d) 1)
      (fst (emit sum_mac [[0, 0, 0, 19, 0xC3, 0xA9], [0, 0, 0, 15, 7]] (SecureWireProtocol_init [1]))) @ [Tick 1 2 3])"
    by (rule sent_calm) (simp_all add: HEARTBEAT_TIMEOUT_SEC_def)
  moreover note sample_run_main
  ultimately show ?thesis
    using client_commands_are_executed [of 0 0 sample_tcp sample_udp sample_env "[]" _ sample_session
        "[EncConfiguration [0xE9], EncHeartBeat [7]]" "[]" "[[0, 0, 0, 19, 0xC3, 0xA9], [0, 0, 0, 15, 7]]" "SecureWireProtocol_init [1]"
        "map (\<lambda>d. TcpWake (NngDone d) 1)
          (fst (emit sum_mac [[0, 0, 0, 19, 0xC3, 0xA9], [0, 0, 0, 15, 7]] (SecureWireProtocol_init [1]))) @ [Tick 1 2 3]"]
      sample_ids
    by (simp add: sample_tcp_def plain_command_def id_table_ok_def SecureWireProtocol_init_def sent_frames HEARTBEAT_TIMEOUT_SEC_def
        del: emit.simps foldl_append faithful.simps)
qed

text \<open>
  C20. A dead client is dropped: when the controller finds the heartbeat overdue, the session ends as
  soon as the two other tasks have been woken once more, whatever else happens in between, and
  their receive timeouts wake them.
\<close>

theorem dead_client_is_dropped:
  assumes "run_main now now' t u c m = Inr s"
    and "run_state (sess_run env s es) = Running" and "controller (sess_run env s es) = Waiting"
    and "t2 > heartbeat_deadline (sess_run env s es)" and "list_ex is_tcp later" and "list_ex is_udp later"
  shows "run_state (sess_run env s (es @ [Tick t1 t2 t3] @ later)) \<noteq> Running"
proof -
  let ?s = "sess_run env s es" and ?s' = "sess_run env s (es @ [Tick t1 t2 t3])"
  have ok: "sess_ok ?s'" by (rule sess.run_inv) (rule run_main_Inr(11) [OF assms(1)])
  have st: "?s' = gather (background_session_controller t1 t2 t3 ?s)" using assms(2,3) by simp
  have "over ?s' \<or> all_stop ?s' \<and> controller ?s' = Finished"
    unfolding st using assms(4) by (auto simp: over_def gather_def background_session_controller_def Let_def loop_test_def)
  then have "over (sess_run env ?s' later)"
  proof
    assume "over ?s'"
    then show ?thesis by (simp only: run_over)
  next
    assume "all_stop ?s' \<and> controller ?s' = Finished"
    then show ?thesis using assms(5,6) by (intro run_ends ok) blast+
  qed
  then show ?thesis by (simp add: over_def)
qed

theorem dead_client_is_dropped_witness:
  "run_state (sess_run sample_env sample_session ([] @ [Tick 1 11 12] @ [TcpWake NngTimeout 12, UdpWake UdpNotReady])) \<noteq> Running"
  by (rule dead_client_is_dropped [OF sample_run_main]) (simp_all add: sample_session_def)

text \<open>
  A text packet that is not valid UTF-8 brings the session down: the decoder's exception leaves
  the packet handler, so an authenticated client ends its own session with one packet, although an
  equally malformed configuration packet is only logged.
\<close>

theorem malformed_text_crashes_session:
  assumes "run_state s = Running" and "handler s = Waiting"
    and "codec s = decoder_for (env_libs env) session_classes ids" and "id_table_ok (env_libs env) ids"
    and "inj_on (packet_id (env_libs env)) (set (builtin_classes @ session_classes))"
    and "tcp_recv (env_mac env) received (tcp_sock s) = (Inr (bytes_be 4 (packet_id (env_libs env) c) @ payload), t)"
    and "utf8_decode payload = Inl UnicodeDecodeError" and "c = TextPacketC \<or> c = ConfigurationPacketC"
  shows "if c = TextPacketC
    then run_state (sess_step env s (TcpWake received now)) = Crashed (ParseRaised UnicodeDecodeError)
    else run_state (main_packet_handler env received now s) = Running
      \<and> config_topic (sess_step env s (TcpWake received now)) = config_topic s"
proof -
  define data where "data = bytes_be 4 (packet_id (env_libs env) c) @ payload"
  have "length data = 4 + length payload" by (simp add: data_def)
  then have ne: "data \<noteq> []" by auto
  have recv: "tcp_recv (env_mac env) received (tcp_sock s) = (Inr data, t)" using assms(6) by (simp add: data_def)
  have "parse_bytes (env_libs env) (codec s) data =
      res_bind (decode (env_libs env) c payload) (\<lambda>p. Inr \<lparr>packet = p, raw_bytes = data\<rparr>)"
    using assms(8) parse_registered [OF assms(4,5), of c payload]
    by (auto simp: data_def assms(3) PACKTYPEID_SIZE_BYTES_def builtin_classes_def session_classes_def)
  then have parse: "parse_bytes (env_libs env) (codec s) data =
      (if c = TextPacketC then Inl UnicodeDecodeError
       else Inr \<lparr>packet = ConfigurationPacket [] None False, raw_bytes = data\<rparr>)"
    using assms(7,8) by (auto simp: ConfigurationPacket_decode_def)
  show ?thesis using assms(1,2) by (simp add: main_packet_handler_def recv ne parse gather_def handle_packet_def Let_def)
qed

theorem malformed_text_crashes_session_witness:
  "run_state (sess_step sample_env sample_session (TcpWake (NngDone (auth_frame sum_mac [1] 1 [0, 0, 0, 10, 0xFF])) 1)) =
     Crashed (ParseRaised UnicodeDecodeError)"
proof -
  have "tcp_recv sum_mac (NngDone (auth_frame sum_mac (psk (proto sample_tcp)) 1 [0, 0, 0, 10, 0xFF])) sample_tcp =
      (Inr [0, 0, 0, 10, 0xFF], sample_tcp\<lparr>proto := (proto sample_tcp)\<lparr>last_received_sequence := 1\<rparr>\<rparr>)"
    by (rule tcp_recv_fresh) (simp_all add: sample_tcp_def SecureWireProtocol_init_def)
  moreover have "psk (proto sample_tcp) = [1]" by (simp add: sample_tcp_def SecureWireProtocol_init_def)
  moreover have "utf8_decode [0xFF] = Inl UnicodeDecodeError"
    by (simp add: utf8_decode_def utf8_dec.simps [of "[_]"] utf8_next_def)
  ultimately show ?thesis
    using malformed_text_crashes_session [of sample_session sample_env "[]"
        "NngDone (auth_frame sum_mac [1] 1 [0, 0, 0, 10, 0xFF])" TextPacketC "[0xFF]" _ 1] sample_ids
    by (simp add: sample_session_def id_table_ok_def bytes_be_4 del: sess_step.simps)
qed

end
