(* ===== verification/SessClient.thy ===== *)
theory SessClient
  imports SessionRun Json
begin

text \<open>
  The client's end of a session (\<open>animacharacter_pyclient/ac_sess_client/client.py\<close>): the HTTP request
  that creates it, the two peers, the heartbeat thread, and the calls that send configurations and
  motion frames.

  The heartbeat thread and the thread that calls \<open>send_config\<close> share the TCP peer. \<open>PeerTCP.send\<close> first
  packs the message, which gives it its sequence number, and then hands the frame to the socket; a step
  of the model ends between the two, where the other thread may run. Only the heartbeat takes the
  lock, so the lock never blocks anyone and is not part of the state. The answer of the HTTP server and
  the results of socket calls are arguments.
\<close>

section \<open>The session request\<close>

datatype client_error =
    AttributeError | TypeError | PeerError peer_error | EncodeError codec_error | FrameError struct_error | ThreadAlreadyStarted

text \<open>The values come from the server's JSON and are not checked.\<close>

record SessionData =
  sd_success :: json
  sd_msg :: json
  sd_nng_port :: json
  sd_udp_port :: json
  sd_udp_secret_key :: json
  sd_token :: json

definition SessionData_default :: SessionData where
  "SessionData_default = \<lparr>sd_success = JBool False, sd_msg = JStr [], sd_nng_port = JNum (- 1), sd_udp_port = JNum (- 1),
     sd_udp_secret_key = JStr [], sd_token = JStr []\<rparr>"

text \<open>The request raised, or was answered with a status and a body, which is \<open>None\<close> when it is not JSON.\<close>

datatype http_reply = HttpRaised | HttpReply nat "json option"

definition send_request :: "http_reply \<Rightarrow> json option" where
  "send_request reply =
     (case reply of HttpRaised \<Rightarrow> None | HttpReply status body \<Rightarrow> if status \<noteq> 200 then None else body)"

fun truthy :: "json \<Rightarrow> bool" where
  "truthy JNull = False"
| "truthy (JBool b) = b"
| "truthy (JNum x) = (x \<noteq> 0)"
| "truthy (JStr t) = (t \<noteq> [])"
| "truthy (JList xs) = (xs \<noteq> [])"
| "truthy (JObj d) = (d \<noteq> [])"

definition get_or :: "(string, json) dict \<Rightarrow> string \<Rightarrow> json \<Rightarrow> json" where
  "get_or d k v = (case dict_get d k of None \<Rightarrow> v | Some w \<Rightarrow> w)"

definition send_session_request :: "http_reply \<Rightarrow> client_error + SessionData" where
  "send_session_request reply =
     (case send_request reply of
        None \<Rightarrow> Inr SessionData_default
      | Some response \<Rightarrow>
          if \<not> truthy response then Inr SessionData_default
          else case response of
            JObj d \<Rightarrow> Inr \<lparr>sd_success = get_or d ''success'' (JBool False), sd_msg = get_or d ''msg'' (JStr []),
                sd_nng_port = get_or d ''nng_port'' (JNum (- 1)), sd_udp_port = get_or d ''udp_port'' (JNum (- 1)),
                sd_udp_secret_key = get_or d ''udp_secret_key'' (JStr []), sd_token = get_or d ''token'' (JStr [])\<rparr>
          | _ \<Rightarrow> Inl AttributeError)"

section \<open>The client\<close>

datatype heartbeat_thread = NotStarted | Sleeping | Sending bytes | Dead

text \<open>\<open>user_call\<close> is the frame that a running call of \<open>send_config\<close> has packed; \<open>packet_ids\<close> is the
  process-wide cache of packet ids; the two wires are what the sockets have accepted.\<close>

record SessClient =
  peertpc :: PeerTCP
  peerudp :: PeerUDP
  session_data :: SessionData
  heartbeat :: heartbeat_thread
  user_call :: "bytes option"
  packet_ids :: id_table
  tcp_wire :: "bytes list"
  udp_wire :: "bytes list"

definition SessClient_init :: "id_table \<Rightarrow> peer_error + SessClient" where
  "SessClient_init ids =
     res_bind (PeerTCP_init None 5 5) (\<lambda>t.
     res_bind (PeerUDP_init None 5) (\<lambda>u.
       Inr \<lparr>peertpc = t, peerudp = u, session_data = SessionData_default, heartbeat = NotStarted, user_call = None,
            packet_ids = ids, tcp_wire = [], udp_wire = []\<rparr>))"

definition normalize_psk :: "json \<Rightarrow> client_error + bytes" where
  "normalize_psk k = (case k of JStr t \<Rightarrow> map_sum EncodeError id (utf8_encode (map of_char t)) | _ \<Rightarrow> Inl TypeError)"

text \<open>\<open>connect\<close> refuses a port that is not an integer.\<close>

definition int_port :: "json \<Rightarrow> int option" where
  "int_port p = (case p of JNum x \<Rightarrow> if x \<in> \<int> then Some \<lfloor>x\<rfloor> else None | _ \<Rightarrow> None)"

definition dial_peers ::
    "unit nng_result \<Rightarrow> string \<Rightarrow> string option \<Rightarrow> SessClient \<Rightarrow> (client_error + unit) \<times> SessClient" where
  "dial_peers dialed ip udp_raised c =
     (case tcp_dial dialed (peertpc c) of
        (Inl e, t) \<Rightarrow> (Inl (PeerError e), c\<lparr>peertpc := t\<rparr>)
      | (Inr _, t) \<Rightarrow>
          (let c = c\<lparr>peertpc := t\<rparr>
           in case int_port (sd_udp_port (session_data c)) of
                None \<Rightarrow> (Inl TypeError, c)
              | Some port \<Rightarrow>
                  (case udp_dial ip port udp_raised (peerudp c) of
                     (Inl e, u) \<Rightarrow> (Inl (PeerError e), c\<lparr>peerudp := u\<rparr>)
                   | (Inr _, u) \<Rightarrow> (Inr (), c\<lparr>peerudp := u\<rparr>))))"

definition initiate_session ::
    "http_reply \<Rightarrow> unit nng_result \<Rightarrow> string \<Rightarrow> string option \<Rightarrow> SessClient \<Rightarrow> (client_error + bool) \<times> SessClient" where
  "initiate_session reply dialed ip udp_raised c =
     (case send_session_request reply of
        Inl e \<Rightarrow> (Inl e, c)
      | Inr sd \<Rightarrow>
          (let c = c\<lparr>session_data := sd\<rparr>
           in if \<not> truthy (sd_success sd) then (Inr False, c)
              else case normalize_psk (sd_token sd) of
                Inl e \<Rightarrow> (Inl e, c)
              | Inr key \<Rightarrow>
                  (case dial_peers dialed ip udp_raised
                          (c\<lparr>peertpc := peer_set_psk key (peertpc c), peerudp := peer_set_psk key (peerudp c)\<rparr>) of
                     (Inl e, c) \<Rightarrow> (Inl e, c)
                   | (Inr _, c) \<Rightarrow>
                       if heartbeat c \<noteq> NotStarted then (Inl ThreadAlreadyStarted, c)
                       else (Inr True, c\<lparr>heartbeat := Sleeping\<rparr>))))"

section \<open>Sending\<close>

text \<open>\<open>PeerTCP.send\<close> up to the frame, and from the frame on.\<close>

definition begin_send :: "mac \<Rightarrow> bytes \<Rightarrow> SessClient \<Rightarrow> (client_error + bytes) \<times> SessClient" where
  "begin_send mac msg c =
     (case require_initialized (peertpc c) of
        Inl e \<Rightarrow> (Inl (PeerError e), c)
      | Inr _ \<Rightarrow>
          (case pack mac msg (proto (peertpc c)) of
             (r, q) \<Rightarrow> (map_sum (\<lambda>e. PeerError (Packing e)) id r, c\<lparr>peertpc := (peertpc c)\<lparr>proto := q\<rparr>\<rparr>)))"

definition finish_send :: "unit nng_result \<Rightarrow> bytes \<Rightarrow> SessClient \<Rightarrow> (client_error + bool) \<times> SessClient" where
  "finish_send sock frame c =
     (map_sum PeerError id (tcp_transport_send (\<lambda>packet. sock) frame),
      case sock of NngDone _ \<Rightarrow> c\<lparr>tcp_wire := tcp_wire c @ [frame]\<rparr> | _ \<Rightarrow> c)"

definition encode_and_begin ::
    "mac \<Rightarrow> 'o codec_libs \<Rightarrow> 'o encode_call \<Rightarrow> SessClient \<Rightarrow> (client_error + bytes) \<times> SessClient" where
  "encode_and_begin mac libs call c =
     (case encoder_wrapper libs call (packet_ids c) of
        (Inl e, ids) \<Rightarrow> (Inl (EncodeError e), c\<lparr>packet_ids := ids\<rparr>)
      | (Inr msg, ids) \<Rightarrow> begin_send mac msg (c\<lparr>packet_ids := ids\<rparr>))"

definition send_motionframe ::
    "mac \<Rightarrow> 'f float_lib \<Rightarrow> (int \<times> 'f) list \<Rightarrow> unit udp_result \<Rightarrow> SessClient \<Rightarrow> (client_error + bool) \<times> SessClient" where
  "send_motionframe mac fl motionframe sock c =
     (case encode_motionframe_packet fl motionframe of
        Inl e \<Rightarrow> (Inl (FrameError e), c)
      | Inr encoded \<Rightarrow>
          (case udp_send mac sock encoded (peerudp c) of
             (Inl e, u) \<Rightarrow> (Inl (PeerError e), c\<lparr>peerudp := u\<rparr>)
           | (Inr (ok, frame), u) \<Rightarrow>
               (Inr ok, c\<lparr>peerudp := u, udp_wire := (if ok then udp_wire c @ [frame] else udp_wire c)\<rparr>)))"

text \<open>The steps of the two threads.\<close>

definition heartbeat_wake :: "mac \<Rightarrow> 'o codec_libs \<Rightarrow> bytes \<Rightarrow> SessClient \<Rightarrow> SessClient" where
  "heartbeat_wake mac libs nonce c =
     (if heartbeat c \<noteq> Sleeping then c
      else case encode_and_begin mac libs (EncHeartBeat nonce) c of
        (Inl e, c) \<Rightarrow> c\<lparr>heartbeat := Dead\<rparr>
      | (Inr frame, c) \<Rightarrow> c\<lparr>heartbeat := Sending frame\<rparr>)"

definition heartbeat_send :: "unit nng_result \<Rightarrow> SessClient \<Rightarrow> SessClient" where
  "heartbeat_send sock c =
     (case heartbeat c of
        Sending frame \<Rightarrow>
          (case finish_send sock frame c of
             (Inl e, c) \<Rightarrow> c\<lparr>heartbeat := Dead\<rparr>
           | (Inr ok, c) \<Rightarrow> c\<lparr>heartbeat := Sleeping\<rparr>)
      | _ \<Rightarrow> c)"

definition send_config_call :: "mac \<Rightarrow> 'o codec_libs \<Rightarrow> 'o \<Rightarrow> SessClient \<Rightarrow> SessClient" where
  "send_config_call mac libs config c =
     (if user_call c \<noteq> None then c
      else case encode_and_begin mac libs (EncConfiguration config) c of
        (Inl e, c) \<Rightarrow> c
      | (Inr frame, c) \<Rightarrow> c\<lparr>user_call := Some frame\<rparr>)"

definition send_config_return :: "unit nng_result \<Rightarrow> SessClient \<Rightarrow> (client_error + bool) option \<times> SessClient" where
  "send_config_return sock c =
     (case user_call c of
        None \<Rightarrow> (None, c)
      | Some frame \<Rightarrow> (let (r, c) = finish_send sock frame c in (Some r, c\<lparr>user_call := None\<rparr>)))"

datatype ('o, 'f) client_event =
    HeartbeatWake bytes
  | HeartbeatSend "unit nng_result"
  | ConfigCall 'o
  | ConfigReturn "unit nng_result"
  | MotionCall "(int \<times> 'f) list" "unit udp_result"

fun client_step :: "('o, 'f) sess_env \<Rightarrow> SessClient \<Rightarrow> ('o, 'f) client_event \<Rightarrow> SessClient" where
  "client_step env c (HeartbeatWake nonce) = heartbeat_wake (env_mac env) (env_libs env) nonce c"
| "client_step env c (HeartbeatSend sock) = heartbeat_send sock c"
| "client_step env c (ConfigCall config) = send_config_call (env_mac env) (env_libs env) config c"
| "client_step env c (ConfigReturn sock) = snd (send_config_return sock c)"
| "client_step env c (MotionCall mf sock) = snd (send_motionframe (env_mac env) (env_float env) mf sock c)"

abbreviation client_run :: "('o, 'f) sess_env \<Rightarrow> SessClient \<Rightarrow> ('o, 'f) client_event list \<Rightarrow> SessClient" where
  "client_run env c es \<equiv> foldl (client_step env) c es"

text \<open>Without interruption the two halves are \<open>PeerTCP.send\<close>.\<close>

lemma send_halves:
  "tcp_send mac (\<lambda>packet. sock) msg (peertpc c) =
     (case begin_send mac msg c of
        (Inl (PeerError e), c') \<Rightarrow> (Inl e, peertpc c')
      | (Inr frame, c') \<Rightarrow> (res_bind (tcp_transport_send (\<lambda>packet. sock) frame) (\<lambda>ok. Inr (ok, frame)), peertpc c'))"
  by (auto simp: tcp_send_def peer_send_def begin_send_def require_initialized_def split: prod.splits sum.splits)

section \<open>Calls that do not overlap\<close>

text \<open>The frames packed and not yet handed to the socket.\<close>

definition pending :: "SessClient \<Rightarrow> bytes list" where
  "pending c = (case heartbeat c of Sending frame \<Rightarrow> [frame] | _ \<Rightarrow> []) @ (case user_call c of None \<Rightarrow> [] | Some frame \<Rightarrow> [frame])"

text \<open>A thread starts a call only while the other is not inside one, and the socket takes every frame.\<close>

fun fits :: "SessClient \<Rightarrow> ('o, 'f) client_event \<Rightarrow> bool" where
  "fits c (HeartbeatWake nonce) \<longleftrightarrow> heartbeat c = Sleeping \<and> user_call c = None"
| "fits c (ConfigCall config) \<longleftrightarrow> heartbeat c = Sleeping \<and> user_call c = None"
| "fits c (HeartbeatSend sock) \<longleftrightarrow> sock = NngDone ()"
| "fits c (ConfigReturn sock) \<longleftrightarrow> sock = NngDone ()"
| "fits c (MotionCall mf sock) \<longleftrightarrow> True"

fun orderly :: "('o, 'f) sess_env \<Rightarrow> SessClient \<Rightarrow> ('o, 'f) client_event list \<Rightarrow> bool" where
  "orderly env c [] \<longleftrightarrow> True"
| "orderly env c (e # es) \<longleftrightarrow> fits c e \<and> orderly env (client_step env c e) es"

definition calls_of :: "('o, 'f) client_event list \<Rightarrow> 'o encode_call list" where
  "calls_of es = concat (map (\<lambda>e. case e of
     HeartbeatWake nonce \<Rightarrow> [EncHeartBeat nonce] | ConfigCall config \<Rightarrow> [EncConfiguration config] | _ \<Rightarrow> []) es)"

lemma calls_plain: "list_all plain_command (calls_of es)"
  by (induction es) (auto simp: calls_of_def plain_command_def split: client_event.splits)

lemma begin_ok:
  assumes "encoder_wrapper libs call (packet_ids c) = (Inr m, ids)" "peer_init (peertpc c)" "send_sequence (proto (peertpc c)) + 1 < 256 ^ 8"
  shows "encode_and_begin mac libs call c =
    (Inr (auth_frame mac (psk (proto (peertpc c))) (send_sequence (proto (peertpc c)) + 1) m),
     c\<lparr>packet_ids := ids, peertpc := (peertpc c)\<lparr>proto := (proto (peertpc c))\<lparr>send_sequence := send_sequence (proto (peertpc c)) + 1\<rparr>\<rparr>\<rparr>)"
  using assms by (simp add: encode_and_begin_def begin_send_def require_initialized_def pack_def Let_def encode_packet_ok auth_frame_def)

lemma motion_frame [simp]:
  "peertpc (snd (send_motionframe mac fl mf sock c)) = peertpc c" "heartbeat (snd (send_motionframe mac fl mf sock c)) = heartbeat c"
  "user_call (snd (send_motionframe mac fl mf sock c)) = user_call c" "tcp_wire (snd (send_motionframe mac fl mf sock c)) = tcp_wire c"
  "packet_ids (snd (send_motionframe mac fl mf sock c)) = packet_ids c"
  by (auto simp: send_motionframe_def split: sum.splits prod.splits)

lemma orderly_wire:
  assumes "id_table_ok (env_libs env) (packet_ids c)"
  shows "orderly env c es \<Longrightarrow> peer_init (peertpc c) \<Longrightarrow> length (pending c) \<le> 1 \<Longrightarrow> encode_calls (env_libs env) (calls_of es) (packet_ids c) = Inr ms \<Longrightarrow>
    send_sequence (proto (peertpc c)) + length ms < 256 ^ 8 \<Longrightarrow>
    tcp_wire (client_run env c es) @ pending (client_run env c es) =
      tcp_wire c @ pending c @ fst (emit (env_mac env) ms (proto (peertpc c)))"
  using assms
proof (induction es arbitrary: c ms)
  case Nil
  then show ?case by (simp add: calls_of_def)
next
  case (Cons e es)
  have started: ?case if call: "calls_of (e # es) = call # calls_of es" and idle: "pending c = []"
    and step: "\<And>f c'. encode_and_begin (env_mac env) (env_libs env) call c = (Inr f, c') \<Longrightarrow>
      peertpc (client_step env c e) = peertpc c' \<and> packet_ids (client_step env c e) = packet_ids c'
      \<and> tcp_wire (client_step env c e) = tcp_wire c' \<and> pending (client_step env c e) = [f]" for call
  proof -
    let ?p = "proto (peertpc c)"
    obtain m ids' ms' where ms: "ms = m # ms'" and enc: "encoder_wrapper (env_libs env) call (packet_ids c) = (Inr m, ids')"
      and more: "encode_calls (env_libs env) (calls_of es) ids' = Inr ms'" "id_table_ok (env_libs env) ids'"
      using encode_calls_Cons [OF Cons.prems(4) [unfolded call] Cons.prems(6)] by blast
    have "send_sequence ?p + 1 < 256 ^ 8" using Cons.prems(5) ms by simp
    note st = step [OF begin_ok [OF enc Cons.prems(2) this]]
    have "send_sequence (proto (peertpc (client_step env c e))) + length ms' < 256 ^ 8" using Cons.prems(5) st ms by simp
    then have "tcp_wire (client_run env c (e # es)) @ pending (client_run env c (e # es)) =
        tcp_wire c @ [auth_frame (env_mac env) (psk ?p) (send_sequence ?p + 1) m]
          @ fst (emit (env_mac env) ms' (?p\<lparr>send_sequence := send_sequence ?p + 1\<rparr>))"
      using Cons.IH [of "client_step env c e" ms'] Cons.prems(1,2) more st by simp
    then show ?thesis using emit_Cons [of ?p m ms' "env_mac env"] Cons.prems(5) idle ms by (simp del: emit.simps)
  qed
  have passed: ?case if "calls_of (e # es) = calls_of es" and "peertpc (client_step env c e) = peertpc c"
    and "packet_ids (client_step env c e) = packet_ids c" and "length (pending (client_step env c e)) \<le> 1"
    and "tcp_wire (client_step env c e) @ pending (client_step env c e) = tcp_wire c @ pending c"
    using that Cons.IH [of "client_step env c e" ms] Cons.prems by (simp flip: append_assoc)
  show ?case
  proof (cases e)
    case (HeartbeatWake nonce)
    then show ?thesis using Cons.prems(1)
      by (intro started [of "EncHeartBeat nonce"]) (auto simp: calls_of_def pending_def heartbeat_wake_def encode_and_begin_def begin_send_def
          require_initialized_def split: prod.splits sum.splits if_splits)
  next
    case (ConfigCall config)
    then show ?thesis using Cons.prems(1)
      by (intro started [of "EncConfiguration config"]) (auto simp: calls_of_def pending_def send_config_call_def encode_and_begin_def begin_send_def
          require_initialized_def split: prod.splits sum.splits if_splits)
  next
    case (HeartbeatSend sock)
    then show ?thesis using Cons.prems(1,3)
      by (intro passed) (auto simp: calls_of_def pending_def heartbeat_send_def finish_send_def tcp_transport_send_def split: heartbeat_thread.splits)
  next
    case (ConfigReturn sock)
    then show ?thesis using Cons.prems(1,3)
      by (intro passed) (auto simp: calls_of_def pending_def send_config_return_def finish_send_def tcp_transport_send_def
          split: heartbeat_thread.splits option.splits)
  next
    case (MotionCall mf sock)
    then show ?thesis using Cons.prems(3) by (intro passed) (auto simp: calls_of_def pending_def)
  qed
qed

section \<open>Starting a session\<close>

lemma dial_peers_Inr:
  assumes "dial_peers dialed ip raised c = (Inr x, c')"
  shows "\<not> peer_init (peertpc c) \<and> \<not> peer_init (peerudp c) \<and> peer_init (peertpc c') \<and> peer_init (peerudp c')
    \<and> proto (peertpc c') = proto (peertpc c) \<and> proto (peerudp c') = proto (peerudp c) \<and> peer_addr (udp (peerudp c')) \<noteq> None
    \<and> session_data c' = session_data c \<and> heartbeat c' = heartbeat c \<and> user_call c' = user_call c \<and> packet_ids c' = packet_ids c
    \<and> tcp_wire c' = tcp_wire c \<and> udp_wire c' = udp_wire c"
  using assms
  by (auto simp: dial_peers_def tcp_dial_def udp_dial_def endpoint_connect_def require_not_initialized_def Let_def
      split: if_splits nng_result.splits option.splits)

lemma initiate_True:
  assumes "initiate_session reply dialed ip raised c = (Inr True, c')"
  shows "\<exists>key. normalize_psk (sd_token (session_data c')) = Inr key \<and> proto (peertpc c') = set_psk key (proto (peertpc c))
    \<and> proto (peerudp c') = set_psk key (proto (peerudp c))
    \<and> \<not> peer_init (peertpc c) \<and> peer_init (peertpc c') \<and> peer_init (peerudp c') \<and> peer_addr (udp (peerudp c')) \<noteq> None
    \<and> send_session_request reply = Inr (session_data c') \<and> heartbeat c = NotStarted \<and> heartbeat c' = Sleeping \<and> user_call c' = user_call c \<and> packet_ids c' = packet_ids c
    \<and> tcp_wire c' = tcp_wire c \<and> udp_wire c' = udp_wire c"
  using assms
  by (auto simp: initiate_session_def Let_def peer_set_psk_def split: sum.splits if_splits prod.splits dest!: dial_peers_Inr)

lemma init_client:
  assumes "SessClient_init ids = Inr c"
  shows "proto (peertpc c) = SecureWireProtocol_init []" "heartbeat c = NotStarted" "user_call c = None" "packet_ids c = ids"
    "tcp_wire c = []" "proto (peerudp c) = SecureWireProtocol_init []"
  using assms
  by (auto simp: SessClient_init_def PeerTCP_init_def PeerUDP_init_def udp_set_timeout_def endpoint_set_timeout_def res_bind_Inr
      validate_timeout_def py_int_def set_blocking_def Let_def)

lemma client_step_init: "peer_init (peertpc (client_step env c e)) = peer_init (peertpc c)"
  by (cases e) (auto simp: heartbeat_wake_def heartbeat_send_def send_config_call_def send_config_return_def encode_and_begin_def
      begin_send_def finish_send_def require_initialized_def Let_def split: prod.splits sum.splits heartbeat_thread.splits option.splits nng_result.splits)

interpretation client: event_machine "client_step env" "\<lambda>c. peer_init (peertpc c)" for env
  by unfold_locales (simp add: client_step_init)

section \<open>Properties\<close>

lemma orderly_client_published:
  assumes "SessClient_init client_ids = Inr c0" "initiate_session reply dialed ip raised c0 = (Inr True, c)"
    and "orderly env c es" "pending (client_run env c es) = []"
    and "encode_calls (env_libs env) (calls_of es) client_ids = Inr ms" "length ms < 256 ^ 8 - 1"
    and "run_main now now' t u (decoder_for (env_libs env) session_classes server_ids) m = Inr s" "peer_init t"
    and "normalize_psk (sd_token (session_data c)) = Inr (psk (proto t))" "last_received_sequence (proto t) = 0"
    and "list_all (faithful (env_libs env)) (calls_of es)" "digest32 (env_mac env)"
    and "inj_on (packet_id (env_libs env)) (set (builtin_classes @ session_classes))"
    and "id_table_ok (env_libs env) server_ids" "id_table_ok (env_libs env) client_ids"
    and "tcp_frames server_es = tcp_wire (client_run env c es)" "calm (now + HEARTBEAT_TIMEOUT_SEC) now' server_es"
  shows "config_topic (sess_run env s server_es) = config_texts (env_libs env) (calls_of es)
    \<and> run_state (sess_run env s server_es) = Running \<and> \<not> all_stop (sess_run env s server_es)"
proof -
  note new = init_client [OF assms(1)]
  have start: "proto (peertpc c) = set_psk (psk (proto t)) (SecureWireProtocol_init [])" "peer_init (peertpc c)" "packet_ids c = client_ids"
    "tcp_wire c = []" "heartbeat c = Sleeping" "user_call c = None"
    using initiate_True [OF assms(2)] assms(9) new by auto
  then have p: "send_sequence (proto (peertpc c)) = 0" "psk (proto (peertpc c)) = psk (proto (tcp_sock s))"
    using run_main_Inr(1) [OF assms(7)] by (simp_all add: set_psk_def SecureWireProtocol_init_def)
  have "pending c = []" using start by (simp add: pending_def)
  with orderly_wire [of env c es ms] start p assms(3-6,15)
  have wire: "tcp_frames server_es = fst (emit (env_mac env) ms (proto (peertpc c)))" using assms(16) by simp
  have "live (now + HEARTBEAT_TIMEOUT_SEC) s" using assms(8) run_main_Inr [OF assms(7)] by (simp add: live_def)
  from commands_run [OF assms(12-14) this run_main_Inr(4) [OF assms(7)] assms(15) calls_plain assms(5) p(2) _ _ wire _ assms(11)]
    assms(6,10,17) run_main_Inr [OF assms(7)] p(1)
  show ?thesis by (simp add: live_def)
qed

text \<open>
  What a client asks for is done: after \<open>initiate_session\<close> on a new client, the configurations and
  heartbeats it sends (the configurations being objects that \<open>json\<close> gives back unchanged) in any number and order, mixed with motion frames, reach the session's topic as exactly
  the configurations' texts in the order of the calls, and the session goes on, as long as the two threads of
  the client do not overlap in \<open>PeerTCP.send\<close>, the sockets take the frames, and the heartbeat stays in time.
\<close>

theorem orderly_client_is_obeyed:
  assumes "SessClient_init client_ids = Inr c0" "initiate_session reply dialed ip raised c0 = (Inr True, c)"
    and "orderly env c es" "pending (client_run env c es) = []"
    and "encode_calls (env_libs env) (calls_of es) client_ids = Inr ms" "length ms < 256 ^ 8 - 1"
    and "run_main now now' t u (decoder_for (env_libs env) session_classes server_ids) m = Inr s" "peer_init t"
    and "normalize_psk (sd_token (session_data c)) = Inr (psk (proto t))" "last_received_sequence (proto t) = 0"
    and "list_all (faithful (env_libs env)) (calls_of es)" "digest32 (env_mac env)"
    and "inj_on (packet_id (env_libs env)) (set (builtin_classes @ session_classes))"
    and "id_table_ok (env_libs env) server_ids" "id_table_ok (env_libs env) client_ids"
    and "tcp_frames server_es = tcp_wire (client_run env c es)" "calm (now + HEARTBEAT_TIMEOUT_SEC) now' server_es"
  shows "config_topic (sess_run env s server_es) = config_texts (env_libs env) (calls_of es)
    \<and> run_state (sess_run env s server_es) = Running \<and> \<not> all_stop (sess_run env s server_es)"
  using assms by (rule orderly_client_published)

text \<open>A concrete client with the key of the sample session.\<close>

definition sample_reply :: http_reply where
  "sample_reply = HttpReply 200 (Some (JObj [(''success'', JBool True), (''udp_port'', JNum 7), (''token'', JStr [CHR 0x01])]))"

definition sample_client :: SessClient where
  "sample_client = snd (initiate_session sample_reply (NngDone ()) ''h'' None (projr (SessClient_init [])))"

lemma sample_init: "SessClient_init [] = Inr (projr (SessClient_init []))"
  by (simp add: SessClient_init_def PeerTCP_init_def PeerUDP_init_def udp_set_timeout_def endpoint_set_timeout_def validate_timeout_def
      py_int_def)

lemma sample_session_data:
  "send_session_request sample_reply = Inr (SessionData_default\<lparr>sd_success := JBool True, sd_udp_port := JNum 7, sd_token := JStr [CHR 0x01]\<rparr>)"
  by (simp add: send_session_request_def send_request_def sample_reply_def get_or_def SessionData_default_def)

lemma sample_key: "normalize_psk (JStr [CHR 0x01]) = Inr [1]"
  by (simp add: normalize_psk_def utf8_encode_def utf8_char_def scalar_def)

lemma sample_initiate: "initiate_session sample_reply (NngDone ()) ''h'' None (projr (SessClient_init [])) = (Inr True, sample_client)"
proof -
  have "fst (initiate_session sample_reply (NngDone ()) ''h'' None (projr (SessClient_init []))) = Inr True"
    by (simp add: initiate_session_def sample_session_data sample_key Let_def dial_peers_def tcp_dial_def udp_dial_def
        endpoint_connect_def require_not_initialized_def int_port_def peer_set_psk_def SessClient_init_def PeerTCP_init_def PeerUDP_init_def
        udp_set_timeout_def endpoint_set_timeout_def validate_timeout_def py_int_def set_blocking_def)
  then show ?thesis by (simp add: sample_client_def prod_eq_iff)
qed

lemma sample_client_sel:
  "session_data sample_client = SessionData_default\<lparr>sd_success := JBool True, sd_udp_port := JNum 7, sd_token := JStr [CHR 0x01]\<rparr>"
  "heartbeat sample_client = Sleeping" "user_call sample_client = None" "packet_ids sample_client = []" "tcp_wire sample_client = []"
  "peer_init (peertpc sample_client)" "proto (peertpc sample_client) = SecureWireProtocol_init [1]"
proof -
  have sd: "session_data sample_client = SessionData_default\<lparr>sd_success := JBool True, sd_udp_port := JNum 7, sd_token := JStr [CHR 0x01]\<rparr>"
    using initiate_True [OF sample_initiate] sample_session_data by auto
  show "session_data sample_client = SessionData_default\<lparr>sd_success := JBool True, sd_udp_port := JNum 7, sd_token := JStr [CHR 0x01]\<rparr>"
    by (rule sd)
  show "heartbeat sample_client = Sleeping" "user_call sample_client = None" "packet_ids sample_client = []" "tcp_wire sample_client = []"
    "peer_init (peertpc sample_client)" "proto (peertpc sample_client) = SecureWireProtocol_init [1]"
    using initiate_True [OF sample_initiate] init_client [OF sample_init] sample_key
    by (auto simp: sd set_psk_def SecureWireProtocol_init_def)
qed

lemma sample_messages:
  "encode_calls plain_libs [EncConfiguration [0xE9], EncHeartBeat [7]] [] = Inr [[0, 0, 0, 19, 0xC3, 0xA9], [0, 0, 0, 15, 7]]"
proof -
  have "get_packtype_id plain_libs ConfigurationPacketC [] = (19, [(''ConfigurationPacket'', 19)])"
    "get_packtype_id plain_libs HeartBeatPacketC [(''ConfigurationPacket'', 19)] =
      (15, [(''ConfigurationPacket'', 19), (''HeartBeatPacket'', 15)])"
    by (simp_all add: get_packtype_id_def dict_has_def gen32bithash_mod plain_libs_def)
  moreover have "original_encode plain_libs (EncConfiguration [0xE9]) = Inr [0xC3, 0xA9]"
    by (simp add: plain_libs_def utf8_encode_def utf8_char_def scalar_def)
  ultimately show ?thesis by (simp add: encoder_wrapper_def PACKTYPEID_SIZE_BYTES_def bytes_be_4)
qed

definition sample_events :: "(bytes, 32 word) client_event list" where
  "sample_events = [ConfigCall [0xE9], ConfigReturn (NngDone ()), HeartbeatWake [7], HeartbeatSend (NngDone ())]"

definition sample_arrivals :: "sess_event list" where
  "sample_arrivals = map (\<lambda>d. TcpWake (NngDone d) 1) (tcp_wire (client_run sample_env sample_client sample_events)) @ [Tick 1 2 3]"

lemma sample_calls: "calls_of sample_events = [EncConfiguration [0xE9], EncHeartBeat [7]]"
  by (simp add: sample_events_def calls_of_def)

lemma sample_mid:
  "heartbeat (client_run sample_env sample_client (take 2 sample_events)) = Sleeping"
  "user_call (client_run sample_env sample_client (take 2 sample_events)) = None"
  by (simp_all add: sample_events_def numeral_2_eq_2 sample_client_sel send_config_call_def send_config_return_def encode_and_begin_def begin_send_def
      require_initialized_def finish_send_def Let_def split: prod.splits sum.splits)

lemma sample_orderly: "orderly sample_env sample_client sample_events"
  using sample_mid by (simp add: sample_events_def sample_client_sel numeral_2_eq_2)

lemma sample_pending: "pending (client_run sample_env sample_client sample_events) = []"
  using sample_mid by (simp add: sample_events_def numeral_2_eq_2 pending_def heartbeat_wake_def heartbeat_send_def encode_and_begin_def begin_send_def
      require_initialized_def finish_send_def tcp_transport_send_def split: prod.splits sum.splits)

lemma sample_calm: "calm 10 0 sample_arrivals"
  unfolding sample_arrivals_def by (rule sent_calm) (simp_all add: HEARTBEAT_TIMEOUT_SEC_def)

lemma sample_arrived: "tcp_frames sample_arrivals = tcp_wire (client_run sample_env sample_client sample_events)"
  by (simp add: sample_arrivals_def sent_frames)

theorem orderly_client_is_obeyed_witness:
  "config_topic (sess_run sample_env sample_session sample_arrivals) = [[0xE9]]"
  using orderly_client_is_obeyed [OF sample_init sample_initiate sample_orderly sample_pending, of _ 0 0 sample_tcp sample_udp "[]" _ sample_session sample_arrivals]
    sample_run_main sample_messages sample_ids sample_key sample_calm sample_arrived
  by (simp add: sample_calls sample_client_sel sample_tcp_def SecureWireProtocol_init_def id_table_ok_def HEARTBEAT_TIMEOUT_SEC_def
      config_texts_def plain_libs_def del: foldl_append foldl_Cons client_step.simps)

lemma tcp_step_sock:
  "live limit s \<Longrightarrow> tcp_sock (sess_step env s (TcpWake r now)) = snd (tcp_recv (env_mac env) r (tcp_sock s))"
  using live_waiting [of limit s] by (auto simp: live_def main_packet_handler_def Let_def split: prod.splits sum.splits)

lemma stale_frame_dropped:
  fixes m now
  assumes "live limit s" "digest32 (env_mac env)" "n \<le> last_received_sequence (proto (tcp_sock s))" "n < 256 ^ 8"
  defines "s' \<equiv> sess_step env s (TcpWake (NngDone (auth_frame (env_mac env) (psk (proto (tcp_sock s))) n m)) now)"
  shows "config_topic s' = config_topic s \<and> drops (tcp_sock s') = drops (tcp_sock s) + 1"
proof -
  have "unpack (env_mac env) (auth_frame (env_mac env) (psk (proto (tcp_sock s))) n m) (proto (tcp_sock s)) = (None, proto (tcp_sock s))"
  proof (cases rule: unpack_cases [of "env_mac env" "auth_frame (env_mac env) (psk (proto (tcp_sock s))) n m" "proto (tcp_sock s)"])
    case (accepted k x)
    then obtain "last_received_sequence (proto (tcp_sock s)) < k" "k < 256 ^ 8"
      "auth_frame (env_mac env) (psk (proto (tcp_sock s))) n m = bytes_be 8 k @ x @ env_mac env (psk (proto (tcp_sock s))) (bytes_be 8 k @ x)"
      by (auto simp: decode_packet_iff)
    moreover from this have "bytes_be 8 n = bytes_be 8 k" by (simp add: auth_frame_def append_eq_append_conv)
    then have "n = k" using assms(4) \<open>k < 256 ^ 8\<close> by (metis nat_of_bytes_be_inverse)
    ultimately show ?thesis using assms(3) by simp
  qed
  then have "main_packet_handler env (NngDone (auth_frame (env_mac env) (psk (proto (tcp_sock s))) n m)) now s =
      s\<lparr>tcp_sock := tcp_drop_connection (tcp_sock s), handler := Waiting\<rparr>"
    using assms(1) by (simp add: live_def main_packet_handler_def tcp_recv_def peer_recv_def require_initialized_def
        tcp_transport_recv_def finish_recv_def loop_test_def Let_def)
  then show ?thesis using assms(1) live_waiting [OF assms(1)] by (simp add: s'_def live_def gather_def tcp_drop_connection_def)
qed

text \<open>
  C37. A configuration can be lost without notice: \<open>send_config\<close> does not take the lock that the heartbeat
  takes, so the heartbeat can overtake it between packing and sending. The session then sees the
  configuration with a sequence number below the heartbeat's, refuses it and drops the connection, while
  \<open>send_config\<close> returns \<open>True\<close>.
\<close>

theorem heartbeat_overtakes_config:
  assumes "heartbeat c = Sleeping" "user_call c = None" "peer_init (peertpc c)" "id_table_ok (env_libs env) (packet_ids c)"
    and "encode_calls (env_libs env) [EncConfiguration config, EncHeartBeat nonce] (packet_ids c) = Inr ms"
    and "send_sequence (proto (peertpc c)) + 2 < 256 ^ 8" "psk (proto (peertpc c)) = psk (proto (tcp_sock s))"
    and "last_received_sequence (proto (tcp_sock s)) \<le> send_sequence (proto (peertpc c))"
    and "live limit s" "limit \<le> now + HEARTBEAT_TIMEOUT_SEC" "digest32 (env_mac env)"
    and "codec s = decoder_for (env_libs env) session_classes ids" "id_table_ok (env_libs env) ids"
    and "inj_on (packet_id (env_libs env)) (set (builtin_classes @ session_classes))"
  shows "\<exists>c1 c2 hb cfg.
    c1 = client_run env c [ConfigCall config, HeartbeatWake nonce, HeartbeatSend (NngDone ())]
    \<and> send_config_return (NngDone ()) c1 = (Some (Inr True), c2) \<and> tcp_wire c2 = tcp_wire c @ [hb, cfg]
    \<and> config_topic (sess_run env s [TcpWake (NngDone hb) now, TcpWake (NngDone cfg) now']) = config_topic s
    \<and> drops (tcp_sock (sess_run env s [TcpWake (NngDone hb) now, TcpWake (NngDone cfg) now'])) = drops (tcp_sock s) + 1"
proof -
  let ?p = "proto (peertpc c)" and ?mac = "env_mac env" and ?libs = "env_libs env"
  let ?k = "psk ?p" and ?n = "send_sequence ?p"
  obtain m1 ids1 where e1: "encoder_wrapper ?libs (EncConfiguration config) (packet_ids c) = (Inr m1, ids1)"
    "id_table_ok ?libs ids1" and rest: "\<exists>x. encode_calls ?libs [EncHeartBeat nonce] ids1 = Inr x"
    using encode_calls_Cons [OF assms(5,4)] by metis
  obtain m2 ids2 where e2: "encoder_wrapper ?libs (EncHeartBeat nonce) ids1 = (Inr m2, ids2)" "m2 \<noteq> []"
    using rest encode_calls_Cons [OF _ e1(2)] by metis
  define hb where "hb = auth_frame ?mac ?k (?n + 2) m2"
  define cfg where "cfg = auth_frame ?mac ?k (?n + 1) m1"
  define c1 where "c1 = client_run env c [ConfigCall config, HeartbeatWake nonce, HeartbeatSend (NngDone ())]"
  have b1: "client_step env c (ConfigCall config) = c\<lparr>packet_ids := ids1, peertpc := (peertpc c)\<lparr>proto := ?p\<lparr>send_sequence := ?n + 1\<rparr>\<rparr>,
      user_call := Some cfg\<rparr>" (is "_ = ?c")
    using assms(2,6) begin_ok [OF e1(1) assms(3), of ?mac] by (simp add: send_config_call_def cfg_def)
  have "encode_and_begin ?mac ?libs (EncHeartBeat nonce) ?c =
      (Inr hb, ?c\<lparr>packet_ids := ids2, peertpc := (peertpc c)\<lparr>proto := ?p\<lparr>send_sequence := ?n + 2\<rparr>\<rparr>\<rparr>)"
    using begin_ok [of ?libs "EncHeartBeat nonce" ?c m2 ids2 ?mac] e2 assms(3,6) by (simp add: hb_def)
  then have c1: "user_call c1 = Some cfg" "tcp_wire c1 = tcp_wire c @ [hb]"
    unfolding c1_def foldl_Cons foldl_Nil b1 using assms(1)
    by (simp_all add: heartbeat_wake_def heartbeat_send_def finish_send_def tcp_transport_send_def)
  then have ret: "\<exists>c2. send_config_return (NngDone ()) c1 = (Some (Inr True), c2) \<and> tcp_wire c2 = tcp_wire c @ [hb, cfg]"
    by (simp add: send_config_return_def finish_send_def tcp_transport_send_def)
  have "parse_bytes ?libs (codec s) m2 = Inr \<lparr>packet = packet_of ?libs (EncHeartBeat nonce), raw_bytes = m2\<rparr>"
    unfolding assms(12) by (intro roundtrip_registered [OF _ e1(2) assms(13,14) _ e2(1)]) (simp_all add: session_classes_def)
  from live_command [OF assms(9,11) _ _ e2(2) this _ assms(10), of "?n + 2"] assms(6-8)
  have s1: "live limit (sess_step env s (TcpWake (NngDone hb) now))"
    "proto (tcp_sock (sess_step env s (TcpWake (NngDone hb) now))) = (proto (tcp_sock s))\<lparr>last_received_sequence := ?n + 2\<rparr>"
    "config_topic (sess_step env s (TcpWake (NngDone hb) now)) = config_topic s"
    by (simp_all add: hb_def plain_command_def config_texts_def)
  have "tcp_sock (sess_step env s (TcpWake (NngDone hb) now)) = (tcp_sock s)\<lparr>proto := (proto (tcp_sock s))\<lparr>last_received_sequence := ?n + 2\<rparr>\<rparr>"
    using tcp_step_sock [OF assms(9), of env] tcp_recv_fresh [of "tcp_sock s" ?mac "?n + 2" m2] assms(6-9,11) by (simp add: hb_def live_def)
  with stale_frame_dropped [OF s1(1) assms(11), of "?n + 1" m1 now'] s1(2,3) assms(6,7)
  have "config_topic (sess_run env s [TcpWake (NngDone hb) now, TcpWake (NngDone cfg) now']) = config_topic s
    \<and> drops (tcp_sock (sess_run env s [TcpWake (NngDone hb) now, TcpWake (NngDone cfg) now'])) = drops (tcp_sock s) + 1"
    by (simp add: cfg_def del: sess_step.simps)
  then show ?thesis using ret c1_def by blast
qed

theorem heartbeat_overtakes_config_witness:
  "\<exists>hb cfg. tcp_wire (client_run sample_env sample_client
        [ConfigCall [0xE9], HeartbeatWake [7], HeartbeatSend (NngDone ()), ConfigReturn (NngDone ())]) = [hb, cfg]
    \<and> config_topic (sess_run sample_env sample_session [TcpWake (NngDone hb) 1, TcpWake (NngDone cfg) 2]) = []"
proof -
  have "live 10 sample_session" by (simp add: live_def sample_session_def sess_ok_def sample_tcp_def)
  then have "\<exists>c1 c2 hb cfg.
    c1 = client_run sample_env sample_client [ConfigCall [0xE9], HeartbeatWake [7], HeartbeatSend (NngDone ())]
    \<and> send_config_return (NngDone ()) c1 = (Some (Inr True), c2) \<and> tcp_wire c2 = tcp_wire sample_client @ [hb, cfg]
    \<and> config_topic (sess_run sample_env sample_session [TcpWake (NngDone hb) 1, TcpWake (NngDone cfg) 2]) = config_topic sample_session
    \<and> drops (tcp_sock (sess_run sample_env sample_session [TcpWake (NngDone hb) 1, TcpWake (NngDone cfg) 2])) = drops (tcp_sock sample_session) + 1"
    using sample_messages sample_ids
    by (intro heartbeat_overtakes_config [where limit = 10 and ids = "[]" and ms = "[[0, 0, 0, 19, 0xC3, 0xA9], [0, 0, 0, 15, 7]]"])
      (simp_all add: sample_client_sel sample_session_def sample_tcp_def SecureWireProtocol_init_def id_table_ok_def HEARTBEAT_TIMEOUT_SEC_def)
  then obtain c1 c2 hb cfg where "c1 = client_run sample_env sample_client [ConfigCall [0xE9], HeartbeatWake [7], HeartbeatSend (NngDone ())]"
    "send_config_return (NngDone ()) c1 = (Some (Inr True), c2)" "tcp_wire c2 = [hb, cfg]"
    "config_topic (sess_run sample_env sample_session [TcpWake (NngDone hb) 1, TcpWake (NngDone cfg) 2]) = []"
    by (auto simp: sample_client_sel sample_session_def simp del: sess_step.simps client_step.simps foldl_Cons)
  then show ?thesis by (intro exI [of _ hb] exI [of _ cfg]) simp
qed

lemma dial_again:
  "peer_init (peertpc c) \<Longrightarrow> dial_peers dialed ip raised c = (Inl (PeerError IsAlreadyInitialized), c)"
  by (simp add: dial_peers_def tcp_dial_def require_not_initialized_def)

text \<open>
  A client object serves one session: once \<open>initiate_session\<close> has returned \<open>True\<close>, it never does so again,
  whatever was sent in between. When the server grants another session, the call raises, but only after
  the key of the new session has replaced the old one in both peers.
\<close>

theorem client_serves_one_session:
  assumes "initiate_session reply dialed ip raised c0 = (Inr True, c)"
    and "send_session_request reply' = Inr sd" "truthy (sd_success sd)" "normalize_psk (sd_token sd) = Inr key"
  shows "\<exists>c'. initiate_session reply' dialed' ip' raised' (client_run env c es) = (Inl (PeerError IsAlreadyInitialized), c')
    \<and> psk (proto (peertpc c')) = key \<and> psk (proto (peerudp c')) = key \<and> session_data c' = sd"
proof -
  have "peer_init (peertpc (client_run env c es))" using initiate_True [OF assms(1)] client.run_inv by blast
  then show ?thesis using assms(2-4) by (simp add: initiate_session_def Let_def dial_again peer_set_psk_def set_psk_def)
qed

theorem client_serves_one_session_witness:
  "fst (initiate_session sample_reply (NngDone ()) ''h'' None (client_run sample_env sample_client [HeartbeatWake [7]])) =
     Inl (PeerError IsAlreadyInitialized)"
  using client_serves_one_session [OF sample_initiate sample_session_data _, of "[1]" "NngDone ()" "''h''" None sample_env "[HeartbeatWake [7]]"]
    sample_key by auto

end
