(* ===== verification/ConfigTree.thy ===== *)
theory ConfigTree
  imports HwController
begin

text \<open>
  The client's configuration tree (\<open>animacharacter_pyclient/json_tree/node.py\<close>): nodes that collect
  published JSON data, and the rendering of a tree into the dictionary that is sent to the server. A tree
  is a value here; a node object is named by the path that leads to it from the root. That a published
  dictionary is stored by reference, and may change with later publications, is not represented.
\<close>

section \<open>Merging (deep\_merge)\<close>

type_synonym jdict = "(string, json) dict"

function deep_merge :: "jdict \<Rightarrow> jdict \<Rightarrow> jdict" where
  "deep_merge dst [] = dst"
| "deep_merge dst ((k, v) # src) =
     deep_merge
       (dict_set dst k
          (case v of
             JObj e \<Rightarrow> (case dict_get dst k of Some (JObj d) \<Rightarrow> JObj (deep_merge d e) | _ \<Rightarrow> v)
           | _ \<Rightarrow> v))
       src"
  by pat_completeness auto

termination deep_merge
  by (relation "measure (\<lambda>(d, s). size_list (size_prod (\<lambda>_. 0) size) s)") auto

section \<open>Nodes\<close>

datatype node = Node (node_children: "(string \<times> node) list") (node_data: "(string \<times> jdict) list")

definition new_node :: node where
  "new_node = Node [] []"

definition add_child :: "string \<Rightarrow> node \<Rightarrow> node \<Rightarrow> node" where
  "add_child name c n =
     (case n of Node cs d \<Rightarrow> if dict_has cs name then n else Node (dict_set cs name c) d)"

definition publish_here :: "string \<Rightarrow> jdict \<Rightarrow> node \<Rightarrow> node" where
  "publish_here key v n =
     (case n of Node cs d \<Rightarrow>
        let d = (if dict_has d key then d else dict_set d key [])
        in Node cs (case dict_get d key of None \<Rightarrow> d | Some old \<Rightarrow> dict_set d key (deep_merge old v)))"

text \<open>Operations on the node at a path.\<close>

fun node_at :: "node \<Rightarrow> string list \<Rightarrow> node option" where
  "node_at n [] = Some n"
| "node_at (Node cs d) (c # p) = (case dict_get cs c of None \<Rightarrow> None | Some m \<Rightarrow> node_at m p)"

fun update_at :: "string list \<Rightarrow> (node \<Rightarrow> node) \<Rightarrow> node \<Rightarrow> node" where
  "update_at [] f n = f n"
| "update_at (c # p) f (Node cs d) = Node (case dict_get cs c of None \<Rightarrow> cs | Some m \<Rightarrow> dict_set cs c (update_at p f m)) d"

text \<open>A child whose name is taken is created, but hangs outside the tree.\<close>

definition child :: "string list \<Rightarrow> string \<Rightarrow> node \<Rightarrow> string list option \<times> node" where
  "child p name t =
     ((case node_at t p of Some n \<Rightarrow> if dict_has (node_children n) name then None else Some (p @ [name]) | None \<Rightarrow> None),
      update_at p (add_child name new_node) t)"

definition publish :: "string list \<Rightarrow> string \<Rightarrow> jdict \<Rightarrow> node \<Rightarrow> node" where
  "publish p key v t = update_at p (publish_here key v) t"

fun build :: "node \<Rightarrow> jdict" and build_children :: "(string \<times> node) list \<Rightarrow> jdict \<Rightarrow> jdict" where
  "build (Node cs d) = build_children cs (map (\<lambda>(k, v). (k, JObj v)) d)"
| "build_children [] res = res"
| "build_children ((name, c) # cs) res =
     (let child_data = build c in build_children cs (if child_data \<noteq> [] then dict_set res name (JObj child_data) else res))"

definition gather :: "string list \<Rightarrow> node \<Rightarrow> jdict" where
  "gather p t = (case node_at t p of None \<Rightarrow> [] | Some n \<Rightarrow> build n)"

fun clear :: "node \<Rightarrow> node" where
  "clear (Node cs d) = Node (map (\<lambda>(name, c). (name, clear c)) cs) []"

definition get_json :: "(json \<Rightarrow> string) \<Rightarrow> string list \<Rightarrow> node \<Rightarrow> string" where
  "get_json dumps p t = dumps (JObj (gather p t))"

section \<open>Merging keeps and overwrites\<close>

text \<open>Dictionaries have each key once, at every level.\<close>

fun json_ok :: "json \<Rightarrow> bool" and dict_json_ok :: "jdict \<Rightarrow> bool" where
  "json_ok (JObj d) \<longleftrightarrow> dict_ok d \<and> dict_json_ok d"
| "json_ok _ \<longleftrightarrow> True"
| "dict_json_ok [] \<longleftrightarrow> True"
| "dict_json_ok ((k, v) # d) \<longleftrightarrow> json_ok v \<and> dict_json_ok d"

definition merged :: "json option \<Rightarrow> json \<Rightarrow> json" where
  "merged old v = (case v of JObj e \<Rightarrow> (case old of Some (JObj d) \<Rightarrow> JObj (deep_merge d e) | _ \<Rightarrow> v) | _ \<Rightarrow> v)"

lemma deep_merge_get:
  "dict_ok src \<Longrightarrow> dict_get (deep_merge dst src) k =
     (case dict_get src k of None \<Rightarrow> dict_get dst k | Some v \<Rightarrow> Some (merged (dict_get dst k) v))"
proof (induction src arbitrary: dst)
  case (Cons p src)
  obtain k' v where p: "p = (k', v)" by (cases p)
  have step: "deep_merge dst (p # src) = deep_merge (dict_set dst k' (merged (dict_get dst k') v)) src"
    by (simp add: p merged_def split: json.splits option.splits)
  have "dict_ok src" "dict_get src k' = None" using Cons.prems by (simp_all add: p dict_ok_def map_of_eq_None_iff)
  then show ?case using Cons.IH unfolding step by (auto simp: p dict_get_set split: option.splits)
qed simp

lemma dict_json_ok_get: "dict_json_ok d \<Longrightarrow> dict_get d k = Some v \<Longrightarrow> json_ok v"
  by (induction d) (auto split: if_splits)

fun is_dict :: "json \<Rightarrow> bool" where
  "is_dict (JObj d) \<longleftrightarrow> True"
| "is_dict _ \<longleftrightarrow> False"

lemma merge_overwrites:
  "json_ok (JObj src) \<Longrightarrow> fetch_dict_deep (JObj src) ks = (True, v) \<Longrightarrow> \<not> is_dict v \<Longrightarrow>
   fetch_dict_deep (JObj (deep_merge dst src)) ks = (True, v)"
proof (induction ks arbitrary: dst src)
  case (Cons k ks)
  obtain w where w: "dict_get src k = Some w" "fetch_dict_deep w ks = (True, v)" using Cons.prems(2) by (auto split: option.splits)
  have "dict_ok src" "json_ok w" using Cons.prems(1) dict_json_ok_get [of src k w] w(1) by simp_all
  then show ?case using w Cons.IH Cons.prems(3)
    by (auto simp: deep_merge_get merged_def split: json.splits option.splits)
qed auto

text \<open>Whether a dictionary says something about what is at a path.\<close>

fun touches :: "jdict \<Rightarrow> string list \<Rightarrow> bool" where
  "touches src [] \<longleftrightarrow> True"
| "touches src (k # ks) \<longleftrightarrow>
     (case dict_get src k of None \<Rightarrow> False | Some (JObj e) \<Rightarrow> touches e ks | Some _ \<Rightarrow> True)"

lemma touches_fetch: "fst (fetch_dict_deep (JObj src) ks) \<Longrightarrow> touches src ks"
proof (induction ks arbitrary: src)
  case (Cons k ks)
  then show ?case by (cases "dict_get src k") (auto split: json.splits)
qed simp

lemma fetch_absent: "\<not> touches src ks \<Longrightarrow> fetch_dict_deep (JObj src) ks = (False, JNull)"
proof (induction ks arbitrary: src)
  case (Cons k ks)
  then show ?case by (cases "dict_get src k") (auto split: json.splits)
qed simp

lemma merge_keeps:
  "json_ok (JObj src) \<Longrightarrow> \<not> touches src ks \<Longrightarrow> fetch_dict_deep (JObj (deep_merge dst src)) ks = fetch_dict_deep (JObj dst) ks"
proof (induction ks arbitrary: dst src)
  case (Cons k ks)
  show ?case
  proof (cases "dict_get src k")
    case None
    then show ?thesis using Cons.prems by (simp add: deep_merge_get)
  next
    case (Some w)
    then obtain e where e: "w = JObj e" "\<not> touches e ks" using Cons.prems(2) by (auto split: json.splits)
    have ok: "dict_ok src" "json_ok (JObj e)" using Cons.prems(1) dict_json_ok_get [of src k w] Some e(1) by simp_all
    obtain l ls where ks: "ks = l # ls" using e(2) by (cases ks) auto
    show ?thesis
      using Some e Cons.IH [OF ok(2) e(2)] fetch_absent [OF e(2)] ok(1)
      by (auto simp: deep_merge_get merged_def ks split: json.splits option.splits simp del: json_ok.simps)
  qed
qed simp

section \<open>Rendering\<close>

text \<open>Trees as the operations build them: names and keys once, and published dictionaries well-formed.\<close>

fun wf_node :: "node \<Rightarrow> bool" and wf_nodes :: "(string \<times> node) list \<Rightarrow> bool" where
  "wf_node (Node cs d) \<longleftrightarrow> dict_ok cs \<and> dict_ok d \<and> wf_nodes cs"
| "wf_nodes [] \<longleftrightarrow> True"
| "wf_nodes ((name, c) # cs) \<longleftrightarrow> wf_node c \<and> wf_nodes cs"

lemma wf_nodes_get: "wf_nodes cs \<Longrightarrow> dict_get cs c = Some m \<Longrightarrow> wf_node m"
  by (induction cs) (auto split: if_splits)

lemma wf_nodes_set: "wf_nodes cs \<Longrightarrow> wf_node m \<Longrightarrow> wf_nodes (dict_set cs c m)"
  by (induction cs) auto

lemma build_children_get:
  "dict_ok cs \<Longrightarrow> dict_get (build_children cs res) k =
     (case dict_get cs k of
        Some c \<Rightarrow> if build c \<noteq> [] then Some (JObj (build c)) else dict_get res k
      | None \<Rightarrow> dict_get res k)"
proof (induction cs arbitrary: res)
  case (Cons p cs)
  obtain name c where p: "p = (name, c)" by (cases p)
  have "dict_ok cs" "dict_get cs name = None" using Cons.prems by (simp_all add: p dict_ok_def map_of_eq_None_iff)
  then show ?case using Cons.IH by (auto simp: p Let_def dict_get_set split: option.splits)
qed simp

lemma map_of_JObj: "dict_get (map (\<lambda>(k, v). (k, JObj v)) d) k = map_option JObj (dict_get d k)"
  by (induction d) auto

lemma build_get:
  "wf_node (Node cs d) \<Longrightarrow> dict_get (build (Node cs d)) k =
     (case dict_get cs k of
        Some c \<Rightarrow> if build c \<noteq> [] then Some (JObj (build c)) else map_option JObj (dict_get d k)
      | None \<Rightarrow> map_option JObj (dict_get d k))"
  by (simp add: build_children_get map_of_JObj split: option.splits)

text \<open>What is published at a node is found in the rendered tree at the node's path.\<close>

lemma build_fetch:
  "wf_node t \<Longrightarrow> node_at t p = Some (Node cs d) \<Longrightarrow> dict_get d key = Some v \<Longrightarrow> dict_get cs key = None \<Longrightarrow>
   fetch_dict_deep (JObj (build t)) (p @ [key]) = (True, JObj v)"
proof (induction t p rule: node_at.induct)
  case (1 n)
  then show ?case using build_get [of cs d key] by simp
next
  case (2 cs' d' c p)
  then obtain m where m: "dict_get cs' c = Some m" "node_at m p = Some (Node cs d)" by (auto split: option.splits)
  have "wf_node m" using wf_nodes_get [OF _ m(1)] "2.prems"(1) by simp
  then have rec: "fetch_dict_deep (JObj (build m)) (p @ [key]) = (True, JObj v)" using "2.IH" [OF m(1)] m(2) "2.prems"(3,4) by simp
  then have "build m \<noteq> []" by (cases p) auto
  then show ?case using rec m(1) build_get [OF "2.prems"(1), of c] by simp
qed

lemma publish_here_simps:
  "node_children (publish_here key v n) = node_children n"
  "dict_get (node_data (publish_here key v n)) k =
     (if k = key then Some (deep_merge (case dict_get (node_data n) key of None \<Rightarrow> [] | Some old \<Rightarrow> old) v) else dict_get (node_data n) k)"
  by (cases n; auto simp: publish_here_def Let_def dict_has_def dict_get_set split: option.splits)+

lemma wf_publish_here: "wf_node n \<Longrightarrow> wf_node (publish_here key v n)"
  by (cases n) (auto simp: publish_here_def Let_def split: option.splits)

lemma wf_update_at: "(\<And>n. wf_node n \<Longrightarrow> wf_node (f n)) \<Longrightarrow> wf_node t \<Longrightarrow> wf_node (update_at p f t)"
proof (induction p arbitrary: t)
  case (Cons c p)
  obtain cs d where t: "t = Node cs d" by (cases t)
  show ?case
  proof (cases "dict_get cs c")
    case (Some m)
    then have "wf_node (update_at p f m)" using Cons wf_nodes_get [of cs c m] t by simp
    then show ?thesis using Cons.prems(2) t Some by (simp add: wf_nodes_set)
  qed (use Cons.prems(2) t in simp)
qed simp

lemma wf_publish: "wf_node t \<Longrightarrow> wf_node (publish p key v t)"
  unfolding publish_def by (rule wf_update_at [OF wf_publish_here])

lemma wf_child: "wf_node t \<Longrightarrow> wf_node (snd (child p name t))"
proof -
  have here: "wf_node n \<Longrightarrow> wf_node (add_child name new_node n)" for n
    by (cases n) (auto simp: add_child_def new_node_def wf_nodes_set)
  show "wf_node t \<Longrightarrow> ?thesis" unfolding child_def snd_conv by (rule wf_update_at [OF here])
qed

text \<open>The data published at a node under a key, and whether the key is also the name of a child.\<close>

definition published :: "node \<Rightarrow> string list \<Rightarrow> string \<Rightarrow> jdict option" where
  "published t p key = (case node_at t p of None \<Rightarrow> None | Some n \<Rightarrow> dict_get (node_data n) key)"

definition shadowed :: "node \<Rightarrow> string list \<Rightarrow> string \<Rightarrow> bool" where
  "shadowed t p key \<longleftrightarrow> (case node_at t p of None \<Rightarrow> False | Some n \<Rightarrow> dict_has (node_children n) key)"

lemma published_Nil: "published t [] key = dict_get (node_data t) key" "shadowed t [] key = dict_has (node_children t) key"
  by (simp_all add: published_def shadowed_def)

lemma published_Cons:
  "published (Node cs d) (c # p) key = (case dict_get cs c of None \<Rightarrow> None | Some m \<Rightarrow> published m p key)"
  "shadowed (Node cs d) (c # p) key = (case dict_get cs c of None \<Rightarrow> False | Some m \<Rightarrow> shadowed m p key)"
  by (simp_all add: published_def shadowed_def split: option.splits)

lemma publish_published:
  "published (publish q key' v t) p key =
     (if q = p \<and> key' = key \<and> node_at t p \<noteq> None
      then Some (deep_merge (case published t p key of None \<Rightarrow> [] | Some old \<Rightarrow> old) v) else published t p key)"
  unfolding publish_def
proof (induction p arbitrary: t q)
  case Nil
  then show ?case by (cases q; cases t) (auto simp: published_Nil publish_here_simps split: option.splits)
next
  case (Cons c p)
  obtain cs d where t: "t = Node cs d" by (cases t)
  show ?case
  proof (cases q)
    case Nil
    then show ?thesis using publish_here_simps(1) [of key' v t]
      by (cases "publish_here key' v t") (simp add: t published_Cons)
  next
    case (Cons c' q')
    then show ?thesis using Cons.IH [of q'] by (auto simp: t published_Cons dict_get_set split: option.splits)
  qed
qed

lemma publish_shadowed: "shadowed (publish q key' v t) p key = shadowed t p key"
  unfolding publish_def
proof (induction p arbitrary: t q)
  case Nil
  then show ?case by (cases q; cases t) (auto simp: published_Nil publish_here_simps dict_has_def dict_get_set split: option.splits)
next
  case (Cons c p)
  obtain cs d where t: "t = Node cs d" by (cases t)
  show ?case
  proof (cases q)
    case Nil
    then show ?thesis using publish_here_simps(1) [of key' v t]
      by (cases "publish_here key' v t") (simp add: t published_Cons)
  next
    case (Cons c' q')
    then show ?thesis using Cons.IH [of q'] by (auto simp: t published_Cons dict_get_set split: option.splits)
  qed
qed

lemma publish_node_at: "(node_at (publish q key v t) p = None) = (node_at t p = None)"
  unfolding publish_def
proof (induction p arbitrary: t q)
  case (Cons c p)
  obtain cs d where t: "t = Node cs d" by (cases t)
  show ?case
  proof (cases q)
    case Nil
    then show ?thesis using publish_here_simps(1) [of key v t]
      by (cases "publish_here key v t") (simp add: t split: option.splits)
  next
    case (Cons c' q')
    then show ?thesis using Cons.IH [of q'] by (auto simp: t dict_get_set split: option.splits)
  qed
qed simp

lemma gather_published:
  assumes "wf_node t" "published t p key = Some v" "\<not> shadowed t p key"
  shows "fetch_dict_deep (JObj (gather [] t)) (p @ key # ks) = fetch_dict_deep (JObj v) ks"
proof -
  obtain cs d where n: "node_at t p = Some (Node cs d)" "dict_get d key = Some v" "dict_get cs key = None"
    using assms(2,3) by (auto simp: published_def shadowed_def dict_has_def split: option.splits) (metis node.exhaust_sel)
  have "fetch_dict_deep (JObj (build t)) ((p @ [key]) @ ks) = fetch_dict_deep (JObj v) ks"
    unfolding fetch_append [of _ "p @ [key]"] build_fetch [OF assms(1) n] by simp
  then show ?thesis by (simp add: gather_def)
qed

section \<open>Use of a tree\<close>

datatype tree_event = Child "string list" string | Publish "string list" string jdict | Clear "string list"

fun tree_step :: "node \<Rightarrow> tree_event \<Rightarrow> node" where
  "tree_step t (Child p name) = snd (child p name t)"
| "tree_step t (Publish p key v) = publish p key v t"
| "tree_step t (Clear p) = update_at p clear t"

lemma clear_children: "map fst (node_children (clear n)) = map fst (node_children n)"
  by (cases n) (simp add: comp_def split_beta)

lemma wf_clear: "wf_node n \<Longrightarrow> wf_node (clear n)" and wf_clear_nodes: "wf_nodes cs \<Longrightarrow> wf_nodes (map (\<lambda>(name, c). (name, clear c)) cs)"
  by (induction n and cs rule: wf_node_wf_nodes.induct) (auto simp: dict_ok_def comp_def split_beta)

lemma tree_step_wf: "wf_node t \<Longrightarrow> wf_node (tree_step t e)"
  by (cases e) (simp_all add: wf_child wf_publish wf_update_at [OF wf_clear])

interpretation tree: event_machine tree_step wf_node
  by unfold_locales (rule tree_step_wf)

lemma clear_empties: "build (clear n) = []" and "build_children (map (\<lambda>(name, c). (name, clear c)) cs) [] = []"
  by (induction n and cs rule: wf_node_wf_nodes.induct) simp_all

text \<open>Later publications that say nothing about a path leave what is found there.\<close>

definition silent_about :: "string list \<Rightarrow> string \<Rightarrow> string list \<Rightarrow> string list \<times> string \<times> jdict \<Rightarrow> bool" where
  "silent_about p key ks pub = (case pub of (q, k, w) \<Rightarrow> json_ok (JObj w) \<and> (q = p \<and> k = key \<longrightarrow> \<not> touches w ks))"

definition publish_all :: "(string list \<times> string \<times> jdict) list \<Rightarrow> node \<Rightarrow> node" where
  "publish_all pubs t = foldl (\<lambda>t (q, k, w). publish q k w t) t pubs"

lemma publish_all_keeps:
  "published t p key = Some v \<Longrightarrow> fetch_dict_deep (JObj v) ks = r \<Longrightarrow> list_all (silent_about p key ks) pubs \<Longrightarrow>
   \<exists>v'. published (publish_all pubs t) p key = Some v' \<and> fetch_dict_deep (JObj v') ks = r"
proof (induction pubs arbitrary: t v)
  case (Cons pub pubs)
  obtain q k w where pub: "pub = (q, k, w)" by (cases pub)
  have at: "node_at t p \<noteq> None" using Cons.prems(1) by (cases "node_at t p") (simp_all add: published_def)
  have "\<exists>v1. published (publish q k w t) p key = Some v1 \<and> fetch_dict_deep (JObj v1) ks = r"
  proof (cases "q = p \<and> k = key")
    case True
    then have "json_ok (JObj w)" "\<not> touches w ks" using Cons.prems(3) pub by (simp_all add: silent_about_def)
    from merge_keeps [OF this, of v] show ?thesis using True at Cons.prems(1,2) by (simp add: publish_published)
  qed (use Cons.prems(1,2) in \<open>auto simp: publish_published\<close>)
  then obtain v1 where v1: "published (publish q k w t) p key = Some v1" "fetch_dict_deep (JObj v1) ks = r" by blast
  show ?case using Cons.IH [OF v1] Cons.prems(3) by (simp add: publish_all_def pub)
qed (simp add: publish_all_def)

lemma publish_all_frame: "shadowed (publish_all pubs t) p key = shadowed t p key" "wf_node t \<Longrightarrow> wf_node (publish_all pubs t)"
  by (induction pubs arbitrary: t) (auto simp: publish_all_def publish_shadowed wf_publish)

lemma published_leaf_in_tree:
  assumes "wf_node t" "node_at t p \<noteq> None" "\<not> shadowed t p key" "json_ok (JObj v)"
    and "fetch_dict_deep (JObj v) ks = (True, x)" "\<not> is_dict x" "list_all (silent_about p key ks) later"
  shows "fetch_dict_deep (JObj (gather [] (publish_all later (publish p key v t)))) (p @ key # ks) = (True, x)"
proof -
  let ?t = "publish p key v t"
  obtain v1 where v1: "published ?t p key = Some v1" "fetch_dict_deep (JObj v1) ks = (True, x)"
    using merge_overwrites [OF assms(4-6)] assms(2) by (simp add: publish_published)
  from publish_all_keeps [OF v1 assms(7)] obtain v2 where
    "published (publish_all later ?t) p key = Some v2" "fetch_dict_deep (JObj v2) ks = (True, x)" by blast
  then show ?thesis using gather_published [of "publish_all later ?t" p key v2 ks] assms(1,3)
    by (simp add: publish_all_frame publish_shadowed wf_publish)
qed

section \<open>Properties\<close>

text \<open>
  C8. A configuration value that a client publishes reaches the controller that subscribed to its path:
  whatever tree was built before, a value published at a node under a key, possibly nested, is what a
  handler on that path is called with when the gathered tree is dispatched, and nothing else, as long as
  later publications say nothing about that path and no child of the node has the key as its name.
\<close>

theorem published_config_reaches_handler:
  assumes "t = foldl tree_step new_node es" "node_at t p \<noteq> None" "\<not> shadowed t p key" "json_ok (JObj v)"
    and "fetch_dict_deep (JObj v) ks = (True, x)" "\<not> is_dict x" "list_all (silent_about p key ks) later"
    and "cleanup_path path = Inr (p @ key # ks)" "subscribe_to_config_path path h c = Inr c'" "handler_adapter h = None"
    and "dict_ok (config_handlers c)" "\<forall>k h'. dict_get (config_handlers c) k = Some h' \<longrightarrow> handler_id h' \<noteq> handler_id h"
  shows "(handler_id h, y) \<in> set (dispatch_config (JObj (gather [] (publish_all later (publish p key v t)))) c') \<longleftrightarrow> y = x"
proof -
  have "wf_node t" unfolding assms(1) by (rule tree.run_inv) (simp add: new_node_def)
  from published_leaf_in_tree [OF this assms(2-7)]
  show ?thesis using config_reaches_subscribers [OF assms(9,8,10-12), of y] by auto
qed

definition sample_tree :: node where
  "sample_tree = foldl tree_step new_node [Child [] ''head'', Child [] ''body'']"

lemma sample_tree_eq: "sample_tree = Node [(''head'', Node [] []), (''body'', Node [] [])] []"
  by (simp add: sample_tree_def child_def add_child_def new_node_def dict_has_def)

definition sample_controller :: HwController where
  "sample_controller = \<lparr>ctrl_name = ''x'', flush_freq = 1, command_group = {}, config_handlers = [], cfg_updates = [], ctrl_initialized = True\<rparr>"

theorem published_config_reaches_handler_witness:
  "(4, JNum 3) \<in> set (dispatch_config
     (JObj (gather [] (publish_all [([''head''], ''ears'', [(''speed'', JNum 1)])]
        (publish [''head''] ''mouth'' [(''speed'', JNum 3)] sample_tree))))
     (sample_controller\<lparr>config_handlers := [([''head'', ''mouth'', ''speed''], \<lparr>handler_id = 4, handler_adapter = None\<rparr>)]\<rparr>))"
proof -
  let ?h = "\<lparr>handler_id = 4, handler_adapter = None\<rparr>"
  have clean: "cleanup_path ''/head/mouth/speed'' = Inr ([''head''] @ ''mouth'' # [''speed''])"
    by (simp add: cleanup_path_def SPECIAL_PATH_CHARS_def blank_def is_space_def)
  then have sub: "subscribe_to_config_path ''/head/mouth/speed'' ?h sample_controller =
      Inr (sample_controller\<lparr>config_handlers := [([''head'', ''mouth'', ''speed''], ?h)]\<rparr>)"
    by (simp add: subscribe_to_config_path_def sample_controller_def)
  have "silent_about [''head''] ''mouth'' [''speed''] ([''head''], ''ears'', [(''speed'', JNum 1)])"
    by (simp add: silent_about_def dict_ok_def)
  then show ?thesis
    using published_config_reaches_handler [OF sample_tree_def _ _ _ _ _ _ clean sub, of "[(''speed'', JNum 3)]" "JNum 3"
      "[([''head''], ''ears'', [(''speed'', JNum 1)])]" "JNum 3"]
    by (simp add: sample_tree_eq shadowed_def dict_has_def dict_ok_def sample_controller_def)
qed

text \<open>
  Merging a publication into earlier ones is a right-biased union of trees: at every path that leads to a
  value that is not a dictionary in the new publication the new value is found, and what is found at a path
  the publication says nothing about is what was there before.
\<close>

theorem deep_merge_is_union:
  assumes "json_ok (JObj src)"
  shows "(touches src ks \<longrightarrow> fst (fetch_dict_deep (JObj src) ks) \<longrightarrow> \<not> is_dict (snd (fetch_dict_deep (JObj src) ks)) \<longrightarrow>
      fetch_dict_deep (JObj (deep_merge dst src)) ks = fetch_dict_deep (JObj src) ks)
    \<and> (\<not> touches src ks \<longrightarrow> fetch_dict_deep (JObj (deep_merge dst src)) ks = fetch_dict_deep (JObj dst) ks)"
  using merge_overwrites [OF assms, of ks "snd (fetch_dict_deep (JObj src) ks)" dst] merge_keeps [OF assms, of ks dst]
  by (auto simp: prod_eq_iff)

theorem deep_merge_is_union_witness:
  "deep_merge [(''speed'', JNum 1), (''limit'', JObj [(''low'', JNum 0)])] [(''limit'', JObj [(''high'', JNum 9)])] =
     [(''speed'', JNum 1), (''limit'', JObj [(''low'', JNum 0), (''high'', JNum 9)])]
   \<and> fetch_dict_deep (JObj (deep_merge [(''limit'', JObj [(''low'', JNum 0)])] [(''limit'', JObj [(''high'', JNum 9)])]))
       [''limit'', ''low''] = (True, JNum 0)"
  using deep_merge_is_union [of "[(''limit'', JObj [(''high'', JNum 9)])]" "[''limit'', ''low'']" "[(''limit'', JObj [(''low'', JNum 0)])]"]
  by (simp add: dict_ok_def)

end
