(* ===== verification/ConfigPath.thy ===== *)
theory ConfigPath
  imports SessClient ConfigTree HwManager
begin

text \<open>
  The path of a configuration: from the client's tree through its session client, the session, the topic
  and the hardware manager to the handlers that a controller subscribed. It puts \<open>ConfigTree\<close>,
  \<open>SessClient\<close>, \<open>SessionRun\<close>, \<open>HwManager\<close> and \<open>HwController\<close> together.
\<close>

section \<open>Configurations from the client to the handlers\<close>

text \<open>What the client sent, and what the hardware manager does with the texts of the topic. The callback parses a text
  with \<open>json.loads\<close>; \<open>json_view\<close> is the JSON value that a Python object is.\<close>

definition sent_configs :: "('o, 'f) client_event list \<Rightarrow> 'o list" where
  "sent_configs es = concat (map (\<lambda>e. case e of ConfigCall config \<Rightarrow> [config] | _ \<Rightarrow> []) es)"

definition receive_configs :: "'o codec_libs \<Rightarrow> ('o \<Rightarrow> json) \<Rightarrow> py_text list \<Rightarrow> HwManager \<Rightarrow> HwManager" where
  "receive_configs libs json_view texts m =
     foldl (\<lambda>m text. update_config_callback (map_option json_view (json_loads libs text)) m) m texts"

lemma config_texts_sent: "config_texts libs (calls_of es) = map (\<lambda>j. the (json_dumps libs j)) (sent_configs es)"
  by (induction es) (auto simp: config_texts_def calls_of_def sent_configs_def split: client_event.splits)

lemma update_config_one:
  assumes "hm_active m"
  shows "hm_active (update_config_callback (Some cfg) m)"
    "map mc_ctrl (hm_mcs (update_config_callback (Some cfg) m)) = map (queue_config_update cfg) (map mc_ctrl (hm_mcs m))"
  using assms by (simp_all add: update_config_callback_def)

lemma receive_configs_queued:
  assumes "hm_active m" "list_all (\<lambda>j. json_loads libs (the (json_dumps libs j)) = Some j) js"
  shows "map mc_ctrl (hm_mcs (receive_configs libs json_view (map (\<lambda>j. the (json_dumps libs j)) js) m)) =
    map (\<lambda>c. c\<lparr>cfg_updates := cfg_updates c @ map json_view js\<rparr>) (map mc_ctrl (hm_mcs m))"
  using assms
proof (induction js arbitrary: m)
  case (Cons j js)
  let ?m = "update_config_callback (Some (json_view j)) m"
  have "receive_configs libs json_view (map (\<lambda>j. the (json_dumps libs j)) (j # js)) m =
      receive_configs libs json_view (map (\<lambda>j. the (json_dumps libs j)) js) ?m"
    using Cons.prems by (simp add: receive_configs_def)
  with Cons.IH [of ?m] Cons.prems update_config_one [OF Cons.prems(1)] show ?case
    by (simp add: queue_config_update_def comp_def)
qed (simp add: receive_configs_def)


lemma encode_calls_dumps:
  "encode_calls libs cs ids = Inr ms \<Longrightarrow> EncConfiguration j \<in> set cs \<Longrightarrow> json_dumps libs j \<noteq> None"
proof (induction cs arbitrary: ids ms)
  case (Cons c cs)
  then obtain m ids' where "encoder_wrapper libs c ids = (Inr m, ids')" "\<exists>ms'. encode_calls libs cs ids' = Inr ms'"
    by (auto simp: res_bind_def split: prod.splits sum.splits)
  with Cons.IH Cons.prems(2) show ?case by (auto simp: encoder_wrapper_def split: prod.splits sum.splits option.splits if_splits)
qed simp

lemma sent_encoded: "j \<in> set (sent_configs es) \<Longrightarrow> EncConfiguration j \<in> set (calls_of es)"
  by (induction es) (auto simp: sent_configs_def calls_of_def split: client_event.splits)

lemma sent_loaded:
  assumes "list_all (faithful libs) (calls_of es)" "encode_calls libs (calls_of es) ids = Inr ms"
  shows "list_all (\<lambda>j. json_loads libs (the (json_dumps libs j)) = Some j) (sent_configs es)"
  using assms(1) encode_calls_dumps [OF assms(2) sent_encoded] sent_encoded
  by (fastforce simp: list_all_iff split: option.splits)

lemma dispatch_config_cong [simp]: "dispatch_config cfg (c\<lparr>cfg_updates := us\<rparr>) = dispatch_config cfg c"
  by (simp add: dispatch_config_def)

text \<open>The calls of one dispatch, handler by handler.\<close>

lemma dispatch_config_calls:
  "dispatch_config cfg c = [(handler_id h, v').
     (path, h) \<leftarrow> config_handlers c,
     v \<leftarrow> (if fst (fetch_dict_deep cfg path) then [snd (fetch_dict_deep cfg path)] else []),
     v' \<leftarrow> (case handler_adapter h of None \<Rightarrow> [v] | Some validate \<Rightarrow> (case validate v of None \<Rightarrow> [] | Some w \<Rightarrow> [w]))]"
proof -
  have "dispatch_handlers cfg hs = [(handler_id h, v').
     (path, h) \<leftarrow> hs,
     v \<leftarrow> (if fst (fetch_dict_deep cfg path) then [snd (fetch_dict_deep cfg path)] else []),
     v' \<leftarrow> (case handler_adapter h of None \<Rightarrow> [v] | Some validate \<Rightarrow> (case validate v of None \<Rightarrow> [] | Some w \<Rightarrow> [w]))]" for hs
    by (induction hs) (auto simp: handler_call_def split_beta Let_def split: option.split)
  then show ?thesis by (simp add: dispatch_config_def)
qed

lemma flush_calls:
  assumes "ctrl_initialized c"
  shows "fl_config_calls (flush rd ctl incoming (c\<lparr>cfg_updates := us\<rparr>)) = concat (map (\<lambda>cfg. dispatch_config cfg c) us)"
  using assms by (simp add: flush_def execute_queued_config_updates_def Let_def split: prod.splits)

lemma queued_nth:
  assumes "map f xs = map (\<lambda>c. c\<lparr>cfg_updates := cfg_updates c @ us\<rparr>) (map f ys)" "i < length ys" "cfg_updates (f (ys ! i)) = []"
  shows "f (xs ! i) = (f (ys ! i))\<lparr>cfg_updates := us\<rparr>"
proof -
  have "length xs = length ys" using arg_cong [OF assms(1), of length] by simp
  then have "f (xs ! i) = map f xs ! i" using assms(2) by simp
  also have "\<dots> = (f (ys ! i))\<lparr>cfg_updates := us\<rparr>" by (subst assms(1)) (simp add: assms(2,3))
  finally show ?thesis .
qed

section \<open>Properties\<close>

text \<open>
  C5. The configurations a client sends reach the handlers: after \<open>initiate_session\<close>, when the two threads of the client
  do not overlap in \<open>send\<close>, the heartbeat stays in time and the configurations are objects that \<open>json\<close> gives back
  unchanged, the next flush of each initialized controller of an active hardware manager makes exactly these handler
  calls: for each configuration in the order of the \<open>send_config\<close> calls, and in it for each handler in the
  order of subscription whose path leads to a value, one call with that value, or with what the handler's adapter makes
  of it, and none when the adapter refuses it.
\<close>

theorem client_config_reaches_handlers:
  assumes "SessClient_init client_ids = Inr c0" "initiate_session reply dialed ip raised c0 = (Inr True, c)"
    and "orderly env c es" "pending (client_run env c es) = []"
    and "encode_calls (env_libs env) (calls_of es) client_ids = Inr ms" "length ms < 256 ^ 8 - 1"
    and "run_main now now' t u (decoder_for (env_libs env) session_classes server_ids) sm = Inr s" "peer_init t"
    and "normalize_psk (sd_token (session_data c)) = Inr (psk (proto t))" "last_received_sequence (proto t) = 0"
    and "list_all (faithful (env_libs env)) (calls_of es)" "digest32 (env_mac env)"
    and "inj_on (packet_id (env_libs env)) (set (builtin_classes @ session_classes))"
    and "id_table_ok (env_libs env) server_ids" "id_table_ok (env_libs env) client_ids"
    and "tcp_frames server_es = tcp_wire (client_run env c es)" "calm (now + HEARTBEAT_TIMEOUT_SEC) now' server_es"
    and "hm_active m" "i < length (hm_mcs m)" "ctrl_initialized (mc_ctrl (hm_mcs m ! i))" "cfg_updates (mc_ctrl (hm_mcs m ! i)) = []"
  shows "fl_config_calls (flush rd ctl incoming
      (mc_ctrl (hm_mcs (receive_configs (env_libs env) json_view (config_topic (sess_run env s server_es)) m) ! i)))
    = [(handler_id h, v').
        j \<leftarrow> sent_configs es,
        (path, h) \<leftarrow> config_handlers (mc_ctrl (hm_mcs m ! i)),
        v \<leftarrow> (if fst (fetch_dict_deep (json_view j) path) then [snd (fetch_dict_deep (json_view j) path)] else []),
        v' \<leftarrow> (case handler_adapter h of None \<Rightarrow> [v] | Some validate \<Rightarrow> (case validate v of None \<Rightarrow> [] | Some w \<Rightarrow> [w]))]"
proof -
  let ?m' = "receive_configs (env_libs env) json_view (config_topic (sess_run env s server_es)) m"
  have "config_topic (sess_run env s server_es) = map (\<lambda>j. the (json_dumps (env_libs env) j)) (sent_configs es)"
    using orderly_client_published [OF assms(1-17)] by (simp add: config_texts_sent)
  with receive_configs_queued [OF assms(18) sent_loaded [OF assms(11,5)], of json_view]
  have all: "map mc_ctrl (hm_mcs ?m') = map (\<lambda>c. c\<lparr>cfg_updates := cfg_updates c @ map json_view (sent_configs es)\<rparr>) (map mc_ctrl (hm_mcs m))"
    by simp
  show ?thesis
    unfolding queued_nth [OF all assms(19,21)] flush_calls [OF assms(20)] dispatch_config_calls by (simp add: comp_def)
qed


text \<open>A hardware manager whose controller subscribed to \<open>mouth\<close>, and a client whose one configuration sets it.\<close>

definition mouth_controller :: HwController where
  "mouth_controller = head_controller\<lparr>config_handlers := [([''mouth''], \<lparr>handler_id = 4, handler_adapter = None\<rparr>)]\<rparr>"

definition mouth_manager :: HwManager where
  "mouth_manager = head_manager\<lparr>hm_mcs := [\<lparr>mc_loop = 1, mc_ctrl = mouth_controller, mc_goal = RUNNING\<rparr>]\<rparr>"

definition byte_view :: "bytes \<Rightarrow> json" where
  "byte_view b = JObj [(''mouth'', JNum (real (length b))), (''ears'', JNull)]"

theorem client_config_reaches_handlers_witness:
  "fl_config_calls (flush None (\<lambda>_. None) []
     (mc_ctrl (hm_mcs (receive_configs plain_libs byte_view (config_topic (sess_run sample_env sample_session sample_arrivals)) mouth_manager) ! 0)))
   = [(4, JNum 1)]"
proof -
  have "sent_configs sample_events = [[0xE9]]" by (simp add: sample_events_def sent_configs_def)
  moreover have "dispatch_config (byte_view [0xE9]) mouth_controller = [(4, JNum 1)]"
    by (simp add: dispatch_config_calls mouth_controller_def byte_view_def)
  moreover have "ctrl_initialized mouth_controller" "cfg_updates mouth_controller = []" "hm_active mouth_manager"
    "map mc_ctrl (hm_mcs mouth_manager) = [mouth_controller]"
    by (simp_all add: mouth_controller_def head_controller_def mouth_manager_def head_manager_def)
  ultimately show ?thesis
    using client_config_reaches_handlers [OF sample_init sample_initiate sample_orderly sample_pending, of _ 0 0 sample_tcp sample_udp "[]" _ sample_session
        sample_arrivals mouth_manager 0 None "\<lambda>_. None" "[]" byte_view, folded dispatch_config_calls]
      sample_run_main sample_messages sample_ids sample_key sample_calm sample_arrived
    by (simp add: sample_calls sample_client_sel sample_tcp_def SecureWireProtocol_init_def id_table_ok_def HEARTBEAT_TIMEOUT_SEC_def
        mouth_manager_def del: faithful.simps foldl_append foldl_Cons client_step.simps)
qed

end
