(* ===== verification/SafeUdp.thy ===== *)
theory SafeUdp
  imports Prelude Complex_Main
begin

text \<open>
  The authenticated datagram socket (\<open>shared_libs/pysafeudp\<close>): frames with a sequence number and a keyed
  hash, one pair of sequence numbers per remote address, and the receiving loop.

  Host name resolution, the keyed hash and \<open>msgpack\<close> are arguments, collected in a record; \<open>msgpack_ok\<close> is
  what the documentation of \<open>msgpack\<close> says of them. Host names resolve to the same address every time, so
  that the cache of \<open>_resolve_peer\<close> does not show. What the operating system's socket gave is an
  argument of the receiving loop, and \<open>sendto_ok\<close> says which datagrams \<open>sendto\<close> accepts; \<open>bind\<close> and
  \<open>close\<close> only call the operating system and are not modelled.
\<close>

section \<open>Libraries\<close>

type_synonym SocketAddress = "string \<times> nat"

datatype msgval = MInt int | MBool bool | MBytes bytes | MList "msgval list" | MOther

record udp_libs =
  gethostbyname :: "string \<Rightarrow> string option"
  blake2s :: "bytes \<Rightarrow> bytes \<Rightarrow> bytes"
  packb :: "int \<Rightarrow> bytes \<Rightarrow> bytes \<Rightarrow> bytes option"
  unpackb :: "bytes \<Rightarrow> msgval option"
  sendto_ok :: "SocketAddress \<Rightarrow> bytes \<Rightarrow> bool"

text \<open>A tuple of an integer and two byte strings of less than 4 GB survives packing, which adds one byte
  for the tuple, nine for the integer and five for each string at most; integers of a packed value fit in
  64 bits, signed or unsigned.\<close>

definition small_ints :: "msgval option \<Rightarrow> bool" where
  "small_ints v = (case v of Some (MList (MInt n # _)) \<Rightarrow> n < 2 ^ 64 | _ \<Rightarrow> True)"

definition msgpack_ok :: "udp_libs \<Rightarrow> bool" where
  "msgpack_ok lib \<longleftrightarrow>
     (\<forall>n sig payload. 0 \<le> n \<longrightarrow> n < 2 ^ 64 \<longrightarrow> length sig < 2 ^ 32 \<longrightarrow> length payload < 2 ^ 32 \<longrightarrow>
        (\<exists>b. packb lib n sig payload = Some b \<and> unpackb lib b = Some (MList [MInt n, MBytes sig, MBytes payload])
           \<and> length b \<le> length sig + length payload + 20)) \<and>
     (\<forall>b. small_ints (unpackb lib b))"

datatype udp_error = SafeudpNullPeer | PacketEncodingFailed | GaiError | OverflowError | PackError | TimeoutValueError | SocketError

section \<open>State\<close>

record seqNumTracker =
  outbound :: int
  inbound :: int

definition seqNumTracker_init :: seqNumTracker where
  "seqNumTracker_init = \<lparr>outbound = 0, inbound = 0\<rparr>"

record SafeUdpSock =
  secret :: bytes
  seq_num_map :: "(SocketAddress, seqNumTracker) dict"
  latest_sender :: SocketAddress
  peer :: SocketAddress
  datagrams :: "(SocketAddress \<times> bytes) list"

definition INVALID_ADDRESS :: SocketAddress where
  "INVALID_ADDRESS = (''__invalid__'', 0)"

definition SIGNATURE_SIZE_BYTES :: nat where "SIGNATURE_SIZE_BYTES = 8"
definition SEQ_NUM_SIZE_BYTES :: nat where "SEQ_NUM_SIZE_BYTES = 8"
definition MAX_RECV_BUFF_SIZE :: nat where "MAX_RECV_BUFF_SIZE = 4096"

definition SafeUdpSock_init :: "bytes \<Rightarrow> SafeUdpSock" where
  "SafeUdpSock_init secret_key =
     \<lparr>secret = secret_key, seq_num_map = [], latest_sender = INVALID_ADDRESS, peer = INVALID_ADDRESS, datagrams = []\<rparr>"

section \<open>Sequence numbers\<close>

definition resolve_peer :: "udp_libs \<Rightarrow> SocketAddress \<Rightarrow> udp_error + SocketAddress" where
  "resolve_peer lib a = (case gethostbyname lib (fst a) of None \<Rightarrow> Inl GaiError | Some ip \<Rightarrow> Inr (ip, snd a))"

definition populate_seqnum_entry :: "udp_libs \<Rightarrow> SocketAddress \<Rightarrow> SafeUdpSock \<Rightarrow> (udp_error + SocketAddress) \<times> SafeUdpSock" where
  "populate_seqnum_entry lib a s =
     (case resolve_peer lib a of
        Inl e \<Rightarrow> (Inl e, s)
      | Inr r \<Rightarrow>
          (Inr r, if dict_has (seq_num_map s) r then s
                  else s\<lparr>seq_num_map := dict_set (seq_num_map s) r seqNumTracker_init\<rparr>))"

text \<open>The entry of a resolved address; a lookup is made only after the entry was created.\<close>

definition tracker :: "SafeUdpSock \<Rightarrow> SocketAddress \<Rightarrow> seqNumTracker" where
  "tracker s r = (case dict_get (seq_num_map s) r of None \<Rightarrow> seqNumTracker_init | Some t \<Rightarrow> t)"

definition set_tracker :: "SocketAddress \<Rightarrow> seqNumTracker \<Rightarrow> SafeUdpSock \<Rightarrow> SafeUdpSock" where
  "set_tracker r t s = s\<lparr>seq_num_map := dict_set (seq_num_map s) r t\<rparr>"

definition increment_outbound_seqnum :: "udp_libs \<Rightarrow> SocketAddress \<Rightarrow> SafeUdpSock \<Rightarrow> (udp_error + int) \<times> SafeUdpSock" where
  "increment_outbound_seqnum lib a s =
     (case populate_seqnum_entry lib a s of
        (Inl e, s) \<Rightarrow> (Inl e, s)
      | (Inr r, s) \<Rightarrow>
          (let n = outbound (tracker s r) + 1
           in (Inr n, set_tracker r ((tracker s r)\<lparr>outbound := n\<rparr>) s)))"

definition get_outbound_seqnum :: "udp_libs \<Rightarrow> SocketAddress \<Rightarrow> SafeUdpSock \<Rightarrow> (udp_error + int) \<times> SafeUdpSock" where
  "get_outbound_seqnum lib a s =
     (case populate_seqnum_entry lib a s of (Inl e, s) \<Rightarrow> (Inl e, s) | (Inr r, s) \<Rightarrow> (Inr (outbound (tracker s r)), s))"

definition set_inbound_seqnum :: "udp_libs \<Rightarrow> SocketAddress \<Rightarrow> int \<Rightarrow> SafeUdpSock \<Rightarrow> (udp_error + unit) \<times> SafeUdpSock" where
  "set_inbound_seqnum lib a v s =
     (case populate_seqnum_entry lib a s of
        (Inl e, s) \<Rightarrow> (Inl e, s)
      | (Inr r, s) \<Rightarrow> (Inr (), set_tracker r ((tracker s r)\<lparr>inbound := v\<rparr>) s))"

definition get_inbound_seqnum :: "udp_libs \<Rightarrow> SocketAddress \<Rightarrow> SafeUdpSock \<Rightarrow> (udp_error + int) \<times> SafeUdpSock" where
  "get_inbound_seqnum lib a s =
     (case populate_seqnum_entry lib a s of (Inl e, s) \<Rightarrow> (Inl e, s) | (Inr r, s) \<Rightarrow> (Inr (inbound (tracker s r)), s))"

definition override_outbound_seqnum :: "udp_libs \<Rightarrow> SocketAddress \<Rightarrow> int \<Rightarrow> SafeUdpSock \<Rightarrow> (udp_error + unit) \<times> SafeUdpSock" where
  "override_outbound_seqnum lib a v s =
     (case populate_seqnum_entry lib a s of
        (Inl e, s) \<Rightarrow> (Inl e, s)
      | (Inr r, s) \<Rightarrow> (Inr (), set_tracker r ((tracker s r)\<lparr>outbound := v\<rparr>) s))"

section \<open>Frames\<close>

definition gen_hmac :: "udp_libs \<Rightarrow> bytes \<Rightarrow> bytes \<Rightarrow> bytes" where
  "gen_hmac lib key data = take SIGNATURE_SIZE_BYTES (blake2s lib key data)"

definition seq_bytes :: "int \<Rightarrow> udp_error + bytes" where
  "seq_bytes n = (if 0 \<le> n \<and> n < 256 ^ SEQ_NUM_SIZE_BYTES then Inr (bytes_be SEQ_NUM_SIZE_BYTES (nat n)) else Inl OverflowError)"

definition encode_frame :: "udp_libs \<Rightarrow> bytes \<Rightarrow> bytes \<Rightarrow> int \<Rightarrow> udp_error + bytes" where
  "encode_frame lib key payload sqnum =
     res_bind (seq_bytes sqnum) (\<lambda>sb.
       case packb lib sqnum (gen_hmac lib key (payload @ sb)) payload of None \<Rightarrow> Inl PackError | Some b \<Rightarrow> Inr b)"

definition send :: "udp_libs \<Rightarrow> bytes \<Rightarrow> SocketAddress option \<Rightarrow> SafeUdpSock \<Rightarrow> (udp_error + nat) \<times> SafeUdpSock" where
  "send lib data dest s =
     (case (if fst (peer s) \<noteq> fst INVALID_ADDRESS then Some (peer s) else dest) of
        None \<Rightarrow> (Inl SafeudpNullPeer, s)
      | Some p \<Rightarrow>
          (case increment_outbound_seqnum lib p s of
             (Inl e, s) \<Rightarrow> (Inl e, s)
           | (Inr sqnum, s) \<Rightarrow>
               (case encode_frame lib (secret s) data sqnum of
                  Inl e \<Rightarrow> (Inl e, s)
                | Inr encoded \<Rightarrow>
                    if sendto_ok lib p encoded
                    then (Inr (length encoded), s\<lparr>datagrams := datagrams s @ [(p, encoded)]\<rparr>)
                    else (Inl SocketError, s))))"

text \<open>\<open>isinstance\<close> takes a bool for an int.\<close>

fun as_int :: "msgval \<Rightarrow> int option" where
  "as_int (MInt n) = Some n"
| "as_int (MBool b) = Some (of_bool b)"
| "as_int _ = None"

fun frame_parts :: "msgval option \<Rightarrow> (int \<times> bytes \<times> bytes) option" where
  "frame_parts (Some (MList [n, MBytes sig, MBytes payload])) = map_option (\<lambda>n. (n, sig, payload)) (as_int n)"
| "frame_parts _ = None"

definition decode_frame :: "udp_libs \<Rightarrow> bytes \<Rightarrow> SocketAddress \<Rightarrow> SafeUdpSock \<Rightarrow> (udp_error + bytes option) \<times> SafeUdpSock" where
  "decode_frame lib data a s =
     (case frame_parts (unpackb lib data) of
        None \<Rightarrow> (Inr None, s)
      | Some (seq_num_remote, sig, payload) \<Rightarrow>
          (case get_inbound_seqnum lib a s of
             (Inl e, s) \<Rightarrow> (Inl e, s)
           | (Inr inbound_sqn, s) \<Rightarrow>
               if seq_num_remote \<le> inbound_sqn then (Inr None, s)
               else case seq_bytes seq_num_remote of
                 Inl e \<Rightarrow> (Inl e, s)
               | Inr sb \<Rightarrow>
                   if gen_hmac lib (secret s) (payload @ sb) \<noteq> sig then (Inr None, s)
                   else case set_inbound_seqnum lib a seq_num_remote s of
                     (Inl e, s) \<Rightarrow> (Inl e, s)
                   | (Inr _, s) \<Rightarrow> (Inr (Some payload), s)))"

section \<open>Receiving\<close>

datatype recv_from_arg = RecvInt int | RecvAddr SocketAddress

definition RCV_OWN_PEER :: int where "RCV_OWN_PEER = 0"
definition RCV_EVERYONE :: int where "RCV_EVERYONE = 1"

text \<open>One turn of the loop: the time elapsed since the call, and what \<open>recvfrom\<close> gave.\<close>

datatype recvfrom_result = Datagram bytes SocketAddress | SockTimeout | ConnectionReset | SockRaises

datatype recv_result = Payload bytes | TimedOut | RecvRaises udp_error | Waiting

definition set_peer :: "udp_libs \<Rightarrow> SocketAddress option \<Rightarrow> SafeUdpSock \<Rightarrow> (udp_error + unit) \<times> SafeUdpSock" where
  "set_peer lib a s =
     (case a of
        None \<Rightarrow> (Inr (), s\<lparr>peer := INVALID_ADDRESS\<rparr>)
      | Some a \<Rightarrow> (case resolve_peer lib a of Inl e \<Rightarrow> (Inl e, s) | Inr r \<Rightarrow> (Inr (), s\<lparr>peer := r\<rparr>)))"

definition from_addr :: "udp_libs \<Rightarrow> recv_from_arg \<Rightarrow> SafeUdpSock \<Rightarrow> udp_error + SocketAddress option" where
  "from_addr lib arg s =
     (case arg of
        RecvInt n \<Rightarrow> if n = RCV_EVERYONE then Inr None else if n = RCV_OWN_PEER then Inr (Some (peer s)) else Inr None
      | RecvAddr a \<Rightarrow> res_bind (resolve_peer lib a) (\<lambda>r. Inr (Some r)))"

fun recv_loop ::
    "udp_libs \<Rightarrow> real option \<Rightarrow> SocketAddress option \<Rightarrow> (real \<times> recvfrom_result) list \<Rightarrow> SafeUdpSock \<Rightarrow> recv_result \<times> SafeUdpSock" where
  "recv_loop lib timeout from [] s = (Waiting, s)"
| "recv_loop lib timeout from ((t_elapsed, r) # rs) s =
     (if (case timeout of None \<Rightarrow> False | Some t \<Rightarrow> t \<le> t_elapsed) then (TimedOut, s)
      else case r of
        SockTimeout \<Rightarrow> (TimedOut, s)
      | SockRaises \<Rightarrow> (RecvRaises SocketError, s)
      | ConnectionReset \<Rightarrow> recv_loop lib timeout from rs s
      | Datagram data a \<Rightarrow>
          if from = None \<or> from = Some a
          then case decode_frame lib data a s of
              (Inl e, s) \<Rightarrow> (RecvRaises e, s)
            | (Inr None, s) \<Rightarrow> recv_loop lib timeout from rs s
            | (Inr (Some payload), s) \<Rightarrow> (Payload payload, s\<lparr>latest_sender := a\<rparr>)
          else recv_loop lib timeout from rs s)"

definition recv ::
    "udp_libs \<Rightarrow> real option \<Rightarrow> recv_from_arg \<Rightarrow> (real \<times> recvfrom_result) list \<Rightarrow> SafeUdpSock \<Rightarrow> recv_result \<times> SafeUdpSock" where
  "recv lib timeout arg rs s =
     (case from_addr lib arg s of
        Inl e \<Rightarrow> (RecvRaises e, s)
      | Inr from \<Rightarrow>
          if (case timeout of None \<Rightarrow> False | Some t \<Rightarrow> t < 0) then (RecvRaises TimeoutValueError, s)
          else recv_loop lib timeout from rs s)"

definition get_latest_sender_address :: "SafeUdpSock \<Rightarrow> SocketAddress" where
  "get_latest_sender_address s = latest_sender s"

section \<open>Use of the socket\<close>

datatype sock_event =
    Send bytes "SocketAddress option"
  | Recv "real option" recv_from_arg "(real \<times> recvfrom_result) list"
  | SetPeer "SocketAddress option"
  | OverrideOutbound SocketAddress int
  | QuerySeqnums SocketAddress

fun sock_step :: "udp_libs \<Rightarrow> SafeUdpSock \<Rightarrow> sock_event \<Rightarrow> SafeUdpSock" where
  "sock_step lib s (Send data dest) = snd (send lib data dest s)"
| "sock_step lib s (Recv timeout arg rs) = snd (recv lib timeout arg rs s)"
| "sock_step lib s (SetPeer a) = snd (set_peer lib a s)"
| "sock_step lib s (OverrideOutbound a v) = snd (override_outbound_seqnum lib a v s)"
| "sock_step lib s (QuerySeqnums a) = snd (get_inbound_seqnum lib a (snd (get_outbound_seqnum lib a s)))"

section \<open>What the operations do to the sequence numbers\<close>

lemma tracker_set [simp]: "tracker (set_tracker r t s) q = (if q = r then t else tracker s q)"
  by (simp add: tracker_def set_tracker_def dict_simps)

lemma set_tracker_simps [simp]:
  "secret (set_tracker r t s) = secret s" "peer (set_tracker r t s) = peer s"
  by (simp_all add: set_tracker_def)

lemma tracker_update [simp]:
  "tracker (s\<lparr>peer := a\<rparr>) = tracker s" "tracker (s\<lparr>latest_sender := a\<rparr>) = tracker s" "tracker (s\<lparr>datagrams := ds\<rparr>) = tracker s"
  by (simp_all add: tracker_def fun_eq_iff)

lemma populate_frame [simp]:
  "tracker (snd (populate_seqnum_entry lib a s)) = tracker s" "secret (snd (populate_seqnum_entry lib a s)) = secret s"
  "peer (snd (populate_seqnum_entry lib a s)) = peer s" "fst (populate_seqnum_entry lib a s) = resolve_peer lib a"
  by (auto simp: populate_seqnum_entry_def tracker_def fun_eq_iff dict_get_set dict_has_def split: sum.splits option.splits)

lemma populate_eq: "populate_seqnum_entry lib a s = (resolve_peer lib a, snd (populate_seqnum_entry lib a s))"
  by (simp add: prod_eq_iff)

text \<open>The state when a frame is looked at: its sender has an entry.\<close>

abbreviation heard :: "udp_libs \<Rightarrow> SocketAddress \<Rightarrow> SafeUdpSock \<Rightarrow> SafeUdpSock" where
  "heard lib a s \<equiv> snd (populate_seqnum_entry lib a s)"

lemma get_inbound_eq:
  "get_inbound_seqnum lib a s = (map_sum id (\<lambda>r. inbound (tracker s r)) (resolve_peer lib a), heard lib a s)"
  by (subst get_inbound_seqnum_def, subst populate_eq) (simp split: sum.splits)

lemma set_inbound_eq:
  "resolve_peer lib a = Inr r \<Longrightarrow>
   set_inbound_seqnum lib a v s = (Inr (), set_tracker r ((tracker s r)\<lparr>inbound := v\<rparr>) (heard lib a s))"
  by (subst set_inbound_seqnum_def, subst populate_eq) simp

definition frame_ok :: "udp_libs \<Rightarrow> bytes \<Rightarrow> bytes \<Rightarrow> int \<Rightarrow> bytes \<Rightarrow> bool" where
  "frame_ok lib key data n p \<longleftrightarrow>
     0 \<le> n \<and> n < 256 ^ 8 \<and> frame_parts (unpackb lib data) = Some (n, gen_hmac lib key (p @ bytes_be 8 (nat n)), p)"

lemma decode_accepts_iff:
  "fst (decode_frame lib data a s) = Inr (Some p) \<longleftrightarrow>
   (\<exists>r n. resolve_peer lib a = Inr r \<and> inbound (tracker s r) < n \<and> frame_ok lib (secret s) data n p)"
  by (cases "resolve_peer lib a")
    (auto simp: decode_frame_def frame_ok_def get_inbound_eq set_inbound_eq seq_bytes_def SEQ_NUM_SIZE_BYTES_def
      split: option.splits prod.splits sum.splits if_splits)

lemma decode_accepted:
  assumes "resolve_peer lib a = Inr r" "inbound (tracker s r) < n" "frame_ok lib (secret s) data n p"
  shows "decode_frame lib data a s =
    (Inr (Some p), set_tracker r ((tracker s r)\<lparr>inbound := n\<rparr>) (heard lib a (heard lib a s)))"
  using assms
  by (simp add: decode_frame_def frame_ok_def get_inbound_eq set_inbound_eq seq_bytes_def SEQ_NUM_SIZE_BYTES_def)

lemma decode_refused:
  assumes "\<nexists>p. fst (decode_frame lib data a s) = Inr (Some p)"
  shows "tracker (snd (decode_frame lib data a s)) = tracker s"
  using assms
  by (cases "resolve_peer lib a")
    (auto simp: decode_frame_def get_inbound_eq set_inbound_eq split: option.splits prod.splits sum.splits if_splits)

lemma decode_secret [simp]: "secret (snd (decode_frame lib data a s)) = secret s" "peer (snd (decode_frame lib data a s)) = peer s"
  by (cases "resolve_peer lib a";
      auto simp: decode_frame_def get_inbound_eq set_inbound_eq split: option.splits prod.splits sum.splits if_splits)+

lemma decode_raises:
  assumes "fst (decode_frame lib data a s) = Inl e" "resolve_peer lib a = Inr r"
  shows "\<exists>n sig p. frame_parts (unpackb lib data) = Some (n, sig, p) \<and> inbound (tracker s r) < n \<and> \<not> (0 \<le> n \<and> n < 256 ^ 8)"
  using assms
  by (auto simp: decode_frame_def get_inbound_eq set_inbound_eq seq_bytes_def SEQ_NUM_SIZE_BYTES_def
      split: option.splits prod.splits sum.splits if_splits)

lemma decode_inbound_mono: "inbound (tracker s r) \<le> inbound (tracker (snd (decode_frame lib data a s)) r)"
proof (cases "\<exists>p. fst (decode_frame lib data a s) = Inr (Some p)")
  case True
  then obtain p q n where "resolve_peer lib a = Inr q" "inbound (tracker s q) < n" "frame_ok lib (secret s) data n p"
    by (auto simp: decode_accepts_iff)
  then show ?thesis by (simp add: decode_accepted)
qed (simp add: decode_refused)

lemma recv_loop_mono:
  "inbound (tracker s r) \<le> inbound (tracker (snd (recv_loop lib timeout from rs s)) r)
   \<and> secret (snd (recv_loop lib timeout from rs s)) = secret s"
proof (induction rs arbitrary: s)
  case (Cons x rs)
  obtain t res where x: "x = (t, res)" by (cases x)
  show ?case
  proof (cases res)
    case (Datagram data a)
    obtain out s' where d: "decode_frame lib data a s = (out, s')" by (cases "decode_frame lib data a s")
    have m: "inbound (tracker s r) \<le> inbound (tracker s' r)" "secret s' = secret s"
      using decode_inbound_mono [of s r lib data a] decode_secret [of lib data a s] d by simp_all
    show ?thesis using Cons.IH [of s] Cons.IH [of s'] m x Datagram d
      by (auto split: sum.splits option.split intro: order_trans)
  qed (use Cons x in \<open>auto split: option.splits\<close>)
qed simp

lemma recv_mono:
  "inbound (tracker s r) \<le> inbound (tracker (snd (recv lib timeout arg rs s)) r) \<and> secret (snd (recv lib timeout arg rs s)) = secret s"
  using recv_loop_mono by (auto simp: recv_def split: sum.splits)

lemma send_mono: "inbound (tracker (snd (send lib data dest s)) r) = inbound (tracker s r) \<and> secret (snd (send lib data dest s)) = secret s"
proof -
  have "inbound (tracker (snd (increment_outbound_seqnum lib a s)) r) = inbound (tracker s r)
      \<and> secret (snd (increment_outbound_seqnum lib a s)) = secret s" for a
    by (subst (1 2) increment_outbound_seqnum_def, subst (1 2) populate_eq) (simp add: Let_def split: sum.splits)
  note inc = this
  show ?thesis
  proof (cases "if fst (peer s) \<noteq> fst INVALID_ADDRESS then Some (peer s) else dest")
    case None
    then show ?thesis by (simp add: send_def)
  next
    case (Some a)
    then show ?thesis using inc [of a]
      by (cases "increment_outbound_seqnum lib a s") (simp add: send_def split: sum.splits)
  qed
qed

lemma sock_step_mono:
  "inbound (tracker s r) \<le> inbound (tracker (sock_step lib s e) r) \<and> secret (sock_step lib s e) = secret s"
proof (cases e)
  case (OverrideOutbound a v)
  then show ?thesis by (subst (1 2) OverrideOutbound, simp) (subst (1 2) override_outbound_seqnum_def, subst (1 2) populate_eq, simp split: sum.splits)
next
  case (QuerySeqnums a)
  have "snd (get_outbound_seqnum lib a s) = heard lib a s"
    by (subst get_outbound_seqnum_def, subst populate_eq) (simp split: sum.splits)
  then show ?thesis using QuerySeqnums by (simp add: get_inbound_eq)
qed (use send_mono recv_mono in \<open>auto simp: set_peer_def split: option.splits sum.splits\<close>)

interpretation sock: event_machine "sock_step lib" "\<lambda>s. k \<le> inbound (tracker s r) \<and> secret s = key" for lib k r key
  using sock_step_mono by unfold_locales (meson order_trans)

lemma recv_loop_payload:
  "recv_loop lib timeout from rs s = (Payload p, s1) \<Longrightarrow>
   \<exists>t data a r n. (t, Datagram data a) \<in> set rs \<and> (from = None \<or> from = Some a) \<and> resolve_peer lib a = Inr r
     \<and> frame_ok lib (secret s) data n p \<and> inbound (tracker s r) < n \<and> n \<le> inbound (tracker s1 r)"
proof (induction rs arbitrary: s)
  case (Cons x rs)
  obtain t res where x: "x = (t, res)" by (cases x)
  have go: "\<not> (case timeout of None \<Rightarrow> False | Some u \<Rightarrow> u \<le> t)" using Cons.prems x by (auto split: if_splits)
  show ?case
  proof (cases res)
    case (Datagram data a)
    obtain out s' where d: "decode_frame lib data a s = (out, s')" by (cases "decode_frame lib data a s")
    show ?thesis
    proof (cases "(from = None \<or> from = Some a) \<and> (\<exists>q. out = Inr (Some q))")
      case True
      then have out: "out = Inr (Some p)" "s1 = s'\<lparr>latest_sender := a\<rparr>" using Cons.prems x Datagram d go by auto
      then obtain r n where r: "resolve_peer lib a = Inr r" "inbound (tracker s r) < n" "frame_ok lib (secret s) data n p"
        using decode_accepts_iff [of lib data a s p] d by auto
      then have "n \<le> inbound (tracker s1 r)" using decode_accepted [OF r] d out by simp
      then show ?thesis using r True Datagram x by (intro exI [of _ t] exI [of _ data] exI [of _ a] exI [of _ r] exI [of _ n]) simp
    next
      case False
      define u where "u = (if from = None \<or> from = Some a then s' else s)"
      have rec: "recv_loop lib timeout from rs u = (Payload p, s1)"
        using Cons.prems x Datagram d go False by (auto simp: u_def split: if_splits sum.splits option.splits)
      have "secret u = secret s" "tracker u = tracker s"
        using False d decode_secret(1) [of lib data a s] decode_refused [of lib data a s] by (auto simp: u_def)
      then show ?thesis using Cons.IH [OF rec] by (metis list.set_intros(2))
    qed
  qed (use Cons x go in \<open>auto, (metis list.set_intros(2))?\<close>)
qed simp

section \<open>Frames that are sent and received\<close>

lemma encode_frame_ok:
  assumes "msgpack_ok lib" "0 \<le> n" "n < 2 ^ 64" "length p < 2 ^ 32"
  shows "\<exists>b. encode_frame lib key p n = Inr b \<and> frame_ok lib key b n p \<and> length b \<le> length p + 28"
proof -
  let ?sig = "gen_hmac lib key (p @ bytes_be 8 (nat n))"
  have sig: "length ?sig \<le> 8" by (simp add: gen_hmac_def SIGNATURE_SIZE_BYTES_def)
  then have "length ?sig < 2 ^ 32" by simp
  then obtain b where b: "packb lib n ?sig p = Some b" "unpackb lib b = Some (MList [MInt n, MBytes ?sig, MBytes p])"
    "length b \<le> length ?sig + length p + 20"
    using assms unfolding msgpack_ok_def by blast
  have "n < 256 ^ 8" using assms(3) by simp
  then show ?thesis using b sig assms(2) by (simp add: encode_frame_def seq_bytes_def SEQ_NUM_SIZE_BYTES_def frame_ok_def)
qed

lemma frame_parts_small: "small_ints v \<Longrightarrow> frame_parts v = Some (n, sig, p) \<Longrightarrow> n < 256 ^ 8"
  by (induction v rule: frame_parts.induct) (auto simp: small_ints_def split: msgval.splits elim!: as_int.elims)

text \<open>What the network may do without the receiver being at fault: no socket error, and source addresses
  that resolve, as numeric ones do.\<close>

fun benign :: "udp_libs \<Rightarrow> recvfrom_result \<Rightarrow> bool" where
  "benign lib SockRaises \<longleftrightarrow> False"
| "benign lib (Datagram data a) \<longleftrightarrow> gethostbyname lib (fst a) \<noteq> None"
| "benign lib _ \<longleftrightarrow> True"

lemma decode_benign:
  assumes "msgpack_ok lib" "\<And>r. 0 \<le> inbound (tracker s r)" "gethostbyname lib (fst a) \<noteq> None"
  shows "fst (decode_frame lib data a s) \<noteq> Inl e"
proof
  assume raised: "fst (decode_frame lib data a s) = Inl e"
  obtain r where "resolve_peer lib a = Inr r" using assms(3) by (auto simp: resolve_peer_def)
  from decode_raises [OF raised this] assms(2) [of r]
  obtain n sig p where n: "frame_parts (unpackb lib data) = Some (n, sig, p)" "\<not> n < 256 ^ 8" by fastforce
  show False using frame_parts_small [OF _ n(1)] n(2) assms(1) by (simp add: msgpack_ok_def)
qed

lemma recv_loop_benign:
  "msgpack_ok lib \<Longrightarrow> (\<And>r. 0 \<le> inbound (tracker s r)) \<Longrightarrow> list_all (\<lambda>(t, res). benign lib res) rs \<Longrightarrow>
   fst (recv_loop lib timeout from rs s) \<noteq> RecvRaises e"
proof (induction rs arbitrary: s)
  case (Cons x rs)
  obtain t res where x: "x = (t, res)" by (cases x)
  show ?case
  proof (cases res)
    case (Datagram data a)
    obtain out s' where d: "decode_frame lib data a s = (out, s')" by (cases "decode_frame lib data a s")
    have "0 \<le> inbound (tracker s' r)" for r
      using decode_inbound_mono [of s r lib data a] Cons.prems(2) [of r] d by simp
    moreover have "out \<noteq> Inl e" for e using decode_benign [OF Cons.prems(1,2), of a data e] Cons.prems(3) x Datagram d by simp
    ultimately show ?thesis using Cons.IH [of s] Cons.IH [of s'] Cons.prems x Datagram d
      by (auto split: sum.splits option.split)
  qed (use Cons x in \<open>auto split: option.splits\<close>)
qed simp

section \<open>Properties\<close>

text \<open>
  C15. A payload that \<open>recv\<close> returns came in a datagram from an allowed address, with a sequence number above
  all that were accepted from that address before and the keyed hash of payload and number under the
  socket's secret. Whatever is sent and received afterwards, that datagram is never accepted again from
  the same address.
\<close>

theorem safeudp_no_replay_no_forgery:
  assumes "recv lib timeout arg rs s = (Payload p, s1)" "from_addr lib arg s = Inr allowed"
  shows "\<exists>t data a r n. (t, Datagram data a) \<in> set rs \<and> (allowed = None \<or> allowed = Some a) \<and> resolve_peer lib a = Inr r
    \<and> inbound (tracker s r) < n \<and> frame_parts (unpackb lib data) = Some (n, gen_hmac lib (secret s) (p @ bytes_be 8 (nat n)), p)
    \<and> (\<forall>es q. fst (decode_frame lib data a (foldl (sock_step lib) s1 es)) \<noteq> Inr (Some q))"
proof -
  have loop: "recv_loop lib timeout allowed rs s = (Payload p, s1)"
    using assms by (simp add: recv_def split: if_splits)
  obtain t data a r n where f: "(t, Datagram data a) \<in> set rs" "allowed = None \<or> allowed = Some a" "resolve_peer lib a = Inr r"
    "frame_ok lib (secret s) data n p" "inbound (tracker s r) < n" "n \<le> inbound (tracker s1 r)"
    using recv_loop_payload [OF loop] by blast
  have "fst (decode_frame lib data a (foldl (sock_step lib) s1 es)) \<noteq> Inr (Some q)" for es q
    using sock.run_inv [of n s1 r "secret s1" lib es] f(3,4,6) by (auto simp: decode_accepts_iff frame_ok_def)
  then show ?thesis using f unfolding frame_ok_def by blast
qed

text \<open>
  Nobody can make \<open>recv\<close> raise by sending datagrams: whatever bytes arrive from whatever addresses, a
  receiver with a nonnegative timeout returns a payload or \<open>None\<close> or goes on waiting.
\<close>

theorem datagrams_cannot_crash_recv:
  assumes "msgpack_ok lib" "s = foldl (sock_step lib) (SafeUdpSock_init key) es"
    and "list_all (\<lambda>(t, res). benign lib res) rs" "0 \<le> timeout"
  shows "fst (recv lib (Some timeout) (RecvInt k) rs s) \<noteq> RecvRaises e"
proof -
  have "0 \<le> inbound (tracker s r)" for r
    unfolding assms(2) by (rule conjunct1 [OF sock.run_inv [of 0 _ r key]])
      (simp add: SafeUdpSock_init_def tracker_def seqNumTracker_init_def)
  from recv_loop_benign [OF assms(1) this assms(3)] show ?thesis using assms(4) by (simp add: recv_def from_addr_def)
qed

text \<open>A concrete packing for the examples: the number, the length of the hash, hash and payload.\<close>

definition sample_packb :: "int \<Rightarrow> bytes \<Rightarrow> bytes \<Rightarrow> bytes option" where
  "sample_packb n sig p = Some (bytes_be 8 (nat n) @ bytes_be 4 (length sig) @ sig @ p)"

definition sample_unpackb :: "bytes \<Rightarrow> msgval option" where
  "sample_unpackb b =
     (let k = nat_of_bytes_be (take 4 (drop 8 b)); rest = drop 12 b
      in if length b < 8 then None
         else Some (MList [MInt (int (nat_of_bytes_be (take 8 b))), MBytes (take k rest), MBytes (drop k rest)]))"

definition sample_libs :: udp_libs where
  "sample_libs = \<lparr>gethostbyname = Some, blake2s = (\<lambda>key data. key @ rev data), packb = sample_packb, unpackb = sample_unpackb,
     sendto_ok = (\<lambda>a d. length d < 65508)\<rparr>"

lemma sample_unpack_pack:
  assumes "0 \<le> n" "n < 2 ^ 64" "length sig < 2 ^ 32" "sample_packb n sig p = Some b"
  shows "sample_unpackb b = Some (MList [MInt n, MBytes sig, MBytes p])"
proof -
  have b: "b = bytes_be 8 (nat n) @ bytes_be 4 (length sig) @ sig @ p" using assms(4) by (simp add: sample_packb_def)
  have "nat_of_bytes_be (bytes_be 8 (nat n)) = nat n" using assms(1,2) by (intro nat_of_bytes_be_inverse) simp
  moreover have "nat_of_bytes_be (bytes_be 4 (length sig)) = length sig" using assms(3) by (intro nat_of_bytes_be_inverse) simp
  ultimately show ?thesis using assms(1) by (simp add: sample_unpackb_def b Let_def)
qed

lemma sample_msgpack_ok: "msgpack_ok sample_libs"
proof -
  have "int (nat_of_bytes_be (take 8 b)) < 2 ^ 64" for b
  proof -
    have "nat_of_bytes_be (take 8 b) < 256 ^ length (take 8 b)" by (rule nat_of_bytes_be_bound)
    also have "(256 :: nat) ^ length (take 8 b) \<le> 256 ^ 8" by (intro power_increasing) simp_all
    finally show ?thesis by simp
  qed
  then have "small_ints (sample_unpackb b)" for b by (simp add: small_ints_def sample_unpackb_def Let_def)
  moreover have "\<exists>b. sample_packb n sig p = Some b \<and> sample_unpackb b = Some (MList [MInt n, MBytes sig, MBytes p])
      \<and> length b \<le> length sig + length p + 20"
    if "0 \<le> n" "n < 2 ^ 64" "length sig < 2 ^ 32" for n sig p
    using sample_unpack_pack [OF that, of p] by (simp add: sample_packb_def)
  ultimately show ?thesis by (simp add: msgpack_ok_def sample_libs_def)
qed

definition sample_frame :: bytes where
  "sample_frame = (case encode_frame sample_libs [7] [1, 2] 1 of Inr b \<Rightarrow> b)"

lemma sample_frame_ok: "frame_ok sample_libs [7] sample_frame 1 [1, 2]"
  using encode_frame_ok [OF sample_msgpack_ok, of 1 "[1, 2]" "[7]"] by (auto simp: sample_frame_def)

lemma new_socket: "tracker (SafeUdpSock_init k) r = \<lparr>outbound = 0, inbound = 0\<rparr>" "secret (SafeUdpSock_init k) = k"
  by (simp_all add: SafeUdpSock_init_def tracker_def seqNumTracker_init_def)

lemma sample_resolve: "resolve_peer sample_libs a = Inr a"
  by (cases a) (simp add: resolve_peer_def sample_libs_def)

theorem safeudp_no_replay_no_forgery_witness:
  "\<exists>s1. recv sample_libs (Some 1) (RecvInt RCV_EVERYONE) [(0, Datagram sample_frame (''10.0.0.1'', 5))] (SafeUdpSock_init [7])
      = (Payload [1, 2], s1)
    \<and> fst (decode_frame sample_libs sample_frame (''10.0.0.1'', 5) s1) \<noteq> Inr (Some [1, 2])"
proof -
  let ?a = "(''10.0.0.1'', 5)" and ?s = "SafeUdpSock_init [7]"
  have "fst (decode_frame sample_libs sample_frame ?a ?s) = Inr (Some [1, 2])"
    using sample_frame_ok by (simp add: decode_accepts_iff sample_resolve new_socket exI [of _ 1])
  then obtain s1 where r: "recv sample_libs (Some 1) (RecvInt RCV_EVERYONE) [(0, Datagram sample_frame ?a)] ?s = (Payload [1, 2], s1)"
    by (cases "decode_frame sample_libs sample_frame ?a ?s") (simp add: recv_def from_addr_def)
  have "from_addr sample_libs (RecvInt RCV_EVERYONE) ?s = Inr None" by (simp add: from_addr_def)
  from safeudp_no_replay_no_forgery [OF r this] obtain n where
    "\<forall>es q. fst (decode_frame sample_libs sample_frame ?a (foldl (sock_step sample_libs) s1 es)) \<noteq> Inr (Some q)" by auto
  from this [rule_format, of "[]"] r show ?thesis by auto
qed

theorem datagrams_cannot_crash_recv_witness:
  "fst (recv sample_libs (Some 1) (RecvInt 1) [(0, Datagram [1, 2, 3] (''10.0.0.1'', 5)), (0, ConnectionReset)] (SafeUdpSock_init [7]))
    \<noteq> RecvRaises OverflowError"
  by (rule datagrams_cannot_crash_recv [OF sample_msgpack_ok, of _ "[7]" "[]"]) (simp_all add: sample_libs_def)

text \<open>
  The protection against replays is per address, and the hash does not cover the address: a frame
  that was accepted from one address is accepted once more from any other address that has not sent a
  higher number yet.
\<close>

theorem replay_from_other_address_accepted:
  assumes "decode_frame lib data a s = (Inr (Some p), s1)" "resolve_peer lib a = Inr r" "resolve_peer lib b = Inr r'" "r' \<noteq> r"
    and "frame_parts (unpackb lib data) = Some (n, sig, p)" "inbound (tracker s r') < n"
  shows "fst (decode_frame lib data b s1) = Inr (Some p)"
proof -
  obtain m where m: "inbound (tracker s r) < m" "frame_ok lib (secret s) data m p"
    using assms(1,2) decode_accepts_iff [of lib data a s p] by auto
  then have "m = n" using assms(5) by (simp add: frame_ok_def)
  moreover have "tracker s1 r' = tracker s r'" "secret s1 = secret s"
    using decode_accepted [OF assms(2) m] assms(1,4) by simp_all
  ultimately show ?thesis using m(2) assms(3,6) by (auto simp: decode_accepts_iff)
qed

theorem replay_from_other_address_accepted_witness:
  "fst (decode_frame sample_libs sample_frame (''10.0.0.2'', 9)
      (snd (decode_frame sample_libs sample_frame (''10.0.0.1'', 5) (SafeUdpSock_init [7])))) = Inr (Some [1, 2])"
proof -
  let ?s = "SafeUdpSock_init [7]" and ?a = "(''10.0.0.1'', 5)"
  have "fst (decode_frame sample_libs sample_frame ?a ?s) = Inr (Some [1, 2])"
    using sample_frame_ok by (simp add: decode_accepts_iff sample_resolve new_socket exI [of _ 1])
  then have d: "decode_frame sample_libs sample_frame ?a ?s = (Inr (Some [1, 2]), snd (decode_frame sample_libs sample_frame ?a ?s))"
    by (simp add: prod_eq_iff)
  obtain sig where "frame_parts (unpackb sample_libs sample_frame) = Some (1, sig, [1, 2])"
    using sample_frame_ok by (simp add: frame_ok_def)
  from replay_from_other_address_accepted [OF d sample_resolve sample_resolve _ this] show ?thesis by (simp add: new_socket)
qed

lemma recv_loop_deaf:
  "list_all (\<lambda>(t, res). \<forall>data. res \<noteq> Datagram data a) rs \<Longrightarrow> snd (recv_loop lib timeout (Some a) rs s) = s
   \<and> (\<forall>p. fst (recv_loop lib timeout (Some a) rs s) \<noteq> Payload p)"
  by (induction rs) (auto split: recvfrom_result.splits if_splits)

text \<open>
  A socket without a peer is deaf: with the default argument of \<open>recv\<close> it compares the sender with the
  invalid address, so whatever arrives it returns no payload and its state does not change. (The
  documentation promises that it then receives from everyone.)
\<close>

theorem recv_without_peer_is_deaf:
  assumes "peer s = INVALID_ADDRESS" "list_all (\<lambda>(t, res). \<forall>data. res \<noteq> Datagram data INVALID_ADDRESS) rs"
  shows "snd (recv lib timeout (RecvInt RCV_OWN_PEER) rs s) = s \<and> fst (recv lib timeout (RecvInt RCV_OWN_PEER) rs s) \<noteq> Payload p"
  using recv_loop_deaf [OF assms(2), of lib timeout s] assms(1)
  by (simp add: recv_def from_addr_def RCV_OWN_PEER_def RCV_EVERYONE_def split: option.splits)

theorem recv_without_peer_is_deaf_witness:
  "fst (recv sample_libs (Some 1) (RecvInt RCV_OWN_PEER) [(0, Datagram sample_frame (''10.0.0.1'', 5))] (SafeUdpSock_init [7])) \<noteq> Payload [1, 2]"
  using recv_without_peer_is_deaf [of "SafeUdpSock_init [7]" "[(0, Datagram sample_frame (''10.0.0.1'', 5))]" sample_libs "Some 1" "[1, 2]"]
  by (simp add: SafeUdpSock_init_def INVALID_ADDRESS_def)

section \<open>Two sockets\<close>

definition send_each :: "udp_libs \<Rightarrow> SocketAddress \<Rightarrow> bytes list \<Rightarrow> SafeUdpSock \<Rightarrow> SafeUdpSock" where
  "send_each lib dest ms s = foldl (\<lambda>s m. snd (send lib m (Some dest) s)) s ms"

text \<open>\<open>recvfrom\<close> gives at most \<open>MAX_RECV_BUFF_SIZE\<close> bytes of a datagram.\<close>

fun recv_each :: "udp_libs \<Rightarrow> SocketAddress \<Rightarrow> bytes list \<Rightarrow> SafeUdpSock \<Rightarrow> recv_result list" where
  "recv_each lib a [] s = []"
| "recv_each lib a (d # ds) s =
     (let (r, s) = recv lib (Some 1) (RecvInt RCV_EVERYONE) [(0, Datagram (take MAX_RECV_BUFF_SIZE d) a)] s
      in r # recv_each lib a ds s)"

text \<open>The operating system takes every datagram that the receiver's buffer can hold.\<close>

definition sends_buffer :: "udp_libs \<Rightarrow> SocketAddress \<Rightarrow> bool" where
  "sends_buffer lib dest \<longleftrightarrow> (\<forall>d. length d \<le> MAX_RECV_BUFF_SIZE \<longrightarrow> sendto_ok lib dest d)"

lemma send_ok:
  assumes "msgpack_ok lib" "resolve_peer lib dest = Inr r" "peer s = INVALID_ADDRESS"
    and "0 \<le> outbound (tracker s r)" "outbound (tracker s r) + 1 < 2 ^ 64"
    and "sends_buffer lib dest" "length m \<le> 4000"
  shows "\<exists>b. frame_ok lib (secret s) b (outbound (tracker s r) + 1) m \<and> length b \<le> MAX_RECV_BUFF_SIZE
    \<and> snd (send lib m (Some dest) s) = (set_tracker r ((tracker s r)\<lparr>outbound := outbound (tracker s r) + 1\<rparr>) (heard lib dest s))
        \<lparr>datagrams := datagrams s @ [(dest, b)]\<rparr>"
proof -
  let ?n = "outbound (tracker s r) + 1"
  obtain b where b: "encode_frame lib (secret s) m ?n = Inr b" "frame_ok lib (secret s) b ?n m" "length b \<le> length m + 28"
    using encode_frame_ok [OF assms(1), of ?n m "secret s"] assms(4,5,7) by auto
  then have fits: "length b \<le> MAX_RECV_BUFF_SIZE" using assms(7) by (simp add: MAX_RECV_BUFF_SIZE_def)
  then have "sendto_ok lib dest b" using assms(6) by (simp add: sends_buffer_def)
  note sent = this
  have "increment_outbound_seqnum lib dest s = (Inr ?n, set_tracker r ((tracker s r)\<lparr>outbound := ?n\<rparr>) (heard lib dest s))"
    by (subst increment_outbound_seqnum_def, subst populate_eq) (simp add: assms(2) Let_def)
  moreover have "datagrams (set_tracker r t (heard lib dest s)) = datagrams s" for t
    using assms(2) by (simp add: set_tracker_def populate_seqnum_entry_def)
  ultimately show ?thesis using b fits sent assms(3) by (intro exI [of _ b]) (simp add: send_def)
qed

lemma send_each_frames:
  assumes "msgpack_ok lib" "resolve_peer lib dest = Inr r" "sends_buffer lib dest"
  shows "peer s = INVALID_ADDRESS \<Longrightarrow> 0 \<le> outbound (tracker s r) \<Longrightarrow> outbound (tracker s r) + int (length ms) < 2 ^ 64 \<Longrightarrow>
    list_all (\<lambda>m. length m \<le> 4000) ms \<Longrightarrow>
    \<exists>bs. map snd (datagrams (send_each lib dest ms s)) = map snd (datagrams s) @ bs \<and> length bs = length ms
      \<and> (\<forall>i < length ms. frame_ok lib (secret s) (bs ! i) (outbound (tracker s r) + 1 + int i) (ms ! i)
            \<and> length (bs ! i) \<le> MAX_RECV_BUFF_SIZE)"
proof (induction ms arbitrary: s)
  case (Cons m ms)
  let ?k = "outbound (tracker s r)"
  obtain b where b: "frame_ok lib (secret s) b (?k + 1) m \<and> length b \<le> MAX_RECV_BUFF_SIZE"
    "snd (send lib m (Some dest) s) = (set_tracker r ((tracker s r)\<lparr>outbound := ?k + 1\<rparr>) (heard lib dest s))
        \<lparr>datagrams := datagrams s @ [(dest, b)]\<rparr>" (is "_ = ?t")
    using send_ok [OF assms(1,2) Cons.prems(1,2) _ assms(3), of m] Cons.prems(3,4) by auto
  have t: "peer ?t = INVALID_ADDRESS" "outbound (tracker ?t r) = ?k + 1" "secret ?t = secret s" "datagrams ?t = datagrams s @ [(dest, b)]"
    using Cons.prems(1) by simp_all
  obtain bs where bs: "map snd (datagrams (send_each lib dest ms ?t)) = map snd (datagrams ?t) @ bs" "length bs = length ms"
    "\<forall>i < length ms. frame_ok lib (secret s) (bs ! i) (?k + 1 + 1 + int i) (ms ! i) \<and> length (bs ! i) \<le> MAX_RECV_BUFF_SIZE"
    using Cons.IH [OF t(1)] Cons.prems(2-4) unfolding t(2,3) by auto
  have "frame_ok lib (secret s) ((b # bs) ! i) (?k + 1 + int i) ((m # ms) ! i) \<and> length ((b # bs) ! i) \<le> MAX_RECV_BUFF_SIZE" if "i < Suc (length ms)" for i
    using that b(1) bs(3) by (cases i) (auto simp: algebra_simps)
  then show ?case using bs(1,2) by (intro exI [of _ "b # bs"]) (simp add: send_each_def b(2))
qed (simp add: send_each_def)

lemma recv_each_ok:
  assumes "resolve_peer lib a = Inr r"
  shows "sorted_wrt (<) (inbound (tracker s r) # map (\<lambda>(d, n, p). n) fs) \<Longrightarrow> list_all (\<lambda>(d, n, p). frame_ok lib (secret s) d n p \<and> length d \<le> MAX_RECV_BUFF_SIZE) fs \<Longrightarrow>
    recv_each lib a (map (\<lambda>(d, n, p). d) fs) s = map (\<lambda>(d, n, p). Payload p) fs"
proof (induction fs arbitrary: s)
  case (Cons f fs)
  obtain d n p where f: "f = (d, n, p)" by (cases f)
  have "inbound (tracker s r) < n" "frame_ok lib (secret s) d n p" and all: "take MAX_RECV_BUFF_SIZE d = d" using Cons.prems f by simp_all
  from decode_accepted [OF assms this(1,2)]
  have step: "recv lib (Some 1) (RecvInt RCV_EVERYONE) [(0, Datagram d a)] s =
      (Payload p, (set_tracker r ((tracker s r)\<lparr>inbound := n\<rparr>) (heard lib a (heard lib a s)))\<lparr>latest_sender := a\<rparr>)"
    by (simp add: recv_def from_addr_def)
  show ?case using Cons.prems Cons.IH [of "(set_tracker r ((tracker s r)\<lparr>inbound := n\<rparr>) (heard lib a (heard lib a s)))\<lparr>latest_sender := a\<rparr>"]
    by (simp add: f step all)
qed simp

text \<open>
  C16. Two sockets with the same secret understand each other over a channel that loses datagrams but keeps
  their order: of the datagrams a new socket sends, every subsequence that arrives in order is received
  completely, each payload unchanged, as long as no payload has more than 4000 bytes. (With the frame
  around it a longer one may not fit into the receiver's buffer of 4096 bytes.)
\<close>

theorem safeudp_roundtrip:
  assumes "msgpack_ok lib" "resolve_peer lib dest = Inr r" "resolve_peer lib a = Inr r'"
    and "secret b = key" "inbound (tracker b r') = 0" "length ms < 2 ^ 63" "sorted_wrt (<) is" "list_all (\<lambda>i. i < length ms) is"
    and "sends_buffer lib dest" "list_all (\<lambda>m. length m \<le> 4000) ms"
  shows "recv_each lib a (map (\<lambda>i. map snd (datagrams (send_each lib dest ms (SafeUdpSock_init key))) ! i) is) b =
    map (\<lambda>i. Payload (ms ! i)) is"
proof -
  let ?s = "SafeUdpSock_init key"
  have "int (length ms) < 2 ^ 63" using assms(6) by (metis of_nat_less_iff of_nat_numeral of_nat_power)
  moreover have "peer ?s = INVALID_ADDRESS" "datagrams ?s = []" by (simp_all add: SafeUdpSock_init_def)
  ultimately obtain bs where bs: "map snd (datagrams (send_each lib dest ms ?s)) = bs"
    "\<forall>i < length ms. frame_ok lib key (bs ! i) (1 + int i) (ms ! i) \<and> length (bs ! i) \<le> MAX_RECV_BUFF_SIZE"
    using send_each_frames [OF assms(1,2,9), of ?s ms] assms(10) unfolding new_socket by auto
  let ?fs = "map (\<lambda>i. (bs ! i, 1 + int i, ms ! i)) is"
  have "sorted_wrt (<) (inbound (tracker b r') # map (\<lambda>(d, n, p). n) ?fs)"
    using assms(5,7) by (auto simp: sorted_wrt_map comp_def)
  moreover have "list_all (\<lambda>(d, n, p). frame_ok lib (secret b) d n p \<and> length d \<le> MAX_RECV_BUFF_SIZE) ?fs"
    using bs(2) assms(4,8) by (auto simp: list_all_iff)
  ultimately show ?thesis using recv_each_ok [OF assms(3), of b ?fs] by (simp add: bs(1) comp_def)
qed

theorem safeudp_roundtrip_witness:
  "recv_each sample_libs (''10.0.0.1'', 5)
     (map (\<lambda>i. map snd (datagrams (send_each sample_libs (''10.0.0.2'', 6) [[1], [2, 3], [4]] (SafeUdpSock_init [7]))) ! i) [0, 2])
     (SafeUdpSock_init [7]) = [Payload [1], Payload [4]]"
  using safeudp_roundtrip [OF sample_msgpack_ok sample_resolve sample_resolve, of "SafeUdpSock_init [7]" "[7]" "(''10.0.0.1'', 5)"
    "[[1], [2, 3], [4]]" "[0, 2]"]
  by (simp add: new_socket sends_buffer_def MAX_RECV_BUFF_SIZE_def sample_libs_def)

end
