(* ===== verification/AnimaDummy.thy ===== *)
theory AnimaDummy
  imports ConfigTree
begin

text \<open>
  The client's picture of a character (\<open>animacharacter_pyclient/animadummies\<close>): actuators, groups of
  actuators (\<open>base_components.py\<close>), and the tree of groups of the default character (\<open>teodore.py\<close>).

  Actuator objects are shared by the arrays and tables of several groups, so they live in a store and
  are named by their index; the configuration nodes they publish to are paths into one tree. The table of
  channel ids, which \<open>teodore.py\<close> reads from \<open>teodore.toml\<close>, is an argument. A group is created below a
  parent node, as \<open>create_dummy\<close> does.
\<close>

section \<open>Actuators (base\_components.py)\<close>

record 'v Actuator =
  act_id :: int
  act_name :: string
  act_value :: 'v
  act_cfg :: "string list"

record 'v dummy_state =
  actuators :: "'v Actuator list"
  cfg_tree :: node

datatype dummy_error = KeyError string | NegativeId int

definition Actuator_init :: "int \<Rightarrow> string list \<Rightarrow> 'v :: zero dummy_state \<Rightarrow> dummy_error + (nat \<times> 'v dummy_state)" where
  "Actuator_init i cfg s =
     (if i < 0 then Inl (NegativeId i)
      else Inr (length (actuators s),
        s\<lparr>actuators := actuators s @ [\<lparr>act_id = i, act_name = '''', act_value = 0, act_cfg = cfg\<rparr>]\<rparr>))"

definition set_value :: "nat \<Rightarrow> 'v \<Rightarrow> 'v dummy_state \<Rightarrow> 'v dummy_state" where
  "set_value i v s = s\<lparr>actuators := (actuators s)[i := (actuators s ! i)\<lparr>act_value := v\<rparr>]\<rparr>"

definition act_posefrom :: "nat \<Rightarrow> nat \<Rightarrow> 'v dummy_state \<Rightarrow> 'v dummy_state" where
  "act_posefrom i j s = set_value i (act_value (actuators s ! j)) s"

definition act_key :: "'v Actuator \<Rightarrow> string" where
  "act_key a = act_name a @ ''@'' @ show_int (act_id a)"

definition configure :: "nat \<Rightarrow> jdict \<Rightarrow> 'v dummy_state \<Rightarrow> 'v dummy_state" where
  "configure i cfg s =
     (let a = actuators s ! i in s\<lparr>cfg_tree := publish (act_cfg a) (act_key a) cfg (cfg_tree s)\<rparr>)"

definition act_motiondata :: "'v dummy_state \<Rightarrow> nat \<Rightarrow> int \<times> 'v" where
  "act_motiondata s i = (act_id (actuators s ! i), act_value (actuators s ! i))"

section \<open>Groups\<close>

datatype ActuatorGroup =
  Group (actuatorsarray: "nat list") (subgroupsarray: "ActuatorGroup list") (act_table: "(int \<times> nat) list")

definition own_table :: "'v dummy_state \<Rightarrow> nat list \<Rightarrow> (int, nat) dict" where
  "own_table s is = foldl (\<lambda>d i. dict_set d (act_id (actuators s ! i)) i) [] is"

definition fill_missing_act_names :: "(string \<times> nat) list \<Rightarrow> 'v dummy_state \<Rightarrow> 'v dummy_state" where
  "fill_missing_act_names attrs s =
     foldl (\<lambda>s (attr, i). if act_name (actuators s ! i) = ''''
        then s\<lparr>actuators := (actuators s)[i := (actuators s ! i)\<lparr>act_name := attr\<rparr>]\<rparr> else s) s attrs"

text \<open>\<open>attrs\<close> are the actuators among the attributes of the object when the base class is initialized.\<close>

definition ActuatorGroup_init ::
    "(string \<times> nat) list \<Rightarrow> nat list \<Rightarrow> ActuatorGroup list \<Rightarrow> 'v dummy_state \<Rightarrow> ActuatorGroup \<times> 'v dummy_state" where
  "ActuatorGroup_init attrs is gs s =
     (Group is gs (foldl (\<lambda>d g. dict_update d (act_table g)) (own_table s is) gs), fill_missing_act_names attrs s)"

definition posefrom :: "ActuatorGroup \<Rightarrow> ActuatorGroup \<Rightarrow> 'v dummy_state \<Rightarrow> 'v dummy_state" where
  "posefrom self other s =
     foldl (\<lambda>s j. case dict_get (act_table self) (act_id (actuators s ! j)) of None \<Rightarrow> s | Some i \<Rightarrow> act_posefrom i j s)
       s (actuatorsarray other)"

fun all_actuators :: "ActuatorGroup \<Rightarrow> nat list" where
  "all_actuators (Group is gs t) = is @ concat (map all_actuators gs)"

fun gen_motiondata :: "'v dummy_state \<Rightarrow> ActuatorGroup \<Rightarrow> (int \<times> 'v) list" where
  "gen_motiondata s (Group is gs t) = map (act_motiondata s) is @ concat (map (gen_motiondata s) gs)"

section \<open>The default character (teodore.py)\<close>

fun new_actuators ::
    "(string \<Rightarrow> int option) \<Rightarrow> string list \<Rightarrow> string list \<Rightarrow> 'v :: zero dummy_state \<Rightarrow> dummy_error + (nat list \<times> 'v dummy_state)" where
  "new_actuators idtable cfg [] s = Inr ([], s)"
| "new_actuators idtable cfg (n # ns) s =
     (case idtable n of
        None \<Rightarrow> Inl (KeyError n)
      | Some i \<Rightarrow>
          res_bind (Actuator_init i cfg s) (\<lambda>(j, s).
          res_bind (new_actuators idtable cfg ns s) (\<lambda>(js, s). Inr (j # js, s))))"

definition new_cfg :: "string list \<Rightarrow> string \<Rightarrow> 'v dummy_state \<Rightarrow> 'v dummy_state" where
  "new_cfg parent name s = s\<lparr>cfg_tree := snd (child parent name (cfg_tree s))\<rparr>"

definition EyeboxActuatorGroup ::
    "(string \<Rightarrow> int option) \<Rightarrow> string list \<Rightarrow> 'v :: zero dummy_state \<Rightarrow> dummy_error + (ActuatorGroup \<times> 'v dummy_state)" where
  "EyeboxActuatorGroup idtable parent s =
     res_bind (new_actuators idtable (parent @ [''eyes''])
         [''EYES_H'', ''EYES_V'', ''EYES_FOCUS'', ''EYELID_TR'', ''EYELID_TL'', ''EYELID_BR'', ''EYELID_BL'']
         (new_cfg parent ''eyes'' s)) (\<lambda>(is, s).
       Inr (ActuatorGroup_init
         (zip [''eyes_h'', ''eyes_v'', ''eyes_focus'', ''eyelid_tr'', ''eyelid_tl'', ''eyelid_br'', ''eyelid_bl''] is)
         [is ! 0, is ! 1, is ! 2, is ! 6, is ! 5, is ! 4, is ! 3] [] s))"

definition NeckActuatorGroup ::
    "(string \<Rightarrow> int option) \<Rightarrow> string list \<Rightarrow> 'v :: zero dummy_state \<Rightarrow> dummy_error + (ActuatorGroup \<times> 'v dummy_state)" where
  "NeckActuatorGroup idtable parent s =
     res_bind (new_actuators idtable (parent @ [''neck'']) [''SERVO_NECK_R'', ''SERVO_NECK_L'', ''NECK_ROTATION'']
         (new_cfg parent ''neck'' s)) (\<lambda>(is, s).
       Inr (ActuatorGroup_init (zip [''servo_r'', ''servo_l'', ''rotation''] is) is [] s))"

definition HeadActuatorGroup ::
    "(string \<Rightarrow> int option) \<Rightarrow> string list \<Rightarrow> 'v :: zero dummy_state \<Rightarrow> dummy_error + (ActuatorGroup \<times> 'v dummy_state)" where
  "HeadActuatorGroup idtable parent s =
     res_bind (new_actuators idtable (parent @ [''head'']) [''EAR_LEFT'', ''EAR_RIGHT'', ''MOUTH''] (new_cfg parent ''head'' s)) (\<lambda>(is, s).
     res_bind (EyeboxActuatorGroup idtable (parent @ [''head'']) s) (\<lambda>(eyebox, s).
     res_bind (NeckActuatorGroup idtable (parent @ [''head'']) s) (\<lambda>(neck, s).
       Inr (ActuatorGroup_init (zip [''ear_left'', ''ear_right'', ''mouth''] is) is [eyebox, neck] s))))"

definition ShoulderActuatorGroup ::
    "(string \<Rightarrow> int option) \<Rightarrow> bool \<Rightarrow> string list \<Rightarrow> 'v :: zero dummy_state \<Rightarrow> dummy_error + (ActuatorGroup \<times> 'v dummy_state)" where
  "ShoulderActuatorGroup idtable right parent s =
     res_bind (new_actuators idtable (parent @ [''shoulder''])
         (if right then [''ARMR_STEPPERA'', ''ARMR_STEPPERB''] else [''ARML_STEPPERA'', ''ARML_STEPPERB'']) (new_cfg parent ''shoulder'' s)) (\<lambda>(is, s).
       Inr (ActuatorGroup_init (zip [''motorA'', ''motorB''] is) is [] s))"

definition ArmActuatorGroup ::
    "(string \<Rightarrow> int option) \<Rightarrow> bool \<Rightarrow> string list \<Rightarrow> 'v :: zero dummy_state \<Rightarrow> dummy_error + (ActuatorGroup \<times> 'v dummy_state)" where
  "ArmActuatorGroup idtable right parent s =
     (let name = (if right then ''arm_right'' else ''arm_left'')
      in res_bind (ShoulderActuatorGroup idtable right (parent @ [name]) (new_cfg parent name s)) (\<lambda>(shoulder, s).
         res_bind (new_actuators idtable (parent @ [name])
             (if right then [''ARMR_ELBOW'', ''ARMR_WRIST'', ''ARMR_ROTATION''] else [''ARML_ELBOW'', ''ARML_WRIST'', ''ARML_ROTATION'']) s) (\<lambda>(is, s).
           Inr (ActuatorGroup_init (zip [''elbow'', ''wrist'', ''rotation''] is) is [shoulder] s))))"

definition BodyActuatorGroup ::
    "(string \<Rightarrow> int option) \<Rightarrow> string list \<Rightarrow> 'v :: zero dummy_state \<Rightarrow> dummy_error + (ActuatorGroup \<times> 'v dummy_state)" where
  "BodyActuatorGroup idtable parent s =
     res_bind (new_actuators idtable (parent @ [''body'']) [''BODY_LEAN'', ''BODY_ROTATION'', ''BODY_ROLL''] (new_cfg parent ''body'' s)) (\<lambda>(is, s).
       Inr (ActuatorGroup_init (zip [''lean'', ''turn'', ''roll''] is) [is ! 0, is ! 1] [] s))"

definition TeodoreDummy ::
    "(string \<Rightarrow> int option) \<Rightarrow> 'v :: zero dummy_state \<Rightarrow> dummy_error + (ActuatorGroup \<times> 'v dummy_state)" where
  "TeodoreDummy idtable s =
     res_bind (HeadActuatorGroup idtable [] s) (\<lambda>(head, s).
     res_bind (ArmActuatorGroup idtable False [] s) (\<lambda>(arm_left, s).
     res_bind (ArmActuatorGroup idtable True [] s) (\<lambda>(arm_right, s).
     res_bind (BodyActuatorGroup idtable [] s) (\<lambda>(body, s).
       Inr (ActuatorGroup_init [] [] [head, arm_left, arm_right, body] s)))))"

definition create_dummy :: "(string \<Rightarrow> int option) \<Rightarrow> dummy_error + (ActuatorGroup \<times> 'v :: zero dummy_state)" where
  "create_dummy idtable = TeodoreDummy idtable \<lparr>actuators = [], cfg_tree = new_node\<rparr>"

text \<open>Configuration shorthands of the actuator classes.\<close>

definition set_exp_decay :: "nat \<Rightarrow> json \<Rightarrow> 'v dummy_state \<Rightarrow> 'v dummy_state" where
  "set_exp_decay i amount = configure i [(''exp_decay'', amount)]"

definition set_accel :: "nat \<Rightarrow> json \<Rightarrow> 'v dummy_state \<Rightarrow> 'v dummy_state" where
  "set_accel i amount = configure i [(''max_accel'', amount)]"

definition set_max_velocity :: "nat \<Rightarrow> json \<Rightarrow> 'v dummy_state \<Rightarrow> 'v dummy_state" where
  "set_max_velocity i amount = configure i [(''max_vel'', amount)]"

definition set_upper_limit :: "nat \<Rightarrow> json \<Rightarrow> 'v dummy_state \<Rightarrow> 'v dummy_state" where
  "set_upper_limit i v = configure i [(''limit_upper'', v)]"

definition set_lower_limit :: "nat \<Rightarrow> json \<Rightarrow> 'v dummy_state \<Rightarrow> 'v dummy_state" where
  "set_lower_limit i v = configure i [(''limit_low'', v)]"

section \<open>What a motion frame is made of\<close>

text \<open>Ids and values of all actuators.\<close>

definition channels :: "'v dummy_state \<Rightarrow> (int \<times> 'v) list" where
  "channels s = map (\<lambda>a. (act_id a, act_value a)) (actuators s)"

lemma length_channels [simp]: "length (channels s) = length (actuators s)"
  by (simp add: channels_def)

lemma motiondata_channels:
  "list_all (\<lambda>i. i < length (actuators s)) (all_actuators g) \<Longrightarrow> gen_motiondata s g = map (\<lambda>i. channels s ! i) (all_actuators g)"
proof (induction g)
  case (Group "is" gs t)
  have "gen_motiondata s g = map (\<lambda>i. channels s ! i) (all_actuators g)" if "g \<in> set gs" for g
    using Group.IH [OF that] Group.prems that by (auto simp: list_all_iff)
  then have "concat (map (gen_motiondata s) gs) = map (\<lambda>i. channels s ! i) (concat (map all_actuators gs))"
    by (simp add: map_concat comp_def cong: map_cong)
  then show ?case using Group.prems by (auto simp: act_motiondata_def channels_def list_all_iff)
qed

lemma fill_names_channels: "channels (fill_missing_act_names attrs s) = channels s"
proof -
  have "channels (if c then s\<lparr>actuators := (actuators s)[i := (actuators s ! i)\<lparr>act_name := attr\<rparr>]\<rparr> else s) = channels s"
    for c i attr and s :: "'a dummy_state"
    by (cases "i < length (actuators s)") (auto simp: channels_def map_update list_update_same_conv list_update_beyond)
  then show ?thesis unfolding fill_missing_act_names_def by (induction attrs arbitrary: s) auto
qed

lemma group_init_simps:
  "all_actuators (fst (ActuatorGroup_init attrs is gs s)) = is @ concat (map all_actuators gs)"
  "actuatorsarray (fst (ActuatorGroup_init attrs is gs s)) = is"
  "channels (snd (ActuatorGroup_init attrs is gs s)) = channels s"
  by (simp_all add: ActuatorGroup_init_def fill_names_channels)

text \<open>Creating groups, seen through the channels: a constructor that succeeds has made actuators for the
  listed names and a group of the listed positions.\<close>

definition makes ::
    "(string \<Rightarrow> int) \<Rightarrow> ('v :: zero dummy_state \<Rightarrow> dummy_error + (ActuatorGroup \<times> 'v dummy_state)) \<Rightarrow> string list \<Rightarrow> nat list \<Rightarrow> bool" where
  "makes ids mk names ps \<longleftrightarrow>
     (\<forall>s. \<exists>g s'. mk s = Inr (g, s') \<and> channels s' = channels s @ map (\<lambda>n. (ids n, 0)) names
        \<and> all_actuators g = map (\<lambda>p. length (actuators s) + p) ps)"

definition known :: "(string \<Rightarrow> int option) \<Rightarrow> (string \<Rightarrow> int) \<Rightarrow> string list \<Rightarrow> bool" where
  "known idtable ids ns \<longleftrightarrow> list_all (\<lambda>n. idtable n = Some (ids n) \<and> 0 \<le> ids n) ns"

lemma new_actuators_ok:
  "known idtable ids ns \<Longrightarrow> \<exists>s'. new_actuators idtable cfg ns s = Inr ([length (actuators s)..<length (actuators s) + length ns], s')
     \<and> channels s' = channels s @ map (\<lambda>n. (ids n, 0)) ns"
proof (induction ns arbitrary: s)
  case (Cons n ns)
  let ?s = "s\<lparr>actuators := actuators s @ [\<lparr>act_id = ids n, act_name = '''', act_value = 0, act_cfg = cfg\<rparr>]\<rparr>"
  obtain s' where s': "new_actuators idtable cfg ns ?s = Inr ([length (actuators ?s)..<length (actuators ?s) + length ns], s')"
    "channels s' = channels ?s @ map (\<lambda>n. (ids n, 0)) ns"
    using Cons.IH [of ?s] Cons.prems by (auto simp: known_def)
  have "idtable n = Some (ids n)" "\<not> ids n < 0" using Cons.prems by (auto simp: known_def)
  then have "new_actuators idtable cfg (n # ns) s = Inr (length (actuators s) # [length (actuators ?s)..<length (actuators ?s) + length ns], s')"
    using s'(1) by (simp add: Actuator_init_def)
  moreover have "length (actuators s) # [length (actuators ?s)..<length (actuators ?s) + length ns]
      = [length (actuators s)..<length (actuators s) + length (n # ns)]"
    using upt_conv_Cons [of "length (actuators s)" "length (actuators s) + length (n # ns)"] by (simp del: upt_Suc)
  ultimately show ?case using s'(2) by (simp add: channels_def del: upt_Suc new_actuators.simps)
qed simp

lemma new_cfg_channels [simp]: "channels (new_cfg parent name s) = channels s" "length (actuators (new_cfg parent name s)) = length (actuators s)"
  by (simp_all add: new_cfg_def channels_def)

lemma length_from_channels: "channels s' = channels s @ xs \<Longrightarrow> length (actuators s') = length (actuators s) + length xs"
  by (metis length_append length_channels)

lemma makes_group:
  assumes "known idtable ids names" "length attrs = length names" "list_all (\<lambda>p. p < length names) ps"
  shows "makes ids (\<lambda>s. res_bind (new_actuators idtable cfg names (new_cfg parent name s)) (\<lambda>(is, s).
    Inr (ActuatorGroup_init (zip attrs is) (map (\<lambda>p. is ! p) ps) [] s))) names ps"
  unfolding makes_def
proof
  fix s :: "'a dummy_state"
  let ?n = "length (actuators s)"
  obtain s' where s': "new_actuators idtable cfg names (new_cfg parent name s) = Inr ([?n..<?n + length names], s')"
    "channels s' = channels s @ map (\<lambda>n. (ids n, 0)) names"
    using new_actuators_ok [OF assms(1), of cfg "new_cfg parent name s"] by auto
  let ?r = "ActuatorGroup_init (zip attrs [?n..<?n + length names]) (map (\<lambda>p. [?n..<?n + length names] ! p) ps) [] s'"
  have "map (\<lambda>p. [?n..<?n + length names] ! p) ps = map (\<lambda>p. ?n + p) ps" using assms(3) by (auto simp: list_all_iff)
  then show "\<exists>g s'. res_bind (new_actuators idtable cfg names (new_cfg parent name s)) (\<lambda>(is, s).
      Inr (ActuatorGroup_init (zip attrs is) (map (\<lambda>p. is ! p) ps) [] s)) = Inr (g, s')
      \<and> channels s' = channels s @ map (\<lambda>n. (ids n, 0)) names \<and> all_actuators g = map (\<lambda>p. ?n + p) ps"
    using s' group_init_simps [of "zip attrs [?n..<?n + length names]" "map (\<lambda>p. [?n..<?n + length names] ! p) ps" "[]" s']
    by (intro exI [of _ "fst ?r"] exI [of _ "snd ?r"]) simp
qed

lemma upt3: "[n..<n + 3] = [n, n + 1, n + 2]" "[n..<n + 2] = [n, n + 1]"
  by (simp_all add: numeral_eq_Suc)

lemma makes_eyebox:
  assumes "known idtable ids [''EYES_H'', ''EYES_V'', ''EYES_FOCUS'', ''EYELID_TR'', ''EYELID_TL'', ''EYELID_BR'', ''EYELID_BL'']"
  shows "makes ids (EyeboxActuatorGroup idtable parent)
    [''EYES_H'', ''EYES_V'', ''EYES_FOCUS'', ''EYELID_TR'', ''EYELID_TL'', ''EYELID_BR'', ''EYELID_BL''] [0, 1, 2, 6, 5, 4, 3]"
  using makes_group [OF assms, of "[''eyes_h'', ''eyes_v'', ''eyes_focus'', ''eyelid_tr'', ''eyelid_tl'', ''eyelid_br'', ''eyelid_bl'']"
    "[0, 1, 2, 6, 5, 4, 3]" "parent @ [''eyes'']" parent "''eyes''"]
  by (simp add: makes_def EyeboxActuatorGroup_def)

lemma makes_body:
  assumes "known idtable ids [''BODY_LEAN'', ''BODY_ROTATION'', ''BODY_ROLL'']"
  shows "makes ids (BodyActuatorGroup idtable parent) [''BODY_LEAN'', ''BODY_ROTATION'', ''BODY_ROLL''] [0, 1]"
  using makes_group [OF assms, of "[''lean'', ''turn'', ''roll'']" "[0, 1]" "parent @ [''body'']" parent "''body''"]
  by (simp add: makes_def BodyActuatorGroup_def)

text \<open>A group of all the actuators just made.\<close>

lemma makes_all:
  assumes "known idtable ids names" "length attrs = length names"
  shows "makes ids (\<lambda>s. res_bind (new_actuators idtable cfg names (new_cfg parent name s)) (\<lambda>(is, s).
    Inr (ActuatorGroup_init (zip attrs is) is [] s))) names [0..<length names]"
  unfolding makes_def
proof
  fix s :: "'a dummy_state"
  let ?n = "length (actuators s)"
  obtain s' where s': "new_actuators idtable cfg names (new_cfg parent name s) = Inr ([?n..<?n + length names], s')"
    "channels s' = channels s @ map (\<lambda>n. (ids n, 0)) names"
    using new_actuators_ok [OF assms(1), of cfg "new_cfg parent name s"] by auto
  let ?r = "ActuatorGroup_init (zip attrs [?n..<?n + length names]) [?n..<?n + length names] [] s'"
  have "map (\<lambda>p. ?n + p) [0..<length names] = [?n..<?n + length names]" by (rule nth_equalityI) simp_all
  then show "\<exists>g s'. res_bind (new_actuators idtable cfg names (new_cfg parent name s)) (\<lambda>(is, s).
      Inr (ActuatorGroup_init (zip attrs is) is [] s)) = Inr (g, s')
      \<and> channels s' = channels s @ map (\<lambda>n. (ids n, 0)) names \<and> all_actuators g = map (\<lambda>p. ?n + p) [0..<length names]"
    using s' group_init_simps [of "zip attrs [?n..<?n + length names]" "[?n..<?n + length names]" "[]" s']
    by (intro exI [of _ "fst ?r"] exI [of _ "snd ?r"]) simp
qed

lemma makes_neck:
  assumes "known idtable ids [''SERVO_NECK_R'', ''SERVO_NECK_L'', ''NECK_ROTATION'']"
  shows "makes ids (NeckActuatorGroup idtable parent) [''SERVO_NECK_R'', ''SERVO_NECK_L'', ''NECK_ROTATION''] [0, 1, 2]"
  using makes_all [OF assms, of "[''servo_r'', ''servo_l'', ''rotation'']" "parent @ [''neck'']" parent "''neck''"]
  by (simp add: makes_def NeckActuatorGroup_def)

lemma makes_shoulder:
  assumes "known idtable ids (if right then [''ARMR_STEPPERA'', ''ARMR_STEPPERB''] else [''ARML_STEPPERA'', ''ARML_STEPPERB''])"
  shows "makes ids (ShoulderActuatorGroup idtable right parent)
    (if right then [''ARMR_STEPPERA'', ''ARMR_STEPPERB''] else [''ARML_STEPPERA'', ''ARML_STEPPERB'']) [0, 1]"
  using makes_all [OF assms, of "[''motorA'', ''motorB'']" "parent @ [''shoulder'']" parent "''shoulder''"]
  by (cases right) (simp_all add: makes_def ShoulderActuatorGroup_def)

lemma makesD:
  "makes ids mk names ps \<Longrightarrow> \<exists>g s'. mk s = Inr (g, s') \<and> channels s' = channels s @ map (\<lambda>n. (ids n, 0)) names
     \<and> all_actuators g = map (\<lambda>p. length (actuators s) + p) ps \<and> length (actuators s') = length (actuators s) + length names"
  using length_from_channels [of _ s "map (\<lambda>n. (ids n, 0)) names"] unfolding makes_def by fastforce

definition head_names :: "string list" where
  "head_names = [''EAR_LEFT'', ''EAR_RIGHT'', ''MOUTH'', ''EYES_H'', ''EYES_V'', ''EYES_FOCUS'', ''EYELID_TR'', ''EYELID_TL'',
     ''EYELID_BR'', ''EYELID_BL'', ''SERVO_NECK_R'', ''SERVO_NECK_L'', ''NECK_ROTATION'']"

definition arm_names :: "bool \<Rightarrow> string list" where
  "arm_names right = (if right then [''ARMR_STEPPERA'', ''ARMR_STEPPERB'', ''ARMR_ELBOW'', ''ARMR_WRIST'', ''ARMR_ROTATION'']
     else [''ARML_STEPPERA'', ''ARML_STEPPERB'', ''ARML_ELBOW'', ''ARML_WRIST'', ''ARML_ROTATION''])"

lemma makes_head:
  assumes "known idtable ids head_names"
  shows "makes ids (HeadActuatorGroup idtable parent) head_names [0, 1, 2, 3, 4, 5, 9, 8, 7, 6, 10, 11, 12]"
  unfolding makes_def
proof
  fix s :: "'a dummy_state"
  let ?n = "length (actuators s)"
  have k: "known idtable ids [''EAR_LEFT'', ''EAR_RIGHT'', ''MOUTH'']"
    "known idtable ids [''EYES_H'', ''EYES_V'', ''EYES_FOCUS'', ''EYELID_TR'', ''EYELID_TL'', ''EYELID_BR'', ''EYELID_BL'']"
    "known idtable ids [''SERVO_NECK_R'', ''SERVO_NECK_L'', ''NECK_ROTATION'']"
    using assms by (simp_all add: known_def head_names_def)
  obtain s1 where s1: "new_actuators idtable (parent @ [''head'']) [''EAR_LEFT'', ''EAR_RIGHT'', ''MOUTH''] (new_cfg parent ''head'' s)
      = Inr ([?n, ?n + 1, ?n + 2], s1)"
    "channels s1 = channels s @ map (\<lambda>n. (ids n, 0)) [''EAR_LEFT'', ''EAR_RIGHT'', ''MOUTH'']"
    using new_actuators_ok [OF k(1), of "parent @ [''head'']" "new_cfg parent ''head'' s"] by (auto simp: upt3 simp del: upt_Suc) (simp add: numeral_eq_Suc)
  have n1: "length (actuators s1) = ?n + 3" using length_from_channels [OF s1(2)] by simp
  obtain g2 s2 where
    s2: "EyeboxActuatorGroup idtable (parent @ [''head'']) s1 = Inr (g2, s2)" "length (actuators s2) = ?n + 10"
      "all_actuators g2 = map (\<lambda>p. ?n + 3 + p) [0, 1, 2, 6, 5, 4, 3]"
    and c2: "channels s2 = channels s1 @ map (\<lambda>n. (ids n, 0))
      [''EYES_H'', ''EYES_V'', ''EYES_FOCUS'', ''EYELID_TR'', ''EYELID_TL'', ''EYELID_BR'', ''EYELID_BL'']"
    using makesD [OF makes_eyebox [OF k(2), of "parent @ [''head'']"], of s1] unfolding n1 by auto
  obtain g3 s3 where
    s3: "NeckActuatorGroup idtable (parent @ [''head'']) s2 = Inr (g3, s3)" "all_actuators g3 = map (\<lambda>p. ?n + 10 + p) [0, 1, 2]"
    and c3: "channels s3 = channels s2 @ map (\<lambda>n. (ids n, 0)) [''SERVO_NECK_R'', ''SERVO_NECK_L'', ''NECK_ROTATION'']"
    using makesD [OF makes_neck [OF k(3), of "parent @ [''head'']"], of s2] unfolding s2(2) by auto
  let ?r = "ActuatorGroup_init (zip [''ear_left'', ''ear_right'', ''mouth''] [?n, ?n + 1, ?n + 2]) [?n, ?n + 1, ?n + 2] [g2, g3] s3"
  have "HeadActuatorGroup idtable parent s = Inr ?r" using s1(1) s2(1) s3(1) by (simp add: HeadActuatorGroup_def)
  moreover have "channels (snd ?r) = channels s @ map (\<lambda>n. (ids n, 0)) head_names"
    unfolding group_init_simps c3 c2 s1(2) by (simp add: head_names_def)
  moreover have "all_actuators (fst ?r) = map (\<lambda>p. ?n + p) [0, 1, 2, 3, 4, 5, 9, 8, 7, 6, 10, 11, 12]"
    unfolding group_init_simps by (simp add: s2(3) s3(2))
  ultimately show "\<exists>g s'. HeadActuatorGroup idtable parent s = Inr (g, s') \<and> channels s' = channels s @ map (\<lambda>n. (ids n, 0)) head_names
      \<and> all_actuators g = map (\<lambda>p. ?n + p) [0, 1, 2, 3, 4, 5, 9, 8, 7, 6, 10, 11, 12]"
    by (intro exI [of _ "fst ?r"] exI [of _ "snd ?r"]) simp
qed

lemma makes_arm:
  assumes "known idtable ids (arm_names right)"
  shows "makes ids (ArmActuatorGroup idtable right parent) (arm_names right) [2, 3, 4, 0, 1]"
  unfolding makes_def
proof
  fix s :: "'a dummy_state"
  let ?n = "length (actuators s)"
  define name where "name = (if right then ''arm_right'' else ''arm_left'')"
  define ns where "ns = (if right then [''ARMR_ELBOW'', ''ARMR_WRIST'', ''ARMR_ROTATION''] else [''ARML_ELBOW'', ''ARML_WRIST'', ''ARML_ROTATION''])"
  define ms where "ms = (if right then [''ARMR_STEPPERA'', ''ARMR_STEPPERB''] else [''ARML_STEPPERA'', ''ARML_STEPPERB''])"
  have k: "known idtable ids ms" "known idtable ids ns" "arm_names right = ms @ ns" "length ns = 3" "length ms = 2"
    using assms by (auto simp: known_def arm_names_def ns_def ms_def split: if_splits)
  obtain g1 s1 where
    s1: "ShoulderActuatorGroup idtable right (parent @ [name]) (new_cfg parent name s) = Inr (g1, s1)" "length (actuators s1) = ?n + 2"
      "all_actuators g1 = map (\<lambda>p. ?n + p) [0, 1]" and c1: "channels s1 = channels s @ map (\<lambda>n. (ids n, 0)) ms"
    using makesD [OF makes_shoulder [of idtable ids right "parent @ [name]", folded ms_def, OF k(1)], of "new_cfg parent name s"] k(5)
    by auto
  obtain s2 where s2: "new_actuators idtable (parent @ [name]) ns s1 = Inr ([?n + 2, ?n + 3, ?n + 4], s2)"
    "channels s2 = channels s1 @ map (\<lambda>n. (ids n, 0)) ns"
    using new_actuators_ok [OF k(2), of "parent @ [name]" s1] upt3(1) [of "?n + 2"] unfolding s1(2) k(4) by auto
  let ?r = "ActuatorGroup_init (zip [''elbow'', ''wrist'', ''rotation''] [?n + 2, ?n + 3, ?n + 4]) [?n + 2, ?n + 3, ?n + 4] [g1] s2"
  have "ArmActuatorGroup idtable right parent s = Inr ?r"
    unfolding ArmActuatorGroup_def Let_def name_def [symmetric] ns_def [symmetric] using s1(1) s2(1) by simp
  moreover have "channels (snd ?r) = channels s @ map (\<lambda>n. (ids n, 0)) (arm_names right)"
    unfolding group_init_simps s2(2) c1 k(3) by simp
  moreover have "all_actuators (fst ?r) = map (\<lambda>p. ?n + p) [2, 3, 4, 0, 1]" unfolding group_init_simps by (simp add: s1(3))
  ultimately show "\<exists>g s'. ArmActuatorGroup idtable right parent s = Inr (g, s')
      \<and> channels s' = channels s @ map (\<lambda>n. (ids n, 0)) (arm_names right) \<and> all_actuators g = map (\<lambda>p. ?n + p) [2, 3, 4, 0, 1]"
    by (intro exI [of _ "fst ?r"] exI [of _ "snd ?r"]) simp
qed

section \<open>Copying poses\<close>

text \<open>A table leads from ids to actuators with these ids.\<close>

definition table_ok :: "'v dummy_state \<Rightarrow> ActuatorGroup \<Rightarrow> bool" where
  "table_ok s g \<longleftrightarrow>
     (\<forall>k i. dict_get (act_table g) k = Some i \<longrightarrow> i < length (actuators s) \<and> act_id (actuators s ! i) = k)"

lemma act_posefrom_simps:
  "length (actuators (act_posefrom i j s)) = length (actuators s)"
  "act_id (actuators (act_posefrom i j s) ! k) = act_id (actuators s ! k)"
  "i < length (actuators s) \<Longrightarrow>
   act_value (actuators (act_posefrom i j s) ! k) = (if k = i then act_value (actuators s ! j) else act_value (actuators s ! k))"
  by (cases "i < length (actuators s)"; simp add: act_posefrom_def set_value_def nth_list_update list_update_beyond)+

definition pose_step :: "ActuatorGroup \<Rightarrow> 'v dummy_state \<Rightarrow> nat \<Rightarrow> 'v dummy_state" where
  "pose_step self s j =
     (case dict_get (act_table self) (act_id (actuators s ! j)) of None \<Rightarrow> s | Some i \<Rightarrow> act_posefrom i j s)"

lemma posefrom_steps: "posefrom self other s = foldl (pose_step self) s (actuatorsarray other)"
  by (simp add: posefrom_def pose_step_def [abs_def])

lemma pose_step_simps:
  "length (actuators (pose_step self s j)) = length (actuators s)" "act_id (actuators (pose_step self s j) ! k) = act_id (actuators s ! k)"
  by (simp_all add: pose_step_def act_posefrom_simps split: option.splits)

lemma table_ok_step: "table_ok s g \<Longrightarrow> table_ok (pose_step self s j) g"
  by (simp add: table_ok_def pose_step_simps)

lemma posefrom_loop:
  assumes "table_ok s self" "distinct (map (\<lambda>j. act_id (actuators s ! j)) js)"
    and "\<forall>k i. dict_get (act_table self) k = Some i \<longrightarrow> i \<notin> set js"
  shows "(j \<in> set js \<and> dict_get (act_table self) (act_id (actuators s ! j)) = Some i \<longrightarrow>
      act_value (actuators (foldl (pose_step self) s js) ! i) = act_value (actuators s ! j))
    \<and> ((\<forall>j \<in> set js. dict_get (act_table self) (act_id (actuators s ! j)) \<noteq> Some i) \<longrightarrow>
      act_value (actuators (foldl (pose_step self) s js) ! i) = act_value (actuators s ! i))"
  using assms
proof (induction js arbitrary: s)
  case (Cons j' js)
  let ?s = "pose_step self s j'"
  have val: "act_value (actuators ?s ! k) =
      (if dict_get (act_table self) (act_id (actuators s ! j')) = Some k then act_value (actuators s ! j') else act_value (actuators s ! k))" for k
    using Cons.prems(1) by (auto simp: pose_step_def act_posefrom_simps table_ok_def split: option.splits)
  have IH: "(j \<in> set js \<and> dict_get (act_table self) (act_id (actuators s ! j)) = Some i \<longrightarrow>
      act_value (actuators (foldl (pose_step self) ?s js) ! i) = act_value (actuators ?s ! j))
    \<and> ((\<forall>j \<in> set js. dict_get (act_table self) (act_id (actuators s ! j)) \<noteq> Some i) \<longrightarrow>
      act_value (actuators (foldl (pose_step self) ?s js) ! i) = act_value (actuators ?s ! i))"
    using Cons.IH [of ?s] Cons.prems table_ok_step [OF Cons.prems(1), of self j'] by (simp add: pose_step_simps)
  have same: "act_value (actuators ?s ! j) = act_value (actuators s ! j)" if "j \<in> set js"
    using Cons.prems(3) that by (auto simp: val)
  have once: "dict_get (act_table self) (act_id (actuators s ! j')) \<noteq> Some i"
    if l: "l \<in> set js" "dict_get (act_table self) (act_id (actuators s ! l)) = Some i" for l
  proof
    assume "dict_get (act_table self) (act_id (actuators s ! j')) = Some i"
    then have "act_id (actuators s ! j') = act_id (actuators s ! l)" using Cons.prems(1) l(2) unfolding table_ok_def by metis
    then show False using Cons.prems(2) l(1) by auto
  qed
  show ?case using IH same once val [of i] by auto
qed simp

section \<open>Properties\<close>

definition teodore_names :: "string list" where
  "teodore_names = head_names @ arm_names False @ arm_names True @ [''BODY_LEAN'', ''BODY_ROTATION'', ''BODY_ROLL'']"

lemma create_dummy_ok:
  assumes "known idtable ids teodore_names"
  shows "\<exists>g s. create_dummy idtable = Inr (g, s :: 'v :: zero dummy_state) \<and> actuatorsarray g = []
    \<and> channels s = map (\<lambda>n. (ids n, 0)) teodore_names
    \<and> all_actuators g = [0, 1, 2, 3, 4, 5, 9, 8, 7, 6, 10, 11, 12, 15, 16, 17, 13, 14, 20, 21, 22, 18, 19, 23, 24]"
proof -
  let ?s0 = "\<lparr>actuators = [], cfg_tree = new_node\<rparr> :: 'v dummy_state"
  have k: "known idtable ids head_names" "known idtable ids (arm_names False)" "known idtable ids (arm_names True)"
    "known idtable ids [''BODY_LEAN'', ''BODY_ROTATION'', ''BODY_ROLL'']"
    using assms by (simp_all add: known_def teodore_names_def)
  obtain g1 s1 where s1: "HeadActuatorGroup idtable [] ?s0 = Inr (g1, s1)" "length (actuators s1) = 13"
    "all_actuators g1 = [0, 1, 2, 3, 4, 5, 9, 8, 7, 6, 10, 11, 12]" and c1: "channels s1 = channels ?s0 @ map (\<lambda>n. (ids n, 0)) head_names"
    using makesD [OF makes_head [OF k(1), of "[]"], of ?s0] by (auto simp: head_names_def)
  obtain g2 s2 where s2: "ArmActuatorGroup idtable False [] s1 = Inr (g2, s2)" "length (actuators s2) = 18"
    "all_actuators g2 = [15, 16, 17, 13, 14]" and c2: "channels s2 = channels s1 @ map (\<lambda>n. (ids n, 0)) (arm_names False)"
    using makesD [OF makes_arm [OF k(2), of "[]"], of s1] unfolding s1(2) by (auto simp: arm_names_def)
  obtain g3 s3 where s3: "ArmActuatorGroup idtable True [] s2 = Inr (g3, s3)" "length (actuators s3) = 23"
    "all_actuators g3 = [20, 21, 22, 18, 19]" and c3: "channels s3 = channels s2 @ map (\<lambda>n. (ids n, 0)) (arm_names True)"
    using makesD [OF makes_arm [OF k(3), of "[]"], of s2] unfolding s2(2) by (auto simp: arm_names_def)
  obtain g4 s4 where s4: "BodyActuatorGroup idtable [] s3 = Inr (g4, s4)" "all_actuators g4 = [23, 24]"
    and c4: "channels s4 = channels s3 @ map (\<lambda>n. (ids n, 0)) [''BODY_LEAN'', ''BODY_ROTATION'', ''BODY_ROLL'']"
    using makesD [OF makes_body [OF k(4), of "[]"], of s3] unfolding s3(2) by auto
  let ?r = "ActuatorGroup_init [] [] [g1, g2, g3, g4] s4"
  have "create_dummy idtable = Inr (fst ?r, snd ?r)"
    using s1(1) s2(1) s3(1) s4(1) by (simp add: create_dummy_def TeodoreDummy_def)
  moreover have "channels (snd ?r) = map (\<lambda>n. (ids n, 0)) teodore_names"
    unfolding group_init_simps c4 c3 c2 c1 by (simp add: teodore_names_def channels_def)
  moreover have "all_actuators (fst ?r) = [0, 1, 2, 3, 4, 5, 9, 8, 7, 6, 10, 11, 12, 15, 16, 17, 13, 14, 20, 21, 22, 18, 19, 23, 24]"
    unfolding group_init_simps by (simp add: s1(3) s2(3) s3(3) s4(2))
  ultimately show ?thesis using group_init_simps(2) by blast
qed

text \<open>
  The default character can be created from every table that knows its channels, and its motion frame has
  25 entries, in a fixed order: each channel once, all at rest, except \<open>BODY_ROLL\<close>, whose actuator is created
  but belongs to no group and is never sent.
\<close>

theorem dummy_motion_frame:
  assumes "known idtable ids teodore_names"
  shows "\<exists>g s. create_dummy idtable = Inr (g, s :: 'v :: zero dummy_state) \<and> gen_motiondata s g = map (\<lambda>n. (ids n, 0))
    [''EAR_LEFT'', ''EAR_RIGHT'', ''MOUTH'', ''EYES_H'', ''EYES_V'', ''EYES_FOCUS'', ''EYELID_BL'', ''EYELID_BR'', ''EYELID_TL'', ''EYELID_TR'',
     ''SERVO_NECK_R'', ''SERVO_NECK_L'', ''NECK_ROTATION'', ''ARML_ELBOW'', ''ARML_WRIST'', ''ARML_ROTATION'', ''ARML_STEPPERA'', ''ARML_STEPPERB'',
     ''ARMR_ELBOW'', ''ARMR_WRIST'', ''ARMR_ROTATION'', ''ARMR_STEPPERA'', ''ARMR_STEPPERB'', ''BODY_LEAN'', ''BODY_ROTATION'']"
proof -
  obtain g s where d: "create_dummy idtable = Inr (g, s :: 'v dummy_state)" "channels s = map (\<lambda>n. (ids n, 0)) teodore_names"
    "all_actuators g = [0, 1, 2, 3, 4, 5, 9, 8, 7, 6, 10, 11, 12, 15, 16, 17, 13, 14, 20, 21, 22, 18, 19, 23, 24]"
    using create_dummy_ok [OF assms] by blast
  have "length (actuators s) = 26"
    using arg_cong [OF d(2), of length] by (simp add: teodore_names_def head_names_def arm_names_def)
  then have "gen_motiondata s g = map (\<lambda>i. channels s ! i) (all_actuators g)" by (intro motiondata_channels) (simp add: d(3))
  then show ?thesis using d(1) unfolding d(2,3)
    by (intro exI [of _ g] exI [of _ s]) (simp add: teodore_names_def head_names_def arm_names_def)
qed

theorem dummy_motion_frame_witness:
  "\<exists>g s. create_dummy (\<lambda>n. Some (int (length n))) = Inr (g, s :: real dummy_state) \<and> length (gen_motiondata s g) = 25
    \<and> (gen_motiondata s g) ! 2 = (5, 0)"
proof -
  have "known (\<lambda>n. Some (int (length n))) (\<lambda>n. int (length n)) teodore_names" by (simp add: known_def list_all_iff)
  from dummy_motion_frame [OF this, where 'v = real] show ?thesis by fastforce
qed

text \<open>
  Copying a pose from another group sets each actuator of this group that has the id of an actuator held
  directly by the other group to that actuator's value, and changes no other value. (Both groups consist of
  different actuators, and the ids of the other group's actuators differ.)
\<close>

theorem posefrom_copies_own_actuators:
  assumes "table_ok s self" "distinct (map (\<lambda>j. act_id (actuators s ! j)) (actuatorsarray other))"
    and "\<forall>k i. dict_get (act_table self) k = Some i \<longrightarrow> i \<notin> set (actuatorsarray other)"
  shows "(j \<in> set (actuatorsarray other) \<longrightarrow> dict_get (act_table self) (act_id (actuators s ! j)) = Some i \<longrightarrow>
      act_value (actuators (posefrom self other s) ! i) = act_value (actuators s ! j))
    \<and> ((\<forall>j \<in> set (actuatorsarray other). dict_get (act_table self) (act_id (actuators s ! j)) \<noteq> Some i) \<longrightarrow>
      act_value (actuators (posefrom self other s) ! i) = act_value (actuators s ! i))"
  using posefrom_loop [OF assms, of j i] by (simp add: posefrom_steps)

definition sample_state :: "real dummy_state" where
  "sample_state = \<lparr>actuators = [\<lparr>act_id = 7, act_name = ''a'', act_value = 0, act_cfg = []\<rparr>,
     \<lparr>act_id = 7, act_name = ''a'', act_value = 3, act_cfg = []\<rparr>], cfg_tree = new_node\<rparr>"

theorem posefrom_copies_own_actuators_witness:
  "act_value (actuators (posefrom (Group [0] [] [(7, 0)]) (Group [1] [] [(7, 1)]) sample_state) ! 0) = 3"
  using posefrom_copies_own_actuators [of sample_state "Group [0] [] [(7, 0)]" "Group [1] [] [(7, 1)]" 1 0]
  by (simp add: sample_state_def table_ok_def)

text \<open>
  Copying the pose of a whole character copies nothing: the character's own array of actuators is empty,
  all of them are in its subgroups, and the copy looks only at the array. (The documentation says that
  subgroups are included.)
\<close>

theorem whole_pose_is_not_copied:
  assumes "known idtable ids teodore_names"
  shows "\<exists>g s. create_dummy idtable = Inr (g, s :: 'v :: zero dummy_state) \<and> (\<forall>self s'. posefrom self g s' = (s' :: 'v dummy_state))"
  using create_dummy_ok [OF assms, where 'v = 'v] by (auto simp: posefrom_def)

theorem whole_pose_is_not_copied_witness:
  "\<exists>g s. create_dummy (\<lambda>n. Some (int (length n))) = Inr (g, s :: real dummy_state) \<and> posefrom g g s = s"
proof -
  have "known (\<lambda>n. Some (int (length n))) (\<lambda>n. int (length n)) teodore_names" by (simp add: known_def list_all_iff)
  from whole_pose_is_not_copied [OF this, where 'v = real] show ?thesis by blast
qed

text \<open>
  A configuration of an actuator is found in the gathered tree under the group's path and the actuator's
  key, which joins its name and id by \<open>@\<close>. No controller can subscribe to that key itself: paths with
  an \<open>@\<close> are refused, so a handler has to take the whole group.
\<close>

theorem actuator_config_in_group:
  assumes "wf_node (cfg_tree s)" "a = actuators s ! i" "node_at (cfg_tree s) (act_cfg a) \<noteq> None"
    and "\<not> shadowed (cfg_tree s) (act_cfg a) (act_key a)" "json_ok (JObj cfg)"
    and "fetch_dict_deep (JObj cfg) ks = (True, x)" "\<not> is_dict x"
  shows "fetch_dict_deep (JObj (gather [] (cfg_tree (configure i cfg s)))) (act_cfg a @ act_key a # ks) = (True, x)
    \<and> (\<forall>path parts. cleanup_path path = Inr parts \<longrightarrow> act_key a \<notin> set parts)"
proof
  show "fetch_dict_deep (JObj (gather [] (cfg_tree (configure i cfg s)))) (act_cfg a @ act_key a # ks) = (True, x)"
    using published_leaf_in_tree [OF assms(1,3-7), of "[]"] assms(2) by (simp add: publish_all_def configure_def Let_def)
  have "CHR ''@'' \<in> set (act_key a)" by (simp add: act_key_def)
  then show "\<forall>path parts. cleanup_path path = Inr parts \<longrightarrow> act_key a \<notin> set parts"
    using cleanup_path_clean by (auto simp: list_all_iff)
qed

theorem actuator_config_in_group_witness:
  "fetch_dict_deep (JObj (gather [] (cfg_tree (configure 0 [(''exp_decay'', JNum 2)] sample_state)))) [''a@7'', ''exp_decay''] = (True, JNum 2)"
proof -
  have key: "act_key (actuators sample_state ! 0) = ''a@7''"
    by (simp add: act_key_def sample_state_def show_int_def show_nat.simps [of 7] char_of_def bit_Suc_0_iff)
  then show ?thesis using actuator_config_in_group [of sample_state _ 0 "[(''exp_decay'', JNum 2)]" "[''exp_decay'']" "JNum 2", OF _ refl]
    unfolding key by (simp add: sample_state_def new_node_def shadowed_def dict_has_def dict_ok_def)
qed

end
