(* ===== verification/ActTable.thy ===== *)
theory ActTable
  imports Prelude Complex_Main "HOL-Library.Multiset"
begin

unbundle bit_operations_syntax

text \<open>
  The actuator tables of \<open>shared_libs/commons\<close>: loading the CSV file of a character's actuators
  (\<open>utils.py\<close>, \<open>teodore/get_table.py\<close>) and the table that is written out in \<open>teodore/table.py\<close>.

  The argument of the loader is the list of rows that \<open>csv.reader\<close> gives, an empty row for an empty
  line. Python's \<open>int\<close> on a string is modelled for the decimal digits of ASCII.
\<close>

section \<open>Strings\<close>

definition py_space :: "char \<Rightarrow> bool" where
  "py_space c \<longleftrightarrow> (let n = of_char c :: nat in 9 \<le> n \<and> n \<le> 13 \<or> 28 \<le> n \<and> n \<le> 32 \<or> n = 0x85 \<or> n = 0xA0)"

definition strip :: "string \<Rightarrow> string" where
  "strip t = rev (dropWhile py_space (rev (dropWhile py_space t)))"

definition digit :: "char \<Rightarrow> bool" where
  "digit c \<longleftrightarrow> 48 \<le> (of_char c :: nat) \<and> (of_char c :: nat) \<le> 57"

text \<open>Digits, with single underscores between them.\<close>

fun digits_val :: "nat \<Rightarrow> string \<Rightarrow> nat option" where
  "digits_val acc [] = Some acc"
| "digits_val acc (c # cs) =
     (if digit c then digits_val (acc * 10 + (of_char c - 48)) cs
      else if c = CHR ''_'' \<and> cs \<noteq> [] \<and> digit (hd cs) then digits_val acc cs else None)"

definition parse_nat :: "string \<Rightarrow> nat option" where
  "parse_nat t = (if t \<noteq> [] \<and> digit (hd t) then digits_val 0 t else None)"

definition py_int_of :: "string \<Rightarrow> int option" where
  "py_int_of t =
     (let t = strip t
      in if t \<noteq> [] \<and> hd t = CHR ''-'' then map_option (\<lambda>n. - int n) (parse_nat (tl t))
         else if t \<noteq> [] \<and> hd t = CHR ''+'' then map_option int (parse_nat (tl t))
         else map_option int (parse_nat t))"

section \<open>The loader (utils.py)\<close>

definition TYPE_TO_SIZE :: "(string, nat) dict" where
  "TYPE_TO_SIZE = [(''uint8'', 1), (''int8'', 1), (''int16'', 2), (''uint16'', 2), (''int32'', 4), (''uint32'', 4),
     (''int64'', 8), (''uint64'', 8), (''float'', 4), (''double'', 8)]"

record ActTableEntry =
  act_id :: int
  id_mask :: int
  act_name :: string
  act_type :: string
  act_size :: nat

text \<open>\<open>e[0]\<close> raises on an empty row, which is \<open>None\<close> here.\<close>

definition keep_row :: "string list \<Rightarrow> bool option" where
  "keep_row row = (case row of [] \<Rightarrow> None | e # _ \<Rightarrow> Some (take 1 e \<noteq> ''#'' \<and> strip e \<noteq> []))"

text \<open>One entry: three fields, an integer, a shift that is not negative, a known type.\<close>

definition make_entry :: "string list \<Rightarrow> ActTableEntry option" where
  "make_entry row =
     (case row of
        [i, name, ty] \<Rightarrow>
          (case py_int_of (strip i) of
             None \<Rightarrow> None
           | Some n \<Rightarrow>
               if n - 1 < 0 then None
               else case dict_get TYPE_TO_SIZE (strip ty) of
                 None \<Rightarrow> None
               | Some sz \<Rightarrow> Some \<lparr>act_id = n, id_mask = push_bit (nat (n - 1)) 1, act_name = strip name, act_type = strip ty, act_size = sz\<rparr>)
      | _ \<Rightarrow> None)"

fun load_rows :: "string list list \<Rightarrow> (int, ActTableEntry) dict \<Rightarrow> (int, ActTableEntry) dict option" where
  "load_rows [] tbl = Some tbl"
| "load_rows (row # rows) tbl =
     (case keep_row row of
        None \<Rightarrow> None
      | Some False \<Rightarrow> load_rows rows tbl
      | Some True \<Rightarrow>
          (case make_entry row of None \<Rightarrow> None | Some entry \<Rightarrow> load_rows rows (dict_set tbl (act_id entry) entry)))"

definition load_actuator_table :: "string list list \<Rightarrow> (int, ActTableEntry) dict" where
  "load_actuator_table rows = (case load_rows rows [] of None \<Rightarrow> [] | Some tbl \<Rightarrow> tbl)"

definition get_id_by_name_table :: "(int, ActTableEntry) dict \<Rightarrow> (string, int) dict" where
  "get_id_by_name_table tbl = foldl (\<lambda>d (k, entry). dict_set d (act_name entry) (act_id entry)) [] tbl"

section \<open>The written table (table.py)\<close>

definition HEAD_GROUP :: string where "HEAD_GROUP = ''head''"
definition BODY_GROUP :: string where "BODY_GROUP = ''body''"
definition LEFT_ARM_GROUP :: string where "LEFT_ARM_GROUP = ''leftarm''"
definition RIGHT_ARM_GROUP :: string where "RIGHT_ARM_GROUP = ''rightarm''"

record actuator =
  actuator_id :: int
  actuator_group :: string

definition teodore_actuator_table :: "(string \<times> actuator) list" where
  "teodore_actuator_table =
     [(''EYES_H'', \<lparr>actuator_id = 1, actuator_group = HEAD_GROUP\<rparr>), (''EYES_V'', \<lparr>actuator_id = 2, actuator_group = HEAD_GROUP\<rparr>),
      (''EYES_FOCUS'', \<lparr>actuator_id = 3, actuator_group = HEAD_GROUP\<rparr>), (''EYELID_TR'', \<lparr>actuator_id = 4, actuator_group = HEAD_GROUP\<rparr>),
      (''EYELID_TL'', \<lparr>actuator_id = 5, actuator_group = HEAD_GROUP\<rparr>), (''EYELID_BR'', \<lparr>actuator_id = 6, actuator_group = HEAD_GROUP\<rparr>),
      (''EYELID_BL'', \<lparr>actuator_id = 7, actuator_group = HEAD_GROUP\<rparr>), (''EAR_LEFT'', \<lparr>actuator_id = 8, actuator_group = HEAD_GROUP\<rparr>),
      (''EAR_RIGHT'', \<lparr>actuator_id = 9, actuator_group = HEAD_GROUP\<rparr>), (''MOUTH'', \<lparr>actuator_id = 10, actuator_group = HEAD_GROUP\<rparr>),
      (''SERVO_NECK_R'', \<lparr>actuator_id = 11, actuator_group = HEAD_GROUP\<rparr>), (''SERVO_NECK_L'', \<lparr>actuator_id = 12, actuator_group = HEAD_GROUP\<rparr>),
      (''NECK_ROTATION'', \<lparr>actuator_id = 13, actuator_group = BODY_GROUP\<rparr>), (''ARMR_STEPPERA'', \<lparr>actuator_id = 14, actuator_group = RIGHT_ARM_GROUP\<rparr>),
      (''ARMR_STEPPERB'', \<lparr>actuator_id = 15, actuator_group = RIGHT_ARM_GROUP\<rparr>), (''ARMR_ELBOW'', \<lparr>actuator_id = 16, actuator_group = RIGHT_ARM_GROUP\<rparr>),
      (''ARMR_WRIST'', \<lparr>actuator_id = 17, actuator_group = RIGHT_ARM_GROUP\<rparr>), (''ARMR_ROTATION'', \<lparr>actuator_id = 18, actuator_group = RIGHT_ARM_GROUP\<rparr>),
      (''ARML_STEPPERA'', \<lparr>actuator_id = 19, actuator_group = LEFT_ARM_GROUP\<rparr>), (''ARML_STEPPERB'', \<lparr>actuator_id = 20, actuator_group = LEFT_ARM_GROUP\<rparr>),
      (''ARML_ELBOW'', \<lparr>actuator_id = 21, actuator_group = LEFT_ARM_GROUP\<rparr>), (''ARML_WRIST'', \<lparr>actuator_id = 22, actuator_group = LEFT_ARM_GROUP\<rparr>),
      (''ARML_ROTATION'', \<lparr>actuator_id = 23, actuator_group = LEFT_ARM_GROUP\<rparr>), (''BODY_LEAN'', \<lparr>actuator_id = 24, actuator_group = BODY_GROUP\<rparr>),
      (''BODY_ROTATION'', \<lparr>actuator_id = 25, actuator_group = BODY_GROUP\<rparr>), (''BODY_TILT'', \<lparr>actuator_id = 26, actuator_group = BODY_GROUP\<rparr>),
      (''LED_IRIS_LEFT'', \<lparr>actuator_id = 27, actuator_group = HEAD_GROUP\<rparr>), (''LED_IRIS_RIGHT'', \<lparr>actuator_id = 28, actuator_group = HEAD_GROUP\<rparr>),
      (''EYELED_R'', \<lparr>actuator_id = 29, actuator_group = HEAD_GROUP\<rparr>), (''EYELED_G'', \<lparr>actuator_id = 30, actuator_group = HEAD_GROUP\<rparr>),
      (''EYELED_B'', \<lparr>actuator_id = 31, actuator_group = HEAD_GROUP\<rparr>)]"

definition get_ids_belonging_to_group :: "string \<Rightarrow> int list" where
  "get_ids_belonging_to_group g = map (\<lambda>(n, a). actuator_id a) (filter (\<lambda>(n, a). actuator_group a = g) teodore_actuator_table)"

section \<open>Lemmas\<close>

definition entry_ok :: "int \<Rightarrow> ActTableEntry \<Rightarrow> bool" where
  "entry_ok k e \<longleftrightarrow> act_id e = k \<and> 1 \<le> k \<and> id_mask e = push_bit (nat (k - 1)) 1 \<and> dict_get TYPE_TO_SIZE (act_type e) = Some (act_size e)"

lemma make_entry_ok: "make_entry row = Some e \<Longrightarrow> entry_ok (act_id e) e"
  by (auto simp: make_entry_def entry_ok_def split: list.splits option.splits if_splits)

lemma load_rows_ok:
  "dict_ok tbl \<Longrightarrow> (\<And>k e. dict_get tbl k = Some e \<Longrightarrow> entry_ok k e) \<Longrightarrow> load_rows rows tbl = Some tbl' \<Longrightarrow>
   dict_ok tbl' \<and> (\<forall>k e. dict_get tbl' k = Some e \<longrightarrow> entry_ok k e)"
proof (induction rows arbitrary: tbl)
  case (Cons row rows)
  obtain b where b: "keep_row row = Some b" using Cons.prems(3) by (cases "keep_row row") auto
  show ?case
  proof (cases b)
    case True
    then obtain e where e: "make_entry row = Some e" "load_rows rows (dict_set tbl (act_id e) e) = Some tbl'"
      using Cons.prems(3) b by (cases "make_entry row") auto
    have "entry_ok k e'" if "dict_get (dict_set tbl (act_id e) e) k = Some e'" for k e'
      using that make_entry_ok [OF e(1)] Cons.prems(2) by (auto simp: dict_get_set split: if_splits)
    then show ?thesis using Cons.IH [OF _ _ e(2)] Cons.prems(1) by auto
  next
    case False
    then show ?thesis using Cons.IH [of tbl] Cons.prems b by simp
  qed
qed auto

lemma loaded_ok:
  "dict_ok (load_actuator_table rows) \<and> (\<forall>k e. dict_get (load_actuator_table rows) k = Some e \<longrightarrow> entry_ok k e)"
  using load_rows_ok [of "[]" rows] by (cases "load_rows rows []") (simp_all add: load_actuator_table_def)

lemma masks_disjoint: "m \<noteq> n \<Longrightarrow> push_bit m (1 :: int) AND push_bit n 1 = 0"
  by (rule bit_eqI) (auto simp: bit_and_iff bit_exp_iff)

lemma load_blank: "[] \<in> set rows \<Longrightarrow> load_rows rows tbl = None"
  by (induction rows arbitrary: tbl) (auto simp: keep_row_def split: option.split bool.split)

section \<open>Properties\<close>

text \<open>
  Whatever rows the file has, the loaded table is consistent: each entry stands under its own id, which is
  positive, its mask is the bit of that id and nothing else, its size is that of its type, and the
  masks of two entries have no bit in common, so a set of actuators is the sum of its masks.
\<close>

theorem actuator_table_consistent:
  fixes rows
  defines "tbl \<equiv> load_actuator_table rows"
  shows "dict_ok tbl
    \<and> (dict_get tbl k = Some e \<longrightarrow> act_id e = k \<and> 1 \<le> k \<and> dict_get TYPE_TO_SIZE (act_type e) = Some (act_size e)
         \<and> (\<forall>i. bit (id_mask e) i \<longleftrightarrow> int i = k - 1))
    \<and> (dict_get tbl k = Some e \<longrightarrow> dict_get tbl k' = Some e' \<longrightarrow> k \<noteq> k' \<longrightarrow> id_mask e AND id_mask e' = 0)"
proof -
  have ok: "dict_ok tbl \<and> (\<forall>k e. dict_get tbl k = Some e \<longrightarrow> entry_ok k e)" using loaded_ok [of rows] by (simp add: tbl_def)
  have "bit (push_bit (nat (k - 1)) (1 :: int)) i \<longleftrightarrow> int i = k - 1" if "1 \<le> k" for i k
    using that by (auto simp: bit_exp_iff)
  moreover have "id_mask e AND id_mask e' = 0" if "entry_ok k e" "entry_ok k' e'" "k \<noteq> k'"
    using that masks_disjoint [of "nat (k - 1)" "nat (k' - 1)"] by (auto simp: entry_ok_def)
  ultimately show ?thesis using ok by (auto simp: entry_ok_def)
qed

text \<open>
  An empty line in the file empties the table: the filter that should skip empty lines reads the first
  field of a row that has none, the exception is caught, and no actuator is known.
\<close>

theorem blank_line_empties_table:
  assumes "[] \<in> set rows"
  shows "load_actuator_table rows = []"
  using load_blank [OF assms] by (simp add: load_actuator_table_def)

theorem blank_line_empties_table_witness:
  "load_actuator_table [[''1'', '' EYES_H'', '' int16''], []] = []
   \<and> map fst (load_actuator_table [[''1'', '' EYES_H'', '' int16'']]) = [1]"
  using blank_line_empties_table [of "[[''1'', '' EYES_H'', '' int16''], []]"]
  by (simp add: load_actuator_table_def keep_row_def make_entry_def strip_def py_space_def py_int_of_def parse_nat_def digit_def
      TYPE_TO_SIZE_def Let_def)

lemma names_fold:
  "distinct (map (\<lambda>(k, e). act_name e) tbl) \<Longrightarrow>
   dict_get (foldl (\<lambda>d (k, entry). dict_set d (act_name entry) (act_id entry)) d tbl) n =
     (case map_of (map (\<lambda>(k, e). (act_name e, act_id e)) tbl) n of None \<Rightarrow> dict_get d n | Some i \<Rightarrow> Some i)"
proof (induction tbl arbitrary: d)
  case (Cons p tbl)
  obtain k e where p: "p = (k, e)" by (cases p)
  have "map_of (map (\<lambda>(k, e). (act_name e, act_id e)) tbl) (act_name e) = None"
    using Cons.prems p by (auto simp: map_of_eq_None_iff image_iff split_beta)
  then show ?case using Cons p by (auto simp: dict_get_set split: option.splits)
qed simp

text \<open>
  Names and ids translate into each other: when the names of a loaded table differ, the table by name has
  exactly the ids of the entries under their names.
\<close>

theorem id_by_name_roundtrip:
  fixes rows
  defines "tbl \<equiv> load_actuator_table rows"
  assumes "distinct (map (\<lambda>(k, e). act_name e) tbl)"
  shows "dict_get (get_id_by_name_table tbl) n = Some i \<longleftrightarrow> (\<exists>e. dict_get tbl i = Some e \<and> act_name e = n)"
proof -
  have ok: "dict_ok tbl" "\<And>k e. dict_get tbl k = Some e \<Longrightarrow> act_id e = k"
    using loaded_ok [of rows] by (simp_all add: tbl_def entry_ok_def)
  have "dict_get (get_id_by_name_table tbl) n = map_of (map (\<lambda>(k, e). (act_name e, act_id e)) tbl) n"
    using names_fold [OF assms(2), of "[]" n] by (simp add: get_id_by_name_table_def split: option.splits)
  moreover have "distinct (map fst (map (\<lambda>(k, e). (act_name e, act_id e)) tbl))"
    using assms(2) by (simp add: comp_def case_prod_unfold)
  ultimately have "dict_get (get_id_by_name_table tbl) n = Some i \<longleftrightarrow> (n, i) \<in> set (map (\<lambda>(k, e). (act_name e, act_id e)) tbl)"
    by (simp add: map_of_eq_Some_iff)
  also have "\<dots> \<longleftrightarrow> (\<exists>k e. dict_get tbl k = Some e \<and> act_name e = n \<and> act_id e = i)" by (auto simp: dict_mem_iff [OF ok(1), symmetric])
  also have "\<dots> \<longleftrightarrow> (\<exists>e. dict_get tbl i = Some e \<and> act_name e = n)" by (auto dest: ok(2) intro: exI [of _ i])
  finally show ?thesis .
qed

theorem id_by_name_roundtrip_witness:
  "dict_get (get_id_by_name_table (load_actuator_table [[''#ID''], [''7'', '' EYES_H'', '' int16'']])) ''EYES_H'' = Some 7"
proof -
  have t: "load_actuator_table [[''#ID''], [''7'', '' EYES_H'', '' int16'']] =
      [(7, \<lparr>act_id = 7, id_mask = 64, act_name = ''EYES_H'', act_type = ''int16'', act_size = 2\<rparr>)]"
    by (simp add: load_actuator_table_def keep_row_def make_entry_def strip_def py_space_def py_int_of_def parse_nat_def digit_def
        TYPE_TO_SIZE_def Let_def push_bit_eq_mult)
  show ?thesis using id_by_name_roundtrip [of "[[''#ID''], [''7'', '' EYES_H'', '' int16'']]" "''EYES_H''" 7] by (simp add: t)
qed

text \<open>
  The table written out in the code gives every actuator its own id from 1 to 31, and every id belongs to exactly
  one of the four groups.
\<close>

theorem teodore_groups_partition:
  "mset (concat (map get_ids_belonging_to_group [HEAD_GROUP, BODY_GROUP, LEFT_ARM_GROUP, RIGHT_ARM_GROUP])) = mset (map int [1..<32])"
  by (simp add: get_ids_belonging_to_group_def teodore_actuator_table_def HEAD_GROUP_def BODY_GROUP_def LEFT_ARM_GROUP_def RIGHT_ARM_GROUP_def
      upt_rec add_mset_commute)

end
