(* ===== verification/AsyncRunner.thy ===== *)
theory AsyncRunner
  imports Prelude Complex_Main
begin

text \<open>
  The asynchronous session runner (\<open>session_mng/session/runner_async.py\<close>), a rewrite of the thread-based
  runner: a session is one coroutine that prepares, runs and cleans up.

  What an awaited callback did is its outcome: it returned, or raised an \<open>Exception\<close> or a
  \<open>BaseException\<close> that is not one, such as a cancellation. A cleanup callback gets the handle and may
  request a stop through it; preparation and body do not get it.
\<close>

section \<open>Handle and runner\<close>

datatype exc = Exception string | BaseException string

record 'r SessionHandle =
  creation_time :: real
  result_value :: "'r option"
  crash_exception :: "exc option"
  running :: bool
  stop_requested :: bool
  completed :: bool

definition SessionHandle_init :: "real \<Rightarrow> 'r SessionHandle" where
  "SessionHandle_init now = \<lparr>creation_time = now, result_value = None, crash_exception = None, running = False,
     stop_requested = False, completed = False\<rparr>"

definition elapsed_time :: "real \<Rightarrow> 'r SessionHandle \<Rightarrow> real" where
  "elapsed_time now h = now - creation_time h"

definition handle_is_alive :: "'r SessionHandle \<Rightarrow> bool" where
  "handle_is_alive h \<longleftrightarrow> running h \<and> \<not> completed h"

definition is_completed :: "'r SessionHandle \<Rightarrow> bool" where
  "is_completed h = completed h"

definition request_stop :: "'r SessionHandle \<Rightarrow> 'r SessionHandle" where
  "request_stop h = h\<lparr>stop_requested := True\<rparr>"

type_synonym 'r cleanup_cb = "'r SessionHandle \<Rightarrow> (exc + unit) \<times> bool"

text \<open>A cleanup callback's outcome, and whether it requested a stop. \<open>None\<close> is the default method.\<close>

record 'r SessionRunnerAsync =
  run_cb :: "(exc + 'r) option"
  prepare_cb :: "(exc + unit) option"
  cleanup_cbs :: "'r cleanup_cb list"

definition default_cleanup :: "'r cleanup_cb" where
  "default_cleanup h = (Inr (), False)"

definition SessionRunnerAsync_init ::
    "(exc + 'r) option \<Rightarrow> 'r cleanup_cb option \<Rightarrow> (exc + unit) option \<Rightarrow> 'r SessionRunnerAsync" where
  "SessionRunnerAsync_init runner cleanup prepare =
     \<lparr>run_cb = runner, prepare_cb = prepare,
      cleanup_cbs = default_cleanup # (case cleanup of None \<Rightarrow> [] | Some cb \<Rightarrow> [cb])\<rparr>"

definition bind_session_runner :: "(exc + 'r) \<Rightarrow> 'r SessionRunnerAsync \<Rightarrow> 'r SessionRunnerAsync" where
  "bind_session_runner runner s = s\<lparr>run_cb := Some runner\<rparr>"

definition bind_session_prepare :: "(exc + unit) \<Rightarrow> 'r SessionRunnerAsync \<Rightarrow> 'r SessionRunnerAsync" where
  "bind_session_prepare prepare s = s\<lparr>prepare_cb := Some prepare\<rparr>"

definition add_session_cleanup_cb :: "'r cleanup_cb \<Rightarrow> 'r SessionRunnerAsync \<Rightarrow> 'r SessionRunnerAsync" where
  "add_session_cleanup_cb cb s = s\<lparr>cleanup_cbs := cleanup_cbs s @ [cb]\<rparr>"

definition prepare :: "'r SessionRunnerAsync \<Rightarrow> exc + unit" where
  "prepare s = (case prepare_cb s of None \<Rightarrow> Inr () | Some out \<Rightarrow> out)"

definition run :: "'r SessionRunnerAsync \<Rightarrow> exc + 'r" where
  "run s = (case run_cb s of
     None \<Rightarrow> Inl (Exception ''run method was not assigned or overridden, cannot run session.'') | Some out \<Rightarrow> out)"

section \<open>A session\<close>

text \<open>The \<open>try\<close> block with its \<open>except\<close> clause.\<close>

definition run_body :: "'r SessionRunnerAsync \<Rightarrow> 'r SessionHandle \<Rightarrow> 'r SessionHandle" where
  "run_body s h =
     (case prepare s of
        Inl e \<Rightarrow> h\<lparr>crash_exception := Some e\<rparr>
      | Inr _ \<Rightarrow>
          if stop_requested h then h
          else case run s of
            Inl e \<Rightarrow> h\<lparr>crash_exception := Some e\<rparr>
          | Inr r \<Rightarrow> h\<lparr>result_value := Some r\<rparr>)"

text \<open>The cleanup loop; the second component lists the handles the callbacks were given. Only an
  \<open>Exception\<close> is caught.\<close>

fun cleanup_loop :: "'r cleanup_cb list \<Rightarrow> 'r SessionHandle \<Rightarrow> exc option \<times> 'r SessionHandle list \<times> 'r SessionHandle" where
  "cleanup_loop [] h = (None, [], h)"
| "cleanup_loop (cb # cbs) h =
     (let (out, stop) = cb h; h' = (if stop then request_stop h else h)
      in case out of
           Inl (BaseException e) \<Rightarrow> (Some (BaseException e), [h], h')
         | _ \<Rightarrow> (let (err, given, h') = cleanup_loop cbs h' in (err, h # given, h')))"

definition start :: "real \<Rightarrow> 'r SessionRunnerAsync \<Rightarrow> (exc + 'r SessionHandle) \<times> 'r SessionHandle list" where
  "start now s =
     (let h = (SessionHandle_init now)\<lparr>running := True\<rparr>;
          (err, given, h) = cleanup_loop (cleanup_cbs s) (run_body s h)
      in (case err of Some e \<Rightarrow> Inl e | None \<Rightarrow> Inr (h\<lparr>running := False, completed := True\<rparr>), given))"

section \<open>Properties\<close>

definition harmless :: "'r cleanup_cb \<Rightarrow> bool" where
  "harmless cb \<longleftrightarrow> (\<forall>h e. fst (cb h) \<noteq> Inl (BaseException e))"

definition same_session :: "'r SessionHandle \<Rightarrow> 'r SessionHandle \<Rightarrow> bool" where
  "same_session h h' \<longleftrightarrow> h\<lparr>stop_requested := False\<rparr> = h'\<lparr>stop_requested := False\<rparr>"

lemma same_session_sel:
  "same_session h h' \<Longrightarrow> result_value h = result_value h' \<and> crash_exception h = crash_exception h' \<and> creation_time h = creation_time h'
     \<and> running h = running h' \<and> completed h = completed h'"
  by (cases h; cases h') (simp add: same_session_def)

lemma same_session_stop [simp]: "same_session (request_stop h) h' = same_session h h'" "same_session h h"
  by (simp_all add: same_session_def request_stop_def)

lemma cleanup_loop_ok:
  assumes "list_all harmless cbs"
  shows "\<exists>given h'. cleanup_loop cbs h = (None, given, h') \<and> same_session h' h \<and> length given = length cbs
    \<and> list_all (\<lambda>g. same_session g h) given"
  using assms
proof (induction cbs arbitrary: h)
  case (Cons cb cbs)
  obtain out stop where cb: "cb h = (out, stop)" by (cases "cb h")
  let ?h = "if stop then request_stop h else h"
  have h: "same_session g ?h = same_session g h" for g by (auto simp: same_session_def request_stop_def)
  obtain given h' where "cleanup_loop cbs ?h = (None, given, h')" "same_session h' ?h" "length given = length cbs"
    "list_all (\<lambda>g. same_session g ?h) given" using Cons.IH [of ?h] Cons.prems by fastforce
  moreover have "out \<noteq> Inl (BaseException e)" for e using Cons.prems cb by (auto simp: harmless_def dest: spec [of _ h])
  ultimately show ?case
    by (intro exI [of _ "h # given"] exI [of _ h']) (auto simp: cb h Let_def split: sum.splits exc.splits)
qed simp

text \<open>
  An asynchronous session always cleans up and reports: when no cleanup callback raises beyond \<open>Exception\<close>, \<open>start\<close>
  returns a handle that is completed and not alive; it holds the result of the body if preparation and body
  returned, and otherwise the exception of the first that raised; and every registered cleanup callback was
  called exactly once, in order, with a handle that is still alive and already holds that outcome.
\<close>

theorem async_session_cleans_up:
  assumes "list_all harmless (cleanup_cbs s)"
  shows "\<exists>h given. start now s = (Inr h, given) \<and> is_completed h \<and> \<not> handle_is_alive h \<and> length given = length (cleanup_cbs s)
    \<and> result_value h = (case prepare s of Inl _ \<Rightarrow> None | Inr _ \<Rightarrow> (case run s of Inl _ \<Rightarrow> None | Inr r \<Rightarrow> Some r))
    \<and> crash_exception h = (case prepare s of Inl e \<Rightarrow> Some e | Inr _ \<Rightarrow> (case run s of Inl e \<Rightarrow> Some e | Inr _ \<Rightarrow> None))
    \<and> list_all (\<lambda>g. handle_is_alive g \<and> result_value g = result_value h \<and> crash_exception g = crash_exception h) given"
proof -
  let ?h0 = "(SessionHandle_init now)\<lparr>running := True\<rparr> :: 'a SessionHandle"
  have body: "running (run_body s ?h0)" "\<not> completed (run_body s ?h0)"
    "result_value (run_body s ?h0) = (case prepare s of Inl _ \<Rightarrow> None | Inr _ \<Rightarrow> (case run s of Inl _ \<Rightarrow> None | Inr r \<Rightarrow> Some r))"
    "crash_exception (run_body s ?h0) = (case prepare s of Inl e \<Rightarrow> Some e | Inr _ \<Rightarrow> (case run s of Inl e \<Rightarrow> Some e | Inr _ \<Rightarrow> None))"
    by (auto simp: run_body_def SessionHandle_init_def split: sum.splits)
  obtain given h where l: "cleanup_loop (cleanup_cbs s) (run_body s ?h0) = (None, given, h)" "same_session h (run_body s ?h0)"
    "length given = length (cleanup_cbs s)" "list_all (\<lambda>g. same_session g (run_body s ?h0)) given"
    using cleanup_loop_ok [OF assms] by blast
  have "list_all (\<lambda>g. handle_is_alive g \<and> result_value g = result_value h \<and> crash_exception g = crash_exception h) given"
    using l(4) body same_session_sel [OF l(2)] by (auto simp: list_all_iff handle_is_alive_def dest!: same_session_sel)
  then show ?thesis using l(1,3) body same_session_sel [OF l(2)]
    by (intro exI [of _ "h\<lparr>running := False, completed := True\<rparr>"] exI [of _ given])
      (simp add: start_def Let_def is_completed_def handle_is_alive_def)
qed

theorem async_session_cleans_up_witness:
  "\<exists>h given. start 5 (add_session_cleanup_cb (\<lambda>h. (Inl (Exception ''x''), True)) (SessionRunnerAsync_init (Some (Inr (3 :: nat))) None None)) = (Inr h, given)
    \<and> result_value h = Some 3 \<and> length given = 2"
  using async_session_cleans_up [of "add_session_cleanup_cb (\<lambda>h. (Inl (Exception ''x''), True)) (SessionRunnerAsync_init (Some (Inr (3 :: nat))) None None)" 5]
  by (auto simp: add_session_cleanup_cb_def SessionRunnerAsync_init_def harmless_def default_cleanup_def prepare_def run_def)

end
