(* ===== verification/RosAsync.thy ===== *)
theory RosAsync
  imports LifecycleSup
begin

text \<open>
  The asynchronous helpers of the supervisor's node (\<open>orchestration/ros_async_utils.py\<close>): \<open>asleep\<close>,
  \<open>wait_future\<close>, \<open>create_one_shot_timer\<close> and \<open>agather\<close>, on a node that keeps timers.

  A coroutine that waits is an entry of \<open>waits\<close>: the future it awaits, the timer it created, and
  whether it has gone on. Timers fire, futures complete and coroutines resume in any order, each callback as
  one step. The node spins on a \<open>MultiThreadedExecutor\<close>, where two callbacks of a reentrant group can
  also overlap; such runs are not modelled. \<open>wait_future\<close> of \<open>LifecycleSup\<close> is the summary of one wait: the result of
  folding what happened to it.
\<close>

section \<open>Timers and waits\<close>

datatype timer_cb = Wakeup nat | TimeoutOf nat | OneShot nat

record 'r wait =
  wait_result :: "'r wf_result"
  wait_timer :: nat
  wait_over :: bool

record 'r AsyncNode =
  timers :: "(nat, timer_cb) dict"
  next_timer :: nat
  waits :: "'r wait list"
  shots :: nat
  fired :: "nat list"

definition AsyncNode_init :: "'r AsyncNode" where
  "AsyncNode_init = \<lparr>timers = [], next_timer = 0, waits = [], shots = 0, fired = []\<rparr>"

definition create_timer :: "timer_cb \<Rightarrow> 'r AsyncNode \<Rightarrow> nat \<times> 'r AsyncNode" where
  "create_timer cb s = (next_timer s, s\<lparr>timers := dict_set (timers s) (next_timer s) cb, next_timer := Suc (next_timer s)\<rparr>)"

definition destroy_timer :: "nat \<Rightarrow> 'r AsyncNode \<Rightarrow> 'r AsyncNode" where
  "destroy_timer t s = s\<lparr>timers := dict_pop (timers s) t\<rparr>"

definition new_wait :: "timer_cb \<Rightarrow> 'r AsyncNode \<Rightarrow> 'r AsyncNode" where
  "new_wait cb s = (let (t, s) = create_timer cb s in s\<lparr>waits := waits s @ [\<lparr>wait_result = None, wait_timer = t, wait_over = False\<rparr>]\<rparr>)"

definition asleep :: "'r AsyncNode \<Rightarrow> 'r AsyncNode" where
  "asleep s = new_wait (Wakeup (length (waits s))) s"

definition begin_wait_future :: "real \<Rightarrow> 'r AsyncNode \<Rightarrow> (ros_error + nat) \<times> 'r AsyncNode" where
  "begin_wait_future timeout s =
     (if timeout \<le> 0 then (Inl Timeout_not_positive, s)
      else (Inr (length (waits s)), new_wait (TimeoutOf (length (waits s))) s))"

definition create_one_shot_timer :: "'r AsyncNode \<Rightarrow> nat \<times> 'r AsyncNode" where
  "create_one_shot_timer s = (shots s, snd (create_timer (OneShot (shots s)) (s\<lparr>shots := Suc (shots s)\<rparr>)))"

text \<open>Setting the future of a wait; \<open>wf_step\<close> keeps a result that is there.\<close>

definition settle :: "nat \<Rightarrow> 'r wf_event \<Rightarrow> 'r AsyncNode \<Rightarrow> 'r AsyncNode" where
  "settle w ev s =
     (if w < length (waits s)
      then s\<lparr>waits := (waits s)[w := (waits s ! w)\<lparr>wait_result := wf_step (wait_result (waits s ! w)) ev\<rparr>]\<rparr> else s)"

text \<open>The callbacks \<open>wakeup\<close>, \<open>_timeout\<close> and \<open>wrapped_callback\<close>.\<close>

definition timer_fires :: "nat \<Rightarrow> 'r AsyncNode \<Rightarrow> 'r AsyncNode" where
  "timer_fires t s =
     (case dict_get (timers s) t of
        None \<Rightarrow> s
      | Some (Wakeup w) \<Rightarrow> settle w WfTimeout s
      | Some (TimeoutOf w) \<Rightarrow> settle w WfTimeout s
      | Some (OneShot k) \<Rightarrow> (let s = destroy_timer t s in s\<lparr>fired := fired s @ [k]\<rparr>))"

text \<open>The coroutine goes on once its future is set, or is closed; either way \<open>finally\<close> destroys its timer.\<close>

definition end_wait :: "nat \<Rightarrow> 'r AsyncNode \<Rightarrow> 'r AsyncNode" where
  "end_wait w s = (destroy_timer (wait_timer (waits s ! w)) s)\<lparr>waits := (waits s)[w := (waits s ! w)\<lparr>wait_over := True\<rparr>]\<rparr>"

definition resume :: "nat \<Rightarrow> 'r AsyncNode \<Rightarrow> 'r wf_result \<times> 'r AsyncNode" where
  "resume w s =
     (if w < length (waits s) \<and> \<not> wait_over (waits s ! w) \<and> wait_result (waits s ! w) \<noteq> None
      then (wait_result (waits s ! w), end_wait w s) else (None, s))"

definition close :: "nat \<Rightarrow> 'r AsyncNode \<Rightarrow> 'r AsyncNode" where
  "close w s = (if w < length (waits s) \<and> \<not> wait_over (waits s ! w) then end_wait w s else s)"

datatype 'r node_event =
    Asleep
  | WaitFuture real
  | CreateOneShot
  | TimerFires nat
  | FutureDone nat "'r wf_event"
  | Resume nat
  | Close nat

fun node_step :: "'r AsyncNode \<Rightarrow> 'r node_event \<Rightarrow> 'r AsyncNode" where
  "node_step s Asleep = asleep s"
| "node_step s (WaitFuture timeout) = snd (begin_wait_future timeout s)"
| "node_step s CreateOneShot = snd (create_one_shot_timer s)"
| "node_step s (TimerFires t) = timer_fires t s"
| "node_step s (FutureDone w ev) = settle w ev s"
| "node_step s (Resume w) = snd (resume w s)"
| "node_step s (Close w) = close w s"

text \<open>\<open>agather\<close>: the tasks are awaited in order; \<open>None\<close> is a task that has not finished.\<close>

fun agather :: "(ros_error + 'a) option list \<Rightarrow> (ros_error + 'a list) option" where
  "agather [] = Some (Inr [])"
| "agather (None # ts) = None"
| "agather (Some (Inl e) # ts) = Some (Inl e)"
| "agather (Some (Inr a) # ts) = map_option (map_sum id ((#) a)) (agather ts)"

section \<open>Invariant\<close>

text \<open>Every timer belongs to a wait that is not over or to a shot that has not run, and those have theirs.\<close>

fun owned :: "'r AsyncNode \<Rightarrow> nat \<Rightarrow> timer_cb \<Rightarrow> bool" where
  "owned s t (Wakeup w) \<longleftrightarrow> w < length (waits s) \<and> wait_timer (waits s ! w) = t \<and> \<not> wait_over (waits s ! w)"
| "owned s t (TimeoutOf w) \<longleftrightarrow> w < length (waits s) \<and> wait_timer (waits s ! w) = t \<and> \<not> wait_over (waits s ! w)"
| "owned s t (OneShot k) \<longleftrightarrow> k < shots s \<and> k \<notin> set (fired s)"

definition node_ok :: "'r AsyncNode \<Rightarrow> bool" where
  "node_ok s \<longleftrightarrow>
     dict_ok (timers s) \<and> (\<forall>t cb. dict_get (timers s) t = Some cb \<longrightarrow> t < next_timer s \<and> owned s t cb)
     \<and> (\<forall>w < length (waits s). wait_timer (waits s ! w) < next_timer s)
     \<and> (\<forall>w < length (waits s). \<forall>v < length (waits s). wait_timer (waits s ! w) = wait_timer (waits s ! v) \<longrightarrow> w = v)
     \<and> (\<forall>t u k. dict_get (timers s) t = Some (OneShot k) \<longrightarrow> dict_get (timers s) u = Some (OneShot k) \<longrightarrow> t = u)
     \<and> distinct (fired s) \<and> set (fired s) \<subseteq> {..<shots s}
     \<and> (\<forall>w < length (waits s). \<not> wait_over (waits s ! w) \<longrightarrow>
          dict_get (timers s) (wait_timer (waits s ! w)) \<in> {Some (Wakeup w), Some (TimeoutOf w)})"

lemma node_ok_init: "node_ok AsyncNode_init"
  by (simp add: node_ok_def AsyncNode_init_def)

lemma owned_cong:
  "owned s t cb \<Longrightarrow> length (waits s) \<le> length (waits s') \<Longrightarrow>
   (\<And>w. w < length (waits s) \<Longrightarrow> wait_timer (waits s' ! w) = wait_timer (waits s ! w) \<and> wait_over (waits s' ! w) = wait_over (waits s ! w)) \<Longrightarrow>
   shots s \<le> shots s' \<Longrightarrow> fired s' = fired s \<Longrightarrow> owned s' t cb"
  by (cases cb) auto

lemma new_wait_ok:
  assumes "node_ok s" "cb = Wakeup (length (waits s)) \<or> cb = TimeoutOf (length (waits s))"
  shows "node_ok (new_wait cb s)"
proof -
  define s' where "s' = new_wait cb s"
  have s: "timers s' = dict_set (timers s) (next_timer s) cb" "next_timer s' = Suc (next_timer s)"
    "waits s' = waits s @ [\<lparr>wait_result = None, wait_timer = next_timer s, wait_over = False\<rparr>]" "shots s' = shots s" "fired s' = fired s"
    by (simp_all add: s'_def new_wait_def create_timer_def)
  have own: "owned s' t c" if "owned s t c" for t c
    using that by (rule owned_cong) (simp_all add: s nth_append)
  moreover have "owned s' (next_timer s) cb" using assms(2) by (auto simp: s)
  ultimately have "node_ok s'" using assms unfolding node_ok_def
    by (auto simp: s dict_get_set nth_append less_Suc_eq split: if_splits)
  then show ?thesis by (simp add: s'_def)
qed

lemma one_shot_ok:
  assumes "node_ok s"
  shows "node_ok (snd (create_one_shot_timer s))"
proof -
  let ?s = "snd (create_one_shot_timer s)"
  have s: "timers ?s = dict_set (timers s) (next_timer s) (OneShot (shots s))" "next_timer ?s = Suc (next_timer s)"
    "waits ?s = waits s" "shots ?s = Suc (shots s)" "fired ?s = fired s"
    by (simp_all add: create_one_shot_timer_def create_timer_def)
  have own: "owned ?s t c" if "owned s t c" for t c
    using that by (rule owned_cong) (simp_all add: s)
  have "k < shots s" if "dict_get (timers s) t = Some (OneShot k)" for t k
    using assms that unfolding node_ok_def by fastforce
  then show ?thesis using assms own unfolding node_ok_def
    by (auto simp: s dict_get_set less_Suc_eq split: if_splits)
qed

lemma settle_frame [simp]:
  "timers (settle w ev s) = timers s" "next_timer (settle w ev s) = next_timer s" "length (waits (settle w ev s)) = length (waits s)"
  "shots (settle w ev s) = shots s" "fired (settle w ev s) = fired s"
  "v < length (waits s) \<Longrightarrow> wait_timer (waits (settle w ev s) ! v) = wait_timer (waits s ! v)"
  "v < length (waits s) \<Longrightarrow> wait_over (waits (settle w ev s) ! v) = wait_over (waits s ! v)"
  by (simp_all add: settle_def nth_list_update)

lemma settle_ok: "node_ok s \<Longrightarrow> node_ok (settle w ev s)"
  unfolding node_ok_def by (auto intro: owned_cong [of s])

lemma shot_ok:
  assumes "node_ok s" "dict_get (timers s) t = Some (OneShot k)"
  shows "node_ok ((destroy_timer t s)\<lparr>fired := fired s @ [k]\<rparr>)"
proof -
  let ?s = "(destroy_timer t s)\<lparr>fired := fired s @ [k]\<rparr>"
  have s: "timers ?s = dict_pop (timers s) t" "next_timer ?s = next_timer s" "waits ?s = waits s" "shots ?s = shots s" "fired ?s = fired s @ [k]"
    by (simp_all add: destroy_timer_def)
  have k: "k < shots s" "k \<notin> set (fired s)" using assms unfolding node_ok_def by fastforce+
  have "owned ?s u c" if "dict_get (timers s) u = Some c" "u \<noteq> t" for u c
    using assms that unfolding node_ok_def by (cases c) (fastforce simp: s)+
  then show ?thesis using assms k unfolding node_ok_def by (auto simp: s dict_get_pop split: if_splits)
qed

lemma end_wait_ok:
  assumes "node_ok s" "w < length (waits s)"
  shows "node_ok (end_wait w s)"
proof -
  let ?s = "end_wait w s"
  have s: "timers ?s = dict_pop (timers s) (wait_timer (waits s ! w))" "next_timer ?s = next_timer s" "shots ?s = shots s" "fired ?s = fired s"
    "length (waits ?s) = length (waits s)"
    "\<And>v. v < length (waits s) \<Longrightarrow> wait_timer (waits ?s ! v) = wait_timer (waits s ! v)"
    "\<And>v. v < length (waits s) \<Longrightarrow> wait_over (waits ?s ! v) = (v = w \<or> wait_over (waits s ! v))"
    using assms(2) by (simp_all add: end_wait_def destroy_timer_def nth_list_update)
  have "owned ?s u c" if "dict_get (timers s) u = Some c" "u \<noteq> wait_timer (waits s ! w)" for u c
    using assms that unfolding node_ok_def by (cases c) (fastforce simp: s)+
  then show ?thesis using assms unfolding node_ok_def by (auto simp: s dict_get_pop split: if_splits)
qed

lemma node_step_ok: "node_ok s \<Longrightarrow> node_ok (node_step s e)"
proof (cases e)
  case (TimerFires t)
  then show "node_ok s \<Longrightarrow> ?thesis"
    by (auto simp: timer_fires_def settle_ok Let_def shot_ok destroy_timer_def [symmetric] split: option.split timer_cb.split)
      (use shot_ok in \<open>auto simp: destroy_timer_def\<close>)
qed (simp_all add: asleep_def new_wait_ok begin_wait_future_def one_shot_ok settle_ok resume_def close_def end_wait_ok)

interpretation async_node: event_machine node_step node_ok
  by unfold_locales (rule node_step_ok)

section \<open>What a wait returns\<close>

text \<open>What happens to the wait \<open>w\<close> with the timer \<open>t\<close>, as long as its coroutine has not gone on.\<close>

definition happened :: "nat \<Rightarrow> nat \<Rightarrow> 'r node_event list \<Rightarrow> 'r wf_event list" where
  "happened w t es = concat (map (\<lambda>e. case e of
     FutureDone v ev \<Rightarrow> if v = w then [ev] else [] | TimerFires u \<Rightarrow> if u = t then [WfTimeout] else [] | _ \<Rightarrow> []) es)"

definition waiting :: "nat \<Rightarrow> nat \<Rightarrow> 'r AsyncNode \<Rightarrow> bool" where
  "waiting w t s \<longleftrightarrow> node_ok s \<and> w < length (waits s) \<and> wait_timer (waits s ! w) = t \<and> \<not> wait_over (waits s ! w)"

lemma settle_result:
  "w < length (waits s) \<Longrightarrow> wait_result (waits (settle v ev s) ! w) =
     (if v = w then wf_step (wait_result (waits s ! w)) ev else wait_result (waits s ! w))"
  by (auto simp: settle_def nth_list_update)

lemma waiting_timer: "waiting w t s \<Longrightarrow> dict_get (timers s) t = Some (Wakeup w) \<or> dict_get (timers s) t = Some (TimeoutOf w)"
  unfolding waiting_def node_ok_def by blast

lemma foreign_timer:
  assumes "waiting w t s" "u \<noteq> t" "dict_get (timers s) u = Some (Wakeup v) \<or> dict_get (timers s) u = Some (TimeoutOf v)"
  shows "v \<noteq> w"
  using assms unfolding waiting_def node_ok_def by fastforce

lemma end_wait_waits: "waits (end_wait v s) = (waits s)[v := (waits s ! v)\<lparr>wait_over := True\<rparr>]"
  by (simp add: end_wait_def destroy_timer_def)

lemma waiting_step:
  assumes "waiting w t s" "e \<noteq> Resume w" "e \<noteq> Close w"
  shows "waiting w t (node_step s e)
    \<and> wait_result (waits (node_step s e) ! w) = foldl wf_step (wait_result (waits s ! w)) (happened w t [e])"
proof -
  have ok: "node_ok (node_step s e)" using assms(1) by (simp add: waiting_def node_step_ok)
  have w: "w < length (waits s)" "wait_timer (waits s ! w) = t" "\<not> wait_over (waits s ! w)" using assms(1) by (simp_all add: waiting_def)
  have new: "waits (new_wait cb s) ! w = waits s ! w" "length (waits (new_wait cb s)) = Suc (length (waits s))" for cb
    using w(1) by (simp_all add: new_wait_def create_timer_def nth_append)
  have gone: "v \<noteq> w \<Longrightarrow> waits (end_wait v s) ! w = waits s ! w" "length (waits (end_wait v s)) = length (waits s)" for v
    by (simp_all add: end_wait_waits)
  show ?thesis
  proof (cases e)
    case (TimerFires u)
    show ?thesis
    proof (cases "u = t")
      case True
      then show ?thesis using TimerFires ok w waiting_timer [OF assms(1)]
        by (auto simp: waiting_def happened_def timer_fires_def settle_result)
    next
      case False
      then show ?thesis using TimerFires ok w foreign_timer [OF assms(1) False]
        by (auto simp: waiting_def happened_def timer_fires_def settle_result destroy_timer_def Let_def split: option.splits timer_cb.splits)
    qed
  next
    case (FutureDone v ev)
    then show ?thesis using ok w by (auto simp: waiting_def happened_def settle_result)
  next
    case (WaitFuture timeout)
    then show ?thesis using ok w new by (auto simp: waiting_def happened_def begin_wait_future_def)
  next
    case (Resume v)
    then show ?thesis using ok w gone assms(2) by (auto simp: waiting_def happened_def resume_def)
  next
    case (Close v)
    then show ?thesis using ok w gone assms(3) by (auto simp: waiting_def happened_def close_def)
  qed (use ok w new in \<open>auto simp: waiting_def happened_def asleep_def create_one_shot_timer_def create_timer_def\<close>)
qed

lemma waiting_run:
  "waiting w t s \<Longrightarrow> Resume w \<notin> set es \<Longrightarrow> Close w \<notin> set es \<Longrightarrow>
   waiting w t (foldl node_step s es)
   \<and> wait_result (waits (foldl node_step s es) ! w) = foldl wf_step (wait_result (waits s ! w)) (happened w t es)"
proof (induction es arbitrary: s)
  case (Cons e es)
  have "waiting w t (node_step s e)
      \<and> wait_result (waits (node_step s e) ! w) = foldl wf_step (wait_result (waits s ! w)) (happened w t [e])"
    using Cons.prems by (intro waiting_step) auto
  moreover have "happened w t (e # es) = happened w t [e] @ happened w t es" by (simp add: happened_def)
  ultimately show ?case using Cons.IH [of "node_step s e"] Cons.prems by simp
qed (simp add: happened_def)

text \<open>
  What a wait has to return, read off the events of the node without the machine: the first
  completion of its future or firing of its own timer decides, and everything after it and
  everything else is ignored.
\<close>

fun first_outcome :: "nat \<Rightarrow> nat \<Rightarrow> 'r node_event list \<Rightarrow> 'r wf_result" where
  "first_outcome w t [] = None"
| "first_outcome w t (FutureDone v ev # es) =
     (if v \<noteq> w then first_outcome w t es
      else Some (case ev of WfDone r \<Rightarrow> Inr (Some r) | WfException e \<Rightarrow> Inl (Call_raised e) | WfTimeout \<Rightarrow> Inr None))"
| "first_outcome w t (TimerFires u # es) = (if u \<noteq> t then first_outcome w t es else Some (Inr None))"
| "first_outcome w t (_ # es) = first_outcome w t es"

lemma fold_first_outcome: "foldl wf_step None (happened w t es) = first_outcome w t es"
proof (induction es)
  case (Cons e es)
  have "wf_step None ev = Some (case ev of WfDone r \<Rightarrow> Inr (Some r) | WfException e \<Rightarrow> Inl (Call_raised e) | WfTimeout \<Rightarrow> Inr None)"
    for ev :: "'a wf_event" by (cases ev) simp_all
  with Cons show ?case by (cases e) (simp_all add: happened_def wf_settled)
qed (simp add: happened_def)

section \<open>Properties\<close>

text \<open>
  C32. \<open>wait_future\<close> returns the first thing that happens. Whatever other sleeps, waits and timers
  the node has, when a wait with a positive timeout goes on after the events \<open>es\<close> it returns the
  result or the exception of its future if that completed before its own timer fired, \<open>None\<close> if the
  timer fired first, and it does not go on when neither has happened. When it goes on it destroys
  its timer. The lifecycle calls of the supervisor are stated with the function \<open>wait_future\<close>, which
  gives the same value.
\<close>

theorem wait_returns_first_event:
  fixes s :: "'r AsyncNode"
  assumes "s = foldl node_step AsyncNode_init before" "begin_wait_future timeout s = (Inr w, s1)"
    and "Resume w \<notin> set es" "Close w \<notin> set es"
  defines "s2 \<equiv> foldl node_step s1 es" and "t \<equiv> next_timer s"
  shows "fst (resume w s2) = first_outcome w t es
    \<and> first_outcome w t es = wait_future timeout (happened w t es)
    \<and> (fst (resume w s2) \<noteq> None \<longrightarrow> dict_get (timers (snd (resume w s2))) t = None)"
proof -
  have b: "0 < timeout" "w = length (waits s)" "s1 = new_wait (TimeoutOf w) s" using assms(2) by (auto simp: begin_wait_future_def split: if_splits)
  have "node_ok s" unfolding assms(1) by (rule async_node.run_inv) (rule node_ok_init)
  then have "node_ok s1" unfolding b(3) by (intro new_wait_ok) (simp_all add: b(2))
  then have "waiting w t s1" "wait_result (waits s1 ! w) = None"
    by (simp_all add: waiting_def t_def b(2,3) new_wait_def create_timer_def)
  then have run: "waiting w t s2" "wait_result (waits s2 ! w) = foldl wf_step None (happened w t es)"
    using waiting_run [of w t s1 es] assms(3,4) by (simp_all add: s2_def)
  then have "resume w s2 = (if wait_result (waits s2 ! w) \<noteq> None then (wait_result (waits s2 ! w), end_wait w s2) else (None, s2))"
    by (auto simp: resume_def waiting_def)
  then show ?thesis using run b(1)
    by (simp add: wait_future_def waiting_def end_wait_def destroy_timer_def dict_get_pop fold_first_outcome)
qed

theorem wait_returns_first_event_witness:
  "\<exists>s1. begin_wait_future 1 (asleep AsyncNode_init) = (Inr 1, s1)
    \<and> fst (resume 1 (foldl node_step s1 [TimerFires 0, FutureDone 1 (WfDone True), TimerFires 1])) = Some (Inr (Some True))"
proof -
  obtain s1 where b: "begin_wait_future 1 (asleep AsyncNode_init :: bool AsyncNode) = (Inr 1, s1)"
    by (simp add: begin_wait_future_def asleep_def new_wait_def create_timer_def AsyncNode_init_def)
  have n: "next_timer (asleep AsyncNode_init :: bool AsyncNode) = 1"
    by (simp add: asleep_def new_wait_def create_timer_def AsyncNode_init_def)
  from wait_returns_first_event [of _ "[Asleep]", OF _ b, of "[TimerFires 0, FutureDone 1 (WfDone True), TimerFires 1]"]
  have "fst (resume 1 (foldl node_step s1 [TimerFires 0, FutureDone 1 (WfDone True), TimerFires 1])) = Some (Inr (Some True))"
    by (simp add: n)
  with b show ?thesis by blast
qed

text \<open>
  Timers do not leak, and one-shot timers are one-shot: in every run each callback given to
  \<open>create_one_shot_timer\<close> is run at most once, and once every wait has gone on or was closed and every one-shot callback
  has run, the node has no timer left.
\<close>

theorem timers_do_not_leak:
  fixes es :: "'r node_event list"
  defines "s \<equiv> foldl node_step AsyncNode_init es"
  shows "distinct (fired s)
    \<and> (list_all wait_over (waits s) \<longrightarrow> set (fired s) = {..<shots s} \<longrightarrow> timers s = [])"
proof -
  have ok: "node_ok s" unfolding s_def by (rule async_node.run_inv) (rule node_ok_init)
  have "timers s = []" if "list_all wait_over (waits s)" "set (fired s) = {..<shots s}"
  proof (rule ccontr)
    assume "timers s \<noteq> []"
    then obtain t cb ts where "timers s = (t, cb) # ts" by (cases "timers s") auto
    then have "owned s t cb" using ok unfolding node_ok_def by auto
    then show False using that by (cases cb) (auto simp: list_all_length)
  qed
  then show ?thesis using ok by (simp add: node_ok_def)
qed

theorem timers_do_not_leak_witness:
  "timers (foldl node_step (AsyncNode_init :: bool AsyncNode) [Asleep, CreateOneShot, TimerFires 1, TimerFires 1, TimerFires 0, Resume 0]) = []"
  using timers_do_not_leak [of "[Asleep, CreateOneShot, TimerFires 1, TimerFires 1, TimerFires 0, Resume 0] :: bool node_event list"]
  by (simp add: asleep_def new_wait_def create_timer_def AsyncNode_init_def create_one_shot_timer_def timer_fires_def settle_def resume_def
      end_wait_def destroy_timer_def Let_def)

text \<open>
  \<open>agather\<close> returns the results of all its tasks in the order of the coroutines when all succeed, and the error of
  the first in that order that failed once those before it are done; it never drops or reorders a result.
\<close>

theorem agather_collects_in_order:
  "(agather ts = Some (Inr xs) \<longleftrightarrow> ts = map (\<lambda>x. Some (Inr x)) xs)
   \<and> (agather ts = Some (Inl e) \<longleftrightarrow> (\<exists>ys rest. ts = map (\<lambda>x. Some (Inr x)) ys @ Some (Inl e) # rest))"
proof (induction ts arbitrary: xs rule: agather.induct)
  case (3 e ts)
  then show ?case by (auto simp: Cons_eq_append_conv map_eq_Cons_conv Cons_eq_map_conv)
next
  case (4 a ts)
  have split: "(map_option (map_sum id ((#) a)) r = Some (Inr xs) \<longleftrightarrow> (\<exists>ys. xs = a # ys \<and> r = Some (Inr ys)))
      \<and> (map_option (map_sum id ((#) a)) r = Some (Inl e) \<longleftrightarrow> r = Some (Inl e))" for r :: "(ros_error + 'a list) option"
    by (cases r; cases "the r") auto
  then have "agather (Some (Inr a) # ts) = Some (Inr xs) \<longleftrightarrow> (\<exists>ys. xs = a # ys \<and> agather ts = Some (Inr ys))"
    "agather (Some (Inr a) # ts) = Some (Inl e) \<longleftrightarrow> agather ts = Some (Inl e)" by simp_all
  then show ?case using 4 by (auto simp: Cons_eq_append_conv Cons_eq_map_conv)
qed (auto simp: Cons_eq_append_conv Cons_eq_map_conv)

end
