(* ===== verification/SessionMng.thy ===== *)
theory SessionMng
  imports SessionRun LifecycleSup Alerts
begin

text \<open>
  The life of sessions on the server: \<open>session/resource_manager.py\<close>, \<open>session/runner.py\<close>,
  \<open>session/session_manager.py\<close>, the resources of a session (\<open>ACSessResourceMng\<close> in
  \<open>session_implementations.py\<close>) and the node that offers the service (\<open>sess_manager_node.py\<close>).

  Requests are coroutines of the node, every session runs in a thread of its own, and both touch
  \<open>active_session\<close>. A request is a program counter with one step per stretch of code that nothing
  can interleave with: up to an \<open>await\<close>, up to taking the lock, up to the end of \<open>join(0.5)\<close>, and
  from the \<open>is_alive\<close> test to the assignment of \<open>active_session\<close>. A session thread is a program
  counter too: in \<open>run\<close>, before its \<open>k\<close>-th cleanup callback, or done. Contexts and handles are
  numbered objects, because requests and threads share them. What the network and the hardware
  manager's lifecycle services answer is part of the event.
\<close>

section \<open>Session resources (resource\_manager.py, session\_implementations.py)\<close>

datatype sess_exc = SessionCreationError | SessionDestructionError | OtherException string

record 'c SessionCreationResult =
  creation_success :: bool
  creation_context :: "'c option"
  exception_on_creation :: "sess_exc option"

record SessionDestructionResult =
  destruction_success :: bool
  exception_on_destruction :: "sess_exc option"

text \<open>\<open>create_session\<close> and \<open>destroy_session\<close>, from what \<open>create\<close> and \<open>destroy\<close> gave.\<close>

definition create_session :: "sess_exc + 'c option \<Rightarrow> 'c SessionCreationResult" where
  "create_session created =
     (case created of
        Inl exc \<Rightarrow> \<lparr>creation_success = False, creation_context = None, exception_on_creation = Some exc\<rparr>
      | Inr None \<Rightarrow>
          \<lparr>creation_success = False, creation_context = None, exception_on_creation = Some SessionCreationError\<rparr>
      | Inr (Some context) \<Rightarrow>
          \<lparr>creation_success = True, creation_context = Some context, exception_on_creation = None\<rparr>)"

definition destroy_session :: "sess_exc + unit \<Rightarrow> SessionDestructionResult" where
  "destroy_session destroyed =
     (case destroyed of
        Inl exc \<Rightarrow> \<lparr>destruction_success = False, exception_on_destruction = Some exc\<rparr>
      | Inr _ \<Rightarrow> \<lparr>destruction_success = True, exception_on_destruction = None\<rparr>)"

record ACSessionCreationArguments =
  client_ip :: string
  client_udp_port :: int

record ACSessionContext =
  ctx_tcp :: PeerTCP
  ctx_tcp_port :: int
  ctx_stream :: PeerUDP
  ctx_stream_port :: int
  ctx_codec :: PacketDecoder
  session_secret :: bytes

text \<open>What the calls of \<open>create\<close> outside the repository gave: the token, the listening socket and
  its port, the bound datagram socket, its connection and its port.\<close>

record create_env =
  token :: bytes
  listen_result :: "unit nng_result"
  listen_port :: "int option"
  bind_raised :: "string option"
  connect_raised :: "string option"
  bound_port :: "int option"

text \<open>The peers that exist when \<open>create\<close> returns or raises are part of its result.\<close>

definition create_stream :: "create_env \<Rightarrow> ACSessionCreationArguments \<Rightarrow> (unit + int) \<times> PeerUDP option" where
  "create_stream ce args =
     (case bind_raised ce of
        Some e \<Rightarrow> (Inl (), None)
      | None \<Rightarrow>
          (case PeerUDP_init (Some (token ce)) 5 of
             Inl e \<Rightarrow> (Inl (), None)
           | Inr u \<Rightarrow>
               (case udp_dial (client_ip args) (client_udp_port args) (connect_raised ce) u of
                  (Inl e, u) \<Rightarrow> (Inl (), Some u)
                | (Inr _, u) \<Rightarrow> (case bound_port ce of None \<Rightarrow> (Inl (), Some u) | Some p \<Rightarrow> (Inr p, Some u)))))"

definition create ::
    "'o codec_libs \<Rightarrow> id_table \<Rightarrow> create_env \<Rightarrow> ACSessionCreationArguments
     \<Rightarrow> (sess_exc + ACSessionContext option) \<times> PeerTCP option \<times> PeerUDP option" where
  "create libs ids ce args =
     (case PeerTCP_init (Some (token ce)) 5 5 of
        Inl e \<Rightarrow> (Inl SessionCreationError, None, None)
      | Inr t \<Rightarrow>
          (case tcp_listen (listen_result ce) t of
             (Inl e, t) \<Rightarrow> (Inl SessionCreationError, Some (snd (tcp_close t)), None)
           | (Inr _, t) \<Rightarrow>
               (case listen_port ce of
                  None \<Rightarrow> (Inl SessionCreationError, Some (snd (tcp_close t)), None)
                | Some port \<Rightarrow>
                    (case create_stream ce args of
                       (Inl _, u) \<Rightarrow>
                         (Inl SessionCreationError, Some (snd (tcp_close t)), map_option (\<lambda>u. snd (udp_close u)) u)
                     | (Inr sport, None) \<Rightarrow> (Inl SessionCreationError, Some (snd (tcp_close t)), None)
                     | (Inr sport, Some u) \<Rightarrow>
                         (Inr (Some \<lparr>ctx_tcp = t, ctx_tcp_port = port, ctx_stream = u, ctx_stream_port = sport,
                                     ctx_codec = decoder_for libs session_classes ids, session_secret = token ce\<rparr>),
                          Some t, Some u)))))"

definition destroy :: "ACSessionContext \<Rightarrow> (sess_exc + unit) \<times> ACSessionContext" where
  "destroy c =
     (case tcp_close (ctx_tcp c) of
        (Inl e, t) \<Rightarrow> (Inl SessionDestructionError, c\<lparr>ctx_tcp := t\<rparr>)
      | (Inr _, t) \<Rightarrow>
          (case udp_close (ctx_stream c) of
             (Inl e, u) \<Rightarrow> (Inl SessionDestructionError, c\<lparr>ctx_tcp := t, ctx_stream := u\<rparr>)
           | (Inr _, u) \<Rightarrow> (Inr (), c\<lparr>ctx_tcp := t, ctx_stream := u\<rparr>)))"

section \<open>Handles, threads and requests (runner.py, session\_manager.py)\<close>

datatype cleanup_cb = DefaultCleanup | NodeCleanup | ManagerCleanup | UserCleanup

datatype runner_pc = RunBody | CleanupAt nat | ThreadDone

record SessionHandle =
  h_ctx :: nat
  h_stop_request :: bool
  h_pc :: runner_pc
  h_crash :: "run_error option"

definition is_alive :: "SessionHandle \<Rightarrow> bool" where
  "is_alive h \<longleftrightarrow> h_pc h \<noteq> ThreadDone"

definition request_stop :: "SessionHandle \<Rightarrow> SessionHandle" where
  "request_stop h = h\<lparr>h_stop_request := True\<rparr>"

record CreateSessionResponse =
  resp_success :: bool
  resp_msg :: string
  resp_tcp_port :: int
  resp_udp_port :: int
  resp_secret :: bytes

datatype request_pc =
    RqEntry
  | RqCheck
  | RqCriteria
  | RqCreate
  | RqStart nat
  | RqAlive nat nat
  | RqActivate nat
  | RqDone CreateSessionResponse
  | RqRaised ros_error

record SessManager =
  node_active :: bool
  cleanup_cbs :: "cleanup_cb list"
  active_session :: "nat option"
  lock :: "nat option"
  contexts :: "ACSessionContext list"
  handles :: "SessionHandle list"
  requests :: "request_pc list"
  hw_active :: bool
  scheduled :: nat
  alert_log :: "(int \<times> int) list"

text \<open>The runner's own cleanup first, then the node's callback given to \<open>ACSessionRunner\<close>, then the
  manager's, then the wrapper that schedules the node's callback.\<close>

definition SessionRunner_init :: "cleanup_cb list" where
  "SessionRunner_init = [DefaultCleanup]"

definition add_session_cleanup_cb :: "cleanup_cb \<Rightarrow> cleanup_cb list \<Rightarrow> cleanup_cb list" where
  "add_session_cleanup_cb c cbs = cbs @ [c]"

definition ACSessionRunner_init :: "cleanup_cb list" where
  "ACSessionRunner_init = add_session_cleanup_cb NodeCleanup SessionRunner_init"

definition create_session_manager :: "cleanup_cb list" where
  "create_session_manager =
     add_session_cleanup_cb UserCleanup (add_session_cleanup_cb ManagerCleanup ACSessionRunner_init)"

definition SessManager_init :: SessManager where
  "SessManager_init =
     \<lparr>node_active = False, cleanup_cbs = create_session_manager, active_session = None, lock = None, contexts = [],
      handles = [], requests = [], hw_active = False, scheduled = 0, alert_log = []\<rparr>"

section \<open>Operations\<close>

definition log_alert :: "int \<Rightarrow> int \<Rightarrow> SessManager \<Rightarrow> SessManager" where
  "log_alert l code s = s\<lparr>alert_log := alert_log s @ [(l, code)]\<rparr>"

definition set_request :: "nat \<Rightarrow> request_pc \<Rightarrow> SessManager \<Rightarrow> SessManager" where
  "set_request r pc s = s\<lparr>requests := (requests s)[r := pc]\<rparr>"

text \<open>The end of a refused request, with the alert of \<open>_raise_session_fail_alert\<close>.\<close>

definition refuse :: "nat \<Rightarrow> string \<Rightarrow> SessManager \<Rightarrow> SessManager" where
  "refuse r msg s =
     set_request r (RqDone \<lparr>resp_success = False, resp_msg = msg, resp_tcp_port = 0, resp_udp_port = 0, resp_secret = []\<rparr>)
       (log_alert Level_ERR ERR_SESSION_CREATION_FAILED s)"

definition destroy_context :: "nat \<Rightarrow> SessManager \<Rightarrow> SessionDestructionResult \<times> SessManager" where
  "destroy_context k s =
     (let (r, c) = destroy (contexts s ! k) in (destroy_session r, s\<lparr>contexts := (contexts s)[k := c]\<rparr>))"

text \<open>\<open>validate_session_request_criteria\<close>: \<open>None\<close> while the lifecycle call is pending.\<close>

definition validate_session_request_criteria :: "lc_link \<Rightarrow> (ros_error + bool) option" where
  "validate_session_request_criteria link =
     (if \<not> is_ready link then Some (Inr False) else fst (call_change_state_async link TRANSITION_ACTIVATE 5))"

definition request_check :: "nat \<Rightarrow> SessManager \<Rightarrow> SessManager" where
  "request_check r s =
     (if lock s \<noteq> None then s
      else if active_session s \<noteq> None then refuse r ''A session is already active.'' s
      else set_request r RqCriteria s)"

definition request_criteria :: "nat \<Rightarrow> lc_link \<Rightarrow> SessManager \<Rightarrow> SessManager" where
  "request_criteria r link s =
     (case validate_session_request_criteria link of
        None \<Rightarrow> s
      | Some (Inl e) \<Rightarrow> set_request r (RqRaised e) s
      | Some (Inr ok) \<Rightarrow>
          if \<not> ok then refuse r ''Session creation criteria not met.'' s
          else set_request r RqCreate (s\<lparr>hw_active := True\<rparr>))"

definition request_create ::
    "'o codec_libs \<Rightarrow> id_table \<Rightarrow> nat \<Rightarrow> create_env \<Rightarrow> ACSessionCreationArguments \<Rightarrow> SessManager \<Rightarrow> SessManager" where
  "request_create libs ids r ce args s =
     (case creation_context (create_session (fst (create libs ids ce args))) of
        None \<Rightarrow> refuse r ''Session resource creation failed: '' s
      | Some c \<Rightarrow> set_request r (RqStart (length (contexts s))) (s\<lparr>contexts := contexts s @ [c]\<rparr>))"

text \<open>\<open>SessionRunner.start\<close> makes a handle whose thread is in the body; \<open>raised\<close> is what starting
  the thread raised, if it did.\<close>

definition start :: "nat \<Rightarrow> SessionHandle" where
  [simp]: "start k = \<lparr>h_ctx = k, h_stop_request = False, h_pc = RunBody, h_crash = None\<rparr>"

definition request_start :: "nat \<Rightarrow> nat \<Rightarrow> string option \<Rightarrow> SessManager \<Rightarrow> SessManager" where
  "request_start r k raised s =
     (if lock s \<noteq> None then s
      else if active_session s \<noteq> None then refuse r ''A session is already active.'' (snd (destroy_context k s))
      else case raised of
        Some e \<Rightarrow> refuse r (''Session runner failed to start: '' @ e) (snd (destroy_context k s))
      | None \<Rightarrow>
          set_request r (RqAlive k (length (handles s)))
            (s\<lparr>lock := Some r,
               handles := handles s @ [start k]\<rparr>))"

definition request_alive :: "nat \<Rightarrow> nat \<Rightarrow> nat \<Rightarrow> SessManager \<Rightarrow> SessManager" where
  "request_alive r k h s =
     (if \<not> is_alive (handles s ! h)
      then refuse r ''Session runner failed to start: Session runner thread unable to start.''
             ((snd (destroy_context k s))\<lparr>lock := None\<rparr>)
      else set_request r (RqActivate h) s)"

definition request_activate :: "nat \<Rightarrow> nat \<Rightarrow> SessManager \<Rightarrow> SessManager" where
  "request_activate r h s =
     (let c = contexts s ! h_ctx (handles s ! h)
      in set_request r
           (RqDone \<lparr>resp_success = True, resp_msg = [], resp_tcp_port = ctx_tcp_port c, resp_udp_port = ctx_stream_port c,
                    resp_secret = session_secret c\<rparr>)
           (log_alert Level_INFO INF_SESSION_CREATION_OK (s\<lparr>active_session := Some h, lock := None\<rparr>)))"

text \<open>\<open>create_session_srv_cb\<close> up to the call of \<open>new_session\<close>.\<close>

definition request_entry :: "nat \<Rightarrow> SessManager \<Rightarrow> SessManager" where
  "request_entry r s =
     (let s = log_alert Level_INFO INF_SESSION_CREATION_REQUEST s
      in if \<not> node_active s then refuse r ''Session manager is not active'' s else set_request r RqCheck s)"

text \<open>\<open>terminate_session\<close>: the answer is whether the thread is gone after \<open>join(timeout)\<close>, here at once.\<close>

definition terminate_session :: "SessManager \<Rightarrow> bool \<times> SessManager" where
  "terminate_session s =
     (if lock s \<noteq> None then (False, s)
      else case active_session s of
        None \<Rightarrow> (False, s)
      | Some h \<Rightarrow>
          (\<not> is_alive (handles s ! h), s\<lparr>active_session := None, handles := (handles s)[h := request_stop (handles s ! h)]\<rparr>))"

definition cleanup_active_session :: "nat \<Rightarrow> SessManager \<Rightarrow> SessManager" where
  "cleanup_active_session h s =
     (let (result, s) = destroy_context (h_ctx (handles s ! h)) s
      in if destruction_success result then s\<lparr>active_session := None\<rparr> else s)"

definition get_active_session :: "SessManager \<Rightarrow> nat option" where
  "get_active_session s = map_option (\<lambda>h. h_ctx (handles s ! h)) (active_session s)"

text \<open>The node's callback is a coroutine function: calling it does nothing until it is awaited, so
  the runner's direct call has no effect, and \<open>_user_cleanup\<close> hands it to the executor.\<close>

definition run_cleanup_cb :: "cleanup_cb \<Rightarrow> bool \<Rightarrow> nat \<Rightarrow> SessManager \<Rightarrow> SessManager" where
  "run_cleanup_cb cb has_executor h s =
     (case cb of
        DefaultCleanup \<Rightarrow> s
      | NodeCleanup \<Rightarrow> s
      | ManagerCleanup \<Rightarrow> cleanup_active_session h s
      | UserCleanup \<Rightarrow> if has_executor then s\<lparr>scheduled := scheduled s + 1\<rparr> else s)"

definition set_pc :: "nat \<Rightarrow> runner_pc \<Rightarrow> SessManager \<Rightarrow> SessManager" where
  "set_pc h pc s = s\<lparr>handles := (handles s)[h := (handles s ! h)\<lparr>h_pc := pc\<rparr>]\<rparr>"

text \<open>\<open>_run_session_wrapper\<close>: the run ends with a result or an exception, then every callback runs.\<close>

definition run_ends :: "nat \<Rightarrow> run_error option \<Rightarrow> SessManager \<Rightarrow> SessManager" where
  "run_ends h crash s =
     s\<lparr>handles := (handles s)[h := (handles s ! h)\<lparr>h_crash := crash, h_pc := CleanupAt 0\<rparr>]\<rparr>"

definition cleanup_step :: "nat \<Rightarrow> bool \<Rightarrow> SessManager \<Rightarrow> SessManager" where
  "cleanup_step h has_executor s =
     (case h_pc (handles s ! h) of
        CleanupAt k \<Rightarrow>
          if k < length (cleanup_cbs s)
          then set_pc h (CleanupAt (Suc k)) (run_cleanup_cb (cleanup_cbs s ! k) has_executor h s)
          else set_pc h ThreadDone s
      | _ \<Rightarrow> s)"

text \<open>The node's \<open>cleanup_session\<close> once the executor runs it.\<close>

definition cleanup_session :: "lc_link \<Rightarrow> SessManager \<Rightarrow> SessManager" where
  "cleanup_session link s =
     (case fst (call_change_state_async link TRANSITION_DEACTIVATE 5) of
        None \<Rightarrow> s
      | Some (Inl e) \<Rightarrow> s\<lparr>scheduled := scheduled s - 1\<rparr>
      | Some (Inr ok) \<Rightarrow>
          log_alert Level_INFO INF_SESSION_CLOSURE_OK
            (s\<lparr>scheduled := scheduled s - 1, hw_active := (if ok then False else hw_active s)\<rparr>))"

definition on_activate :: "SessManager \<Rightarrow> SessManager" where
  "on_activate s = s\<lparr>node_active := True\<rparr>"

definition on_deactivate :: "SessManager \<Rightarrow> SessManager" where
  "on_deactivate s = s\<lparr>node_active := False\<rparr>"

definition on_shutdown :: "SessManager \<Rightarrow> SessManager" where
  "on_shutdown s = s\<lparr>node_active := False\<rparr>"

definition on_error :: "SessManager \<Rightarrow> SessManager" where
  "on_error s = s\<lparr>node_active := False\<rparr>"

section \<open>The HTTP front (session\_listener/server.py, ros\_node.py)\<close>

record SessionCreationHttpResponse =
  http_success :: bool
  http_msg :: string
  nng_port :: int
  udp_port :: int
  udp_secret_key :: bytes
  http_token :: bytes

datatype http_result = HttpOk SessionCreationHttpResponse | HTTPException nat string

definition failed_http_response :: SessionCreationHttpResponse where
  "failed_http_response =
     \<lparr>http_success = False, http_msg = [], nng_port = -1, udp_port = -1, udp_secret_key = [], http_token = []\<rparr>"

text \<open>\<open>answer\<close> is what the service call gave before its timeout; the requests sent are part of the result.\<close>

definition make_session_creation_request ::
    "bool \<Rightarrow> CreateSessionResponse option \<Rightarrow> ACSessionCreationArguments
     \<Rightarrow> SessionCreationHttpResponse \<times> ACSessionCreationArguments list" where
  "make_session_creation_request service_ready answer args =
     (if \<not> service_ready then (failed_http_response, [])
      else
        (case answer of
           None \<Rightarrow> failed_http_response
         | Some r \<Rightarrow>
             \<lparr>http_success = resp_success r, http_msg = resp_msg r, nng_port = resp_tcp_port r, udp_port = resp_udp_port r,
              udp_secret_key = resp_secret r, http_token = resp_secret r\<rparr>,
         [args]))"

definition CLIENT_KEY :: string where
  "CLIENT_KEY = ''supersecret-client-key''"

definition auth ::
    "string \<Rightarrow> int \<Rightarrow> string option \<Rightarrow> bool \<Rightarrow> CreateSessionResponse option
     \<Rightarrow> http_result \<times> ACSessionCreationArguments list" where
  "auth apikey port client service_ready answer =
     (if apikey \<noteq> CLIENT_KEY then (HTTPException 401 ''Authentication failed: wrong key'', [])
      else case client of
        None \<Rightarrow> (HTTPException 400 ''Could not get client address'', [])
      | Some host \<Rightarrow>
          (let (resp, sent) =
             make_session_creation_request service_ready answer \<lparr>client_ip = host, client_udp_port = port\<rparr>
           in (HttpOk resp, sent)))"

section \<open>Interleavings\<close>

datatype sm_event =
    Activate | Deactivate | Shutdown | NodeError
  | Request
  | ReqStep nat lc_link create_env ACSessionCreationArguments "string option"
  | RunEnds nat "run_error option"
  | CleanupStep nat bool
  | RunScheduled lc_link
  | Terminate

definition req_step ::
    "'o codec_libs \<Rightarrow> id_table \<Rightarrow> nat \<Rightarrow> lc_link \<Rightarrow> create_env \<Rightarrow> ACSessionCreationArguments \<Rightarrow> string option
     \<Rightarrow> SessManager \<Rightarrow> SessManager" where
  "req_step libs ids r link ce args raised s =
     (case requests s ! r of
        RqEntry \<Rightarrow> request_entry r s
      | RqCheck \<Rightarrow> request_check r s
      | RqCriteria \<Rightarrow> request_criteria r link s
      | RqCreate \<Rightarrow> request_create libs ids r ce args s
      | RqStart k \<Rightarrow> request_start r k raised s
      | RqAlive k h \<Rightarrow> request_alive r k h s
      | RqActivate h \<Rightarrow> request_activate r h s
      | _ \<Rightarrow> s)"

fun sm_step :: "'o codec_libs \<Rightarrow> id_table \<Rightarrow> SessManager \<Rightarrow> sm_event \<Rightarrow> SessManager" where
  "sm_step libs ids s Activate = on_activate s"
| "sm_step libs ids s Deactivate = on_deactivate s"
| "sm_step libs ids s Shutdown = on_shutdown s"
| "sm_step libs ids s NodeError = on_error s"
| "sm_step libs ids s Request = s\<lparr>requests := requests s @ [RqEntry]\<rparr>"
| "sm_step libs ids s (ReqStep r link ce args raised) =
     (if r < length (requests s) then req_step libs ids r link ce args raised s else s)"
| "sm_step libs ids s (RunEnds h crash) =
     (if h < length (handles s) \<and> h_pc (handles s ! h) = RunBody then run_ends h crash s else s)"
| "sm_step libs ids s (CleanupStep h has_executor) =
     (if h < length (handles s) then cleanup_step h has_executor s else s)"
| "sm_step libs ids s (RunScheduled link) = (if 0 < scheduled s then cleanup_session link s else s)"
| "sm_step libs ids s Terminate = snd (terminate_session s)"

abbreviation sm_run :: "'o codec_libs \<Rightarrow> id_table \<Rightarrow> sm_event list \<Rightarrow> SessManager" where
  "sm_run libs ids es \<equiv> foldl (sm_step libs ids) SessManager_init es"

section \<open>Exclusion\<close>

text \<open>A thread owns its context until its manager cleanup has run, the third of its callbacks.\<close>

fun owns :: "runner_pc \<Rightarrow> bool" where
  "owns RunBody = True"
| "owns (CleanupAt k) = (k \<le> 2)"
| "owns ThreadDone = False"

text \<open>The handle that a request is about to make the active session, while it holds the lock.\<close>

fun starting :: "request_pc \<Rightarrow> nat option" where
  "starting (RqAlive k h) = Some h"
| "starting (RqActivate h) = Some h"
| "starting _ = None"

definition lock_inv :: "SessManager \<Rightarrow> bool" where
  "lock_inv s \<longleftrightarrow>
     (\<forall>r < length (requests s). lock s \<noteq> Some r \<longrightarrow> starting (requests s ! r) = None) \<and>
     (case lock s of
        None \<Rightarrow> True
      | Some r \<Rightarrow> active_session s = None \<and> r < length (requests s)
          \<and> (case starting (requests s ! r) of None \<Rightarrow> False | Some h \<Rightarrow> h < length (handles s)))"

definition excl_inv :: "SessManager \<Rightarrow> bool" where
  "excl_inv s \<longleftrightarrow>
     cleanup_cbs s = create_session_manager \<and>
     (\<forall>h < length (handles s). owns (h_pc (handles s ! h)) \<longrightarrow>
        active_session s = Some h \<or> (\<exists>r. lock s = Some r \<and> starting (requests s ! r) = Some h))"

lemmas sm_op_defs = refuse_def set_request_def log_alert_def destroy_context_def set_pc_def

lemma refuse_simps [simp]:
  "handles (refuse r m s) = handles s" "active_session (refuse r m s) = active_session s" "lock (refuse r m s) = lock s"
  "cleanup_cbs (refuse r m s) = cleanup_cbs s" "contexts (refuse r m s) = contexts s"
  "requests (refuse r m s) = (requests s)[r := RqDone \<lparr>resp_success = False, resp_msg = m, resp_tcp_port = 0, resp_udp_port = 0, resp_secret = []\<rparr>]"
  by (simp_all add: refuse_def set_request_def log_alert_def)

lemma destroy_context_simps [simp]:
  "handles (snd (destroy_context k s)) = handles s" "active_session (snd (destroy_context k s)) = active_session s"
  "lock (snd (destroy_context k s)) = lock s" "cleanup_cbs (snd (destroy_context k s)) = cleanup_cbs s"
  "requests (snd (destroy_context k s)) = requests s" "length (contexts (snd (destroy_context k s))) = length (contexts s)"
  by (simp_all add: destroy_context_def split_beta)

lemma set_request_simps [simp]:
  "handles (set_request r pc s) = handles s" "active_session (set_request r pc s) = active_session s"
  "lock (set_request r pc s) = lock s" "cleanup_cbs (set_request r pc s) = cleanup_cbs s"
  "contexts (set_request r pc s) = contexts s" "requests (set_request r pc s) = (requests s)[r := pc]"
  by (simp_all add: set_request_def)

lemma log_alert_simps [simp]:
  "handles (log_alert l c s) = handles s" "active_session (log_alert l c s) = active_session s" "lock (log_alert l c s) = lock s"
  "cleanup_cbs (log_alert l c s) = cleanup_cbs s" "contexts (log_alert l c s) = contexts s" "requests (log_alert l c s) = requests s"
  by (simp_all add: log_alert_def)

text \<open>What the invariants do not read, and a request that moves to a state in which it starts nothing.\<close>

lemma inv_cong [simp]:
  "lock_inv (log_alert l c s) = lock_inv s" "lock_inv (s\<lparr>hw_active := b\<rparr>) = lock_inv s"
  "lock_inv (s\<lparr>contexts := cs\<rparr>) = lock_inv s" "lock_inv (s\<lparr>scheduled := n\<rparr>) = lock_inv s"
  "lock_inv (snd (destroy_context k s)) = lock_inv s" "lock_inv (s\<lparr>node_active := b\<rparr>) = lock_inv s"
  "excl_inv (log_alert l c s) = excl_inv s" "excl_inv (s\<lparr>hw_active := b\<rparr>) = excl_inv s"
  "excl_inv (s\<lparr>contexts := cs\<rparr>) = excl_inv s" "excl_inv (s\<lparr>scheduled := n\<rparr>) = excl_inv s"
  "excl_inv (snd (destroy_context k s)) = excl_inv s" "excl_inv (s\<lparr>node_active := b\<rparr>) = excl_inv s"
  by (simp_all add: lock_inv_def excl_inv_def cong: option.case_cong)

lemma lock_inv_set:
  assumes "lock_inv s" "r < length (requests s)" "starting (requests s ! r) = None" "starting pc = None"
  shows "lock_inv (set_request r pc s)"
proof (cases "lock s")
  case None
  then show ?thesis using assms by (simp add: lock_inv_def nth_list_update)
next
  case (Some q)
  then have "q \<noteq> r" using assms(1,3) by (auto simp: lock_inv_def)
  then show ?thesis using assms Some by (simp add: lock_inv_def nth_list_update cong: option.case_cong)
qed

lemma excl_inv_set:
  assumes "excl_inv s" "starting (requests s ! r) = None"
  shows "excl_inv (set_request r pc s)"
  unfolding excl_inv_def
proof (intro conjI allI impI)
  fix h assume h: "h < length (handles (set_request r pc s))" "owns (h_pc (handles (set_request r pc s) ! h))"
  then consider "active_session s = Some h" | q where "lock s = Some q" "starting (requests s ! q) = Some h"
    using assms(1) by (auto simp: excl_inv_def)
  then show "active_session (set_request r pc s) = Some h
      \<or> (\<exists>q. lock (set_request r pc s) = Some q \<and> starting (requests (set_request r pc s) ! q) = Some h)"
  proof cases
    case 2
    then have "q \<noteq> r" using assms(2) by auto
    with 2 show ?thesis by simp
  qed simp
qed (use assms(1) in \<open>simp add: excl_inv_def\<close>)

lemma lock_inv_refuse:
  "lock_inv s \<Longrightarrow> r < length (requests s) \<Longrightarrow> starting (requests s ! r) = None \<Longrightarrow> lock_inv (refuse r m s)"
  unfolding refuse_def by (rule lock_inv_set) simp_all

lemma excl_inv_refuse: "excl_inv s \<Longrightarrow> starting (requests s ! r) = None \<Longrightarrow> excl_inv (refuse r m s)"
  unfolding refuse_def by (rule excl_inv_set) simp_all

lemmas inv_moves = lock_inv_set lock_inv_refuse excl_inv_set excl_inv_refuse

lemma request_start_inv:
  assumes "lock_inv s" "excl_inv s" "r < length (requests s)" "requests s ! r = RqStart k"
  shows "lock_inv (request_start r k raised s) \<and> excl_inv (request_start r k raised s)"
proof (cases "lock s = None \<and> active_session s = None \<and> raised = None")
  case True
  have "\<not> owns (h_pc (handles s ! h))" if "h < length (handles s)" for h
    using assms(2) that True by (auto simp: excl_inv_def)
  then have "excl_inv (request_start r k raised s)" using True assms
    by (auto simp: request_start_def excl_inv_def nth_append less_Suc_eq)
  moreover have "lock_inv (request_start r k raised s)" using True assms(1,3)
    by (simp add: request_start_def lock_inv_def nth_list_update)
  ultimately show ?thesis by blast
next
  case False
  then show ?thesis using assms by (auto simp: request_start_def inv_moves split: option.splits)
qed

lemma request_alive_inv:
  assumes "lock_inv s" "excl_inv s" "r < length (requests s)" "requests s ! r = RqAlive k h"
  shows "lock_inv (request_alive r k h s) \<and> excl_inv (request_alive r k h s)"
proof -
  have l: "lock s = Some r" "active_session s = None" using assms by (auto simp: lock_inv_def)
  have own: "j = h" if "j < length (handles s)" "owns (h_pc (handles s ! j))" for j
    using assms(2,4) l that by (auto simp: excl_inv_def)
  have "lock_inv (request_alive r k h s)" using assms l
    by (auto simp: request_alive_def lock_inv_def nth_list_update)
  moreover have "excl_inv (request_alive r k h s)" using assms l own
    by (auto simp: request_alive_def excl_inv_def nth_list_update is_alive_def)
  ultimately show ?thesis by blast
qed

lemma request_activate_inv:
  assumes "lock_inv s" "excl_inv s" "r < length (requests s)" "requests s ! r = RqActivate h"
  shows "lock_inv (request_activate r h s) \<and> excl_inv (request_activate r h s)"
proof -
  have l: "lock s = Some r" "active_session s = None" using assms by (auto simp: lock_inv_def)
  have own: "j = h" if "j < length (handles s)" "owns (h_pc (handles s ! j))" for j
    using assms(2,4) l that by (auto simp: excl_inv_def)
  show ?thesis using assms l own
    by (auto simp: request_activate_def lock_inv_def excl_inv_def nth_list_update Let_def)
qed

lemma req_step_inv:
  assumes "lock_inv s" "excl_inv s" "r < length (requests s)"
  shows "lock_inv (req_step libs ids r link ce args raised s) \<and> excl_inv (req_step libs ids r link ce args raised s)"
proof (cases "requests s ! r")
  case RqEntry
  then show ?thesis using assms by (simp add: req_step_def request_entry_def inv_moves Let_def)
next
  case RqCheck
  then show ?thesis using assms by (simp add: req_step_def request_check_def inv_moves)
next
  case RqCriteria
  then show ?thesis using assms by (simp add: req_step_def request_criteria_def inv_moves split: option.splits sum.splits)
next
  case RqCreate
  then show ?thesis using assms by (simp add: req_step_def request_create_def inv_moves split: option.splits)
next
  case (RqStart k)
  then show ?thesis using request_start_inv [OF assms] by (simp add: req_step_def)
next
  case (RqAlive k h)
  then show ?thesis using request_alive_inv [OF assms] by (simp add: req_step_def)
next
  case (RqActivate h)
  then show ?thesis using request_activate_inv [OF assms] by (simp add: req_step_def)
qed (simp_all add: req_step_def assms)

lemma cleanup_cbs_len [simp]:
  "length create_session_manager = 4" "create_session_manager ! 0 = DefaultCleanup" "create_session_manager ! Suc 0 = NodeCleanup"
  "create_session_manager ! 2 = ManagerCleanup" "create_session_manager ! 3 = UserCleanup"
  by (simp_all add: create_session_manager_def ACSessionRunner_init_def SessionRunner_init_def add_session_cleanup_cb_def)

lemma cleanup_active_simps [simp]:
  "handles (cleanup_active_session h s) = handles s" "lock (cleanup_active_session h s) = lock s"
  "cleanup_cbs (cleanup_active_session h s) = cleanup_cbs s" "requests (cleanup_active_session h s) = requests s"
  "contexts (cleanup_active_session h s) = contexts (snd (destroy_context (h_ctx (handles s ! h)) s))"
  by (simp_all add: cleanup_active_session_def split_beta)

lemma cleanup_active_cases:
  "active_session (cleanup_active_session h s) \<in> {active_session s, None}"
  by (simp add: cleanup_active_session_def split_beta)

text \<open>The effect of a cleanup step on what the invariants read.\<close>

lemma cleanup_step_cases:
  assumes "cleanup_cbs s = create_session_manager"
  obtains (idle) "cleanup_step h x s = s"
  | (own) k where "h_pc (handles s ! h) = CleanupAt k" "k < 2"
      "cleanup_step h x s = set_pc h (CleanupAt (Suc k)) s"
  | (manager) "h_pc (handles s ! h) = CleanupAt 2"
      "cleanup_step h x s = set_pc h (CleanupAt 3) (cleanup_active_session h s)"
  | (after) pc n where "\<not> owns (h_pc (handles s ! h))" "\<not> owns pc"
      "cleanup_step h x s = set_pc h pc (s\<lparr>scheduled := n\<rparr>)"
proof (cases "h_pc (handles s ! h)")
  case (CleanupAt k)
  consider "k = 0" | "k = 1" | "k = 2" | "k = 3" | "4 \<le> k" by linarith
  then show ?thesis
  proof cases
    case 1
    then show ?thesis using assms CleanupAt by (intro own [of k]) (simp_all add: cleanup_step_def run_cleanup_cb_def)
  next
    case 2
    then show ?thesis using assms CleanupAt by (intro own [of k]) (simp_all add: cleanup_step_def run_cleanup_cb_def)
  next
    case 3
    then show ?thesis using assms CleanupAt by (intro manager) (simp_all add: cleanup_step_def run_cleanup_cb_def)
  next
    case 4
    then have "cleanup_step h x s = set_pc h (CleanupAt 4) (s\<lparr>scheduled := (if x then scheduled s + 1 else scheduled s)\<rparr>)"
      using assms CleanupAt by (simp add: cleanup_step_def run_cleanup_cb_def)
    then show ?thesis using 4 CleanupAt by (intro after [of "CleanupAt 4"]) simp_all
  next
    case 5
    then have "cleanup_step h x s = set_pc h ThreadDone (s\<lparr>scheduled := scheduled s\<rparr>)"
      using assms CleanupAt by (simp add: cleanup_step_def)
    then show ?thesis using 5 CleanupAt by (intro after [of ThreadDone "scheduled s"]) simp_all
  qed
qed (auto intro: idle simp: cleanup_step_def)

lemma set_pc_simps [simp]:
  "lock (set_pc h pc s) = lock s" "active_session (set_pc h pc s) = active_session s" "requests (set_pc h pc s) = requests s"
  "cleanup_cbs (set_pc h pc s) = cleanup_cbs s" "contexts (set_pc h pc s) = contexts s"
  "length (handles (set_pc h pc s)) = length (handles s)"
  "h < length (handles s) \<Longrightarrow> handles (set_pc h pc s) ! j = (if j = h then (handles s ! h)\<lparr>h_pc := pc\<rparr> else handles s ! j)"
  by (simp_all add: set_pc_def nth_list_update)

lemma lock_inv_threads:
  assumes "lock_inv s" "lock s' = lock s" "requests s' = requests s" "length (handles s') = length (handles s)"
    "active_session s' \<in> {active_session s, None}"
  shows "lock_inv s'"
  using assms by (cases "lock s") (auto simp: lock_inv_def split: option.splits)

lemma excl_inv_pc:
  assumes "excl_inv s" "h < length (handles s)" "owns pc \<Longrightarrow> owns (h_pc (handles s ! h))"
  shows "excl_inv (set_pc h pc s)"
  using assms by (auto simp: excl_inv_def)

lemma only_owner:
  assumes "lock_inv s" "excl_inv s" "h < length (handles s)" "j < length (handles s)"
    "owns (h_pc (handles s ! h))" "owns (h_pc (handles s ! j))"
  shows "j = h"
proof -
  have h: "active_session s = Some h \<or> (\<exists>r. lock s = Some r \<and> starting (requests s ! r) = Some h)"
    and j: "active_session s = Some j \<or> (\<exists>r. lock s = Some r \<and> starting (requests s ! r) = Some j)"
    using assms(2-6) unfolding excl_inv_def by blast+
  have "\<And>r. lock s = Some r \<Longrightarrow> active_session s = None" using assms(1) by (simp add: lock_inv_def)
  with h j show ?thesis by fastforce
qed

lemma cleanup_step_inv:
  assumes "lock_inv s" "excl_inv s" "h < length (handles s)"
  shows "lock_inv (cleanup_step h x s) \<and> excl_inv (cleanup_step h x s)"
proof -
  have cbs: "cleanup_cbs s = create_session_manager" using assms(2) by (simp add: excl_inv_def)
  from cbs show ?thesis
  proof (cases rule: cleanup_step_cases [of s h x])
    case idle
    then show ?thesis using assms by simp
  next
    case (own k)
    then show ?thesis using assms by (auto intro!: lock_inv_threads [OF assms(1)] excl_inv_pc)
  next
    case manager
    have "excl_inv (set_pc h (CleanupAt 3) (cleanup_active_session h s))"
      unfolding excl_inv_def
    proof (intro conjI allI impI)
      fix j assume "j < length (handles (set_pc h (CleanupAt 3) (cleanup_active_session h s)))"
        and "owns (h_pc (handles (set_pc h (CleanupAt 3) (cleanup_active_session h s)) ! j))"
      then have j: "j < length (handles s)" "j \<noteq> h" "owns (h_pc (handles s ! j))"
        using assms(3) by (auto split: if_splits)
      have "owns (h_pc (handles s ! h))" using manager(1) by simp
      from only_owner [OF assms(1,2) assms(3) j(1) this j(3)] j(2)
      show "active_session (set_pc h (CleanupAt 3) (cleanup_active_session h s)) = Some j
        \<or> (\<exists>r. lock (set_pc h (CleanupAt 3) (cleanup_active_session h s)) = Some r
            \<and> starting (requests (set_pc h (CleanupAt 3) (cleanup_active_session h s)) ! r) = Some j)" by simp
    qed (use assms(2) in \<open>simp add: excl_inv_def\<close>)
    then show ?thesis using manager(2) cleanup_active_cases [of h s]
      by (auto intro!: lock_inv_threads [OF assms(1)])
  next
    case (after pc n)
    have "excl_inv (set_pc h pc (s\<lparr>scheduled := n\<rparr>))"
      using assms after by (intro excl_inv_pc) simp_all
    then show ?thesis using after by (auto intro!: lock_inv_threads [OF assms(1)])
  qed
qed

lemma run_ends_inv:
  assumes "lock_inv s" "excl_inv s" "h < length (handles s)" "h_pc (handles s ! h) = RunBody"
  shows "lock_inv (run_ends h crash s) \<and> excl_inv (run_ends h crash s)"
proof
  show "lock_inv (run_ends h crash s)" by (rule lock_inv_threads [OF assms(1)]) (simp_all add: run_ends_def)
  show "excl_inv (run_ends h crash s)" using assms(2-4) by (auto simp: run_ends_def excl_inv_def nth_list_update split: if_splits)
qed

lemma lock_inv_snoc: "lock_inv s \<Longrightarrow> lock_inv (s\<lparr>requests := requests s @ [RqEntry]\<rparr>)"
  by (cases "lock s") (simp_all add: lock_inv_def nth_append cong: option.case_cong)

lemma excl_inv_snoc:
  assumes "excl_inv s" "lock_inv s"
  shows "excl_inv (s\<lparr>requests := requests s @ [RqEntry]\<rparr>)"
proof (cases "lock s")
  case None
  then show ?thesis using assms(1) by (simp add: excl_inv_def)
next
  case (Some r)
  then have "r < length (requests s)" using assms(2) by (simp add: lock_inv_def)
  then show ?thesis using assms(1) Some by (simp add: excl_inv_def nth_append)
qed

lemma sm_step_inv:
  assumes "lock_inv s" "excl_inv s" "e \<noteq> Terminate"
  shows "lock_inv (sm_step libs ids s e) \<and> excl_inv (sm_step libs ids s e)"
proof (cases e)
  case Request
  have "lock_inv (s\<lparr>requests := requests s @ [RqEntry]\<rparr>)" "excl_inv (s\<lparr>requests := requests s @ [RqEntry]\<rparr>)"
    using lock_inv_snoc [OF assms(1)] excl_inv_snoc [OF assms(2,1)] by blast+
  then show ?thesis by (simp add: Request)
next
  case (RunScheduled link)
  then show ?thesis using assms by (simp add: cleanup_session_def split: option.splits sum.splits)
qed (use assms in \<open>simp_all add: on_activate_def on_deactivate_def on_shutdown_def on_error_def req_step_inv cleanup_step_inv run_ends_inv\<close>)

lemma sm_run_inv:
  "Terminate \<notin> set es \<Longrightarrow> lock_inv (sm_run libs ids es) \<and> excl_inv (sm_run libs ids es)"
proof (induction es rule: rev_induct)
  case Nil
  show ?case by (simp add: SessManager_init_def lock_inv_def excl_inv_def)
next
  case (snoc e es)
  then show ?case using sm_step_inv [of "sm_run libs ids es" e libs ids] by auto
qed

section \<open>Ownership of contexts\<close>

text \<open>A context is open while one of its two sockets is. An open context belongs to a request that is about to start it or to a thread that has not
  destroyed it yet. This holds with \<open>terminate_session\<close> too.\<close>

definition ctx_open :: "ACSessionContext \<Rightarrow> bool" where
  "ctx_open c \<longleftrightarrow> \<not> sock_closed (ctx_tcp c) \<or> \<not> endpoint_closed (udp (ctx_stream c))"

text \<open>What \<open>create\<close> gives and \<open>destroy\<close> keeps: the stream socket that cannot be closed is closed.\<close>

definition ctx_ok :: "ACSessionContext \<Rightarrow> bool" where
  "ctx_ok c \<longleftrightarrow> peer_init (ctx_tcp c) \<and> (peer_init (ctx_stream c) \<or> endpoint_closed (udp (ctx_stream c)))"

definition owned :: "SessManager \<Rightarrow> nat \<Rightarrow> bool" where
  "owned s k \<longleftrightarrow> RqStart k \<in> set (requests s) \<or> (\<exists>h \<in> set (handles s). h_ctx h = k \<and> owns (h_pc h))"

fun ctx_ref :: "nat \<Rightarrow> request_pc \<Rightarrow> bool" where
  "ctx_ref n (RqStart k) = (k < n)"
| "ctx_ref n (RqAlive k h) = (k < n)"
| "ctx_ref n _ = True"

definition refs_ok :: "SessManager \<Rightarrow> bool" where
  "refs_ok s \<longleftrightarrow>
     cleanup_cbs s = create_session_manager
     \<and> list_all (ctx_ref (length (contexts s))) (requests s)
     \<and> list_all (\<lambda>h. h_ctx h < length (contexts s)) (handles s)
     \<and> list_all ctx_ok (contexts s)"

definition leak_inv :: "SessManager \<Rightarrow> bool" where
  "leak_inv s \<longleftrightarrow> (\<forall>k < length (contexts s). ctx_open (contexts s ! k) \<longrightarrow> owned s k)"

lemma ctx_ref_mono: "ctx_ref n pc \<Longrightarrow> n \<le> m \<Longrightarrow> ctx_ref m pc"
  by (cases pc) simp_all

lemma destroy_closes:
  "ctx_ok c \<Longrightarrow> \<not> ctx_open (snd (destroy c)) \<and> ctx_ok (snd (destroy c))"
  by (auto simp: destroy_def ctx_open_def ctx_ok_def tcp_close_def udp_close_def require_initialized_def
      endpoint_close_def)

lemma destroy_context_contexts:
  "contexts (snd (destroy_context k s)) = (contexts s)[k := snd (destroy (contexts s ! k))]"
  by (simp add: destroy_context_def split_beta)

lemma list_all_update: "list_all P xs \<Longrightarrow> P x \<Longrightarrow> list_all P (xs[i := x])"
  by (auto simp: list_all_iff dest: set_update_subset_insert [THEN subsetD])

lemma set_update_keep: "x \<in> set xs \<Longrightarrow> xs ! i \<noteq> x \<Longrightarrow> x \<in> set (xs[i := y])"
  by (metis in_set_conv_nth length_list_update nth_list_update_neq)

lemma refs_ok_cong [simp]:
  "refs_ok (log_alert l c s) = refs_ok s" "refs_ok (s\<lparr>hw_active := b\<rparr>) = refs_ok s"
  "refs_ok (s\<lparr>scheduled := n\<rparr>) = refs_ok s" "refs_ok (s\<lparr>node_active := b\<rparr>) = refs_ok s"
  "refs_ok (s\<lparr>lock := l'\<rparr>) = refs_ok s" "refs_ok (s\<lparr>active_session := a\<rparr>) = refs_ok s"
  by (simp_all add: refs_ok_def)

lemma leak_inv_cong [simp]:
  "leak_inv (log_alert l c s) = leak_inv s" "leak_inv (s\<lparr>hw_active := b\<rparr>) = leak_inv s"
  "leak_inv (s\<lparr>scheduled := n\<rparr>) = leak_inv s" "leak_inv (s\<lparr>node_active := b\<rparr>) = leak_inv s"
  "leak_inv (s\<lparr>lock := l'\<rparr>) = leak_inv s" "leak_inv (s\<lparr>active_session := a\<rparr>) = leak_inv s"
  by (simp_all add: leak_inv_def owned_def)

lemma refs_ok_set: "refs_ok s \<Longrightarrow> ctx_ref (length (contexts s)) pc \<Longrightarrow> refs_ok (set_request r pc s)"
  by (simp add: refs_ok_def list_all_update)

lemma refs_ok_refuse: "refs_ok s \<Longrightarrow> refs_ok (refuse r m s)"
  by (simp add: refuse_def refs_ok_set)

lemma refs_ok_destroy:
  assumes "refs_ok s" "k < length (contexts s)"
  shows "refs_ok (snd (destroy_context k s))"
proof -
  have "ctx_ok (contexts s ! k)" using assms by (simp add: refs_ok_def list_all_length)
  then show ?thesis using assms destroy_closes [of "contexts s ! k"]
    by (simp add: refs_ok_def destroy_context_contexts list_all_update)
qed

lemma leak_inv_set:
  assumes "leak_inv s" "\<And>k. requests s ! r = RqStart k \<Longrightarrow> k < length (contexts s) \<Longrightarrow> \<not> ctx_open (contexts s ! k)"
  shows "leak_inv (set_request r pc s)"
  unfolding leak_inv_def
proof (intro allI impI)
  fix k assume k: "k < length (contexts (set_request r pc s))" "ctx_open (contexts (set_request r pc s) ! k)"
  then have "requests s ! r \<noteq> RqStart k" using assms(2) [of k] by auto
  moreover have "owned s k" using k assms(1) by (simp add: leak_inv_def)
  ultimately show "owned (set_request r pc s) k" by (auto simp: owned_def intro: set_update_keep)
qed

lemma leak_inv_refuse:
  "leak_inv s \<Longrightarrow> (\<And>k. requests s ! r = RqStart k \<Longrightarrow> k < length (contexts s) \<Longrightarrow> \<not> ctx_open (contexts s ! k)) \<Longrightarrow>
   leak_inv (refuse r m s)"
  unfolding refuse_def by (rule leak_inv_set) simp_all

lemma leak_inv_moves:
  "leak_inv s \<Longrightarrow> \<forall>k. requests s ! r \<noteq> RqStart k \<Longrightarrow> leak_inv (set_request r pc s)"
  "leak_inv s \<Longrightarrow> \<forall>k. requests s ! r \<noteq> RqStart k \<Longrightarrow> leak_inv (refuse r m s)"
  by (auto intro: leak_inv_set leak_inv_refuse)

lemmas ctx_moves = leak_inv_moves refs_ok_set refs_ok_refuse

lemma leak_inv_destroy:
  assumes "refs_ok s" "leak_inv s" "k < length (contexts s)"
  shows "leak_inv (snd (destroy_context k s))" and "\<not> ctx_open (contexts (snd (destroy_context k s)) ! k)"
proof -
  have closed: "\<not> ctx_open (snd (destroy (contexts s ! k)))"
    using assms(1,3) by (intro destroy_closes [THEN conjunct1]) (simp add: refs_ok_def list_all_length)
  then show "\<not> ctx_open (contexts (snd (destroy_context k s)) ! k)" using assms(3) by (simp add: destroy_context_contexts)
  show "leak_inv (snd (destroy_context k s))" using assms(2,3) closed
    by (auto simp: leak_inv_def owned_def destroy_context_contexts nth_list_update)
qed

lemma created_context:
  "creation_context (create_session (fst (create libs ids ce args))) = Some c \<Longrightarrow> ctx_ok c"
  by (auto simp: create_session_def create_def PeerTCP_init_def tcp_listen_def tcp_dial_def res_bind_Inr
      ctx_ok_def create_stream_def udp_dial_def
      split: sum.splits option.splits prod.splits nng_result.splits)

lemma request_create_ctx:
  assumes "refs_ok s" "leak_inv s" "r < length (requests s)" "requests s ! r = RqCreate"
  shows "refs_ok (request_create libs ids r ce args s) \<and> leak_inv (request_create libs ids r ce args s)"
proof (cases "creation_context (create_session (fst (create libs ids ce args)))")
  case None
  then show ?thesis using assms by (simp add: request_create_def ctx_moves)
next
  case (Some c)
  let ?s = "s\<lparr>contexts := contexts s @ [c]\<rparr>"
  have new: "request_create libs ids r ce args s = set_request r (RqStart (length (contexts s))) ?s"
    by (simp add: request_create_def Some)
  have "refs_ok ?s" using assms(1) created_context [OF Some]
    by (auto simp: refs_ok_def list_all_iff intro: ctx_ref_mono)
  moreover have "leak_inv (set_request r (RqStart (length (contexts s))) ?s)"
    unfolding leak_inv_def
  proof (intro allI impI)
    fix k assume k: "k < length (contexts (set_request r (RqStart (length (contexts s))) ?s))"
      "ctx_open (contexts (set_request r (RqStart (length (contexts s))) ?s) ! k)"
    show "owned (set_request r (RqStart (length (contexts s))) ?s) k"
    proof (cases "k = length (contexts s)")
      case True
      then show ?thesis using assms(3) by (simp add: owned_def set_update_memI)
    next
      case False
      with k have "owned s k" using assms(2) by (simp add: leak_inv_def nth_append less_Suc_eq)
      then show ?thesis using assms(4) by (auto simp: owned_def intro: set_update_keep)
    qed
  qed
  ultimately show ?thesis unfolding new by (simp add: refs_ok_set)
qed

lemma request_start_ctx:
  assumes "refs_ok s" "leak_inv s" "r < length (requests s)" "requests s ! r = RqStart k"
  shows "refs_ok (request_start r k raised s) \<and> leak_inv (request_start r k raised s)"
proof -
  have k: "k < length (contexts s)" using assms(1,3,4) by (force simp: refs_ok_def list_all_length)
  have refused: "refs_ok (refuse r m (snd (destroy_context k s))) \<and> leak_inv (refuse r m (snd (destroy_context k s)))" for m
    using refs_ok_destroy [OF assms(1) k] leak_inv_destroy [OF assms(1,2) k] assms(4)
    by (auto intro!: refs_ok_refuse leak_inv_refuse)
  show ?thesis
  proof (cases "lock s = None \<and> active_session s = None \<and> raised = None")
    case True
    let ?s = "request_start r k raised s"
    have "leak_inv ?s" unfolding leak_inv_def
    proof (intro allI impI)
      fix j assume "j < length (contexts ?s)" "ctx_open (contexts ?s ! j)"
      then have "owned s j" using assms(2) True by (simp add: leak_inv_def request_start_def)
      then show "owned ?s j" using True assms(4)
        by (cases "j = k") (auto simp: owned_def request_start_def intro: set_update_keep)
    qed
    moreover have "refs_ok ?s" using assms(1) True k by (simp add: refs_ok_def request_start_def list_all_update)
    ultimately show ?thesis by blast
  next
    case False
    then show ?thesis using assms(1,2) refused by (auto simp: request_start_def split: option.splits)
  qed
qed

lemma req_step_ctx:
  assumes "refs_ok s" "leak_inv s" "r < length (requests s)"
  shows "refs_ok (req_step libs ids r link ce args raised s) \<and> leak_inv (req_step libs ids r link ce args raised s)"
proof (cases "requests s ! r")
  case RqEntry
  then show ?thesis using assms by (simp add: req_step_def request_entry_def ctx_moves Let_def)
next
  case RqCheck
  then show ?thesis using assms by (simp add: req_step_def request_check_def ctx_moves)
next
  case RqCriteria
  then show ?thesis using assms by (simp add: req_step_def request_criteria_def ctx_moves split: option.splits sum.splits)
next
  case RqCreate
  then show ?thesis using request_create_ctx [OF assms] by (simp add: req_step_def)
next
  case (RqStart k)
  then show ?thesis using request_start_ctx [OF assms] by (simp add: req_step_def)
next
  case (RqAlive k h)
  have k: "k < length (contexts s)" using assms(1,3) RqAlive by (force simp: refs_ok_def list_all_length)
  then show ?thesis using assms RqAlive refs_ok_destroy [OF assms(1) k] leak_inv_destroy(1) [OF assms(1,2) k]
    by (simp add: req_step_def request_alive_def ctx_moves)
next
  case (RqActivate h)
  then show ?thesis using assms by (simp add: req_step_def request_activate_def ctx_moves Let_def)
qed (simp_all add: req_step_def assms)

text \<open>A handle that keeps its context, and gives it up only when it is closed.\<close>

lemma handle_update_ctx:
  assumes "refs_ok s" "leak_inv s" "h < length (handles s)" "h_ctx g = h_ctx (handles s ! h)"
    and "owns (h_pc (handles s ! h)) \<Longrightarrow> owns (h_pc g) \<or> \<not> ctx_open (contexts s ! h_ctx (handles s ! h))"
  shows "refs_ok (s\<lparr>handles := (handles s)[h := g]\<rparr>) \<and> leak_inv (s\<lparr>handles := (handles s)[h := g]\<rparr>)"
proof
  have "h_ctx (handles s ! h) < length (contexts s)" using assms(1,3) by (simp add: refs_ok_def list_all_length)
  then show "refs_ok (s\<lparr>handles := (handles s)[h := g]\<rparr>)" using assms(1,4) by (simp add: refs_ok_def list_all_update)
  show "leak_inv (s\<lparr>handles := (handles s)[h := g]\<rparr>)" unfolding leak_inv_def
  proof (intro allI impI)
    fix k assume k: "k < length (contexts (s\<lparr>handles := (handles s)[h := g]\<rparr>))"
      "ctx_open (contexts (s\<lparr>handles := (handles s)[h := g]\<rparr>) ! k)"
    then have "owned s k" using assms(2) by (simp add: leak_inv_def)
    then consider "RqStart k \<in> set (requests s)" | j where "j < length (handles s)" "h_ctx (handles s ! j) = k" "owns (h_pc (handles s ! j))"
      by (auto simp: owned_def in_set_conv_nth)
    then show "owned (s\<lparr>handles := (handles s)[h := g]\<rparr>) k"
    proof cases
      case 2
      show ?thesis
      proof (cases "j = h")
        case True
        then show ?thesis using 2 k assms(3-5) by (auto simp: owned_def intro!: bexI [of _ g] set_update_memI)
      next
        case False
        then have "handles s ! j \<in> set ((handles s)[h := g])" using 2(1)
          by (metis length_list_update nth_list_update_neq nth_mem)
        then show ?thesis using 2 by (auto simp: owned_def)
      qed
    qed (simp add: owned_def)
  qed
qed

lemma cleanup_step_ctx:
  assumes "refs_ok s" "leak_inv s" "h < length (handles s)"
  shows "refs_ok (cleanup_step h x s) \<and> leak_inv (cleanup_step h x s)"
proof -
  have cbs: "cleanup_cbs s = create_session_manager" using assms(1) by (simp add: refs_ok_def)
  have k: "h_ctx (handles s ! h) < length (contexts s)" using assms(1,3) by (simp add: refs_ok_def list_all_length)
  from cbs show ?thesis
  proof (cases rule: cleanup_step_cases [of s h x])
    case (own k)
    then show ?thesis unfolding own set_pc_def using assms by (intro handle_update_ctx) simp_all
  next
    case manager
    let ?s = "cleanup_active_session h s"
    have "refs_ok ?s" "leak_inv ?s"
      using refs_ok_destroy [OF assms(1) k] leak_inv_destroy(1) [OF assms(1,2) k]
      by (simp_all add: cleanup_active_session_def split_beta)
    moreover have "\<not> ctx_open (contexts ?s ! h_ctx (handles ?s ! h))" using leak_inv_destroy(2) [OF assms(1,2) k] by simp
    ultimately show ?thesis unfolding manager set_pc_def using assms(3) by (intro handle_update_ctx) simp_all
  next
    case (after pc n)
    let ?s = "s\<lparr>scheduled := n\<rparr>"
    have "refs_ok ?s" "leak_inv ?s" using assms by simp_all
    then show ?thesis unfolding after set_pc_def using assms(3) after(1) by (intro handle_update_ctx) simp_all
  qed (simp add: assms)
qed

definition ctx_inv :: "SessManager \<Rightarrow> bool" where
  "ctx_inv s \<longleftrightarrow> refs_ok s \<and> leak_inv s"

lemma sm_step_ctx: "ctx_inv s \<Longrightarrow> ctx_inv (sm_step libs ids s e)"
proof (cases e)
  case Request
  assume "ctx_inv s"
  then show ?thesis by (auto simp: Request ctx_inv_def refs_ok_def leak_inv_def owned_def)
next
  case (RunEnds h crash)
  assume i: "ctx_inv s"
  then show ?thesis
  proof (cases "h < length (handles s) \<and> h_pc (handles s ! h) = RunBody")
    case True
    then show ?thesis using i handle_update_ctx [of s h "(handles s ! h)\<lparr>h_crash := crash, h_pc := CleanupAt 0\<rparr>"]
      by (simp add: RunEnds ctx_inv_def run_ends_def)
  qed (auto simp: RunEnds)
next
  case (RunScheduled link)
  assume "ctx_inv s"
  then show ?thesis by (simp add: RunScheduled ctx_inv_def cleanup_session_def split: option.splits sum.splits)
next
  case Terminate
  assume i: "ctx_inv s"
  show ?thesis
  proof (cases "lock s = None \<and> active_session s \<noteq> None")
    case True
    then obtain h where h: "active_session s = Some h" by auto
    show ?thesis
    proof (cases "h < length (handles s)")
      case True
      let ?s = "s\<lparr>active_session := None\<rparr>"
      have "refs_ok ?s" "leak_inv ?s" using i by (simp_all add: ctx_inv_def)
      with True have "refs_ok (?s\<lparr>handles := (handles ?s)[h := request_stop (handles ?s ! h)]\<rparr>)
          \<and> leak_inv (?s\<lparr>handles := (handles ?s)[h := request_stop (handles ?s ! h)]\<rparr>)"
        by (intro handle_update_ctx) (simp_all add: request_stop_def)
      then show ?thesis using \<open>lock s = None \<and> active_session s \<noteq> None\<close> h by (simp add: Terminate ctx_inv_def terminate_session_def)
    next
      case False
      then show ?thesis using i h
        by (simp add: Terminate terminate_session_def ctx_inv_def list_update_beyond refs_ok_def leak_inv_def owned_def)
    qed
  next
    case False
    then show ?thesis using i by (auto simp: Terminate terminate_session_def)
  qed
qed (simp_all add: ctx_inv_def on_activate_def on_deactivate_def on_shutdown_def on_error_def req_step_ctx cleanup_step_ctx)

interpretation sm: event_machine "sm_step libs ids" ctx_inv for libs ids
  by unfold_locales (rule sm_step_ctx)

lemma init_ctx: "ctx_inv SessManager_init"
  by (simp add: SessManager_init_def ctx_inv_def refs_ok_def leak_inv_def)

section \<open>A stale active session\<close>

text \<open>The active session's thread has given up its context: nothing but \<open>terminate_session\<close> resets it.\<close>

definition stale :: "nat \<Rightarrow> SessManager \<Rightarrow> bool" where
  "stale h s \<longleftrightarrow> active_session s = Some h \<and> h < length (handles s) \<and> \<not> owns (h_pc (handles s ! h))"

lemma stale_no_owner:
  assumes "lock_inv s" "excl_inv s" "stale h s"
  shows "lock s = None" and "j < length (handles s) \<Longrightarrow> \<not> owns (h_pc (handles s ! j))"
proof -
  show l: "lock s = None" using assms(1,3) by (cases "lock s") (simp_all add: lock_inv_def stale_def)
  show "\<not> owns (h_pc (handles s ! j))" if "j < length (handles s)"
    using assms(2,3) l that by (auto simp: excl_inv_def stale_def)
qed

lemma stale_req:
  assumes "lock_inv s" "stale h s" "lock s = None" "r < length (requests s)"
  shows "stale h (req_step libs ids r link ce args raised s) \<and> handles (req_step libs ids r link ce args raised s) = handles s"
proof -
  have st: "starting (requests s ! r) = None" using assms(1,3,4) by (simp add: lock_inv_def)
  show ?thesis using assms(2,3) st
    by (cases "requests s ! r")
      (simp_all add: req_step_def request_entry_def request_check_def request_criteria_def request_create_def request_start_def
        stale_def Let_def split: option.splits sum.splits)
qed

lemma stale_step:
  assumes "lock_inv s" "excl_inv s" "stale h s" "e \<noteq> Terminate"
  shows "stale h (sm_step libs ids s e) \<and> length (handles (sm_step libs ids s e)) = length (handles s)"
proof (cases e)
  case (ReqStep r link ce args raised)
  then show ?thesis using stale_req [OF assms(1,3) stale_no_owner(1) [OF assms(1-3)], of r libs ids link ce args raised] assms(3) by simp
next
  case (RunEnds j crash)
  then show ?thesis using stale_no_owner(2) [OF assms(1-3), of j] assms(3) by auto
next
  case (CleanupStep j x)
  show ?thesis
  proof (cases "j < length (handles s)")
    case True
    have n: "\<not> owns (h_pc (handles s ! j))" by (rule stale_no_owner(2) [OF assms(1-3) True])
    have "cleanup_cbs s = create_session_manager" using assms(2) by (simp add: excl_inv_def)
    then show ?thesis
    proof (cases rule: cleanup_step_cases [of s j x])
      case (after pc m)
      then show ?thesis using assms(3) True by (simp add: CleanupStep stale_def)
    qed (use n assms(3) CleanupStep True in auto)
  qed (use assms(3) CleanupStep in simp)
next
  case (RunScheduled link)
  then show ?thesis using assms(3) by (simp add: stale_def cleanup_session_def split: option.splits sum.splits)
qed (use assms in \<open>simp_all add: stale_def on_activate_def on_deactivate_def on_shutdown_def on_error_def\<close>)

lemma stale_forever:
  "lock_inv s \<Longrightarrow> excl_inv s \<Longrightarrow> stale h s \<Longrightarrow> Terminate \<notin> set es \<Longrightarrow>
   stale h (foldl (sm_step libs ids) s es) \<and> length (handles (foldl (sm_step libs ids) s es)) = length (handles s)"
proof (induction es arbitrary: s)
  case (Cons e es)
  have e: "e \<noteq> Terminate" "Terminate \<notin> set es" using Cons.prems(4) by auto
  from Cons.IH [of "sm_step libs ids s e"] sm_step_inv [OF Cons.prems(1,2) e(1), of libs ids]
    stale_step [OF Cons.prems(1-3) e(1), of libs ids] e(2)
  show ?case by simp
qed simp

section \<open>Concrete runs\<close>

definition sample_link :: lc_link where
  "sample_link = \<lparr>get_ready = True, change_ready = True, get_answers = [], change_answers = (\<lambda>_. [WfDone True]),
     get_sync = Inr None, change_sync = (\<lambda>_. Inr None)\<rparr>"

definition sample_net :: create_env where
  "sample_net = \<lparr>token = [1], listen_result = NngDone (), listen_port = Some 5000, bind_raised = None, connect_raised = None,
     bound_port = Some 5001\<rparr>"

definition sample_args :: ACSessionCreationArguments where
  "sample_args = \<lparr>client_ip = ''10.0.0.2'', client_udp_port = 7000\<rparr>"

abbreviation go :: "nat \<Rightarrow> sm_event" where
  "go r \<equiv> ReqStep r sample_link sample_net sample_args None"

text \<open>A request served up to the \<open>is_alive\<close> test.\<close>

definition until_alive :: "sm_event list" where
  "until_alive = [Activate, Request, go 0, go 0, go 0, go 0, go 0, go 0]"

definition thread_ends :: "nat \<Rightarrow> sm_event list" where
  "thread_ends h = RunEnds h None # replicate 5 (CleanupStep h True)"

definition sample_ctx :: "'o codec_libs \<Rightarrow> id_table \<Rightarrow> ACSessionContext" where
  "sample_ctx libs ids =
     \<lparr>ctx_tcp = \<lparr>proto = SecureWireProtocol_init [1], peer_init = True, drops = 0, recv_timeout = 5000, send_timeout = 5000,
                 block_on_recv = True, block_on_send = True, sock_closed = False\<rparr>,
      ctx_tcp_port = 5000,
      ctx_stream = \<lparr>proto = SecureWireProtocol_init [1], peer_init = True, drops = 0,
                    udp = \<lparr>endpoint_timeout = 5, peer_addr = Some (''10.0.0.2'', 7000), endpoint_closed = False\<rparr>\<rparr>,
      ctx_stream_port = 5001, ctx_codec = decoder_for libs session_classes ids, session_secret = [1]\<rparr>"

lemma sample_create: "fst (create libs ids sample_net sample_args) = Inr (Some (sample_ctx libs ids))"
  by (simp add: create_def sample_net_def PeerTCP_init_def validate_timeout_def py_int_def tcp_listen_def tcp_dial_def
      require_not_initialized_def create_stream_def PeerUDP_init_def udp_set_timeout_def endpoint_set_timeout_def
      UDPEndpoint_init_def udp_dial_def endpoint_connect_def sample_args_def set_blocking_def sample_ctx_def)

lemma sample_criteria: "validate_session_request_criteria sample_link = Some (Inr True)"
  by (simp add: validate_session_request_criteria_def is_ready_def sample_link_def call_change_state_async_def wait_future_def
      response_of_def)

lemma sample_destroy: "fst (destroy (sample_ctx libs ids)) = Inr ()"
  by (simp add: destroy_def sample_ctx_def tcp_close_def udp_close_def require_initialized_def)

lemmas sm_eval = request_entry_def request_check_def request_criteria_def request_create_def request_start_def request_alive_def
  request_activate_def req_step_def sample_create sample_criteria create_session_def on_activate_def log_alert_def
  set_request_def is_alive_def Let_def

lemma until_alive_state:
  "sm_run libs ids until_alive =
     SessManager_init\<lparr>node_active := True, lock := Some 0, contexts := [sample_ctx libs ids],
       handles := [\<lparr>h_ctx = 0, h_stop_request = False, h_pc = RunBody, h_crash = None\<rparr>], requests := [RqActivate 0],
       hw_active := True, alert_log := [(Level_INFO, INF_SESSION_CREATION_REQUEST)]\<rparr>"
  by (simp add: until_alive_def SessManager_init_def sm_eval)

lemma cbs_list: "create_session_manager = [DefaultCleanup, NodeCleanup, ManagerCleanup, UserCleanup]"
  by (simp add: create_session_manager_def ACSessionRunner_init_def SessionRunner_init_def add_session_cleanup_cb_def)

lemma cleanup_at:
  "h_pc (handles s ! h) = CleanupAt k \<Longrightarrow> k < length (cleanup_cbs s) \<Longrightarrow>
   cleanup_step h x s = set_pc h (CleanupAt (Suc k)) (run_cleanup_cb (cleanup_cbs s ! k) x h s)"
  "h_pc (handles s ! h) = CleanupAt k \<Longrightarrow> \<not> k < length (cleanup_cbs s) \<Longrightarrow> cleanup_step h x s = set_pc h ThreadDone s"
  by (simp_all add: cleanup_step_def)

text \<open>The end of a thread, from its last step in the body to the end of its five cleanup steps.\<close>

lemma destroy_context_success:
  "peer_init (ctx_tcp (contexts s ! k)) \<Longrightarrow> peer_init (ctx_stream (contexts s ! k)) \<Longrightarrow>
   destruction_success (fst (destroy_context k s))"
  by (simp add: destroy_context_def destroy_def tcp_close_def udp_close_def require_initialized_def destroy_session_def)

lemma cleanup_active_None: "active_session s = None \<Longrightarrow> active_session (cleanup_active_session h s) = None"
  using cleanup_active_cases [of h s] by simp

lemma five: "replicate 5 x = [x, x, x, x, x]"
  by (simp add: numeral_eq_Suc)

lemma thread_end_steps:
  assumes "cleanup_cbs s = create_session_manager" "h < length (handles s)" "h_pc (handles s ! h) = RunBody"
  shows "foldl (sm_step libs ids) s (RunEnds h crash # replicate 5 (CleanupStep h x)) =
    set_pc h ThreadDone (run_cleanup_cb UserCleanup x h (set_pc h (CleanupAt 3)
      (cleanup_active_session h (set_pc h (CleanupAt 2) (run_ends h crash s)))))"
  using assms
  by (simp add: five run_ends_def cleanup_at set_pc_def run_cleanup_cb_def cbs_list numeral_2_eq_2 numeral_3_eq_3
      del: cleanup_cbs_len)

lemma thread_ends_before_assignment:
  assumes "lock_inv s" "excl_inv s" "r < length (requests s)" "requests s ! r = RqActivate h"
    and "h_pc (handles s ! h) = RunBody"
  shows "\<not> is_alive (handles (foldl (sm_step libs ids) s (RunEnds h crash # replicate 5 (CleanupStep h x))) ! h)
    \<and> active_session (foldl (sm_step libs ids) s (RunEnds h crash # replicate 5 (CleanupStep h x))) = None
    \<and> requests (foldl (sm_step libs ids) s (RunEnds h crash # replicate 5 (CleanupStep h x))) = requests s
    \<and> length (handles (foldl (sm_step libs ids) s (RunEnds h crash # replicate 5 (CleanupStep h x)))) = length (handles s)
    \<and> h < length (handles s)"
proof -
  have l: "lock s = Some r" "active_session s = None" "h < length (handles s)"
    using assms(1,3,4) by (auto simp: lock_inv_def)
  have c: "cleanup_cbs s = create_session_manager" using assms(2) by (simp add: excl_inv_def)
  show ?thesis unfolding thread_end_steps [OF c l(3) assms(5)]
    using l by (simp add: is_alive_def run_cleanup_cb_def cleanup_active_None run_ends_def)
qed

text \<open>The example session answered, and then ended.\<close>

lemma served_state:
  "handles (sm_run libs ids (until_alive @ [go 0] @ thread_ends 0)) = [\<lparr>h_ctx = 0, h_stop_request = False, h_pc = ThreadDone, h_crash = None\<rparr>]
   \<and> (\<exists>resp. requests (sm_run libs ids (until_alive @ [go 0] @ thread_ends 0)) = [RqDone resp])"
  unfolding foldl_append until_alive_state thread_ends_def five
  by (simp add: run_ends_def cleanup_at set_pc_def run_cleanup_cb_def SessManager_init_def cbs_list sm_eval
      cleanup_active_session_def destroy_context_def split_beta sample_destroy destroy_session_def del: cleanup_cbs_len)

lemma served_all:
  "list_all (\<lambda>pc. (\<exists>resp. pc = RqDone resp) \<or> (\<exists>e. pc = RqRaised e))
     (requests (sm_run libs ids (until_alive @ [go 0] @ thread_ends 0)))"
  "list_all (\<lambda>h. h_pc h = ThreadDone) (handles (sm_run libs ids (until_alive @ [go 0] @ thread_ends 0)))"
proof -
  obtain resp where *: "requests (sm_run libs ids (until_alive @ [go 0] @ thread_ends 0)) = [RqDone resp]"
    using served_state [of libs ids] by blast
  show "list_all (\<lambda>pc. (\<exists>resp. pc = RqDone resp) \<or> (\<exists>e. pc = RqRaised e))
      (requests (sm_run libs ids (until_alive @ [go 0] @ thread_ends 0)))"
    unfolding * by simp
  show "list_all (\<lambda>h. h_pc h = ThreadDone) (handles (sm_run libs ids (until_alive @ [go 0] @ thread_ends 0)))"
    unfolding served_state [THEN conjunct1] by simp
qed

section \<open>Properties\<close>

text \<open>
  C18. At most one session runs: whatever requests, session ends, cleanups and lifecycle calls
  interleave, no two session threads are in their body at the same time, as long as nobody calls
  \<open>terminate_session\<close>.
\<close>

theorem at_most_one_session_runs:
  assumes "Terminate \<notin> set es"
  shows "length (filter (\<lambda>h. h_pc h = RunBody) (handles (sm_run libs ids es))) \<le> 1"
proof -
  let ?s = "sm_run libs ids es"
  let ?running = "{h. h < length (handles ?s) \<and> h_pc (handles ?s ! h) = RunBody}"
  have inv: "lock_inv ?s" "excl_inv ?s" using sm_run_inv [OF assms, of libs ids] by blast+
  have "h = j" if "h \<in> ?running" "j \<in> ?running" for h j
    using that only_owner [OF inv, of j h] by simp
  then have "card ?running \<le> 1" using card_le_Suc0_iff_eq [of ?running] by auto
  then show ?thesis by (simp add: length_filter_conv_card)
qed

theorem at_most_one_session_runs_witness:
  "length (handles (sm_run plain_libs [] until_alive)) = 1
   \<and> length (filter (\<lambda>h. h_pc h = RunBody) (handles (sm_run plain_libs [] until_alive))) \<le> 1"
proof -
  have "Terminate \<notin> set until_alive" by (simp add: until_alive_def)
  from at_most_one_session_runs [OF this, of plain_libs "[]"] show ?thesis by (simp add: until_alive_state)
qed

text \<open>
  C19. No session resource leaks: in every reachable state, also with \<open>terminate_session\<close>, a session
  context of which the TCP socket or the datagram socket is still open is held by a request that is
  about to start it or by a session thread that has not run its manager cleanup, and once every
  request is answered or has raised and all threads are gone, both sockets of every context that was
  ever created are closed.
\<close>

theorem no_context_leaks:
  "let s = sm_run libs ids es
   in (\<forall>k < length (contexts s).
         \<not> sock_closed (ctx_tcp (contexts s ! k)) \<or> \<not> endpoint_closed (udp (ctx_stream (contexts s ! k))) \<longrightarrow>
         RqStart k \<in> set (requests s) \<or> (\<exists>h \<in> set (handles s). h_ctx h = k \<and> owns (h_pc h)))
    \<and> (list_all (\<lambda>pc. (\<exists>resp. pc = RqDone resp) \<or> (\<exists>e. pc = RqRaised e)) (requests s)
         \<and> list_all (\<lambda>h. h_pc h = ThreadDone) (handles s)
         \<longrightarrow> list_all (\<lambda>c. sock_closed (ctx_tcp c) \<and> endpoint_closed (udp (ctx_stream c))) (contexts s))"
proof -
  have "ctx_inv (sm_run libs ids es)" by (rule sm.run_inv [OF init_ctx])
  then have leak: "\<forall>k < length (contexts (sm_run libs ids es)). ctx_open (contexts (sm_run libs ids es) ! k) \<longrightarrow> owned (sm_run libs ids es) k"
    by (simp add: ctx_inv_def leak_inv_def)
  have "\<not> owned s k" if "list_all (\<lambda>pc. (\<exists>resp. pc = RqDone resp) \<or> (\<exists>e. pc = RqRaised e)) (requests s)"
    "list_all (\<lambda>h. h_pc h = ThreadDone) (handles s)" for s k
    using that by (fastforce simp: owned_def list_all_iff)
  with leak show ?thesis unfolding Let_def owned_def [symmetric] by (auto simp: list_all_length ctx_open_def)
qed

text \<open>The session of the example runs, its thread gone after the answer.\<close>

theorem no_context_leaks_witness:
  "(\<exists>h \<in> set (handles (sm_run plain_libs [] until_alive)). h_ctx h = 0 \<and> owns (h_pc h))
   \<and> list_all (\<lambda>c. sock_closed (ctx_tcp c) \<and> endpoint_closed (udp (ctx_stream c)))
       (contexts (sm_run plain_libs [] (until_alive @ [go 0] @ thread_ends 0)))"
proof -
  have "\<not> sock_closed (ctx_tcp (contexts (sm_run plain_libs [] until_alive) ! 0))" "0 < length (contexts (sm_run plain_libs [] until_alive))"
    "\<not> RqStart 0 \<in> set (requests (sm_run plain_libs [] until_alive))"
    by (simp_all add: until_alive_state sample_ctx_def)
  then have "\<exists>h \<in> set (handles (sm_run plain_libs [] until_alive)). h_ctx h = 0 \<and> owns (h_pc h)"
    using no_context_leaks [of plain_libs "[]" until_alive] by (metis (lifting))
  moreover have "list_all (\<lambda>pc. (\<exists>resp. pc = RqDone resp) \<or> (\<exists>e. pc = RqRaised e))
        (requests (sm_run plain_libs [] (until_alive @ [go 0] @ thread_ends 0)))"
    "list_all (\<lambda>h. h_pc h = ThreadDone) (handles (sm_run plain_libs [] (until_alive @ [go 0] @ thread_ends 0)))"
    by (rule served_all)+
  ultimately show ?thesis
    using no_context_leaks [of plain_libs "[]" "until_alive @ [go 0] @ thread_ends 0"] unfolding Let_def by blast
qed

text \<open>
  C38. The end of a session can be lost. Take any reachable state without \<open>terminate_session\<close> in
  which a request has found its session thread alive and has not yet assigned \<open>active_session\<close>, and
  the thread is still in its body. If the thread now ends and runs its cleanups before the assignment
  (the cleanup resets \<open>active_session\<close> without the lock that the request holds), the session is dead
  and no session is active; the assignment then makes the dead session the active one, the client is
  told that its session began, and from then on no request ever starts a session again.
\<close>

theorem session_end_race_wedges_manager:
  fixes libs ids link ce args raised later h x crash
  assumes "Terminate \<notin> set es" and "r < length (requests (sm_run libs ids es))"
    and "requests (sm_run libs ids es) ! r = RqActivate h"
    and "h_pc (handles (sm_run libs ids es) ! h) = RunBody" and "Terminate \<notin> set later"
  defines "ended \<equiv> foldl (sm_step libs ids) (sm_run libs ids es) (RunEnds h crash # replicate 5 (CleanupStep h x))"
    and "assigned \<equiv> foldl (sm_step libs ids) (sm_run libs ids es)
      (RunEnds h crash # replicate 5 (CleanupStep h x) @ [ReqStep r link ce args raised])"
  shows "\<not> is_alive (handles ended ! h) \<and> active_session ended = None \<and> requests ended ! r = RqActivate h
    \<and> (\<exists>resp. requests assigned ! r = RqDone resp \<and> resp_success resp)
    \<and> active_session (foldl (sm_step libs ids) assigned later) = Some h
    \<and> length (handles (foldl (sm_step libs ids) assigned later)) = length (handles (sm_run libs ids es))"
proof -
  let ?s = "sm_run libs ids es"
  have inv: "lock_inv ?s" "excl_inv ?s" using sm_run_inv [OF assms(1), of libs ids] by blast+
  have e: "\<not> is_alive (handles ended ! h)" "active_session ended = None" "requests ended = requests ?s"
    "length (handles ended) = length (handles ?s)" "h < length (handles ?s)"
    unfolding ended_def using thread_ends_before_assignment [OF inv assms(2-4)] by blast+
  have d: "assigned = request_activate r h ended"
    using assms(2,3) e(3) by (simp add: assigned_def ended_def req_step_def)
  have after: "active_session assigned = Some h" "handles assigned = handles ended"
    "\<exists>resp. requests assigned ! r = RqDone resp \<and> resp_success resp"
    using assms(2) e(3) by (simp_all add: d request_activate_def Let_def)
  have run: "assigned = sm_run libs ids (es @ RunEnds h crash # replicate 5 (CleanupStep h x) @ [ReqStep r link ce args raised])"
    by (simp add: assigned_def)
  have "lock_inv assigned" "excl_inv assigned"
    unfolding run using sm_run_inv [of "es @ RunEnds h crash # replicate 5 (CleanupStep h x) @ [ReqStep r link ce args raised]" libs ids] assms(1)
    by auto
  moreover have "stale h assigned"
    using e after by (simp add: stale_def is_alive_def)
  ultimately have "stale h (foldl (sm_step libs ids) assigned later)
      \<and> length (handles (foldl (sm_step libs ids) assigned later)) = length (handles assigned)"
    using assms(5) by (rule stale_forever)
  then show ?thesis using e after assms(3) by (simp add: stale_def)
qed

theorem session_end_race_wedges_manager_witness:
  "active_session (foldl (sm_step plain_libs []) (sm_run plain_libs [] (until_alive @ thread_ends 0 @ [go 0])) [Request, go 1, go 1]) = Some 0"
proof -
  have "Terminate \<notin> set until_alive" "Terminate \<notin> set [Request, go 1, go 1]" by (simp_all add: until_alive_def)
  from session_end_race_wedges_manager [OF this(1) _ _ _ this(2), of 0 plain_libs "[]" 0 None True sample_link sample_net sample_args None]
  show ?thesis by (simp add: until_alive_state thread_ends_def)
qed

text \<open>
  A failed session leaves the hardware on: the hardware manager is activated before the session's
  resources are created, and when their creation fails the request is refused and nothing is
  scheduled that would deactivate it, so the next activation request finds it active.
\<close>

theorem failed_creation_leaves_hardware_active:
  assumes "r < length (requests s)" and "requests s ! r = RqCriteria"
    and "validate_session_request_criteria link = Some (Inr True)" and "fst (create libs ids ce args) = Inl exc"
  shows "let s' = foldl (sm_step libs ids) s [ReqStep r link ce args raised, ReqStep r link ce args raised]
    in hw_active s' \<and> scheduled s' = scheduled s \<and> handles s' = handles s
     \<and> (case requests s' ! r of RqDone resp \<Rightarrow> \<not> resp_success resp | _ \<Rightarrow> False)"
  using assms
  by (simp add: req_step_def request_criteria_def request_create_def create_session_def refuse_def set_request_def log_alert_def Let_def)

theorem failed_creation_leaves_hardware_active_witness:
  "hw_active (foldl (sm_step plain_libs []) (sm_run plain_libs [] [Activate, Request, go 0, go 0])
     [ReqStep 0 sample_link (sample_net\<lparr>bind_raised := Some ''in use''\<rparr>) sample_args None,
      ReqStep 0 sample_link (sample_net\<lparr>bind_raised := Some ''in use''\<rparr>) sample_args None])"
proof -
  let ?s = "sm_run plain_libs [] [Activate, Request, go 0, go 0]"
  have s: "length (requests ?s) = 1" "requests ?s ! 0 = RqCriteria"
    by (simp_all add: SessManager_init_def sm_eval)
  have "fst (create plain_libs [] (sample_net\<lparr>bind_raised := Some ''in use''\<rparr>) sample_args) = Inl SessionCreationError"
    by (simp add: create_def sample_net_def PeerTCP_init_def validate_timeout_def py_int_def tcp_listen_def tcp_dial_def
        require_not_initialized_def create_stream_def set_blocking_def)
  moreover have "0 < length (requests ?s)" using s(1) by (simp only: zero_less_one)
  ultimately show ?thesis
    using failed_creation_leaves_hardware_active [OF _ s(2) sample_criteria, of plain_libs "[]"
        "sample_net\<lparr>bind_raised := Some ''in use''\<rparr>" sample_args SessionCreationError None]
    unfolding Let_def by blast
qed

end
