(* ===== verification/Spec2Isabelle.thy ===== *)
theory Spec2Isabelle
  imports AlertDict Diagnostics DatabusSelfTest StatusDisplay SdkGen BehaviorPlay Launch BuiltinPlugins ConfigPath SafeUdp AnimaDummy BehaviorSupport McuDrivers ActTable AsyncRunner RosAsync Plugins SessClient Supervisor HwManager SessionMng
begin

text \<open>
  A verification library for the animacharacter server: the software that runs an animatronic
  character on ROS 2, its libraries for talking to remote clients, and the wire formats they share.
  All paths are below \<open>src/src/\<close>; \<open>ros2_ws\<close> is \<open>animacharacter_server/ros2_ws/src\<close>.

  \<^bold>\<open>The program and its parts.\<close>
  A supervisor process boots the system over the lifecycle services of the other nodes, keeps a
  state machine of the whole system, collects alerts and heartbeats, and shuts everything down on a
  fatal fault. The hardware manager process loads controller plugins, runs each in a loop thread of
  its own, drives every controller towards a goal state, and hands motion commands and
  configurations to the controllers that subscribed to them. The session manager process admits one
  remote client at a time over HTTP, and runs a session that forwards the client's authenticated
  motion frames and configurations to the topics the hardware manager listens to.

  \<^bold>\<open>Theories.\<close>
  \<^item> \<open>Prelude\<close>: Python dictionaries as association lists, exceptions as sums, byte strings and the
    integer conversions, string splitting; the locales \<open>event_machine\<close> (a step that keeps an
    invariant) and \<open>refined_machine\<close> (a step that implements an abstract one), which the state
    machines below interpret.
  \<^item> \<open>SystemCommons\<close>: alert codes, exit codes, process names (\<open>libs/system_commons\<close>).
  \<^item> \<open>Alerts\<close>: alerts and their messages, the server with its table of active alerts and start
    times, the client's mirror (\<open>ros2_ws/system_alerts\<close>). The server refines an abstract registry,
    the client mirrors the server, alerts live exactly as long as their time to live.
  \<^item> \<open>StateMachine\<close>: the generic FSM, the event mapping and the system's table and handlers
    (\<open>ros2_ws/orchestration/state_machine\<close>). Moves follow the diagram; events
    enter FAULT exactly by a fatal one and do not leave it.
  \<^item> \<open>Heartbeats\<close>, \<open>LifecycleSup\<close>: heartbeat generator and listener, waiting on futures and remote
    lifecycle calls (\<open>heartbeats\<close>, \<open>lifecycle_sup_utility.py\<close>, \<open>ros_async_utils.py\<close>).
  \<^item> \<open>Supervisor\<close>: all callbacks of \<open>supervisor_node.py\<close> over the four theories above. What
    brings the system to FAULT and out of it; a fault has its shutdown scheduled unless one has raised
    since; loss of a core process or heartbeat is fatal; the boot requests its transitions in order.
  \<^item> \<open>Databus\<close>, \<open>Looper\<close>: typed topics with one writer (\<open>databus\<close>), and loop threads with pause,
    stop and signals as program counters (\<open>looper/looper_util.py\<close>).
  \<^item> \<open>Json\<close>, \<open>HwController\<close>, \<open>Reconciler\<close>, \<open>HwManager\<close>: configuration trees and their helpers, the
    controller base class, the reconciler that drives controllers to their goals, dispatcher,
    entrypoint and node (\<open>ros2_ws/hardware_mng\<close>). One pass converges under cooperating plugins and
    threads, never opens a loop gate over uninitialized hardware, and commands reach exactly their
    subscribers.
  \<^item> \<open>AuthMsg\<close>, \<open>Peers\<close>: signed frames with sequence numbers, the peer base class and its TCP and
    UDP peers (\<open>shared_libs/authmsg\<close>); the locale \<open>peer_transport\<close> is the contract of the base class
    on its derived classes, interpreted for both. No frame is accepted twice or without its tag, and
    a lossy in-order channel loses nothing that arrives.
  \<^item> \<open>PacketCodec\<close>, \<open>Motionframe\<close>: typed packets with UTF-8 written out, and the binary motion
    frames (\<open>shared_libs/packetcodec\<close>, \<open>shared_libs/commons/network\<close>). Round trips, transparency
    of the id cache, agreement of the two motion frame decoders.
  \<^item> \<open>SessionRun\<close>, \<open>SessionMng\<close>: the three tasks of a running session, and the interleaving of
    session requests and session threads in the manager (\<open>ros2_ws/session_mng\<close>). A session acts
    only on authenticated data, carries out a client's commands in order, drops a dead client; at
    most one session runs and no session resource leaks. The theorems also pin down two defects:
    a session end that is lost to a race, and hardware left active by a failed request.
  \<^item> \<open>BehaviorEngine\<close>: registry, scheduler and engine of scripted behaviors (\<open>libs/behavior_engine\<close>).
    The schedule keeps its order, what runs is borrowed and what is borrowed runs; a failed start
    leaks the borrow.
  \<^item> \<open>McuDrivers\<close>: the drivers of the head, body and mock boards (\<open>libs/mcuDrivers\<close>), with floats that
    may be infinite or NaN. The packets sent show the axes written unless a write
    hits a flush at the wrong point, every actuator value is in its range, and three ways in which a
    flush fails.
  \<^item> \<open>BehaviorSupport\<close>: what surrounds the behavior engine: the context with its topics, behaviors written
    as \<open>setup\<close> and \<open>tick\<close>, the deterministic executor with one thread per behavior, and the plugin
    loader. Topics deliver in order, periodic behaviors do not drift, and the deterministic executor
    cannot start any behavior.
  \<^item> \<open>SafeUdp\<close>: the older authenticated datagram socket (\<open>shared_libs/pysafeudp\<close>). No forgery and no replay
    per address, no datagram makes the receiver raise, and what is sent in order is received.
  \<^item> \<open>ConfigTree\<close>, \<open>AnimaDummy\<close>: the client's configuration tree (\<open>json_tree/node.py\<close>) and its model of the
    character (\<open>animadummies\<close>). A published value reaches the handler on the server that subscribed to
    its path; the motion frame of the default character holds every channel but one.
  \<^item> \<open>SessClient\<close>: the client's end of a session (\<open>ac_sess_client/client.py\<close>), two threads that share a peer.
    Its calls are carried out by \<open>SessionRun\<close> when they do not overlap, and a configuration is lost
    when the heartbeat overtakes it.
  \<^item> \<open>RosAsync\<close>: sleeping, waiting with a timeout, one-shot timers and gathering on a ROS node
    (\<open>orchestration/ros_async_utils.py\<close>). Each wait returns the first of completion and timeout, which
    is what \<open>LifecycleSup.wait_future\<close> folds, and no timer outlives its wait.
  \<^item> \<open>AsyncRunner\<close>: the coroutine version of the session runner (\<open>session/runner_async.py\<close>). Every session
    cleans up and its handle reports what happened.
  \<^item> \<open>ActTable\<close>: the actuator tables (\<open>commons/utils.py\<close>, \<open>commons/teodore/table.py\<close>). The table by name
    inverts the table by id, the groups partition the ids, and an empty line empties the table.
  \<^item> \<open>Plugins\<close>: the head controller and the simulator bridge (\<open>hardware_mng/builtin_plugins\<close>) on top of
    \<open>HwController\<close> and \<open>McuDrivers\<close>. The bridge forwards every command; the head never initializes.
  \<^item> \<open>BehaviorPlay\<close>: the decorator that declares a behavior and the lookups of the engine
    (\<open>plugin.py\<close>, \<open>engine.py\<close>). Playing a group of a loaded module starts exactly what it declares.
  \<^item> \<open>ConfigPath\<close>: the path of a configuration from the client through session and topic to the handlers of
    the controllers: an orderly client's configurations reach exactly their subscribers, in order.
  \<^item> \<open>Entrypoint\<close>: \<open>main\<close> of the hardware manager up to its node, from the environment and the configuration
    files to the built controllers (\<open>entrypoint.py\<close>, \<open>plugins_loader.py\<close>). What starts is complete.
  \<^item> \<open>BuiltinPlugins\<close>: the other controllers shipped with it, the modules they are in and the configurations of
    \<open>hw_configs.yaml\<close>: what each of them starts, and that the controllers on the databus share two variables.
  \<^item> \<open>Launch\<close>: the launch files and the handlers that tell the supervisor of started and ended processes
    (\<open>orchestration/launch\<close>, \<open>launch_utils.py\<close>, \<open>session_mng/launch\<close>). The end of any process but
    the supervisor makes a system that is not down fault; the end of the supervisor ends the launch.
  \<^item> \<open>StatusDisplay\<close>, \<open>DatabusSelfTest\<close>: the status tables of looper and reconciler
    (\<open>looper/display_ascii.py\<close>, \<open>get_ascii_status\<close>), and the script at the end of the databus module.
  \<^item> \<open>SdkGen\<close>: the generator of type stubs (\<open>src/tools/sdk_gen.py\<close>). Exactly the imports without a stub
    are removed, and with them the decorators of every top-level class.
  \<^item> \<open>Diagnostics\<close>, \<open>AlertDict\<close>: the diagnostic tasks of the hardware manager, which warn exactly when the
    reconciler sees a controller away from its goal, and alerts as dictionaries (\<open>alert.py\<close>), a round trip
    also when the numbers have become text.
  \<^item> This theory: the path of a motion frame from the client's encoder to a controller's queue and on
    to the packets that the simulator bridge sends.

  \<^bold>\<open>How code becomes definitions.\<close>
  Classes are records, and methods are functions that return the updated record; an exception is an
  \<open>Inl\<close> value, and what a method did before it raised stays in the returned state. Callbacks and
  coroutines are cut at the points where other code can run, and become steps of a state machine
  whose events carry what the outside answered. Threads are program counters in the state. The
  clock is an argument of the steps that read it. Published messages, log-relevant requests and
  raised alerts are logs in the state.

  \<^bold>\<open>What is atomic.\<close>
  A step of a machine is not interrupted. For the session manager, its threads, the client's two
  threads, the loop threads and the flush of the head driver, the steps are the stretches between
  the points where the code can be interleaved with observable effect, so their races are in the
  model. For the supervisor, the alert server and client, and the waits of \<open>RosAsync\<close>, a step is a whole
  callback (or the part of a coroutine between two awaits): their node spins on a
  \<open>MultiThreadedExecutor\<close>, on which callbacks of different groups can overlap, and runs in which they do
  are not modelled.

  \<^bold>\<open>What is a parameter.\<close>
  HMAC (a function with 32-byte digests), md5, pickle and json (the record \<open>codec_libs\<close>), the IEEE
  conversions (\<open>float_lib\<close>), the answers of ROS services (\<open>lc_link\<close>), the results of socket calls,
  the methods of plugins, and thread scheduling. Each law about them that a theorem needs is one of
  its hypotheses, and its witness instantiates it. Of pickle and json only the objects at hand are
  assumed to come back unchanged (\<open>faithful\<close>), since json does not keep tuples or keys that are not
  strings.

  \<^bold>\<open>Loops.\<close>
  No definition uses fuel: every recursion is over data, \<open>flatten_levels\<close> bounds its depth as the
  code does, and loops that run as long as their process are steps of a machine whose termination
  is stated for the steps that end it.

  \<^bold>\<open>Not modelled.\<close>
  The client's \<open>remote_ac_api.py\<close> does not parse. The mock client, the demonstration scripts, the package
  scripts, the firmware and the 3D simulator are left out: they are calls of other libraries,
  declarations, or in other languages.
\<close>

section \<open>From the client to the controllers\<close>

lemma udp_recv_fresh:
  assumes "peer_init u" "peer_addr (udp u) \<noteq> None" "digest32 mac" "n < 256 ^ 8" "last_received_sequence (proto u) < n"
  shows "udp_recv mac (UdpDone (auth_frame mac (psk (proto u)) n m)) u =
    (Inr m, u\<lparr>proto := (proto u)\<lparr>last_received_sequence := n\<rparr>\<rparr>)"
  using assms unpack_fresh_frame [of n "proto u" mac m]
  by (auto simp: udp_recv_def peer_recv_def require_initialized_def endpoint_recv_def require_peer_def finish_recv_def auth_frame_def)

lemma forwarded_frame:
  assumes "run_state s = Running" "forwarder s = task.Waiting" "peer_init (stream_sock s)" "peer_addr (udp (stream_sock s)) \<noteq> None"
    and "digest32 (env_mac env)" "psk p = psk (proto (stream_sock s))"
    and "last_received_sequence (proto (stream_sock s)) \<le> send_sequence p" "send_sequence p + 1 < 256 ^ 8"
    and "fst (pack (env_mac env) raw p) = Inr frame" "raw \<noteq> []"
    and "decode_motionframe_packet_into_arrays (env_float env) raw = Inr (ids, vals)"
  shows "motionframe_topic (sess_step env s (UdpWake (UdpDone frame))) = motionframe_topic s @ [(ids, vals)]"
proof -
  have "frame = auth_frame (env_mac env) (psk (proto (stream_sock s))) (send_sequence p + 1) raw"
    using assms(6,8,9) by (simp add: pack_def Let_def encode_packet_ok auth_frame_def)
  then have "udp_recv (env_mac env) (UdpDone frame) (stream_sock s) =
      (Inr raw, (stream_sock s)\<lparr>proto := (proto (stream_sock s))\<lparr>last_received_sequence := send_sequence p + 1\<rparr>\<rparr>)"
    using assms(3-8) by (simp only:) (rule udp_recv_fresh, simp_all)
  then show ?thesis using assms(1,2,10,11) by (simp add: motionframe_forwarder_def Let_def)
qed

text \<open>A float library on the reals that keeps the integers in range.\<close>

definition real_lib :: "real float_lib" where
  "real_lib = \<lparr>to_f32 = (\<lambda>x. if 0 \<le> x \<and> x < 2 ^ 32 then Some (word_of_int \<lfloor>x\<rfloor>) else None),
     cast_f32 = (\<lambda>x. word_of_int \<lfloor>x\<rfloor>), of_f32 = (\<lambda>w. real_of_int (uint w))\<rparr>"

definition motion_env :: "(bytes, real) sess_env" where
  "motion_env = \<lparr>env_mac = sum_mac, env_libs = plain_libs, env_float = real_lib\<rparr>"

lemma real_lib_stable: "stable_single real_lib w"
  by (simp only: stable_single_def real_lib_def float_lib.simps floor_of_int word_of_int_uint)

lemma motion_env_sel [simp]: "env_mac motion_env = sum_mac" "env_float motion_env = real_lib"
  by (simp_all add: motion_env_def)

text \<open>The value that remains of a double after a trip through single precision.\<close>

definition single :: "'f float_lib \<Rightarrow> 'f \<Rightarrow> 'f" where
  "single fl v = of_f32 fl (the (to_f32 fl v))"

definition powered :: "SimController \<Rightarrow> SimController" where
  "powered b = b\<lparr>sim_base := (sim_base b)\<lparr>ctrl_initialized := True\<rparr>\<rparr>"

lemma motion_reaches_queue:
  fixes env :: "('o, real) sess_env"
  assumes "wire_all cs wiring_init = Inr w" and "\<forall>c \<in> set cs. finite (command_group c)" and "(i, c) \<in> set (w_pairs w)"
    and "encode_motionframe_packet (env_float env) motionframe = Inr raw" and "raw \<noteq> []"
    and "list_all (stable_single (env_float env)) (wire_values raw)"
    and "run_state s = Running" and "forwarder s = task.Waiting"
    and "peer_init (stream_sock s)" and "peer_addr (udp (stream_sock s)) \<noteq> None"
    and "digest32 (env_mac env)" and "psk p = psk (proto (stream_sock s))"
    and "last_received_sequence (proto (stream_sock s)) \<le> send_sequence p" and "send_sequence p + 1 < 256 ^ 8"
    and "fst (pack (env_mac env) raw p) = Inr frame"
  shows "\<exists>ids vals. motionframe_topic (sess_step env s (UdpWake (UdpDone frame))) = motionframe_topic s @ [(ids, vals)]
    \<and> dict_get (hm_queues (motionframe_callback (map uint ids) (map (of_f32 (env_float env)) vals)
          ((HwManager_init w)\<lparr>hm_active := True\<rparr>))) i =
        Some (map (\<lambda>(k, v). \<lparr>mc_id = k, mc_value = of_f32 (env_float env) (the (to_f32 (env_float env) v))\<rparr>)
          (filter (\<lambda>(k, v). k \<in> command_group c) motionframe))"
proof -
  let ?fl = "env_float env"
  obtain ids vals where dec: "decode_motionframe_packet_into_arrays ?fl raw = Inr (ids, vals)"
    and agree: "decode_motionframe_packet ?fl 0 raw = Inr (zip (map uint ids) (map (of_f32 ?fl) vals))"
    using arrays_agree [OF assms(6), of 0] by (auto split: sum.splits)
  have "zip (map uint ids) (map (of_f32 ?fl) vals) = map (\<lambda>(k, v). (k, of_f32 ?fl (the (to_f32 ?fl v)))) motionframe"
    using roundtrip_records [OF assms(4), of "[]" 0] agree by (simp add: packer_size_def)
  then have "dict_get (hm_queues (motionframe_callback (map uint ids) (map (of_f32 ?fl) vals) ((HwManager_init w)\<lparr>hm_active := True\<rparr>))) i =
      Some (map (\<lambda>(k, v). \<lparr>mc_id = k, mc_value = v\<rparr>)
        (filter (\<lambda>(k, v). k \<in> command_group c) (map (\<lambda>(k, v). (k, of_f32 ?fl (the (to_f32 ?fl v)))) motionframe)))"
    using wired_queue [OF assms(1-3), of "map uint ids" "map (of_f32 ?fl) vals"] by simp
  moreover have "map (\<lambda>(k, v). \<lparr>mc_id = k, mc_value = v\<rparr>)
        (filter (\<lambda>(k, v). k \<in> command_group c) (map (\<lambda>(k, v). (k, g v)) xs)) =
      map (\<lambda>(k, v). \<lparr>mc_id = k, mc_value = g v\<rparr>) (filter (\<lambda>(k, v). k \<in> command_group c) xs)" for g and xs :: "(int \<times> real) list"
    by (induction xs) auto
  ultimately show ?thesis using forwarded_frame [OF assms(7-15,5) dec] by (intro exI [of _ ids] exI [of _ vals]) simp
qed

text \<open>
  C3. A client's motion reaches the motors: a motion frame that a client encodes, signs and sends
  over UDP is published by the running session, and the hardware manager that receives the
  published message puts into the queue of each controller exactly the commands of the client's
  frame that the controller subscribed to, in order, each value rounded to single precision.
\<close>

theorem client_motion_reaches_controllers:
  fixes env :: "('o, real) sess_env"
  assumes "wire_all cs wiring_init = Inr w" and "\<forall>c \<in> set cs. finite (command_group c)" and "(i, c) \<in> set (w_pairs w)"
    and "encode_motionframe_packet (env_float env) motionframe = Inr raw" and "raw \<noteq> []"
    and "list_all (stable_single (env_float env)) (wire_values raw)"
    and "run_state s = Running" and "forwarder s = task.Waiting"
    and "peer_init (stream_sock s)" and "peer_addr (udp (stream_sock s)) \<noteq> None"
    and "digest32 (env_mac env)" and "psk p = psk (proto (stream_sock s))"
    and "last_received_sequence (proto (stream_sock s)) \<le> send_sequence p" and "send_sequence p + 1 < 256 ^ 8"
    and "fst (pack (env_mac env) raw p) = Inr frame"
  shows "\<exists>ids vals. motionframe_topic (sess_step env s (UdpWake (UdpDone frame))) = motionframe_topic s @ [(ids, vals)]
    \<and> dict_get (hm_queues (motionframe_callback (map uint ids) (map (of_f32 (env_float env)) vals)
          ((HwManager_init w)\<lparr>hm_active := True\<rparr>))) i =
        Some (map (\<lambda>(k, v). \<lparr>mc_id = k, mc_value = of_f32 (env_float env) (the (to_f32 (env_float env) v))\<rparr>)
          (filter (\<lambda>(k, v). k \<in> command_group c) motionframe))"
  by (rule motion_reaches_queue [OF assms])

theorem client_motion_reaches_controllers_witness:
  "\<exists>frame ids vals w i. motionframe_topic (sess_step motion_env sample_session (UdpWake (UdpDone frame))) = [(ids, vals)]
    \<and> dict_get (hm_queues (motionframe_callback (map uint ids) (map (of_f32 real_lib) vals) ((HwManager_init w)\<lparr>hm_active := True\<rparr>))) i =
        Some [\<lparr>mc_id = 1, mc_value = 4\<rparr>]"
proof -
  obtain w where w: "wire_all [head_controller] wiring_init = Inr w" "(1, head_controller) \<in> set (w_pairs w)"
    by (simp add: wire_controller_def wiring_init_def add_loop_def get_new_id_def LoopSupervisor_init_def
        head_controller_def Let_def)
  define mf :: "(int \<times> real) list" where "mf = [(1, 4), (7, 3)]"
  define raw where "raw = concat (map (record_bytes real_lib) mf)"
  have enc: "encode_motionframe_packet real_lib mf = Inr raw"
    unfolding encode_eq by (simp add: raw_def mf_def packable_def real_lib_def)
  have "length raw = 16" by (simp add: raw_def mf_def packer_size_def)
  then have ne: "raw \<noteq> []" by auto
  let ?p = "SecureWireProtocol_init [1]" and ?c = "head_controller" and ?s = sample_session
  obtain frame where fr: "fst (pack sum_mac raw ?p) = Inr frame"
    by (simp add: pack_def Let_def encode_packet_ok SecureWireProtocol_init_def)
  have "\<exists>ids vals. motionframe_topic (sess_step motion_env ?s (UdpWake (UdpDone frame))) = motionframe_topic ?s @ [(ids, vals)]
    \<and> dict_get (hm_queues (motionframe_callback (map uint ids) (map (of_f32 (env_float motion_env)) vals)
          ((HwManager_init w)\<lparr>hm_active := True\<rparr>))) 1 =
        Some (map (\<lambda>(k, v). \<lparr>mc_id = k, mc_value = of_f32 (env_float motion_env) (the (to_f32 (env_float motion_env) v))\<rparr>)
          (filter (\<lambda>(k, v). k \<in> command_group ?c) mf))"
    using enc ne fr
    by (intro client_motion_reaches_controllers [OF w(1) _ w(2), where raw = raw and p = ?p])
      (simp_all add: real_lib_stable list_all_iff sample_session_def sample_udp_def SecureWireProtocol_init_def head_controller_def)
  moreover have "map (\<lambda>(k, v). \<lparr>mc_id = k, mc_value = of_f32 real_lib (the (to_f32 real_lib v))\<rparr>)
      (filter (\<lambda>(k, v). k \<in> command_group ?c) mf) = [\<lparr>mc_id = 1, mc_value = 4\<rparr>]"
    by (simp add: mf_def head_controller_def real_lib_def)
  moreover have "motionframe_topic ?s = []" by (simp add: sample_session_def)
  ultimately show ?thesis by (simp only: motion_env_sel append_Nil) blast
qed

text \<open>
  C4. From the client to the simulator: a motion frame that a client encodes, signs and sends is published by
  the session and dispatched by the hardware manager, and the next job of an initialized simulator bridge sends the
  simulator one packet for each of the frame's commands with an id below 100, in order, from which it reads the
  id and the value rounded to single precision, and the bridge's loop goes on.
\<close>

theorem client_motion_reaches_simulator:
  fixes env :: "('o, real) sess_env"
  assumes "wire_all cs wiring_init = Inr w" and "\<forall>c \<in> set cs. finite (command_group c)" and "(i, sim_base b) \<in> set (w_pairs w)"
    and "SimController_init name = Inr b0" and "command_group (sim_base b) = command_group (sim_base b0)"
    and "encode_motionframe_packet (env_float env) motionframe = Inr raw" and "raw \<noteq> []"
    and "list_all (stable_single (env_float env)) (wire_values raw)"
    and "\<forall>(k, v) \<in> set motionframe. to_f32 (env_float env) (single (env_float env) v) = to_f32 (env_float env) v"
    and "run_state s = Running" and "forwarder s = task.Waiting"
    and "peer_init (stream_sock s)" and "peer_addr (udp (stream_sock s)) \<noteq> None"
    and "digest32 (env_mac env)" and "psk p = psk (proto (stream_sock s))"
    and "last_received_sequence (proto (stream_sock s)) \<le> send_sequence p" and "send_sequence p + 1 < 256 ^ 8"
    and "fst (pack (env_mac env) raw p) = Inr frame" and "\<forall>d. length d = 6 \<longrightarrow> sendto d"
  shows "\<exists>ids vals queue packets.
    motionframe_topic (sess_step env s (UdpWake (UdpDone frame))) = motionframe_topic s @ [(ids, vals)]
    \<and> dict_get (hm_queues (motionframe_callback (map uint ids) (map (of_f32 (env_float env)) vals)
          ((HwManager_init w)\<lparr>hm_active := True\<rparr>))) i = Some queue
    \<and> sim_sent (snd (sim_job (env_float env) sendto queue (powered b))) = sim_sent b @ packets
    \<and> map (decode_motion (env_float env)) packets =
        map (\<lambda>(k, v). (k, single (env_float env) v)) (filter (\<lambda>(k, v). 0 \<le> k \<and> k < 100) motionframe)
    \<and> fl_request (fst (sim_job (env_float env) sendto queue (powered b))) = None"
proof -
  let ?fl = "env_float env" and ?b = "powered b"
  let ?q = "map (\<lambda>(k, v). \<lparr>mc_id = k, mc_value = single ?fl v\<rparr>) (filter (\<lambda>(k, v). k \<in> command_group (sim_base b)) motionframe)"
  from motion_reaches_queue [OF assms(1-3,6-8,10-18)] obtain ids vals where path:
    "motionframe_topic (sess_step env s (UdpWake (UdpDone frame))) = motionframe_topic s @ [(ids, vals)]"
    "dict_get (hm_queues (motionframe_callback (map uint ids) (map (of_f32 ?fl) vals) ((HwManager_init w)\<lparr>hm_active := True\<rparr>))) i = Some ?q"
    unfolding single_def by blast
  have ids: "command_group (sim_base b) = int ` {0..<100}" using sim_command_group(1) [OF assms(4)] assms(5) by simp
  have kept: "to_f32 ?fl (single ?fl v) = to_f32 ?fl v" "to_f32 ?fl v \<noteq> None" if "(k, v) \<in> set motionframe" for k v
    using that assms(6,9) by (auto simp: encode_eq packable_def list_all_iff)
  then have "\<forall>c \<in> set ?q. mc_id c \<in> command_group (sim_base ?b) \<and> to_f32 ?fl (mc_value c) \<noteq> None" by (auto simp: powered_def)
  from sim_gets_every_command_lemma [OF assms(4) _ _ this assms(19)] obtain packets where
    packets: "sim_sent (snd (sim_job ?fl sendto ?q ?b)) = sim_sent ?b @ packets"
    "map (decode_motion ?fl) packets = map (\<lambda>c. (mc_id c, of_f32 ?fl (the (to_f32 ?fl (mc_value c))))) ?q"
    "fl_request (fst (sim_job ?fl sendto ?q ?b)) = None"
    using assms(5) by (auto simp: powered_def)
  have "single ?fl (single ?fl v) = single ?fl v" if "(k, v) \<in> set motionframe" for k v
    using kept(1) [OF that] by (metis single_def)
  then have "map (\<lambda>c. (mc_id c, of_f32 ?fl (the (to_f32 ?fl (mc_value c))))) ?q =
      map (\<lambda>(k, v). (k, single ?fl v)) (filter (\<lambda>(k, v). 0 \<le> k \<and> k < 100) motionframe)"
    by (auto simp: ids single_def [symmetric] image_int_atLeastLessThan)
  with path packets show ?thesis by (intro exI [of _ ids] exI [of _ vals] exI [of _ ?q] exI [of _ packets]) (simp add: powered_def)
qed

theorem client_motion_reaches_simulator_witness:
  "\<exists>b frame ids vals w i queue packets. SimController_init ''sim'' = Inr b
    \<and> motionframe_topic (sess_step motion_env sample_session (UdpWake (UdpDone frame))) = [(ids, vals)]
    \<and> dict_get (hm_queues (motionframe_callback (map uint ids) (map (of_f32 real_lib) vals) ((HwManager_init w)\<lparr>hm_active := True\<rparr>))) i = Some queue
    \<and> sim_sent (snd (sim_job real_lib (\<lambda>d. length d < 100) queue (powered b))) = sim_sent b @ packets
    \<and> map (decode_motion real_lib) packets = [(1, 4)]"
proof -
  obtain b where b: "SimController_init ''sim'' = Inr b" using sim_init_ok by blast
  obtain w i where w: "wire_all [sim_base b] wiring_init = Inr w" "(i, sim_base b) \<in> set (w_pairs w)"
    by (simp add: wire_controller_def wiring_init_def add_loop_def get_new_id_def LoopSupervisor_init_def sim_command_group(2) [OF b] Let_def)
  define mf :: "(int \<times> real) list" where "mf = [(1, 4), (700, 3)]"
  define raw where "raw = concat (map (record_bytes real_lib) mf)"
  have enc: "encode_motionframe_packet real_lib mf = Inr raw"
    unfolding encode_eq by (simp add: raw_def mf_def packable_def real_lib_def)
  have "length raw = 16" by (simp add: raw_def mf_def packer_size_def)
  then have ne: "raw \<noteq> []" by auto
  let ?p = "SecureWireProtocol_init [1]" and ?s = sample_session
  obtain frame where fr: "fst (pack sum_mac raw ?p) = Inr frame"
    by (simp add: pack_def Let_def encode_packet_ok SecureWireProtocol_init_def)
  have fin: "finite (command_group (sim_base b))" by (simp add: sim_command_group(1) [OF b])
  have kept: "\<forall>(k, v) \<in> set mf. to_f32 real_lib (single real_lib v) = to_f32 real_lib v"
    by (simp add: mf_def single_def real_lib_def)
  have start: "run_state ?s = Running" "forwarder ?s = task.Waiting" "peer_init (stream_sock ?s)" "peer_addr (udp (stream_sock ?s)) \<noteq> None"
    "psk ?p = psk (proto (stream_sock ?s))" "last_received_sequence (proto (stream_sock ?s)) \<le> send_sequence ?p" "send_sequence ?p + 1 < 256 ^ 8"
    "motionframe_topic ?s = []"
    by (simp_all add: sample_session_def sample_udp_def SecureWireProtocol_init_def)
  from client_motion_reaches_simulator [OF w(1) _ w(2) b refl, where env = motion_env and motionframe = mf and raw = raw and s = ?s and p = ?p
      and frame = frame and sendto = "\<lambda>d. length d < 100"] enc ne fr kept start fin
  obtain ids vals queue packets where path:
    "motionframe_topic (sess_step motion_env ?s (UdpWake (UdpDone frame))) = [(ids, vals)]"
    "dict_get (hm_queues (motionframe_callback (map uint ids) (map (of_f32 real_lib) vals) ((HwManager_init w)\<lparr>hm_active := True\<rparr>))) i = Some queue"
    "sim_sent (snd (sim_job real_lib (\<lambda>d. length d < 100) queue (powered b))) = sim_sent b @ packets"
    "map (decode_motion real_lib) packets = map (\<lambda>(k, v). (k, single real_lib v)) (filter (\<lambda>(k, v). 0 \<le> k \<and> k < 100) mf)"
    by (auto simp: real_lib_stable list_all_iff simp del: sess_step.simps)
  have "map (\<lambda>(k, v). (k, single real_lib v)) (filter (\<lambda>(k, v). 0 \<le> k \<and> k < 100) mf) = [(1, 4)]"
    by (simp add: mf_def single_def real_lib_def)
  with path(4) have "map (decode_motion real_lib) packets = [(1, 4)]" by (rule trans)
  with b path(1-3) show ?thesis
    by (intro exI [of _ b] exI [of _ frame] exI [of _ ids] exI [of _ vals] exI [of _ w] exI [of _ i] exI [of _ queue] exI [of _ packets] conjI)
qed

end
